(* ===== verification/Prelude.thy ===== *)
theory Prelude
  imports Main "HOL-Library.AList" "HOL-Library.Char_ord" "HOL-Library.List_Lexorder"
begin

text \<open>
  What the components of the development share: the property types of JSON objects
  (a property of an object may be missing, null, or hold a value), JavaScript's stable
  \<^verbatim>\<open>Array.prototype.sort\<close> under a comparator, first-match searches, de-duplication
  by key, and the ``upsert into a list by id'' that every live list of the dashboard uses.
  The interfaces are stated as locales: \<open>comparator\<close> for the comparators handed to
  \<^verbatim>\<open>sort\<close>, and \<open>keyed_upsert\<close> for the upserts.
\<close>

named_theorems js_simps \<open>defining equations of the small JavaScript operators\<close>

section \<open>Properties of JSON objects\<close>

text \<open>
  An optional nullable property \<^verbatim>\<open>p?: T | null\<close>. A required nullable property
  \<^verbatim>\<open>p: T | null\<close> and an optional one \<^verbatim>\<open>p?: T\<close> are plain options.
\<close>

datatype 'a optional = Missing | Null | Val 'a

text \<open>The operator \<^verbatim>\<open>??\<close> against a default, and against \<^verbatim>\<open>null\<close>.\<close>

fun coalesce :: "'a optional \<Rightarrow> 'a \<Rightarrow> 'a" where
  "coalesce (Val v) d = v"
| "coalesce _ d = d"

fun or_null :: "'a optional \<Rightarrow> 'a option" where
  "or_null (Val v) = Some v"
| "or_null _ = None"

fun of_nullable :: "'a option \<Rightarrow> 'a optional" where
  "of_nullable None = Null"
| "of_nullable (Some v) = Val v"

definition coalesce_opt :: "'a option \<Rightarrow> 'a \<Rightarrow> 'a" where
  [js_simps]: "coalesce_opt x d = (case x of None \<Rightarrow> d | Some v \<Rightarrow> v)"

text \<open>One property of \<^verbatim>\<open>{...old, ...new}\<close>: a missing property of the second object keeps
  the first one's, a property that is present (null included) replaces it.\<close>

fun spread :: "'a optional \<Rightarrow> 'a optional \<Rightarrow> 'a optional" where
  "spread old Missing = old"
| "spread old new = new"

fun spread_opt :: "'a option \<Rightarrow> 'a option \<Rightarrow> 'a option" where
  "spread_opt old None = old"
| "spread_opt old (Some v) = Some v"

lemma or_null_of_nullable [simp]: "or_null (of_nullable x) = x"
  by (cases x) auto

lemma spread_of_nullable [simp]: "spread old (of_nullable x) = of_nullable x"
  by (cases x) auto

lemma spread_assoc: "spread (spread a b) c = spread a (spread b c)"
  by (cases c) auto

lemma coalesce_or_null: "coalesce x d = (case or_null x of None \<Rightarrow> d | Some v \<Rightarrow> v)"
  by (cases x) auto

section \<open>First match, index of the first match\<close>

fun find_index :: "('a \<Rightarrow> bool) \<Rightarrow> 'a list \<Rightarrow> nat option" where
  "find_index P [] = None"
| "find_index P (x # xs) = (if P x then Some 0 else map_option Suc (find_index P xs))"

lemma find_index_None: "find_index P xs = None \<longleftrightarrow> (\<forall>x \<in> set xs. \<not> P x)"
  by (induction xs) auto

lemma find_index_Some:
  "find_index P xs = Some i \<Longrightarrow> i < length xs \<and> P (xs ! i) \<and> (\<forall>j < i. \<not> P (xs ! j))"
proof (induction xs arbitrary: i)
  case Nil
  then show ?case by simp
next
  case (Cons x xs)
  show ?case
  proof (cases "P x")
    case True
    with Cons.prems show ?thesis by simp
  next
    case False
    with Cons.prems obtain j where j: "find_index P xs = Some j" "i = Suc j" by auto
    with Cons.IH [OF j(1)] False show ?thesis by (auto simp: less_Suc_eq_0_disj)
  qed
qed

lemma find_eq_find_index: "List.find P xs = map_option ((!) xs) (find_index P xs)"
  by (induction xs) (auto simp: option.map_comp comp_def)

lemma set_update_subset: "set (AList.update k v xs) \<subseteq> insert (k, v) (set xs)"
  by (induction xs) auto

section \<open>De-duplication: \<^verbatim>\<open>[...new Set(xs)]\<close>\<close>

text \<open>A JavaScript \<^verbatim>\<open>Set\<close> iterates in insertion order: the first occurrence of each value
  is kept.\<close>

fun dedup_from :: "'a list \<Rightarrow> 'a list \<Rightarrow> 'a list" where
  "dedup_from seen [] = []"
| "dedup_from seen (x # xs) =
     (if x \<in> set seen then dedup_from seen xs else x # dedup_from (x # seen) xs)"

definition dedup :: "'a list \<Rightarrow> 'a list" where
  "dedup xs = dedup_from [] xs"

lemma set_dedup_from: "set (dedup_from seen xs) = set xs - set seen"
  by (induction seen xs rule: dedup_from.induct) auto

lemma distinct_dedup_from: "distinct (dedup_from seen xs)"
  by (induction seen xs rule: dedup_from.induct) (auto simp: set_dedup_from)

lemma set_dedup [simp]: "set (dedup xs) = set xs"
  by (simp add: dedup_def set_dedup_from)

lemma distinct_dedup [simp]: "distinct (dedup xs)"
  by (simp add: dedup_def distinct_dedup_from)

section \<open>\<^verbatim>\<open>Array.prototype.sort\<close>\<close>

text \<open>
  The language fixes the result for a consistent comparator: a stable sort. The model
  inserts the elements from the right, each before the first element that it does not
  exceed, which is the stable order.
\<close>

fun sort_ins :: "('a \<Rightarrow> 'a \<Rightarrow> int) \<Rightarrow> 'a \<Rightarrow> 'a list \<Rightarrow> 'a list" where
  "sort_ins cmp x [] = [x]"
| "sort_ins cmp x (y # ys) = (if cmp x y \<le> 0 then x # y # ys else y # sort_ins cmp x ys)"

definition js_sort :: "('a \<Rightarrow> 'a \<Rightarrow> int) \<Rightarrow> 'a list \<Rightarrow> 'a list" where
  "js_sort cmp xs = foldr (sort_ins cmp) xs []"

lemma js_sort_Nil [simp]: "js_sort cmp [] = []"
  by (simp add: js_sort_def)

lemma js_sort_Cons [simp]: "js_sort cmp (x # xs) = sort_ins cmp x (js_sort cmp xs)"
  by (simp add: js_sort_def)

lemma set_sort_ins [simp]: "set (sort_ins cmp x xs) = insert x (set xs)"
  by (induction xs) auto

lemma set_js_sort [simp]: "set (js_sort cmp xs) = set xs"
  by (induction xs) auto

lemma length_sort_ins [simp]: "length (sort_ins cmp x xs) = Suc (length xs)"
  by (induction xs) auto

lemma length_js_sort [simp]: "length (js_sort cmp xs) = length xs"
  by (induction xs) auto

lemma distinct_map_sort_ins [simp]:
  "distinct (map f (sort_ins cmp x xs)) \<longleftrightarrow> f x \<notin> f ` set xs \<and> distinct (map f xs)"
  by (induction xs) auto

lemma distinct_map_js_sort [simp]: "distinct (map f (js_sort cmp xs)) = distinct (map f xs)"
  by (induction xs) auto

lemma filter_sort_ins_notin: "\<not> P x \<Longrightarrow> filter P (sort_ins cmp x xs) = filter P xs"
  by (induction xs) auto

text \<open>What the callers of \<^verbatim>\<open>sort\<close> promise about their comparator.\<close>

locale comparator =
  fixes cmp :: "'a \<Rightarrow> 'a \<Rightarrow> int"
  assumes total: "0 < cmp x y \<Longrightarrow> cmp y x \<le> 0"
    and trans: "cmp x y \<le> 0 \<Longrightarrow> cmp y z \<le> 0 \<Longrightarrow> cmp x z \<le> 0"
begin

lemma sorted_ins:
  "sorted_wrt (\<lambda>a b. cmp a b \<le> 0) xs \<Longrightarrow> sorted_wrt (\<lambda>a b. cmp a b \<le> 0) (sort_ins cmp x xs)"
proof (induction xs)
  case Nil
  then show ?case by simp
next
  case (Cons y ys)
  show ?case
  proof (cases "cmp x y \<le> 0")
    case True
    with Cons.prems show ?thesis by (auto intro: trans)
  next
    case False
    with Cons.prems have "cmp y x \<le> 0" by (intro total) simp
    with False Cons show ?thesis by auto
  qed
qed

lemma sorted_sort: "sorted_wrt (\<lambda>a b. cmp a b \<le> 0) (js_sort cmp xs)"
  by (induction xs) (auto intro: sorted_ins)

lemma sort_ins_sorted:
  "sorted_wrt (\<lambda>a b. cmp a b \<le> 0) (x # xs) \<Longrightarrow> sort_ins cmp x xs = x # xs"
  by (cases xs) auto

lemma sort_sorted: "sorted_wrt (\<lambda>a b. cmp a b \<le> 0) xs \<Longrightarrow> js_sort cmp xs = xs"
  by (induction xs) (auto simp: sort_ins_sorted)

lemma sort_idem: "js_sort cmp (js_sort cmp xs) = js_sort cmp xs"
  by (rule sort_sorted) (rule sorted_sort)

end

text \<open>Comparators that subtract integer keys, ascending and descending.\<close>

definition by_key :: "('a \<Rightarrow> int) \<Rightarrow> 'a \<Rightarrow> 'a \<Rightarrow> int" where
  "by_key f a b = f a - f b"

definition by_key_desc :: "('a \<Rightarrow> int) \<Rightarrow> 'a \<Rightarrow> 'a \<Rightarrow> int" where
  "by_key_desc f a b = f b - f a"

interpretation by_key: comparator "by_key f" for f
  by unfold_locales (auto simp: by_key_def)

interpretation by_key_desc: comparator "by_key_desc f" for f
  by unfold_locales (auto simp: by_key_desc_def)

text \<open>A collation: a comparator that tells different elements apart, so that the sorted
  order of a set of elements is unique.\<close>

locale collation = comparator +
  assumes antisym: "cmp x y \<le> 0 \<Longrightarrow> cmp y x \<le> 0 \<Longrightarrow> x = y"
begin

lemma sorted_unique:
  "sorted_wrt (\<lambda>a b. cmp a b \<le> 0) xs \<Longrightarrow> sorted_wrt (\<lambda>a b. cmp a b \<le> 0) ys \<Longrightarrow>
     distinct xs \<Longrightarrow> distinct ys \<Longrightarrow> set xs = set ys \<Longrightarrow> xs = ys"
proof (induction xs arbitrary: ys)
  case Nil
  then show ?case by simp
next
  case (Cons x xs)
  then obtain y zs where ys: "ys = y # zs" by (cases ys) auto
  have "x = y"
  proof (rule ccontr)
    assume "x \<noteq> y"
    with Cons.prems ys have "x \<in> set zs" "y \<in> set xs" by auto
    with Cons.prems ys have "cmp x y \<le> 0" "cmp y x \<le> 0" by auto
    then have "x = y" by (rule antisym)
    with \<open>x \<noteq> y\<close> show False by simp
  qed
  moreover have "xs = zs"
    using Cons.prems ys calculation by (intro Cons.IH) auto
  ultimately show ?case using ys by simp
qed

lemma sort_perm:
  assumes "set xs = set ys" and "distinct xs" and "distinct ys"
  shows "js_sort cmp xs = js_sort cmp ys"
  using assms distinct_map_js_sort [of "\<lambda>x. x" cmp]
  by (intro sorted_unique sorted_sort) auto

end

text \<open>The order of \<^verbatim>\<open>sort()\<close> without a comparator: strings by their code units.\<close>

definition str_cmp :: "string \<Rightarrow> string \<Rightarrow> int" where
  "str_cmp a b = (if a < b then - 1 else if b < a then 1 else 0)"

interpretation str_cmp: collation str_cmp
  by unfold_locales (auto simp: str_cmp_def split: if_splits)

section \<open>Upserts by id\<close>

text \<open>
  The live lists of the dashboard are updated by id: a known id is merged in place
  (\<^verbatim>\<open>next[index] = merge(next[index], item)\<close>), an unknown one is put in front.
\<close>

definition upsert :: "('a \<Rightarrow> 'k) \<Rightarrow> ('a \<Rightarrow> 'b \<Rightarrow> 'a) \<Rightarrow> ('b \<Rightarrow> 'a) \<Rightarrow> 'k \<Rightarrow> 'b \<Rightarrow> 'a list \<Rightarrow> 'a list" where
  "upsert key mrg mk k new xs =
     (case find_index (\<lambda>x. key x = k) xs of
        None \<Rightarrow> mk new # xs
      | Some i \<Rightarrow> xs[i := mrg (xs ! i) new])"

text \<open>The contract of a merge and a creation: they keep the id they are called with.\<close>

locale keyed_upsert =
  fixes key :: "'a \<Rightarrow> 'k" and mrg :: "'a \<Rightarrow> 'b \<Rightarrow> 'a" and mk :: "'b \<Rightarrow> 'a" and bkey :: "'b \<Rightarrow> 'k"
  assumes key_mk: "key (mk b) = bkey b"
    and key_mrg: "key a = bkey b \<Longrightarrow> key (mrg a b) = bkey b"
begin

abbreviation put :: "'b \<Rightarrow> 'a list \<Rightarrow> 'a list" where
  "put b xs \<equiv> upsert key mrg mk (bkey b) b xs"

lemma keys_put:
  "map key (put b xs) = (if bkey b \<in> key ` set xs then map key xs else bkey b # map key xs)"
proof (cases "find_index (\<lambda>x. key x = bkey b) xs")
  case None
  then have "bkey b \<notin> key ` set xs" by (auto simp: find_index_None)
  with None show ?thesis by (simp add: upsert_def key_mk)
next
  case (Some i)
  then have i: "i < length xs" "key (xs ! i) = bkey b" by (auto dest: find_index_Some)
  then have "bkey b \<in> key ` set xs" by (metis image_eqI nth_mem)
  moreover have "map key (xs[i := mrg (xs ! i) b]) = map key xs"
    using i by (simp add: map_update key_mrg) (metis list_update_id nth_map)
  ultimately show ?thesis using Some by (simp add: upsert_def)
qed

lemma distinct_put: "distinct (map key xs) \<Longrightarrow> distinct (map key (put b xs))"
  by (auto simp: keys_put)

lemma put_member: "bkey b \<in> key ` set (put b xs)"
proof -
  have "set (map key (put b xs)) = insert (bkey b) (key ` set xs)"
    by (auto simp: keys_put)
  then show ?thesis by simp
qed

lemma put_other:
  assumes "key x \<noteq> bkey b"
  shows "x \<in> set (put b xs) \<longleftrightarrow> x \<in> set xs"
proof (cases "find_index (\<lambda>y. key y = bkey b) xs")
  case None
  with assms show ?thesis by (auto simp: upsert_def key_mk)
next
  case (Some i)
  then have i: "i < length xs" "key (xs ! i) = bkey b" by (auto dest: find_index_Some)
  have "key (mrg (xs ! i) b) = bkey b" by (rule key_mrg) (rule i)
  with assms i Some show ?thesis
    by (auto simp: upsert_def in_set_conv_nth nth_list_update split: if_splits)
qed

lemma find_put_other:
  assumes "k \<noteq> bkey b"
  shows "List.find (\<lambda>x. key x = k) (put b xs) = List.find (\<lambda>x. key x = k) xs"
proof (cases "find_index (\<lambda>y. key y = bkey b) xs")
  case None
  with assms show ?thesis by (simp add: upsert_def key_mk)
next
  case (Some i)
  have "List.find (\<lambda>x. key x = k) (ys[i := v]) = List.find (\<lambda>x. key x = k) ys"
    if "i < length ys" "key (ys ! i) \<noteq> k" "key v \<noteq> k" for ys i v
    using that by (induction ys arbitrary: i) (auto split: nat.splits)
  moreover have "i < length xs" "key (xs ! i) = bkey b" "key (mrg (xs ! i) b) = bkey b"
    using Some by (auto dest: find_index_Some intro!: key_mrg)
  ultimately show ?thesis using assms Some by (auto simp: upsert_def)
qed

lemma find_put_same:
  "List.find (\<lambda>x. key x = bkey b) (put b xs) =
     Some (case List.find (\<lambda>x. key x = bkey b) xs of None \<Rightarrow> mk b | Some a \<Rightarrow> mrg a b)"
proof (induction xs)
  case Nil
  then show ?case by (simp add: upsert_def key_mk)
next
  case (Cons x xs)
  then show ?case
    by (auto simp: upsert_def key_mk key_mrg split: option.splits)
qed

end

section \<open>Association lists\<close>

text \<open>An object that serves as a dictionary is an association list in insertion order.\<close>

lemma alist_update_in: "kv \<in> set (AList.update k v m) \<Longrightarrow> kv = (k, v) \<or> kv \<in> set m"
  by (induction m) (auto split: if_splits)

lemma alist_update_new: "k \<notin> fst ` set m \<Longrightarrow> AList.update k v m = m @ [(k, v)]"
  by (induction m) auto

lemma alist_update_same: "map_of m k = Some v \<Longrightarrow> AList.update k v m = m"
  by (induction m) (auto split: if_splits)

end
