(* ===== verification/JsString.thy ===== *)
theory JsString
  imports Prelude
begin

text \<open>
  The string operations of the language that the dashboard uses. A JavaScript string is a
  list of characters, one per UTF-16 code unit, for the code units up to U+00FF; the few
  literals of the source beyond that range (the em dash, the ellipsis, the middle dot and the
  gear emoji) are named constants. \<^verbatim>\<open>trim\<close> removes the white space and line terminators
  of that range; the case mappings move the ASCII letters. Comparison of strings by
  \<^verbatim>\<open>sort()\<close> is by code unit, the order \<open>List_Lexorder\<close> gives to lists of characters.
\<close>

section \<open>Characters\<close>

abbreviation code :: "char \<Rightarrow> nat" where
  "code c \<equiv> of_char c"

definition is_ws :: "char \<Rightarrow> bool" where
  "is_ws c \<longleftrightarrow> code c \<in> {9, 10, 11, 12, 13, 32, 160}"

definition is_digit :: "char \<Rightarrow> bool" where
  "is_digit c \<longleftrightarrow> 48 \<le> code c \<and> code c \<le> 57"

definition is_upper :: "char \<Rightarrow> bool" where
  "is_upper c \<longleftrightarrow> 65 \<le> code c \<and> code c \<le> 90"

definition is_lower :: "char \<Rightarrow> bool" where
  "is_lower c \<longleftrightarrow> 97 \<le> code c \<and> code c \<le> 122"

definition is_alnum :: "char \<Rightarrow> bool" where
  "is_alnum c \<longleftrightarrow> is_digit c \<or> is_upper c \<or> is_lower c"

definition lower_char :: "char \<Rightarrow> char" where
  "lower_char c = (if is_upper c then char_of (code c + 32) else c)"

definition upper_char :: "char \<Rightarrow> char" where
  "upper_char c = (if is_lower c then char_of (code c - 32) else c)"

definition digit_val :: "char \<Rightarrow> nat" where
  "digit_val c = code c - 48"

definition digit_char :: "nat \<Rightarrow> char" where
  "digit_char n = char_of (48 + n)"

definition newline :: char where "newline = char_of (10::nat)"
definition carriage :: char where "carriage = char_of (13::nat)"

text \<open>The literals outside the modelled range, as one character each.\<close>

definition em_dash :: string where "em_dash = [char_of (151::nat)]"
definition ellipsis :: string where "ellipsis = [char_of (133::nat)]"
definition middle_dot :: string where "middle_dot = [char_of (183::nat)]"
definition gear_emoji :: string where "gear_emoji = [char_of (149::nat)]"

lemma code_char_of [simp]: "n < 256 \<Longrightarrow> code (char_of n) = n" for n :: nat
  by simp

lemma code_lower_char: "code (lower_char c) = (if is_upper c then code c + 32 else code c)"
  by (auto simp: lower_char_def is_upper_def)

lemma lower_char_idem [simp]: "lower_char (lower_char c) = lower_char c"
  using code_lower_char [of c]
  by (auto simp: lower_char_def is_upper_def)

lemma is_ws_lower_char [simp]: "is_ws (lower_char c) = is_ws c"
  by (auto simp: is_ws_def code_lower_char is_upper_def)

section \<open>\<^verbatim>\<open>trim\<close>, case mappings\<close>

definition trim :: "string \<Rightarrow> string" where
  "trim s = rev (dropWhile is_ws (rev (dropWhile is_ws s)))"

definition to_lower :: "string \<Rightarrow> string" where
  "to_lower s = map lower_char s"

definition to_upper :: "string \<Rightarrow> string" where
  "to_upper s = map upper_char s"

lemma trim_Nil [simp]: "trim [] = []"
  by (simp add: trim_def)

lemma dropWhile_rev_ends:
  assumes "s \<noteq> []" and "\<not> P (hd s)"
  shows "rev (dropWhile P (rev s)) \<noteq> [] \<and> hd (rev (dropWhile P (rev s))) = hd s"
proof -
  obtain x xs where s: "s = x # xs" using assms(1) by (cases s) auto
  show ?thesis
  proof (cases "\<forall>y \<in> set xs. P y")
    case True
    then have "dropWhile P (rev xs @ [x]) = dropWhile P [x]"
      by (intro dropWhile_append2) simp
    with assms s show ?thesis by simp
  next
    case False
    then obtain y where "y \<in> set (rev xs)" "\<not> P y" by auto
    then have "dropWhile P (rev xs @ [x]) = dropWhile P (rev xs) @ [x]"
      by (rule dropWhile_append1)
    with s show ?thesis by simp
  qed
qed

lemma trim_ends:
  assumes "trim s \<noteq> []"
  shows "\<not> is_ws (hd (trim s)) \<and> \<not> is_ws (last (trim s))"
proof -
  let ?t = "dropWhile is_ws s"
  have ne: "?t \<noteq> []"
  proof
    assume "?t = []"
    with assms show False by (simp only: trim_def rev.simps dropWhile.simps simp_thms)
  qed
  then have h: "\<not> is_ws (hd ?t)" by (rule hd_dropWhile [of is_ws s])
  from dropWhile_rev_ends [where P = is_ws, OF ne h] have "hd (trim s) = hd ?t"
    by (simp add: trim_def)
  moreover have "last (trim s) = hd (dropWhile is_ws (rev ?t))"
    using assms by (simp add: trim_def last_rev)
  moreover have "dropWhile is_ws (rev ?t) \<noteq> []"
    using assms unfolding trim_def rev_is_Nil_conv .
  ultimately show ?thesis using h hd_dropWhile by metis
qed

lemma dropWhile_hd: "xs \<noteq> [] \<Longrightarrow> \<not> P (hd xs) \<Longrightarrow> dropWhile P xs = xs"
  by (cases xs) auto

lemma trim_id: "s = [] \<or> \<not> is_ws (hd s) \<and> \<not> is_ws (last s) \<Longrightarrow> trim s = s"
  by (cases "s = []") (auto simp: trim_def dropWhile_hd hd_rev)

lemma trim_idem [simp]: "trim (trim s) = trim s"
  using trim_ends [of s] by (intro trim_id) auto

lemma trim_empty_iff: "trim s = [] \<longleftrightarrow> (\<forall>c \<in> set s. is_ws c)"
proof -
  have drop_all: "(\<forall>c \<in> set (dropWhile P t). P c) = (\<forall>c \<in> set t. P c)" for P and t :: string
    by (induction t) auto
  have "(dropWhile is_ws (rev (dropWhile is_ws s)) = []) = (\<forall>c \<in> set (dropWhile is_ws s). is_ws c)"
    by (simp add: dropWhile_eq_Nil_conv)
  also have "\<dots> = (\<forall>c \<in> set s. is_ws c)"
    by (rule drop_all)
  finally show ?thesis by (simp add: trim_def)
qed

lemma to_lower_Nil [simp]: "to_lower s = [] \<longleftrightarrow> s = []"
  by (simp add: to_lower_def)

lemma to_lower_idem [simp]: "to_lower (to_lower s) = to_lower s"
  by (simp add: to_lower_def comp_def)

lemma dropWhile_to_lower: "dropWhile is_ws (map lower_char s) = map lower_char (dropWhile is_ws s)"
  by (induction s) auto

lemma trim_to_lower: "trim (to_lower s) = to_lower (trim s)"
  by (simp add: trim_def to_lower_def dropWhile_to_lower rev_map)

section \<open>Searching and slicing\<close>

fun starts_with :: "string \<Rightarrow> string \<Rightarrow> bool" where
  "starts_with s [] = True"
| "starts_with [] (p # ps) = False"
| "starts_with (c # cs) (p # ps) = (c = p \<and> starts_with cs ps)"

definition ends_with :: "string \<Rightarrow> string \<Rightarrow> bool" where
  "ends_with s p = starts_with (rev s) (rev p)"

text \<open>\<^verbatim>\<open>s.indexOf(p)\<close>, with None for -1.\<close>

fun index_of :: "string \<Rightarrow> string \<Rightarrow> nat option" where
  "index_of [] p = (if p = [] then Some 0 else None)"
| "index_of (c # cs) p =
     (if starts_with (c # cs) p then Some 0 else map_option Suc (index_of cs p))"

definition includes_str :: "string \<Rightarrow> string \<Rightarrow> bool" where
  "includes_str s p = (index_of s p \<noteq> None)"

text \<open>\<^verbatim>\<open>s.lastIndexOf(c)\<close> for one character.\<close>

fun last_index_of :: "string \<Rightarrow> char \<Rightarrow> nat option" where
  "last_index_of [] c = None"
| "last_index_of (x # xs) c =
     (case last_index_of xs c of
        Some i \<Rightarrow> Some (Suc i)
      | None \<Rightarrow> if x = c then Some 0 else None)"

text \<open>\<^verbatim>\<open>s.split(c)\<close> for a separator of one character, and \<^verbatim>\<open>xs.join(sep)\<close>.\<close>

fun split_on :: "char \<Rightarrow> string \<Rightarrow> string list" where
  "split_on c [] = [[]]"
| "split_on c (x # xs) =
     (if x = c then [] # split_on c xs
      else (case split_on c xs of [] \<Rightarrow> [[x]] | y # ys \<Rightarrow> (x # y) # ys))"

fun join_with :: "string \<Rightarrow> string list \<Rightarrow> string" where
  "join_with sep [] = []"
| "join_with sep [x] = x"
| "join_with sep (x # y # ys) = x @ sep @ join_with sep (y # ys)"

text \<open>\<^verbatim>\<open>replace(/c/g, d)\<close> for single characters of a class, and
  \<^verbatim>\<open>replace(/[class]+/g, d)\<close> for runs of them.\<close>

definition replace_chars :: "(char \<Rightarrow> bool) \<Rightarrow> char \<Rightarrow> string \<Rightarrow> string" where
  "replace_chars P d s = map (\<lambda>c. if P c then d else c) s"

lemma length_dropWhile_Suc [termination_simp]: "length (dropWhile P xs) < Suc (length xs)"
  by (simp add: length_dropWhile_le less_Suc_eq_le)

fun replace_runs :: "(char \<Rightarrow> bool) \<Rightarrow> char \<Rightarrow> string \<Rightarrow> string" where
  "replace_runs P d [] = []"
| "replace_runs P d (c # cs) =
     (if P c then d # replace_runs P d (dropWhile P cs) else c # replace_runs P d cs)"

text \<open>\<^verbatim>\<open>s.replace(/c+$/, "")\<close>: the trailing run of a character.\<close>

definition strip_trailing :: "char \<Rightarrow> string \<Rightarrow> string" where
  "strip_trailing c s = rev (dropWhile (\<lambda>x. x = c) (rev s))"

lemma starts_with_iff: "starts_with s p \<longleftrightarrow> (\<exists>t. s = p @ t)"
  by (induction s p rule: starts_with.induct) auto

lemma starts_with_append [simp]: "starts_with (p @ t) p"
  by (auto simp: starts_with_iff)

lemma ends_with_iff: "ends_with s p \<longleftrightarrow> (\<exists>t. s = t @ p)"
  unfolding ends_with_def starts_with_iff by (metis rev_append rev_rev_ident)

lemma index_of_Some:
  "index_of s p = Some i \<Longrightarrow> i + length p \<le> length s \<and> take (length p) (drop i s) = p"
proof (induction s arbitrary: i)
  case Nil
  then show ?case by (auto split: if_splits)
next
  case (Cons c cs)
  show ?case
  proof (cases "starts_with (c # cs) p")
    case True
    then obtain t where t: "c # cs = p @ t" by (auto simp: starts_with_iff)
    from True Cons.prems have "i = 0" by simp
    moreover from t have "length p \<le> length (c # cs)" by simp
    moreover from t have "take (length p) (c # cs) = p" by simp
    ultimately show ?thesis by (simp del: take.simps)
  next
    case False
    with Cons.prems obtain j where "index_of cs p = Some j" "i = Suc j" by auto
    with Cons.IH show ?thesis by simp
  qed
qed

lemma index_of_append: "index_of (a @ p @ b) p \<noteq> None"
proof (induction a)
  case Nil
  have "starts_with (p @ b) p" by simp
  then show ?case by (cases "p @ b") auto
qed auto

lemma index_of_None: "index_of s p = None \<longleftrightarrow> (\<nexists>a b. s = a @ p @ b)"
proof
  assume "index_of s p = None"
  then show "\<nexists>a b. s = a @ p @ b" using index_of_append by blast
next
  assume n: "\<nexists>a b. s = a @ p @ b"
  show "index_of s p = None"
  proof (cases "index_of s p")
    case (Some i)
    from index_of_Some [OF this] have "drop i s = p @ drop (length p) (drop i s)"
      by (metis append_take_drop_id)
    then have "s = take i s @ p @ drop (length p) (drop i s)"
      by (metis append_take_drop_id)
    with n show ?thesis by blast
  qed simp
qed

lemma last_index_of_None: "last_index_of s c = None \<longleftrightarrow> c \<notin> set s"
  by (induction s) (auto split: option.splits)

lemma last_index_of_Some:
  "last_index_of s c = Some i \<Longrightarrow>
     i < length s \<and> s ! i = c \<and> c \<notin> set (drop (Suc i) s)"
proof (induction s arbitrary: i)
  case Nil
  then show ?case by simp
next
  case (Cons x xs)
  then show ?case
    by (cases "last_index_of xs c") (auto split: if_splits simp: last_index_of_None)
qed

lemma split_on_not_Nil [simp]: "split_on c s \<noteq> []"
  by (induction s) (auto split: list.splits)

lemma join_split_on: "join_with [c] (split_on c s) = s"
proof (induction s)
  case Nil
  then show ?case by simp
next
  case (Cons x xs)
  obtain y ys where sp: "split_on c xs = y # ys" by (cases "split_on c xs") auto
  with Cons show ?case by (cases ys) auto
qed

lemma strip_trailing_last: "strip_trailing c s \<noteq> [] \<Longrightarrow> last (strip_trailing c s) \<noteq> c"
proof -
  assume "strip_trailing c s \<noteq> []"
  then have "dropWhile (\<lambda>x. x = c) (rev s) \<noteq> []" by (simp add: strip_trailing_def)
  then show ?thesis
    using hd_dropWhile [of "\<lambda>x. x = c" "rev s"] by (simp add: strip_trailing_def last_rev)
qed

section \<open>Numbers in strings\<close>

text \<open>\<^verbatim>\<open>/^\d{n}$/\<close>, \<^verbatim>\<open>Number(digits)\<close> and \<^verbatim>\<open>String(n).padStart(w, "0")\<close>.\<close>

definition digits_only :: "string \<Rightarrow> bool" where
  "digits_only s = list_all is_digit s"

definition nat_of_digits :: "string \<Rightarrow> nat" where
  "nat_of_digits s = foldl (\<lambda>acc c. 10 * acc + digit_val c) 0 s"

function nat_to_string :: "nat \<Rightarrow> string" where
  "nat_to_string n =
     (if n < 10 then [digit_char n] else nat_to_string (n div 10) @ [digit_char (n mod 10)])"
  by pat_completeness auto
termination
  by (relation "measure id") auto

declare nat_to_string.simps [simp del]

definition int_to_string :: "int \<Rightarrow> string" where
  "int_to_string i =
     (if i < 0 then CHR ''-'' # nat_to_string (nat (- i)) else nat_to_string (nat i))"

definition pad_start :: "nat \<Rightarrow> string \<Rightarrow> string" where
  "pad_start w s = replicate (w - length s) (CHR ''0'') @ s"

lemma digit_char_props: "n < 10 \<Longrightarrow> is_digit (digit_char n) \<and> digit_val (digit_char n) = n"
  by (simp add: is_digit_def digit_char_def digit_val_def)

lemma nat_of_digits_append:
  "nat_of_digits (s @ t) = foldl (\<lambda>acc c. 10 * acc + digit_val c) (nat_of_digits s) t"
  by (simp add: nat_of_digits_def)

lemma nat_of_digits_to_string [simp]: "nat_of_digits (nat_to_string n) = n"
proof (induction n rule: nat_to_string.induct)
  case (1 n)
  show ?case
  proof (cases "n < 10")
    case True
    then show ?thesis
      by (simp add: nat_to_string.simps [of n] nat_of_digits_def digit_char_props)
  next
    case False
    with 1 show ?thesis
      by (simp add: nat_to_string.simps [of n] nat_of_digits_append digit_char_props)
  qed
qed

lemma nat_to_string_inj: "nat_to_string i = nat_to_string j \<Longrightarrow> i = j"
  by (metis nat_of_digits_to_string)

lemma digits_only_to_string [simp]: "digits_only (nat_to_string n)"
proof (induction n rule: nat_to_string.induct)
  case (1 n)
  then show ?case
    by (cases "n < 10") (simp_all add: nat_to_string.simps [of n] digits_only_def digit_char_props)
qed

lemma nat_to_string_not_Nil [simp]: "nat_to_string n \<noteq> []"
  by (subst nat_to_string.simps) simp

lemma nat_of_digits_zeros: "nat_of_digits (replicate k (CHR ''0'') @ s) = nat_of_digits s"
proof -
  have "nat_of_digits (replicate k (CHR ''0'')) = 0"
    by (induction k) (simp_all add: nat_of_digits_def digit_val_def)
  then show ?thesis by (simp add: nat_of_digits_append nat_of_digits_def)
qed

lemma nat_of_digits_pad [simp]: "nat_of_digits (pad_start w s) = nat_of_digits s"
  by (simp add: pad_start_def nat_of_digits_zeros)

lemma digits_only_pad: "digits_only s \<Longrightarrow> digits_only (pad_start w s)"
  by (auto simp: digits_only_def pad_start_def list_all_iff is_digit_def)

lemma length_nat_to_string:
  "n < 10 ^ k \<Longrightarrow> 0 < k \<Longrightarrow> length (nat_to_string n) \<le> k"
proof (induction n arbitrary: k rule: nat_to_string.induct)
  case (1 n)
  show ?case
  proof (cases "n < 10")
    case True
    with 1 show ?thesis by (simp add: nat_to_string.simps [of n])
  next
    case False
    with "1.prems" obtain k' where k: "k = Suc k'" "0 < k'"
      by (cases k; cases "k - 1") auto
    with "1.prems" have "n div 10 < 10 ^ k'" by (auto simp: less_mult_imp_div_less mult.commute)
    from "1.IH" [OF False this k(2)] False k show ?thesis
      by (simp add: nat_to_string.simps [of n])
  qed
qed

lemma length_pad_nat: "n < 10 ^ w \<Longrightarrow> 0 < w \<Longrightarrow> length (pad_start w (nat_to_string n)) = w"
  using length_nat_to_string [of n w] by (simp add: pad_start_def)

text \<open>\<^verbatim>\<open>Number.parseInt\<close>: the digits after blanks and a sign, whatever follows them.\<close>

definition parse_int_prefix :: "string \<Rightarrow> int option" where
  "parse_int_prefix s =
     (let t = dropWhile is_ws s;
          negative = starts_with t ''-'';
          u = (if starts_with t ''-'' \<or> starts_with t ''+'' then tl t else t);
          ds = takeWhile is_digit u
      in if ds = [] then None
         else Some (if negative then - int (nat_of_digits ds) else int (nat_of_digits ds)))"

lemma parse_int_prefix_nat: "parse_int_prefix (nat_to_string n) = Some (int n)"
proof -
  have d: "list_all is_digit (nat_to_string n)" using digits_only_to_string [of n] by (simp add: digits_only_def)
  then obtain c cs where c: "nat_to_string n = c # cs" "is_digit c" using nat_to_string_not_Nil [of n] by (cases "nat_to_string n") auto
  have "\<not> is_ws c" "c \<noteq> CHR ''-''" "c \<noteq> CHR ''+''" using c(2) by (auto simp: is_digit_def is_ws_def)
  then have "parse_int_prefix (nat_to_string n) = Some (int (nat_of_digits (takeWhile is_digit (nat_to_string n))))"
    using c by (simp add: parse_int_prefix_def Let_def)
  moreover have "takeWhile is_digit (nat_to_string n) = nat_to_string n" using d by (simp add: takeWhile_eq_all_conv list_all_iff)
  ultimately show ?thesis by simp
qed

end
