(* ===== verification/JsJson.thy ===== *)
theory JsJson
  imports Complex_Main JsString
begin

text \<open>
  JSON values and what the dashboard uses of \<^verbatim>\<open>JSON.stringify\<close> and \<^verbatim>\<open>JSON.parse\<close>. An object
  is its list of own properties in order (integer-like keys, which the language would list
  first, are not treated apart); \<open>JUndef\<close> is \<^verbatim>\<open>undefined\<close>, which is no JSON text. Numbers
  are exact rationals, printed in plain decimal notation (no exponents: their size is
  between a millionth and 1e21 in absolute value). The reader has fuel; \<open>pvalue_fuel\<close> shows
  that the fuel \<open>json_parse\<close> gives it never decides the result.
\<close>

datatype jsvalue =
    JUndef
  | JNull
  | JBool bool
  | JNum rat
  | JStr string
  | JArr "jsvalue list"
  | JObj "(string \<times> jsvalue) list"

section \<open>Printing\<close>

fun frac_digits :: "nat \<Rightarrow> rat \<Rightarrow> string" where
  "frac_digits 0 f = []"
| "frac_digits (Suc n) f =
     (if f = 0 then []
      else digit_char (nat \<lfloor>10 * f\<rfloor>) # frac_digits n (10 * f - of_int \<lfloor>10 * f\<rfloor>))"

text \<open>\<^verbatim>\<open>String(n)\<close> for a decimal number with at most 40 fractional digits.\<close>

definition num_to_string :: "rat \<Rightarrow> string" where
  "num_to_string q =
     (let a = \<bar>q\<bar>; w = \<lfloor>a\<rfloor>; f = a - of_int w
      in (if q < 0 then ''-'' else []) @ nat_to_string (nat w) @
         (if f = 0 then [] else CHR ''.'' # frac_digits 40 f))"

definition hex_digit :: "nat \<Rightarrow> char" where
  "hex_digit n = (if n < 10 then char_of (48 + n) else char_of (87 + n))"

definition quote_char :: "char \<Rightarrow> string" where
  "quote_char c =
     (let n = code c in
      if n = 34 then [char_of (92::nat), char_of (34::nat)]
      else if n = 92 then [char_of (92::nat), char_of (92::nat)]
      else if n = 8 then char_of (92::nat) # ''b''
      else if n = 9 then char_of (92::nat) # ''t''
      else if n = 10 then char_of (92::nat) # ''n''
      else if n = 12 then char_of (92::nat) # ''f''
      else if n = 13 then char_of (92::nat) # ''r''
      else if n < 32 then char_of (92::nat) # ''u00'' @ [hex_digit (n div 16), hex_digit (n mod 16)]
      else [c])"

definition dquote :: string where
  "dquote = [char_of (34::nat)]"

definition quote_string :: "string \<Rightarrow> string" where
  "quote_string s = dquote @ concat (map quote_char s) @ dquote"

lemma size_snd_entry [termination_simp]:
  "(k, v) \<in> set kvs \<Longrightarrow> size v < Suc (size_list (size_prod (\<lambda>_. 0) size) kvs)"
  by (induction kvs) auto

lemma size_elem [termination_simp]: "x \<in> set xs \<Longrightarrow> size x < Suc (size_list size xs)"
  by (induction xs) auto

text \<open>\<^verbatim>\<open>JSON.stringify(v)\<close>, None for \<^verbatim>\<open>undefined\<close>.\<close>

fun stringify :: "jsvalue \<Rightarrow> string option" where
  "stringify JUndef = None"
| "stringify JNull = Some ''null''"
| "stringify (JBool b) = Some (if b then ''true'' else ''false'')"
| "stringify (JNum q) = Some (num_to_string q)"
| "stringify (JStr s) = Some (quote_string s)"
| "stringify (JArr xs) =
     Some (''['' @ join_with '',''
             (map (\<lambda>x. case stringify x of None \<Rightarrow> ''null'' | Some t \<Rightarrow> t) xs) @ '']'')"
| "stringify (JObj kvs) =
     Some (''{'' @ join_with '',''
             (concat (map (\<lambda>(k, v). case stringify v of None \<Rightarrow> []
                            | Some t \<Rightarrow> [quote_string k @ '':'' @ t]) kvs)) @ ''}'')"

text \<open>\<^verbatim>\<open>JSON.stringify(v, null, 2)\<close> at a given depth of indentation.\<close>

definition pretty_list :: "nat \<Rightarrow> char \<Rightarrow> char \<Rightarrow> string list \<Rightarrow> string" where
  "pretty_list ind open_c close_c parts =
     (if parts = [] then [open_c, close_c]
      else [open_c, newline] @ replicate (ind + 2) (CHR '' '') @
           join_with ('','' @ newline # replicate (ind + 2) (CHR '' '')) parts @
           newline # replicate ind (CHR '' '') @ [close_c])"

fun stringify_pretty :: "nat \<Rightarrow> jsvalue \<Rightarrow> string option" where
  "stringify_pretty ind (JArr xs) =
     Some (pretty_list ind (CHR ''['') (CHR '']'')
             (map (\<lambda>x. case stringify_pretty (ind + 2) x of None \<Rightarrow> ''null'' | Some t \<Rightarrow> t) xs))"
| "stringify_pretty ind (JObj kvs) =
     Some (pretty_list ind (CHR ''{'') (CHR ''}'')
             (concat (map (\<lambda>(k, v). case stringify_pretty (ind + 2) v of None \<Rightarrow> []
                            | Some t \<Rightarrow> [quote_string k @ '': '' @ t]) kvs)))"
| "stringify_pretty ind v = stringify v"

section \<open>Reading\<close>

definition is_json_ws :: "char \<Rightarrow> bool" where
  "is_json_ws c \<longleftrightarrow> code c \<in> {9, 10, 13, 32}"

definition skip_ws :: "string \<Rightarrow> string" where
  "skip_ws s = dropWhile is_json_ws s"

definition hex_val :: "char \<Rightarrow> nat option" where
  "hex_val c =
     (if is_digit c then Some (code c - 48)
      else if 97 \<le> code c \<and> code c \<le> 102 then Some (code c - 87)
      else if 65 \<le> code c \<and> code c \<le> 70 then Some (code c - 55)
      else None)"

definition unescape :: "char \<Rightarrow> char option" where
  "unescape c =
     (if code c \<in> {34, 92, 47} then Some c
      else if c = CHR ''b'' then Some (char_of (8::nat))
      else if c = CHR ''f'' then Some (char_of (12::nat))
      else if c = CHR ''n'' then Some (char_of (10::nat))
      else if c = CHR ''r'' then Some (char_of (13::nat))
      else if c = CHR ''t'' then Some (char_of (9::nat))
      else None)"

text \<open>The escape after a backslash. Escapes of code units above U+00FF are outside the modelled
  range and rejected.\<close>

definition pescape :: "string \<Rightarrow> (char \<times> string) option" where
  "pescape s =
     (case s of
        [] \<Rightarrow> None
      | e # r \<Rightarrow>
          (if e = CHR ''u'' then
             (case map_option (\<lambda>hs. (hs, drop 4 r)) (those (map hex_val (take 4 r))) of
                Some ([0, 0, a, b], rest) \<Rightarrow> Some (char_of (16 * a + b), rest)
              | _ \<Rightarrow> None)
           else map_option (\<lambda>d. (d, r)) (unescape e)))"

lemma pescape_shorter [termination_simp]: "pescape s = Some (c, r) \<Longrightarrow> length r < length s"
  by (auto simp: pescape_def split: list.splits if_splits option.splits nat.splits)

text \<open>The characters of a string literal after its opening quote.\<close>

fun pstring :: "string \<Rightarrow> (string \<times> string) option" where
  "pstring [] = None"
| "pstring (c # r) =
     (if code c = 34 then Some ([], r)
      else if code c = 92 then
        (case pescape r of
           None \<Rightarrow> None
         | Some (d, r1) \<Rightarrow> map_option (\<lambda>(t, rest). (d # t, rest)) (pstring r1))
      else if code c < 32 then None
      else map_option (\<lambda>(t, rest). (c # t, rest)) (pstring r))"

text \<open>The number grammar of JSON.\<close>

definition pint :: "string \<Rightarrow> (nat \<times> string) option" where
  "pint s =
     (let ds = takeWhile is_digit s
      in if ds = [] \<or> (hd ds = CHR ''0'' \<and> length ds > 1) then None
         else Some (nat_of_digits ds, dropWhile is_digit s))"

definition pfrac :: "string \<Rightarrow> (rat \<times> string) option" where
  "pfrac s =
     (case s of
        c # r \<Rightarrow>
          (if c = CHR ''.'' then
             (let ds = takeWhile is_digit r
              in if ds = [] then None
                 else Some (of_nat (nat_of_digits ds) / 10 ^ length ds, dropWhile is_digit r))
           else Some (0, s))
      | [] \<Rightarrow> Some (0, []))"

definition pexp :: "string \<Rightarrow> (rat \<times> string) option" where
  "pexp s =
     (case s of
        c # r \<Rightarrow>
          (if c = CHR ''e'' \<or> c = CHR ''E'' then
             (let neg = starts_with r ''-'';
                  r1 = (if starts_with r ''-'' \<or> starts_with r ''+'' then tl r else r);
                  ds = takeWhile is_digit r1
              in if ds = [] then None
                 else Some (if neg then 1 / 10 ^ nat_of_digits ds else 10 ^ nat_of_digits ds,
                            dropWhile is_digit r1))
           else Some (1, s))
      | [] \<Rightarrow> Some (1, []))"

definition pnumber :: "string \<Rightarrow> (rat \<times> string) option" where
  "pnumber s =
     (let neg = starts_with s ''-''; s1 = (if neg then tl s else s) in
      case pint s1 of None \<Rightarrow> None | Some (i, r1) \<Rightarrow>
        (case pfrac r1 of None \<Rightarrow> None | Some (f, r2) \<Rightarrow>
          (case pexp r2 of None \<Rightarrow> None | Some (e, r3) \<Rightarrow>
            Some ((if neg then - 1 else 1) * (of_nat i + f) * e, r3))))"

definition pliteral :: "string \<Rightarrow> jsvalue \<Rightarrow> string \<Rightarrow> (jsvalue \<times> string) option" where
  "pliteral w v s = (if starts_with s w then Some (v, drop (length w) s) else None)"

text \<open>The last of several equal keys gives the value, at the place of the first.\<close>

definition make_object :: "(string \<times> jsvalue) list \<Rightarrow> jsvalue" where
  "make_object kvs = JObj (foldl (\<lambda>acc (k, v). AList.update k v acc) [] kvs)"

fun pvalue :: "nat \<Rightarrow> string \<Rightarrow> (jsvalue \<times> string) option"
  and pelems :: "nat \<Rightarrow> string \<Rightarrow> (jsvalue list \<times> string) option"
  and pmembers :: "nat \<Rightarrow> string \<Rightarrow> ((string \<times> jsvalue) list \<times> string) option"
where
  "pvalue 0 s = None"
| "pvalue (Suc n) s =
     (case skip_ws s of
        [] \<Rightarrow> None
      | c # r \<Rightarrow>
          (if code c = 34 then map_option (\<lambda>(t, rest). (JStr t, rest)) (pstring r)
           else if c = CHR ''['' then
             (if starts_with (skip_ws r) '']'' then Some (JArr [], tl (skip_ws r))
              else map_option (\<lambda>(xs, rest). (JArr xs, rest)) (pelems n r))
           else if c = CHR ''{'' then
             (if starts_with (skip_ws r) ''}'' then Some (JObj [], tl (skip_ws r))
              else map_option (\<lambda>(kvs, rest). (make_object kvs, rest)) (pmembers n r))
           else if c = CHR ''n'' then pliteral ''null'' JNull (c # r)
           else if c = CHR ''t'' then pliteral ''true'' (JBool True) (c # r)
           else if c = CHR ''f'' then pliteral ''false'' (JBool False) (c # r)
           else map_option (\<lambda>(q, rest). (JNum q, rest)) (pnumber (c # r))))"
| "pelems 0 s = None"
| "pelems (Suc n) s =
     (case pvalue n s of
        None \<Rightarrow> None
      | Some (v, r) \<Rightarrow>
          (case skip_ws r of
             [] \<Rightarrow> None
           | c # r1 \<Rightarrow>
               (if c = CHR '']'' then Some ([v], r1)
                else if c = CHR '','' then map_option (\<lambda>(vs, rest). (v # vs, rest)) (pelems n r1)
                else None)))"
| "pmembers 0 s = None"
| "pmembers (Suc n) s =
     (case skip_ws s of
        [] \<Rightarrow> None
      | q # r \<Rightarrow>
          (if code q = 34 then
             (case pstring r of
                None \<Rightarrow> None
              | Some (k, r1) \<Rightarrow>
                  (case skip_ws r1 of
                     [] \<Rightarrow> None
                   | c # r2 \<Rightarrow>
                       (if c = CHR '':'' then
                          (case pvalue n r2 of
                             None \<Rightarrow> None
                           | Some (v, r3) \<Rightarrow>
                               (case skip_ws r3 of
                                  [] \<Rightarrow> None
                                | d # r4 \<Rightarrow>
                                    (if d = CHR ''}'' then Some ([(k, v)], r4)
                                     else if d = CHR '','' then
                                       map_option (\<lambda>(kvs, rest). ((k, v) # kvs, rest)) (pmembers n r4)
                                     else None)))
                        else None)))
           else None))"

definition json_parse :: "string \<Rightarrow> jsvalue option" where
  "json_parse s =
     (case pvalue (2 * length s + 1) s of
        None \<Rightarrow> None
      | Some (v, rest) \<Rightarrow> if skip_ws rest = [] then Some v else None)"

section \<open>The fuel is enough\<close>

lemma length_skip_ws: "length (skip_ws s) \<le> length s"
  by (simp add: skip_ws_def length_dropWhile_le)

lemma pstring_shorter: "pstring s = Some (t, r) \<Longrightarrow> length r < length s"
proof (induction s arbitrary: t r rule: pstring.induct)
  case (2 c s)
  show ?case
  proof (cases "code c = 92")
    case True
    with "2.prems" obtain d r1 t' where e: "pescape s = Some (d, r1)" "pstring r1 = Some (t', r)"
      by (auto split: option.splits)
    have "length r < length r1" using "2.IH"(1) [OF _ True e(1) _ e(2)] True by simp
    with pescape_shorter [OF e(1)] show ?thesis by simp
  next
    case False
    with 2 show ?thesis by (fastforce split: if_splits)
  qed
qed simp

lemma pint_shorter: "pint s = Some (i, r) \<Longrightarrow> length r < length s"
proof -
  assume p: "pint s = Some (i, r)"
  then have "takeWhile is_digit s \<noteq> []" "r = dropWhile is_digit s"
    by (auto simp: pint_def Let_def split: if_splits)
  moreover have "length (takeWhile is_digit s) + length (dropWhile is_digit s) = length s"
    by (metis length_append takeWhile_dropWhile_id)
  ultimately show ?thesis by (cases "takeWhile is_digit s") auto
qed

lemma pfrac_shorter: "pfrac s = Some (q, r) \<Longrightarrow> length r \<le> length s"
  by (auto simp: pfrac_def Let_def split: list.splits if_splits)
    (metis le_SucI length_dropWhile_le)

lemma pexp_shorter: "pexp s = Some (q, r) \<Longrightarrow> length r \<le> length s"
proof -
  have "length (dropWhile is_digit (tl t)) \<le> Suc (length t)" "length (dropWhile is_digit t) \<le> Suc (length t)"
    for t :: string
    using length_dropWhile_le [of is_digit "tl t"] length_dropWhile_le [of is_digit t]
    by (auto simp del: length_dropWhile_le)
  then show "pexp s = Some (q, r) \<Longrightarrow> length r \<le> length s"
    by (auto simp: pexp_def Let_def split: list.splits if_splits)
qed

lemma pnumber_shorter: "pnumber s = Some (q, r) \<Longrightarrow> length r < length s"
proof -
  assume "pnumber s = Some (q, r)"
  then obtain i r1 f r2 e where p: "pint (if starts_with s ''-'' then tl s else s) = Some (i, r1)"
    "pfrac r1 = Some (f, r2)" "pexp r2 = Some (e, r)"
    by (auto simp: pnumber_def Let_def split: option.splits if_splits)
  from pint_shorter [OF p(1)] pfrac_shorter [OF p(2)] pexp_shorter [OF p(3)]
  show ?thesis by (auto split: if_splits)
qed

lemma pliteral_shorter: "w \<noteq> [] \<Longrightarrow> pliteral w v s = Some (u, r) \<Longrightarrow> length r < length s"
  using length_drop [of "length w" s] by (cases w; cases s) (auto simp: pliteral_def split: if_splits)

lemma skip_ws_Cons: "skip_ws s = c # r \<Longrightarrow> length r < length s"
  using length_skip_ws [of s] by simp

lemma parse_shorter:
  "pvalue n s = Some (v, r) \<Longrightarrow> length r < length s"
  "pelems n s = Some (vs, r) \<Longrightarrow> length r < length s"
  "pmembers n s = Some (kvs, r) \<Longrightarrow> length r < length s"
proof (induction n s and n s and n s arbitrary: v r and vs r and kvs r
    rule: pvalue_pelems_pmembers.induct)
  case (2 n s)
  obtain c t where c: "skip_ws s = c # t" using "2.prems" by (cases "skip_ws s") auto
  have t: "length t < length s" using skip_ws_Cons [OF c] .
  have tl: "length (tl (skip_ws t)) \<le> length t" using length_skip_ws [of t] by simp
  have lit: "pliteral w u (c # t) = Some (v, r) \<Longrightarrow> w \<noteq> [] \<Longrightarrow> length r < length s" for w u
    using pliteral_shorter [of w u "c # t" v r] length_skip_ws [of s] c by simp
  have num: "pnumber (c # t) = Some (q, r) \<Longrightarrow> length r < length s" for q
    using pnumber_shorter [of "c # t" q r] length_skip_ws [of s] c by simp
  show ?case
    using "2.prems" "2.IH" c t tl lit num
    by (auto split: if_splits dest!: pstring_shorter intro: less_trans le_less_trans)
next
  case (4 n s)
  obtain v r1 where v: "pvalue n s = Some (v, r1)" using "4.prems" by (cases "pvalue n s") auto
  obtain c t where c: "skip_ws r1 = c # t" using "4.prems" v by (cases "skip_ws r1") auto
  have "length t < length r1" using skip_ws_Cons [OF c] .
  moreover have "length r1 < length s" using "4.IH"(1) [OF v] .
  ultimately show ?case
    using "4.prems" "4.IH"(2) [OF v refl c] v c by (fastforce split: if_splits)
next
  case (6 n s)
  obtain q t where q: "skip_ws s = q # t" using "6.prems" by (cases "skip_ws s") auto
  have q34: "code q = 34" using "6.prems" q by (simp split: if_splits)
  obtain k r1 where k: "pstring t = Some (k, r1)"
    using "6.prems" q q34 by (cases "pstring t") auto
  obtain c r2 where c: "skip_ws r1 = c # r2" using "6.prems" q q34 k by (cases "skip_ws r1") auto
  have col: "c = CHR '':''" using "6.prems" q q34 k c by (simp split: if_splits)
  obtain v r3 where v: "pvalue n r2 = Some (v, r3)"
    using "6.prems" q q34 k c col by (cases "pvalue n r2") auto
  obtain d r4 where d: "skip_ws r3 = d # r4"
    using "6.prems" q q34 k c col v by (cases "skip_ws r3") auto
  have "length r4 < length s"
    using skip_ws_Cons [OF q] pstring_shorter [OF k] skip_ws_Cons [OF c] skip_ws_Cons [OF d]
      "6.IH"(1) [OF q q34 k refl c col v] by simp
  then show ?case
    using "6.prems" "6.IH"(2) [OF q q34 k refl c col v refl d] q q34 k c col v d
    by (fastforce split: if_splits)
qed auto

lemma pvalue_fuel:
  "2 * length s < n \<Longrightarrow> 2 * length s < m \<Longrightarrow> pvalue n s = pvalue m s"
  "2 * length s + 1 < n \<Longrightarrow> 2 * length s + 1 < m \<Longrightarrow> pelems n s = pelems m s"
  "2 * length s + 1 < n \<Longrightarrow> 2 * length s + 1 < m \<Longrightarrow> pmembers n s = pmembers m s"
proof (induction n s and n s and n s arbitrary: m and m and m rule: pvalue_pelems_pmembers.induct)
  case (2 n s)
  obtain m' where m: "m = Suc m'" using "2.prems"(2) by (cases m) auto
  show ?case
  proof (cases "skip_ws s")
    case Nil
    then show ?thesis by (simp add: m)
  next
    case (Cons c t)
    have t: "length t < length s" using skip_ws_Cons [OF Cons] .
    have "code c \<noteq> 34 \<Longrightarrow> c = CHR ''['' \<Longrightarrow> \<not> starts_with (skip_ws t) '']'' \<Longrightarrow> pelems n t = pelems m' t"
      using "2.prems" t m by (intro "2.IH"(1) [OF Cons]) simp_all
    moreover have "code c \<noteq> 34 \<Longrightarrow> c = CHR ''{'' \<Longrightarrow> \<not> starts_with (skip_ws t) ''}'' \<Longrightarrow>
        pmembers n t = pmembers m' t"
      using "2.prems" t m by (intro "2.IH"(2) [OF Cons]) simp_all
    ultimately show ?thesis by (simp add: Cons m)
  qed
next
  case (4 n s)
  obtain m' where m: "m = Suc m'" using "4.prems"(2) by (cases m) auto
  have v: "pvalue n s = pvalue m' s" by (rule "4.IH"(1)) (use "4.prems" m in simp_all)
  show ?case
  proof (cases "pvalue n s")
    case None
    then show ?thesis using v by (simp add: m)
  next
    case (Some p)
    obtain u r where p: "p = (u, r)" by (cases p)
    note pv = Some [unfolded p]
    have pv': "pvalue m' s = Some (u, r)" using v pv by simp
    show ?thesis
    proof (cases "skip_ws r")
      case Nil
      then show ?thesis by (simp add: m pv pv')
    next
      case (Cons c t)
      have "length t < length s" using skip_ws_Cons [OF Cons] parse_shorter(1) [OF pv] by simp
      then have "c \<noteq> CHR '']'' \<Longrightarrow> c = CHR '','' \<Longrightarrow> pelems n t = pelems m' t"
        using "4.prems" m by (intro "4.IH"(2) [OF pv refl Cons]) simp_all
      then show ?thesis by (simp add: m pv pv' Cons)
    qed
  qed
next
  case (6 n s)
  obtain m' where m: "m = Suc m'" using "6.prems"(2) by (cases m) auto
  show ?case
  proof (cases "skip_ws s")
    case Nil
    then show ?thesis by (simp add: m)
  next
    case q: (Cons q t)
    show ?thesis
    proof (cases "code q = 34 \<and> pstring t \<noteq> None")
      case False
      then show ?thesis using q by (cases "pstring t") (auto simp: m)
    next
      case True
      then obtain k r1 where q34: "code q = 34" and k: "pstring t = Some (k, r1)" by auto
      have r1: "length r1 < length s" using skip_ws_Cons [OF q] pstring_shorter [OF k] by simp
      show ?thesis
      proof (cases "skip_ws r1")
        case Nil
        then show ?thesis using q q34 k by (simp add: m)
      next
        case c: (Cons c r2)
        have r2: "length r2 < length s" using skip_ws_Cons [OF c] r1 by simp
        have v: "c = CHR '':'' \<Longrightarrow> pvalue n r2 = pvalue m' r2"
          using "6.prems" m r2 by (intro "6.IH"(1) [OF q q34 k refl c]) simp_all
        have "pmembers n r4 = pmembers m' r4"
          if "c = CHR '':''" "pvalue n r2 = Some (w, r3)" "skip_ws r3 = d # r4" "d \<noteq> CHR ''}''"
            "d = CHR '',''" for w r3 d r4
          using "6.prems" m r2 parse_shorter(1) [OF that(2)] skip_ws_Cons [OF that(3)]
          by (intro "6.IH"(2) [OF q q34 k refl c that(1) that(2) refl that(3-5)]) simp_all
        then show ?thesis using q q34 k c v
          by (auto simp: m split: option.split list.split)
      qed
    qed
  qed
qed auto

lemma json_parse_any_fuel:
  "2 * length s < n \<Longrightarrow>
     json_parse s = (case pvalue n s of None \<Rightarrow> None
                     | Some (v, rest) \<Rightarrow> if skip_ws rest = [] then Some v else None)"
  using pvalue_fuel(1) [of s n "2 * length s + 1"] by (simp add: json_parse_def)

section \<open>Properties of an object\<close>

definition member_at :: "jsvalue \<Rightarrow> string \<Rightarrow> jsvalue" where
  "member_at v key = (case v of JObj kvs \<Rightarrow> coalesce_opt (map_of kvs key) JUndef | _ \<Rightarrow> JUndef)"

text \<open>A property that is used only if it is a string.\<close>

definition string_member :: "jsvalue \<Rightarrow> string \<Rightarrow> string option" where
  "string_member v key = (case member_at v key of JStr s \<Rightarrow> Some s | _ \<Rightarrow> None)"

end
