(* ===== verification/ApiModel.thy ===== *)
theory ApiModel
  imports JsJson
begin

text \<open>
  The objects the dashboard exchanges with the backend
  (\<^verbatim>\<open>frontend/src/api/generated/model\<close>), with the properties the modelled code reads or
  writes. A required property has its own type, a required nullable or an optional one is an
  option, an optional nullable one is \<open>optional\<close> (missing, null, or a value). Time stamps,
  ids and the open status enumerations stay strings, as the code compares them; a property
  of type \<^verbatim>\<open>unknown\<close> or an open object is a \<open>jsvalue\<close>.
\<close>

datatype task_status = Inbox | In_progress | Review | Done

fun status_string :: "task_status \<Rightarrow> string" where
  "status_string Inbox = ''inbox''"
| "status_string In_progress = ''in_progress''"
| "status_string Review = ''review''"
| "status_string Done = ''done''"

text \<open>\<^verbatim>\<open>TagRef\<close>, \<^verbatim>\<open>TagRead\<close>.\<close>

record tag_ref =
  tag_ref_id :: string
  tag_ref_name :: string
  tag_ref_slug :: string
  tag_ref_color :: string

record tag_read =
  tag_id :: string
  tag_name :: string
  tag_color :: "string option"

text \<open>\<^verbatim>\<open>TaskRead\<close> as it arrives on the wire, and \<^verbatim>\<open>TaskCardRead\<close>, which adds the
  assignee's name and the approval counts.\<close>

record task_read =
  tr_id :: string
  tr_title :: string
  tr_board_id :: "string option"
  tr_created_at :: string
  tr_updated_at :: string
  tr_created_by_user_id :: "string option"
  tr_in_progress_at :: "string option"
  tr_status :: "task_status option"
  tr_priority :: "string option"
  tr_description :: "string optional"
  tr_due_at :: "string optional"
  tr_assigned_agent_id :: "string optional"
  tr_blocked_by_task_ids :: "string list option"
  tr_depends_on_task_ids :: "string list option"
  tr_is_blocked :: "bool option"
  tr_tag_ids :: "string list option"
  tr_tags :: "tag_ref list option"
  tr_custom_field_values :: "jsvalue option"

record task_card_read = task_read +
  tr_assignee :: "string optional"
  tr_approvals_count :: "int option"
  tr_approvals_pending_count :: "int option"

record comment =
  comment_id :: string
  comment_created_at :: string
  comment_message :: "string option"
  comment_agent_id :: "string option"
  comment_task_id :: "string option"

record agent_read =
  agent_id :: string
  agent_name :: string
  agent_status :: "string option"
  agent_board_id :: "string optional"
  agent_created_at :: string
  agent_updated_at :: "string option"
  agent_last_seen_at :: "string optional"
  agent_is_board_lead :: "bool option"
  agent_is_gateway_main :: "bool option"
  agent_identity_profile :: "jsvalue option"

record approval_read =
  approval_id :: string
  approval_action_type :: string
  approval_status :: "string option"
  approval_confidence :: rat
  approval_created_at :: string
  approval_resolved_at :: "string optional"
  approval_agent_id :: "string optional"
  approval_task_id :: "string optional"
  approval_task_ids :: "string list option"
  approval_task_titles :: "string list option"
  approval_payload :: "jsvalue option"

record memory =
  memory_id :: string
  memory_content :: "string option"
  memory_created_at :: string
  memory_source :: "string optional"
  memory_tags :: "string list optional"

record activity =
  activity_id :: string
  activity_event_type :: string
  activity_created_at :: string
  activity_message :: "string option"
  activity_agent_id :: "string option"
  activity_task_id :: "string option"

record board_access =
  access_board_id :: string
  access_can_read :: bool
  access_can_write :: bool

record member_user =
  user_name :: "string optional"
  user_preferred_name :: "string optional"

record member =
  member_role :: string
  member_all_boards_read :: bool
  member_all_boards_write :: bool
  member_board_access :: "board_access list option"
  member_user :: "member_user optional"

record board_read =
  board_id :: string
  board_name :: string
  board_slug :: string

text \<open>\<^verbatim>\<open>TaskCustomFieldDefinitionRead\<close>. The type and the label are required there, but the code
  falls back where they are absent, so both are options.\<close>

datatype field_type =
    Ft_text | Ft_text_long | Ft_integer | Ft_decimal | Ft_boolean | Ft_date | Ft_date_time
  | Ft_url | Ft_json

datatype visibility = Always | If_set | Hidden

record field_def =
  fd_key :: string
  fd_label :: "string option"
  fd_type :: "field_type option"
  fd_visibility :: "visibility option"
  fd_regex :: "string optional"
  fd_description :: "string optional"
  fd_required :: "bool option"
  fd_default :: jsvalue
  fd_board_ids :: "string list option"

text \<open>A failed call: the \<^verbatim>\<open>ApiError\<close> of the fetch wrapper, another \<^verbatim>\<open>Error\<close>, or some other
  thrown value.\<close>

datatype js_error = Api_error int string | Js_error string | Other_error

fun error_message :: "js_error \<Rightarrow> string \<Rightarrow> string" where
  "error_message (Api_error st m) fallback = m"
| "error_message (Js_error m) fallback = m"
| "error_message Other_error fallback = fallback"

end
