(* ===== verification/JsDate.thy ===== *)
theory JsDate
  imports JsString
begin

text \<open>
  What the dashboard uses of the language's \<^verbatim>\<open>Date\<close>: a date is its time value, an integer
  number of milliseconds since the epoch. The calendar is the proleptic Gregorian one of the
  language specification (\<open>day_from_year\<close>, \<open>make_day\<close> and the reverse walk \<open>civil\<close>), the
  string format is the language's date-time string format with an explicit zone
  (\<open>parse_zoned\<close>, where a fraction of any length is read to the millisecond, as engines do)
  and \<^verbatim>\<open>toISOString\<close> (\<open>to_iso\<close>). A string outside that format gives an invalid date.
  The main facts: \<open>civil\<close> inverts \<open>make_day\<close>, and \<open>parse_zoned\<close> inverts \<open>to_iso\<close>.
\<close>

section \<open>The calendar\<close>

definition leap :: "int \<Rightarrow> bool" where
  "leap y \<longleftrightarrow> y mod 4 = 0 \<and> (y mod 100 \<noteq> 0 \<or> y mod 400 = 0)"

definition days_in_year :: "int \<Rightarrow> nat" where
  "days_in_year y = (if leap y then 366 else 365)"

definition month_lengths :: "int \<Rightarrow> nat list" where
  "month_lengths y = [31, if leap y then 29 else 28, 31, 30, 31, 30, 31, 31, 30, 31, 30, 31]"

definition day_from_year :: "int \<Rightarrow> int" where
  "day_from_year y =
     365 * (y - 1970) + (y - 1969) div 4 - (y - 1901) div 100 + (y - 1601) div 400"

text \<open>\<^verbatim>\<open>MakeDay(year, month, date)\<close>: months count from 0 and overflow into the year.\<close>

definition make_day :: "int \<Rightarrow> int \<Rightarrow> int \<Rightarrow> int" where
  "make_day y m d =
     (let ym = y + m div 12; mn = nat (m mod 12)
      in day_from_year ym + int (sum_list (take mn (month_lengths ym))) + d - 1)"

function year_walk :: "nat \<Rightarrow> int \<Rightarrow> int \<times> nat" where
  "year_walk r y =
     (if r < days_in_year y then (y, r) else year_walk (r - days_in_year y) (y + 1))"
  by pat_completeness auto
termination
  by (relation "measure fst") (auto simp: days_in_year_def)

declare year_walk.simps [simp del]

fun month_walk :: "nat \<Rightarrow> nat list \<Rightarrow> nat \<Rightarrow> nat \<times> nat" where
  "month_walk r [] m = (m, r)"
| "month_walk r (l # ls) m = (if r < l then (m, r) else month_walk (r - l) ls (Suc m))"

text \<open>Year, month (from 0) and day of the month of a day number. Four hundred years have
  146097 days, so the walk over the years starts at most that far back.\<close>

definition civil :: "int \<Rightarrow> int \<times> nat \<times> nat" where
  "civil d =
     (case year_walk (nat (d mod 146097)) (1970 + 400 * (d div 146097)) of
        (y, r) \<Rightarrow> (case month_walk r (month_lengths y) 0 of (m, k) \<Rightarrow> (y, m, Suc k)))"

lemma div_Suc_int: "0 < n \<Longrightarrow> (x + 1) div n = x div n + (if (x + 1) mod n = 0 then 1 else 0)"
  for x n :: int
proof -
  assume n: "0 < n"
  have x: "x = n * (x div n) + x mod n" by simp
  have r: "0 \<le> x mod n" "x mod n < n" using n by simp_all
  show ?thesis
  proof (cases "x mod n + 1 = n")
    case True
    moreover have "n * (x div n + 1) = n * (x div n) + n" by (simp add: distrib_left)
    ultimately have "x + 1 = n * (x div n + 1)" using x by linarith
    with n show ?thesis by (metis mod_mult_self1_is_0 nonzero_mult_div_cancel_left less_irrefl)
  next
    case False
    with r have s: "0 \<le> x mod n + 1" "x mod n + 1 < n" by simp_all
    have e: "x + 1 = n * (x div n) + (x mod n + 1)" using x by simp
    have "(x + 1) div n = x div n"
      by (rule int_div_pos_eq [OF e s])
    moreover have "(x + 1) mod n = x mod n + 1"
      by (rule int_mod_pos_eq [OF e s])
    ultimately show ?thesis using r by simp
  qed
qed

lemma day_from_year_Suc: "day_from_year (y + 1) = day_from_year y + int (days_in_year y)"
proof -
  have s4: "(y - 1968) mod 4 = y mod 4" using mod_mult_self2 [of y 4 "-492"] by simp
  have s100: "(y - 1900) mod 100 = y mod 100" using mod_mult_self2 [of y 100 "-19"] by simp
  have s400: "(y - 1600) mod 400 = y mod 400" using mod_mult_self2 [of y 400 "-4"] by simp
  have e4: "(y + 1 - 1969) div 4 = (y - 1969) div 4 + (if y mod 4 = 0 then 1 else 0)"
    using div_Suc_int [of 4 "y - 1969"] s4 by (simp add: algebra_simps)
  have e100: "(y + 1 - 1901) div 100 = (y - 1901) div 100 + (if y mod 100 = 0 then 1 else 0)"
    using div_Suc_int [of 100 "y - 1901"] s100 by (simp add: algebra_simps)
  have e400: "(y + 1 - 1601) div 400 = (y - 1601) div 400 + (if y mod 400 = 0 then 1 else 0)"
    using div_Suc_int [of 400 "y - 1601"] s400 by (simp add: algebra_simps)
  have m: "y mod 100 = 0 \<Longrightarrow> y mod 4 = 0" "y mod 400 = 0 \<Longrightarrow> y mod 100 = 0"
    using dvd_trans [of 4 100 y] dvd_trans [of 100 400 y] by (auto simp: mod_eq_0_iff_dvd)
  have regroup: "365 * (y + 1 - 1970) + (a + i) - (b + j) + (c + k) =
      365 * (y - 1970) + a - b + c + (365 + i - j + k)" for a b c i j k :: int
    by simp
  have days: "int (days_in_year y) = 365 + (if y mod 4 = 0 then 1 else 0) -
      (if y mod 100 = 0 then 1 else 0) + (if y mod 400 = 0 then 1 else 0)"
    using m by (simp add: days_in_year_def leap_def)
  show ?thesis unfolding day_from_year_def e4 e100 e400 days by (rule regroup)
qed

lemma day_from_year_cycle: "day_from_year (1970 + 400 * e) = 146097 * e"
proof -
  have "(1 + 400 * e) div 4 = 100 * e" using div_mult_self2 [of 4 1 "100 * e"] by simp
  moreover have "(69 + 400 * e) div 100 = 4 * e" using div_mult_self2 [of 100 69 "4 * e"] by simp
  moreover have "(369 + 400 * e) div 400 = e" using div_mult_self2 [of 400 369 e] by simp
  ultimately show ?thesis unfolding day_from_year_def by simp
qed

lemma year_walk_spec:
  "year_walk r y = (y', r') \<Longrightarrow>
     r' < days_in_year y' \<and> day_from_year y' + int r' = day_from_year y + int r"
proof (induction r y rule: year_walk.induct)
  case (1 r y)
  show ?case
  proof (cases "r < days_in_year y")
    case True
    with "1.prems" show ?thesis by (simp add: year_walk.simps [of r y])
  next
    case False
    with "1.prems" have "year_walk (r - days_in_year y) (y + 1) = (y', r')"
      by (simp add: year_walk.simps [of r y])
    from "1.IH" [OF False this] False show ?thesis by (simp add: day_from_year_Suc)
  qed
qed

lemma month_walk_spec:
  "r < sum_list ls \<Longrightarrow> month_walk r ls m = (m', k) \<Longrightarrow>
     m \<le> m' \<and> m' - m < length ls \<and> k < ls ! (m' - m) \<and> sum_list (take (m' - m) ls) + k = r"
proof (induction r ls m rule: month_walk.induct)
  case (1 r m)
  then show ?case by simp
next
  case (2 r l ls m)
  show ?case
  proof (cases "r < l")
    case True
    with 2 show ?thesis by auto
  next
    case False
    with 2 have "Suc m \<le> m' \<and> m' - Suc m < length ls \<and> k < ls ! (m' - Suc m) \<and>
        sum_list (take (m' - Suc m) ls) + k = r - l" by auto
    with False show ?thesis by (auto simp: Suc_diff_le less_eq_Suc_le nth_Cons' take_Cons')
  qed
qed

lemma sum_month_lengths: "sum_list (month_lengths y) = days_in_year y"
  by (simp add: month_lengths_def days_in_year_def)

lemma length_month_lengths [simp]: "length (month_lengths y) = 12"
  by (simp add: month_lengths_def)

lemma civil_spec:
  assumes "civil d = (y, m, k)"
  shows "m < 12 \<and> 1 \<le> k \<and> k \<le> month_lengths y ! m \<and> make_day y (int m) (int k) = d"
proof -
  let ?e = "d div 146097" and ?r = "nat (d mod 146097)"
  obtain y' r where yw: "year_walk ?r (1970 + 400 * ?e) = (y', r)"
    by (cases "year_walk ?r (1970 + 400 * ?e)") auto
  obtain m' k' where mw: "month_walk r (month_lengths y') 0 = (m', k')"
    by (cases "month_walk r (month_lengths y') 0") auto
  from assms yw mw have eq: "y = y'" "m = m'" "k = Suc k'" by (auto simp: civil_def)
  from year_walk_spec [OF yw] have r: "r < days_in_year y'"
    "day_from_year y' + int r = 146097 * ?e + d mod 146097"
    by (simp_all add: day_from_year_cycle)
  have m: "m' < 12 \<and> k' < month_lengths y' ! m' \<and> sum_list (take m' (month_lengths y')) + k' = r"
    using month_walk_spec [OF _ mw] r(1) by (simp add: sum_month_lengths)
  then have "make_day y (int m) (int k) = day_from_year y' + int r"
    by (auto simp: make_day_def Let_def eq)
  then show ?thesis using m r(2) eq by simp
qed

section \<open>Reading and printing\<close>

abbreviation ms_per_day :: int where "ms_per_day \<equiv> 86400000"

text \<open>Exactly \<open>n\<close> digits, and one given character.\<close>

definition digits_n :: "nat \<Rightarrow> string \<Rightarrow> (nat \<times> string) option" where
  "digits_n n s =
     (if n \<le> length s \<and> digits_only (take n s) then Some (nat_of_digits (take n s), drop n s)
      else None)"

fun expect :: "char \<Rightarrow> string \<Rightarrow> string option" where
  "expect c (x # xs) = (if x = c then Some xs else None)"
| "expect c [] = None"

text \<open>\<^verbatim>\<open>Z\<close> or \<^verbatim>\<open>+HH:mm\<close>, in minutes east of UTC.\<close>

definition parse_zone :: "string \<Rightarrow> int option" where
  "parse_zone s =
     (if s = ''Z'' then Some 0
      else (case s of
        c # r \<Rightarrow>
          (if c = CHR ''+'' \<or> c = CHR ''-'' then
             (case digits_n 2 r of None \<Rightarrow> None | Some (h, r1) \<Rightarrow>
               (case expect (CHR '':'') r1 of None \<Rightarrow> None | Some r2 \<Rightarrow>
                 (case digits_n 2 r2 of None \<Rightarrow> None | Some (mi, r3) \<Rightarrow>
                   (if r3 = [] \<and> h \<le> 23 \<and> mi \<le> 59
                    then Some ((if c = CHR ''-'' then - 1 else 1) * int (60 * h + mi))
                    else None))))
           else None)
      | [] \<Rightarrow> None))"

text \<open>The optional seconds and their optional fraction: milliseconds and what follows.\<close>

definition parse_fraction :: "string \<Rightarrow> (nat \<times> string) option" where
  "parse_fraction s =
     (case s of
        c # r \<Rightarrow>
          (if c = CHR ''.'' then
             (let ds = takeWhile is_digit r
              in if ds = [] then None
                 else Some (nat_of_digits (take 3 (ds @ ''00'')), dropWhile is_digit r))
           else Some (0, s))
      | [] \<Rightarrow> Some (0, []))"

definition parse_seconds :: "string \<Rightarrow> (nat \<times> string) option" where
  "parse_seconds s =
     (case expect (CHR '':'') s of
        None \<Rightarrow> Some (0, s)
      | Some r \<Rightarrow>
          (case digits_n 2 r of None \<Rightarrow> None | Some (sec, r1) \<Rightarrow>
            (if sec \<le> 59 then
               (case parse_fraction r1 of None \<Rightarrow> None
                | Some (ms, r2) \<Rightarrow> Some (1000 * sec + ms, r2))
             else None)))"

definition parse_date :: "string \<Rightarrow> (int \<times> string) option" where
  "parse_date s =
     (case digits_n 4 s of None \<Rightarrow> None | Some (y, r1) \<Rightarrow>
       (case expect (CHR ''-'') r1 of None \<Rightarrow> None | Some r2 \<Rightarrow>
         (case digits_n 2 r2 of None \<Rightarrow> None | Some (m, r3) \<Rightarrow>
           (case expect (CHR ''-'') r3 of None \<Rightarrow> None | Some r4 \<Rightarrow>
             (case digits_n 2 r4 of None \<Rightarrow> None | Some (d, r5) \<Rightarrow>
               (if 1 \<le> m \<and> m \<le> 12 \<and> 1 \<le> d \<and> d \<le> 31
                then Some (make_day (int y) (int m - 1) (int d), r5)
                else None))))))"

definition parse_time :: "string \<Rightarrow> (int \<times> string) option" where
  "parse_time s =
     (case expect (CHR ''T'') s of None \<Rightarrow> None | Some r1 \<Rightarrow>
       (case digits_n 2 r1 of None \<Rightarrow> None | Some (h, r2) \<Rightarrow>
         (case expect (CHR '':'') r2 of None \<Rightarrow> None | Some r3 \<Rightarrow>
           (case digits_n 2 r3 of None \<Rightarrow> None | Some (mi, r4) \<Rightarrow>
             (case parse_seconds r4 of None \<Rightarrow> None | Some (ms, r5) \<Rightarrow>
               (if mi \<le> 59 \<and> (h \<le> 23 \<or> h = 24 \<and> mi = 0 \<and> ms = 0)
                then Some (int (3600000 * h + 60000 * mi + ms), r5)
                else None))))))"

definition parse_zoned :: "string \<Rightarrow> int option" where
  "parse_zoned s =
     (case parse_date s of None \<Rightarrow> None | Some (day, r1) \<Rightarrow>
       (case parse_time r1 of None \<Rightarrow> None | Some (t, r2) \<Rightarrow>
         (case parse_zone r2 of None \<Rightarrow> None
          | Some z \<Rightarrow> Some (ms_per_day * day + t - 60000 * z))))"

definition year_string :: "int \<Rightarrow> string" where
  "year_string y =
     (if 0 \<le> y \<and> y \<le> 9999 then pad_start 4 (nat_to_string (nat y))
      else (if y < 0 then ''-'' else ''+'') @ pad_start 6 (nat_to_string (nat \<bar>y\<bar>)))"

definition two :: "nat \<Rightarrow> string" where
  "two n = pad_start 2 (nat_to_string n)"

definition date_string :: "int \<Rightarrow> string" where
  "date_string d =
     (case civil d of (y, m, k) \<Rightarrow> year_string y @ ''-'' @ two (Suc m) @ ''-'' @ two k)"

definition time_string :: "nat \<Rightarrow> string" where
  "time_string t =
     ''T'' @ two (t div 3600000) @ '':'' @ two (t div 60000 mod 60) @ '':'' @
       two (t div 1000 mod 60) @ ''.'' @ pad_start 3 (nat_to_string (t mod 1000)) @ ''Z''"

definition to_iso :: "int \<Rightarrow> string" where
  "to_iso t = date_string (t div ms_per_day) @ time_string (nat (t mod ms_per_day))"

definition year_of :: "int \<Rightarrow> int" where
  "year_of t = fst (civil (t div ms_per_day))"

lemma year_walk_ge: "y \<le> fst (year_walk r y)"
proof (induction r y rule: year_walk.induct)
  case (1 r y)
  then show ?case by (subst year_walk.simps) auto
qed

lemma year_of_nonneg: "0 \<le> t \<Longrightarrow> 1970 \<le> year_of t"
proof -
  assume "0 \<le> t"
  then have "0 \<le> t div ms_per_day div 146097" by (simp add: pos_imp_zdiv_nonneg_iff)
  then have "1970 \<le> 1970 + 400 * (t div ms_per_day div 146097)" by simp
  also have "\<dots> \<le> year_of t"
    using year_walk_ge by (simp add: year_of_def civil_def split: prod.split) (metis fst_conv)
  finally show ?thesis .
qed

section \<open>The reader inverts the printer\<close>

lemma digits_n_append:
  "length s = n \<Longrightarrow> digits_only s \<Longrightarrow> digits_n n (s @ r) = Some (nat_of_digits s, r)"
  by (simp add: digits_n_def)

lemma digits_n_pad:
  "k < 10 ^ n \<Longrightarrow> 0 < n \<Longrightarrow> digits_n n (pad_start n (nat_to_string k) @ r) = Some (k, r)"
  by (simp add: digits_n_append length_pad_nat digits_only_pad)

lemma digits_n_two: "k < 100 \<Longrightarrow> digits_n 2 (two k @ r) = Some (k, r)"
  using digits_n_pad [of k 2 r] by (simp add: two_def)

lemma digits_n_year: "0 \<le> y \<Longrightarrow> y \<le> 9999 \<Longrightarrow> digits_n 4 (year_string y @ r) = Some (nat y, r)"
  using digits_n_pad [of "nat y" 4 r] by (simp add: year_string_def)

lemma month_lengths_bound: "m < 12 \<Longrightarrow> month_lengths y ! m \<le> 31"
proof -
  assume "m < 12"
  then have "month_lengths y ! m \<in> set (month_lengths y)"
    by (intro nth_mem) simp
  then show ?thesis by (auto simp: month_lengths_def split: if_splits)
qed

lemma parse_date_string:
  assumes c: "civil d = (y, m, k)" and y: "0 \<le> y" "y \<le> 9999"
  shows "parse_date (date_string d @ r) = Some (d, r)"
proof -
  from civil_spec [OF c] have s: "m < 12" "1 \<le> k" "k \<le> month_lengths y ! m"
    "make_day y (int m) (int k) = d" by auto
  with month_lengths_bound [of m y] have "k \<le> 31" by simp
  with s y show ?thesis
    by (simp add: parse_date_def date_string_def c digits_n_year digits_n_two)
qed

lemma parse_fraction_pad:
  assumes "k < 1000" and "\<not> is_digit c"
  shows "parse_fraction (CHR ''.'' # pad_start 3 (nat_to_string k) @ c # r) = Some (k, c # r)"
proof -
  let ?p = "pad_start 3 (nat_to_string k)"
  have l: "length ?p = 3" using assms length_pad_nat [of k 3] by simp
  have d: "\<forall>x \<in> set ?p. is_digit x"
    using digits_only_pad [OF digits_only_to_string, of 3 k] by (simp add: digits_only_def list_all_iff)
  have "takeWhile is_digit (?p @ c # r) = ?p" "dropWhile is_digit (?p @ c # r) = c # r"
    using d assms(2) by (simp_all add: takeWhile_append2 dropWhile_append2)
  moreover have "?p \<noteq> []" using l by auto
  ultimately show ?thesis using l by (simp add: parse_fraction_def Let_def)
qed

lemma parse_time_string:
  assumes t: "t < 86400000"
  shows "parse_time (time_string t) = Some (int t, ''Z'')"
proof -
  let ?h = "t div 3600000" and ?mi = "t div 60000 mod 60" and ?s = "t div 1000 mod 60"
  have b: "?h < 24" "?mi < 60" "?s < 60" using t by auto
  then have b': "?mi \<le> 59" "?s \<le> 59" by linarith+
  have fr: "parse_fraction (CHR ''.'' # pad_start 3 (nat_to_string (t mod 1000)) @ ''Z'') =
      Some (t mod 1000, ''Z'')"
    by (rule parse_fraction_pad) (auto simp: is_digit_def)
  have d: "t div 60000 = t div 1000 div 60" "?h = t div 60000 div 60"
    by (simp_all add: div_mult2_eq [symmetric])
  have "t = 1000 * (t div 1000) + t mod 1000" "t div 1000 = 60 * (t div 60000) + ?s"
    "t div 60000 = 60 * ?h + ?mi"
    unfolding d by simp_all
  then have e: "3600000 * ?h + 60000 * ?mi + (1000 * ?s + t mod 1000) = t" by linarith
  show ?thesis
    using b b' fr e
    by (simp add: parse_time_def time_string_def parse_seconds_def digits_n_two
        flip: of_nat_add of_nat_mult)
qed

lemma parse_zoned_to_iso:
  assumes "0 \<le> year_of t" and "year_of t \<le> 9999"
  shows "parse_zoned (to_iso t) = Some t"
proof -
  obtain y m k where c: "civil (t div ms_per_day) = (y, m, k)"
    by (cases "civil (t div ms_per_day)") auto
  with assms have "0 \<le> y" "y \<le> 9999" by (auto simp: year_of_def)
  note d = parse_date_string [OF c this]
  have "nat (t mod ms_per_day) < 86400000" by (simp add: nat_less_iff)
  note p = parse_time_string [OF this]
  show ?thesis
    by (simp add: parse_zoned_def to_iso_def d p parse_zone_def)
qed

end
