(* ===== verification/Datetime.thy ===== *)
theory Datetime
  imports JsDate
begin

text \<open>
  \<^verbatim>\<open>frontend/src/lib/datetime.ts\<close> and \<^verbatim>\<open>frontend/src/lib/formatters.ts\<close>: backend time
  stamps without a zone are read as UTC, date inputs are read and written in local time, and
  the tables show abbreviated or relative times. A date is its time value in milliseconds,
  None the invalid date or \<^verbatim>\<open>null\<close>. The browser's local time is two parameters, \<open>lz\<close> from
  time value to local time and \<open>uz\<close> back; its locale-dependent formatting is the parameter
  \<open>fmt\<close>, and the clock the parameter \<open>now\<close>.
\<close>

section \<open>Reading API time stamps\<close>

text \<open>\<^verbatim>\<open>/^(\d{4})-(\d{2})-(\d{2})$/\<close> with its three groups.\<close>

definition match_date :: "string \<Rightarrow> (nat \<times> nat \<times> nat) option" where
  "match_date s =
     (case digits_n 4 s of None \<Rightarrow> None | Some (y, r1) \<Rightarrow>
       (case expect (CHR ''-'') r1 of None \<Rightarrow> None | Some r2 \<Rightarrow>
         (case digits_n 2 r2 of None \<Rightarrow> None | Some (m, r3) \<Rightarrow>
           (case expect (CHR ''-'') r3 of None \<Rightarrow> None | Some r4 \<Rightarrow>
             (case digits_n 2 r4 of None \<Rightarrow> None | Some (d, r5) \<Rightarrow>
               (if r5 = [] then Some (y, m, d) else None))))))"

definition date_only :: "string \<Rightarrow> bool" where
  "date_only s = (match_date s \<noteq> None)"

text \<open>\<^verbatim>\<open>/[zZ]|[+-]\d\d:\d\d$/\<close>: a z anywhere, or an offset at the end.\<close>

definition offset_at_end :: "string \<Rightarrow> bool" where
  "offset_at_end s =
     (6 \<le> length s \<and>
      (let t = drop (length s - 6) s
       in (t ! 0 = CHR ''+'' \<or> t ! 0 = CHR ''-'') \<and> is_digit (t ! 1) \<and> is_digit (t ! 2) \<and>
          t ! 3 = CHR '':'' \<and> is_digit (t ! 4) \<and> is_digit (t ! 5)))"

definition has_tz :: "string \<Rightarrow> bool" where
  "has_tz s = (CHR ''z'' \<in> set s \<or> CHR ''Z'' \<in> set s \<or> offset_at_end s)"

definition normalize_api_datetime :: "string \<Rightarrow> string" where
  "normalize_api_datetime value =
     (let trimmed = trim value
      in if trimmed = [] then trimmed
         else if date_only trimmed then trimmed @ ''T00:00:00Z''
         else if has_tz trimmed then trimmed else trimmed @ ''Z'')"

definition parse_api_datetime :: "string option \<Rightarrow> int option" where
  "parse_api_datetime value =
     (case value of
        None \<Rightarrow> None
      | Some s \<Rightarrow> if s = [] then None else parse_zoned (normalize_api_datetime s))"

definition api_datetime_to_ms :: "string option \<Rightarrow> int option" where
  "api_datetime_to_ms value = parse_api_datetime value"

section \<open>Date inputs\<close>

definition to_local_date_input :: "(int \<Rightarrow> int) \<Rightarrow> string option \<Rightarrow> string" where
  "to_local_date_input lz value =
     (case parse_api_datetime value of
        None \<Rightarrow> []
      | Some date \<Rightarrow>
          (case civil (lz date div ms_per_day) of
             (y, m, d) \<Rightarrow>
               int_to_string y @ ''-'' @ pad_start 2 (nat_to_string (m + 1)) @ ''-'' @
                 pad_start 2 (nat_to_string d)))"

text \<open>\<^verbatim>\<open>new Date(year, monthIndex, day)\<close> reads a year below 100 as one of the twentieth
  century.\<close>

definition make_full_year :: "int \<Rightarrow> int" where
  "make_full_year y = (if 0 \<le> y \<and> y \<le> 99 then 1900 + y else y)"

definition local_date :: "(int \<Rightarrow> int) \<Rightarrow> int \<Rightarrow> int \<Rightarrow> int \<Rightarrow> int" where
  "local_date uz y m d = uz (ms_per_day * make_day (make_full_year y) m d)"

definition local_date_input_to_utc_iso :: "(int \<Rightarrow> int) \<Rightarrow> string option \<Rightarrow> string option" where
  "local_date_input_to_utc_iso uz value =
     (case value of
        None \<Rightarrow> None
      | Some s \<Rightarrow>
          (if s = [] then None
           else let trimmed = trim s
             in if trimmed = [] then None
                else (case match_date trimmed of
                        None \<Rightarrow> None
                      | Some (y, m, d) \<Rightarrow>
                          Some (to_iso (local_date uz (int y) (int m - 1) (int d))))))"

section \<open>\<^verbatim>\<open>formatters.ts\<close>\<close>

definition truncate_text :: "string option \<Rightarrow> nat \<Rightarrow> string \<Rightarrow> string" where
  "truncate_text value mx fallback =
     (case value of
        None \<Rightarrow> fallback
      | Some v \<Rightarrow>
          (if v = [] then fallback
           else if length v \<le> mx then v
           else take mx v @ ellipsis))"

definition parse_timestamp :: "string option \<Rightarrow> int option" where
  "parse_timestamp value =
     (case value of
        None \<Rightarrow> None
      | Some v \<Rightarrow>
          (if v = [] then None
           else let normalized = (if has_tz v then v else v @ ''Z'')
             in parse_zoned normalized))"

definition format_timestamp :: "(int \<Rightarrow> string) \<Rightarrow> string option \<Rightarrow> string \<Rightarrow> string" where
  "format_timestamp fmt value fallback =
     (case parse_timestamp value of None \<Rightarrow> fallback | Some date \<Rightarrow> fmt date)"

text \<open>\<^verbatim>\<open>Math.round(a / b)\<close> for a positive even divisor: halves go up.\<close>

definition round_div :: "int \<Rightarrow> int \<Rightarrow> int" where
  "round_div a b = (a + b div 2) div b"

definition format_relative_timestamp :: "int \<Rightarrow> string option \<Rightarrow> string \<Rightarrow> string" where
  "format_relative_timestamp now value fallback =
     (case parse_timestamp value of
        None \<Rightarrow> fallback
      | Some date \<Rightarrow>
          (let diff = now - date; minutes = round_div diff 60000
           in if minutes < 1 then ''Just now''
              else if minutes < 60 then int_to_string minutes @ ''m ago''
              else let hours = round_div minutes 60
                in if hours < 24 then int_to_string hours @ ''h ago''
                   else let days = round_div hours 24 in int_to_string days @ ''d ago''))"

section \<open>Facts\<close>

lemma trim_no_ws_ends: "s \<noteq> [] \<Longrightarrow> \<not> is_ws (hd s) \<Longrightarrow> \<not> is_ws (last s) \<Longrightarrow> trim s = s"
  by (rule trim_id) simp

lemma has_tz_suffix_Z [simp]: "has_tz (s @ ''Z'')"
  by (simp add: has_tz_def)

lemma digits_n_Some:
  "digits_n n s = Some (k, r) \<Longrightarrow>
     s = take n s @ r \<and> length (take n s) = n \<and> digits_only (take n s) \<and> k = nat_of_digits (take n s)"
  by (auto simp: digits_n_def split: if_splits)

lemma expect_Some: "expect c s = Some r \<longleftrightarrow> s = c # r"
  by (cases s) auto

lemma match_date_chars:
  assumes "match_date s = Some q"
  shows "length s = 10 \<and> is_digit (hd s) \<and> is_digit (last s)"
proof -
  from assms obtain y r1 r2 m r3 r4 d r5
    where p: "digits_n 4 s = Some (y, r1)" "expect (CHR ''-'') r1 = Some r2"
      "digits_n 2 r2 = Some (m, r3)" "expect (CHR ''-'') r3 = Some r4"
      "digits_n 2 r4 = Some (d, r5)" "r5 = []"
    by (auto simp: match_date_def split: option.splits if_splits)
  let ?a = "take 4 s" and ?b = "take 2 r2" and ?c = "take 2 r4"
  have a: "s = ?a @ r1" "length ?a = 4" "digits_only ?a" using digits_n_Some [OF p(1)] by auto
  have b: "r2 = ?b @ r3" "length ?b = 2" using digits_n_Some [OF p(3)] by auto
  have c: "r4 = ?c @ r5" "length ?c = 2" "digits_only ?c" using digits_n_Some [OF p(5)] by auto
  have s: "s = ?a @ CHR ''-'' # ?b @ CHR ''-'' # ?c"
    using a(1) b(1) c(1) p(2,4,6) by (auto simp: expect_Some)
  have "length s = 10" using a(2) b(2) c(2) by (subst s) simp
  moreover have "is_digit (hd s)"
  proof -
    have "hd ?a \<in> set ?a" using a(2) by (intro hd_in_set) auto
    then have "is_digit (hd ?a)" using a(3) by (auto simp: digits_only_def list_all_iff)
    then show ?thesis using a(2) by (subst s) (auto simp: hd_append)
  qed
  moreover have "is_digit (last s)"
  proof -
    have "last ?c \<in> set ?c" using c(2) by (intro last_in_set) auto
    then have "is_digit (last ?c)" using c(3) by (auto simp: digits_only_def list_all_iff)
    then show ?thesis using c(2) by (subst s) auto
  qed
  ultimately show ?thesis by simp
qed

lemma match_date_trim: "match_date s = Some q \<Longrightarrow> trim s = s"
  using match_date_chars [of s q] by (intro trim_id) (auto simp: is_digit_def is_ws_def)

lemma last_to_iso: "last (to_iso t) = CHR ''Z''"
  by (simp add: to_iso_def time_string_def)

lemma hd_to_iso:
  assumes "0 \<le> year_of t" and "year_of t \<le> 9999"
  shows "is_digit (hd (to_iso t))"
proof -
  obtain y m k where c: "civil (t div ms_per_day) = (y, m, k)"
    by (cases "civil (t div ms_per_day)") auto
  with assms have y: "0 \<le> y" "y \<le> 9999" by (auto simp: year_of_def)
  let ?p = "pad_start 4 (nat_to_string (nat y))"
  have "length ?p = 4" using y by (intro length_pad_nat) auto
  then have "?p \<noteq> []" by auto
  then have "hd ?p \<in> set ?p" by simp
  moreover have "digits_only ?p" by (rule digits_only_pad) simp
  ultimately have "is_digit (hd ?p)" by (auto simp: digits_only_def list_all_iff)
  with y \<open>?p \<noteq> []\<close> show ?thesis
    by (simp add: to_iso_def date_string_def c year_string_def)
qed

text \<open>An ISO string printed by the dashboard is read back by \<open>parse_api_datetime\<close>.\<close>

lemma parse_api_to_iso:
  assumes "0 \<le> year_of t" and "year_of t \<le> 9999"
  shows "parse_api_datetime (Some (to_iso t)) = Some t"
proof -
  have z: "last (to_iso t) = CHR ''Z''" by (rule last_to_iso)
  have ne: "to_iso t \<noteq> []" by (simp add: to_iso_def time_string_def)
  have d: "is_digit (hd (to_iso t))" using assms by (rule hd_to_iso)
  have tr: "trim (to_iso t) = to_iso t"
    using d z by (intro trim_id) (auto simp: is_digit_def is_ws_def)
  have "match_date (to_iso t) = None"
    using match_date_chars [of "to_iso t"] z by (cases "match_date (to_iso t)") (auto simp: is_digit_def)
  moreover have "has_tz (to_iso t)" using z ne last_in_set [OF ne] by (simp add: has_tz_def)
  ultimately show ?thesis
    using ne parse_zoned_to_iso [OF assms]
    by (simp add: parse_api_datetime_def normalize_api_datetime_def Let_def tr date_only_def)
qed

text \<open>A stored time stamp and its normal form denote the same date.\<close>

lemma normalize_idem: "normalize_api_datetime (normalize_api_datetime s) = normalize_api_datetime s"
proof (cases "trim s = []")
  case True
  then show ?thesis by (simp add: normalize_api_datetime_def)
next
  case False
  let ?t = "trim s"
  have e: "\<not> is_ws (hd ?t)" "\<not> is_ws (last ?t)" using trim_ends [OF False] by auto
  have keep: "trim (?t @ r) = ?t @ r" if "r \<noteq> []" "\<not> is_ws (last r)" for r
    using e False that by (intro trim_id) (simp add: hd_append)
  have nd: "\<not> date_only (u @ ''Z'')" for u
    using match_date_chars [of "u @ ''Z''"] by (auto simp: date_only_def is_digit_def)
  have "\<not> is_ws (CHR ''Z'')" by (simp add: is_ws_def)
  then show ?thesis
    using False keep [of "''Z''"] keep [of "''T00:00:00Z''"] nd [of ?t] nd [of "?t @ ''T00:00:00''"]
      has_tz_suffix_Z [of ?t] has_tz_suffix_Z [of "?t @ ''T00:00:00''"]
    by (auto simp: normalize_api_datetime_def Let_def)
qed

lemma round_div_mono: "0 < b \<Longrightarrow> a \<le> a' \<Longrightarrow> round_div a b \<le> round_div a' b"
  by (simp add: round_div_def zdiv_mono1)

lemma round_div_pos:
  assumes "0 < b" and "b \<le> a"
  shows "1 \<le> round_div a b"
proof -
  have "b div b \<le> (a + b div 2) div b"
    using assms by (intro zdiv_mono1) (auto simp: pos_imp_zdiv_nonneg_iff add_increasing2)
  then show ?thesis using assms by (simp add: round_div_def)
qed

text \<open>Rounding to the nearest: the error is at most half of the unit.\<close>

lemma round_div_error:
  assumes "0 < h"
  shows "\<bar>a - 2 * h * round_div a (2 * h)\<bar> \<le> h"
proof -
  let ?q = "(a + h) div (2 * h)" and ?r = "(a + h) mod (2 * h)"
  have "a + h = 2 * h * ?q + ?r" by (simp only: mult_div_mod_eq)
  moreover have "0 \<le> ?r" "?r < 2 * h" using assms by simp_all
  ultimately have "a - 2 * h * ?q \<le> h \<and> - h \<le> a - 2 * h * ?q" by linarith
  then show ?thesis unfolding round_div_def by (simp add: abs_le_iff)
qed

end
