(* ===== verification/CustomFields.thy ===== *)
theory CustomFields
  imports ApiModel Datetime
begin

text \<open>
  Custom task fields:
  \<^verbatim>\<open>app/boards/[boardId]/custom-field-utils.tsx\<close> (values of a task: normal form, parsing an
  input, display, payload, patch, required fields). The form of a field definition is in
  \<open>CustomFieldForm\<close>.
  The collation of \<^verbatim>\<open>localeCompare\<close> is the parameter \<open>lc\<close>; a URL parser, the number and date
  formats of the locale and the local time zone are parameters where they occur.
\<close>

type_synonym field_values = "(string \<times> jsvalue) list"

section \<open>Normal form of values\<close>

fun is_record_object :: "jsvalue \<Rightarrow> bool" where
  "is_record_object (JObj kvs) = True"
| "is_record_object _ = False"

definition set_all :: "(string \<times> jsvalue) list \<Rightarrow> field_values" where
  "set_all kvs = foldl (\<lambda>acc (k, v). AList.update k v acc) [] kvs"

definition entry_cmp :: "(string \<Rightarrow> string \<Rightarrow> int) \<Rightarrow> string \<times> jsvalue \<Rightarrow> string \<times> jsvalue \<Rightarrow> int" where
  "entry_cmp lc a b = lc (fst a) (fst b)"

lemma in_js_sort [termination_simp]: "x \<in> set (js_sort cmp xs) \<longleftrightarrow> x \<in> set xs"
  by simp

text \<open>The value stored for an entry: records recursively, arrays one level, others as they are.\<close>

fun normalize_entry :: "(string \<Rightarrow> string \<Rightarrow> int) \<Rightarrow> jsvalue \<Rightarrow> jsvalue" where
  "normalize_entry lc (JObj kvs) =
     JObj (set_all (map (\<lambda>(k, v). (k, normalize_entry lc v)) (js_sort (entry_cmp lc) kvs)))"
| "normalize_entry lc (JArr xs) =
     JArr (map (\<lambda>x. if is_record_object x then normalize_entry lc x else x) xs)"
| "normalize_entry lc v = v"

definition normalize_custom_field_values :: "(string \<Rightarrow> string \<Rightarrow> int) \<Rightarrow> jsvalue \<Rightarrow> field_values" where
  "normalize_custom_field_values lc value =
     (case normalize_entry lc value of JObj kvs \<Rightarrow> kvs | _ \<Rightarrow> [])"

definition canonicalize_custom_field_values :: "(string \<Rightarrow> string \<Rightarrow> int) \<Rightarrow> jsvalue \<Rightarrow> string option" where
  "canonicalize_custom_field_values lc value =
     stringify (JObj (normalize_custom_field_values lc value))"

definition custom_field_input_text :: "jsvalue \<Rightarrow> string" where
  "custom_field_input_text value =
     (case value of
        JNull \<Rightarrow> [] | JUndef \<Rightarrow> []
      | JStr s \<Rightarrow> s
      | v \<Rightarrow> (case stringify v of Some t \<Rightarrow> t | None \<Rightarrow> []))"

section \<open>Parsing an input\<close>

text \<open>\<^verbatim>\<open>/^-?\d+$/\<close> and \<^verbatim>\<open>/^-?\d+(\.\d+)?$/\<close>, with the number read.\<close>

definition unsigned_part :: "string \<Rightarrow> string" where
  "unsigned_part s = (if starts_with s ''-'' then tl s else s)"

definition is_integer_text :: "string \<Rightarrow> bool" where
  "is_integer_text s = (unsigned_part s \<noteq> [] \<and> digits_only (unsigned_part s))"

definition parse_int_text :: "string \<Rightarrow> int" where
  "parse_int_text s =
     (if starts_with s ''-'' then - int (nat_of_digits (tl s)) else int (nat_of_digits s))"

definition is_decimal_text :: "string \<Rightarrow> bool" where
  "is_decimal_text s =
     (let u = unsigned_part s; w = takeWhile is_digit u; r = dropWhile is_digit u
      in w \<noteq> [] \<and> (r = [] \<or> (hd r = CHR ''.'' \<and> tl r \<noteq> [] \<and> digits_only (tl r))))"

definition parse_decimal_text :: "string \<Rightarrow> rat" where
  "parse_decimal_text s =
     (let u = unsigned_part s; w = takeWhile is_digit u; f = tl (dropWhile is_digit u);
          a = of_nat (nat_of_digits w) + of_nat (nat_of_digits f) / 10 ^ length f
      in if starts_with s ''-'' then - a else a)"

fun is_json_container :: "jsvalue \<Rightarrow> bool" where
  "is_json_container (JArr xs) = True"
| "is_json_container (JObj kvs) = True"
| "is_json_container _ = False"

definition parse_custom_field_input_value :: "field_type option \<Rightarrow> string \<Rightarrow> jsvalue" where
  "parse_custom_field_input_value ty text =
     (let trimmed = trim text
      in if trimmed = [] then JNull
         else (case ty of
           Some Ft_text \<Rightarrow> JStr trimmed
         | Some Ft_text_long \<Rightarrow> JStr trimmed
         | Some Ft_integer \<Rightarrow>
             (if \<not> is_integer_text trimmed then JStr trimmed
              else JNum (of_int (parse_int_text trimmed)))
         | Some Ft_decimal \<Rightarrow>
             (if \<not> is_decimal_text trimmed then JStr trimmed
              else JNum (parse_decimal_text trimmed))
         | Some Ft_boolean \<Rightarrow>
             (if to_lower trimmed = ''true'' then JBool True
              else if to_lower trimmed = ''false'' then JBool False
              else JStr trimmed)
         | Some Ft_date \<Rightarrow> JStr trimmed
         | Some Ft_date_time \<Rightarrow> JStr trimmed
         | Some Ft_url \<Rightarrow> JStr trimmed
         | Some Ft_json \<Rightarrow>
             (case json_parse trimmed of
                None \<Rightarrow> JStr trimmed
              | Some parsed \<Rightarrow> if is_json_container parsed then parsed else JStr trimmed)
         | None \<Rightarrow>
             (case json_parse trimmed of None \<Rightarrow> JStr trimmed | Some parsed \<Rightarrow> parsed)))"

section \<open>Visibility\<close>

definition is_custom_field_value_set :: "jsvalue \<Rightarrow> bool" where
  "is_custom_field_value_set value =
     (case value of
        JNull \<Rightarrow> False | JUndef \<Rightarrow> False
      | JStr s \<Rightarrow> length (trim s) > 0
      | JArr xs \<Rightarrow> length xs > 0
      | JObj kvs \<Rightarrow> length kvs > 0
      | _ \<Rightarrow> True)"

definition is_custom_field_visible :: "field_def \<Rightarrow> jsvalue \<Rightarrow> bool" where
  "is_custom_field_visible d value =
     (if fd_visibility d = Some Hidden then False
      else if fd_visibility d = Some If_set then is_custom_field_value_set value
      else True)"

section \<open>The values of a board's fields\<close>

definition nullish :: "jsvalue \<Rightarrow> bool" where
  "nullish v = (v = JNull \<or> v = JUndef)"

definition or_js_null :: "jsvalue \<Rightarrow> jsvalue" where
  "or_js_null v = (if nullish v then JNull else v)"

definition board_custom_field_values ::
  "(string \<Rightarrow> string \<Rightarrow> int) \<Rightarrow> field_def list \<Rightarrow> jsvalue \<Rightarrow> field_values" where
  "board_custom_field_values lc definitions value =
     (let source = normalize_custom_field_values lc value
      in foldl (\<lambda>acc d.
           case map_of source (fd_key d) of
             Some v \<Rightarrow> AList.update (fd_key d) v acc
           | None \<Rightarrow> AList.update (fd_key d) (or_js_null (fd_default d)) acc) [] definitions)"

definition custom_field_payload :: "field_def list \<Rightarrow> field_values \<Rightarrow> field_values" where
  "custom_field_payload definitions values =
     foldl (\<lambda>acc d.
       AList.update (fd_key d)
         (case map_of values (fd_key d) of
            Some v \<Rightarrow> if v \<noteq> JUndef then v else JNull
          | None \<Rightarrow> JNull) acc) [] definitions"

definition canonicalize_custom_field_value :: "(string \<Rightarrow> string \<Rightarrow> int) \<Rightarrow> jsvalue \<Rightarrow> string option" where
  "canonicalize_custom_field_value lc value =
     (case value of
        JUndef \<Rightarrow> Some ''__undefined__''
      | JNull \<Rightarrow> Some ''__null__''
      | JObj kvs \<Rightarrow> stringify (JObj (normalize_custom_field_values lc value))
      | v \<Rightarrow> stringify v)"

definition own_or_null :: "field_values \<Rightarrow> string \<Rightarrow> jsvalue" where
  "own_or_null values key = (case map_of values key of Some v \<Rightarrow> v | None \<Rightarrow> JNull)"

definition custom_field_patch_payload ::
  "(string \<Rightarrow> string \<Rightarrow> int) \<Rightarrow> field_def list \<Rightarrow> field_values \<Rightarrow> field_values \<Rightarrow> field_values" where
  "custom_field_patch_payload lc definitions current_values next_values =
     foldl (\<lambda>acc d.
       let key = fd_key d;
           current_value = own_or_null current_values key;
           next_value = own_or_null next_values key
       in if canonicalize_custom_field_value lc current_value =
             canonicalize_custom_field_value lc next_value then acc
          else AList.update key (or_js_null next_value) acc) [] definitions"

definition label_or_key :: "field_def \<Rightarrow> string" where
  "label_or_key d =
     (case fd_label d of Some l \<Rightarrow> if l \<noteq> [] then l else fd_key d | None \<Rightarrow> fd_key d)"

fun first_missing_required_custom_field :: "field_def list \<Rightarrow> field_values \<Rightarrow> string option" where
  "first_missing_required_custom_field [] values = None"
| "first_missing_required_custom_field (d # ds) values =
     (if fd_required d \<noteq> Some True then first_missing_required_custom_field ds values
      else (case map_of values (fd_key d) of
              Some v \<Rightarrow> if \<not> nullish v then first_missing_required_custom_field ds values
                        else Some (label_or_key d)
            | None \<Rightarrow> Some (label_or_key d)))"

section \<open>Displaying a value\<close>

text \<open>What \<^verbatim>\<open>formatCustomFieldDetailValue\<close> renders: plain text, a link, or text in a
  preformatted or a wrapping element.\<close>

datatype detail = Plain string | Link string | Pre string | Wrapped string

text \<open>What the code uses of its environment: \<^verbatim>\<open>toLocaleDateString\<close>, \<^verbatim>\<open>toLocaleString\<close> of a
  date and of a number, \<^verbatim>\<open>new Date\<close> of a string, local time in both directions, and the
  \<^verbatim>\<open>URL\<close> parser with its serialisation.\<close>

record display_env =
  env_date_string :: "int \<Rightarrow> string"
  env_date_time_string :: "int \<Rightarrow> string"
  env_number_string :: "rat \<Rightarrow> string"
  env_new_date :: "string \<Rightarrow> int option"
  env_to_local :: "int \<Rightarrow> int"
  env_of_local :: "int \<Rightarrow> int"
  env_url :: "string \<Rightarrow> string option"

definition format_date_only_value :: "display_env \<Rightarrow> string \<Rightarrow> string" where
  "format_date_only_value env value =
     (let trimmed = trim value;
          general = (case env_new_date env trimmed of
              None \<Rightarrow> trimmed
            | Some parsed \<Rightarrow> env_date_string env parsed)
      in (case match_date trimmed of
            None \<Rightarrow> general
          | Some (year, month, day) \<Rightarrow>
              (let parsed = local_date (env_of_local env) (int year) (int month - 1) (int day)
               in if civil (env_to_local env parsed div ms_per_day) = (int year, month - 1, day)
                     \<and> 1 \<le> month
                  then env_date_string env parsed
                  else general)))"

definition format_date_time_value :: "display_env \<Rightarrow> string \<Rightarrow> string" where
  "format_date_time_value env value =
     (case (case parse_api_datetime (Some value) of
              Some t \<Rightarrow> Some t
            | None \<Rightarrow> env_new_date env value) of
        None \<Rightarrow> value
      | Some parsed \<Rightarrow> env_date_time_string env parsed)"

text \<open>\<^verbatim>\<open>Number(s)\<close> of a trimmed text that is not empty, None when it is not a finite number.\<close>

definition radix_number :: "nat \<Rightarrow> string \<Rightarrow> rat option" where
  "radix_number b s =
     (case those (map hex_val s) of
        None \<Rightarrow> None
      | Some ds \<Rightarrow>
          (if ds \<noteq> [] \<and> (\<forall>d \<in> set ds. d < b)
           then Some (of_nat (foldl (\<lambda>acc d. b * acc + d) 0 ds)) else None))"

definition decimal_number :: "string \<Rightarrow> rat option" where
  "decimal_number s =
     (let w = takeWhile is_digit s; r = dropWhile is_digit s;
          dot = starts_with r ''.'';
          f = (if dot then takeWhile is_digit (tl r) else []);
          r' = (if dot then dropWhile is_digit (tl r) else r)
      in if w = [] \<and> f = [] then None
         else (case pexp r' of
                 Some (e, []) \<Rightarrow>
                   Some ((of_nat (nat_of_digits w) + of_nat (nat_of_digits f) / 10 ^ length f) * e)
               | _ \<Rightarrow> None))"

definition js_number :: "string \<Rightarrow> rat option" where
  "js_number s =
     (if starts_with s ''0x'' \<or> starts_with s ''0X'' then radix_number 16 (drop 2 s)
      else if starts_with s ''0o'' \<or> starts_with s ''0O'' then radix_number 8 (drop 2 s)
      else if starts_with s ''0b'' \<or> starts_with s ''0B'' then radix_number 2 (drop 2 s)
      else if starts_with s ''-'' then map_option uminus (decimal_number (tl s))
      else if starts_with s ''+'' then decimal_number (tl s)
      else decimal_number s)"

definition text_or_dash :: "jsvalue \<Rightarrow> detail" where
  "text_or_dash value =
     (let text = custom_field_input_text value in Plain (if text = [] then em_dash else text))"

definition number_detail :: "display_env \<Rightarrow> jsvalue \<Rightarrow> detail" where
  "number_detail env value =
     (case value of
        JNum q \<Rightarrow> Plain (env_number_string env q)
      | JStr s \<Rightarrow>
          (let trimmed = trim s
           in if trimmed = [] then Plain em_dash
              else (case js_number trimmed of
                      Some q \<Rightarrow> Plain (env_number_string env q)
                    | None \<Rightarrow> Plain trimmed))
      | _ \<Rightarrow> text_or_dash value)"

definition format_custom_field_detail_value :: "display_env \<Rightarrow> field_def \<Rightarrow> jsvalue \<Rightarrow> detail" where
  "format_custom_field_detail_value env d value =
     (if nullish value then Plain em_dash
      else (case coalesce_opt (fd_type d) Ft_text of
        Ft_boolean \<Rightarrow>
          (case value of
             JBool b \<Rightarrow> Plain (if b then ''True'' else ''False'')
           | JStr s \<Rightarrow>
               (let normalized = to_lower (trim s)
                in if normalized = ''true'' then Plain ''True''
                   else if normalized = ''false'' then Plain ''False''
                   else text_or_dash value)
           | _ \<Rightarrow> text_or_dash value)
      | Ft_integer \<Rightarrow> number_detail env value
      | Ft_decimal \<Rightarrow> number_detail env value
      | Ft_date \<Rightarrow>
          (case value of
             JStr s \<Rightarrow> if trim s = [] then Plain em_dash else Plain (format_date_only_value env s)
           | _ \<Rightarrow> text_or_dash value)
      | Ft_date_time \<Rightarrow>
          (case value of
             JStr s \<Rightarrow> if trim s = [] then Plain em_dash else Plain (format_date_time_value env s)
           | _ \<Rightarrow> text_or_dash value)
      | Ft_url \<Rightarrow>
          (case value of
             JStr s \<Rightarrow>
               (let trimmed = trim s
                in if trimmed = [] then Plain em_dash
                   else (case env_url env trimmed of
                           Some href \<Rightarrow> Link href
                         | None \<Rightarrow> Plain trimmed))
           | _ \<Rightarrow> text_or_dash value)
      | Ft_json \<Rightarrow>
          (case (case value of JStr s \<Rightarrow> json_parse s | v \<Rightarrow> Some v) of
             None \<Rightarrow> text_or_dash value
           | Some normalized \<Rightarrow>
               (case stringify_pretty 0 normalized of
                  Some t \<Rightarrow> Pre t
                | None \<Rightarrow> text_or_dash value))
      | Ft_text_long \<Rightarrow>
          (let text = custom_field_input_text value
           in if text = [] then Plain em_dash else Wrapped text)
      | Ft_text \<Rightarrow> text_or_dash value))"

section \<open>Facts\<close>

text \<open>A fold over the definitions that assigns to every key a value that depends on the key
  only, or leaves it out.\<close>

lemma map_of_key_fold:
  "map_of (foldl (\<lambda>acc d. case f (fd_key d) of None \<Rightarrow> acc | Some v \<Rightarrow> AList.update (fd_key d) v acc)
             acc0 defs) k =
     (if k \<in> fd_key ` set defs \<and> f k \<noteq> None then f k else map_of acc0 k)"
  by (induction defs arbitrary: acc0) (auto simp: update_conv split: option.splits)

lemma map_of_set_all: "map_of (set_all kvs) k = map_of (rev kvs) k"
proof -
  have "map_of (foldl (\<lambda>acc (k, v). AList.update k v acc) acc kvs) k =
      (case map_of (rev kvs) k of None \<Rightarrow> map_of acc k | Some v \<Rightarrow> Some v)" for acc
    by (induction kvs arbitrary: acc)
      (auto simp: update_conv map_add_def split: option.splits)
  from this [of "[]"] show ?thesis by (auto simp: set_all_def split: option.splits)
qed

lemma map_fst_entry_sort: "map fst (js_sort (entry_cmp lc) kvs) = js_sort lc (map fst kvs)"
proof -
  have "map fst (sort_ins (entry_cmp lc) e kvs) = sort_ins lc (fst e) (map fst kvs)" for e kvs
    by (induction kvs) (auto simp: entry_cmp_def)
  then show ?thesis by (induction kvs) auto
qed

text \<open>The sorted entries are the sorted keys with their values.\<close>

lemma entry_sort_keys:
  assumes "distinct (map fst kvs)"
  shows "js_sort (entry_cmp lc) kvs =
           map (\<lambda>k. (k, the (map_of kvs k))) (js_sort lc (map fst kvs))"
proof -
  have "map (\<lambda>k. (k, the (map_of kvs k))) (map fst (js_sort (entry_cmp lc) kvs)) =
      js_sort (entry_cmp lc) kvs"
    using assms by (auto simp: comp_def intro!: map_idI)
  then show ?thesis by (simp add: map_fst_entry_sort)
qed

text \<open>Equal up to the order of keys: of the records that the normal form sorts.\<close>

inductive same_value :: "jsvalue \<Rightarrow> jsvalue \<Rightarrow> bool" where
  same_refl: "same_value v v"
| same_obj: "distinct (map fst kvs) \<Longrightarrow> distinct (map fst kvs') \<Longrightarrow>
     set (map fst kvs) = set (map fst kvs') \<Longrightarrow>
     (\<forall>k \<in> fst ` set kvs. same_value (the (map_of kvs k)) (the (map_of kvs' k))) \<Longrightarrow>
     same_value (JObj kvs) (JObj kvs')"

lemma normalize_entry_same:
  assumes "collation lc" and "same_value v w"
  shows "normalize_entry lc v = normalize_entry lc w"
  using assms(2)
proof (induction rule: same_value.induct)
  case (same_refl v)
  show ?case ..
next
  case (same_obj kvs kvs')
  have keys: "js_sort lc (map fst kvs) = js_sort lc (map fst kvs')"
    using same_obj assms(1) by (intro collation.sort_perm) auto
  have "normalize_entry lc (the (map_of kvs k)) = normalize_entry lc (the (map_of kvs' k))"
    if "k \<in> fst ` set kvs'" for k
    using same_obj.IH [THEN bspec, of k] same_obj(3) that by auto
  then have eq: "map (\<lambda>k. (k, normalize_entry lc (the (map_of kvs k)))) (js_sort lc (map fst kvs')) =
      map (\<lambda>k. (k, normalize_entry lc (the (map_of kvs' k)))) (js_sort lc (map fst kvs'))"
    by (intro map_cong refl) auto
  show ?case
    unfolding normalize_entry.simps entry_sort_keys [OF same_obj(1)] entry_sort_keys [OF same_obj(2)]
      keys map_map comp_def prod.case eq ..
qed

section \<open>Properties\<close>


text \<open>The check before saving names the first required field without a value, and passes
  exactly when every required field has one.\<close>

lemma first_missing_required_correct:
  "first_missing_required_custom_field defs values =
     map_option label_or_key
       (List.find (\<lambda>d. fd_required d = Some True \<and>
          nullish (case map_of values (fd_key d) of Some v \<Rightarrow> v | None \<Rightarrow> JUndef)) defs)"
  by (induction defs) (auto simp: nullish_def split: option.splits)

text \<open>In the edit form every field of the board, and no other, has a value: the task's
  own one when it has one, else the default of the last definition of that key, else
  \<^verbatim>\<open>null\<close>.\<close>

lemma board_values_exact:
  "map_of (board_custom_field_values lc defs value) k =
      (case List.find (\<lambda>d. fd_key d = k) (rev defs) of
         None \<Rightarrow> None
       | Some d \<Rightarrow> Some (case map_of (normalize_custom_field_values lc value) k of
            Some v \<Rightarrow> v | None \<Rightarrow> or_js_null (fd_default d)))"
  by (induction defs rule: rev_induct)
    (auto simp: board_custom_field_values_def Let_def update_conv split: option.splits)

text \<open>The canonical text that decides whether a field was edited does not depend on the
  order of the keys of the records in it.\<close>

lemma canonical_ignores_key_order:
  assumes "collation lc" and "same_value (JObj kvs) (JObj kvs')"
  shows "canonicalize_custom_field_value lc (JObj kvs) = canonicalize_custom_field_value lc (JObj kvs')"
  using normalize_entry_same [OF assms]
  by (simp add: canonicalize_custom_field_value_def normalize_custom_field_values_def)

lemma canonical_ignores_key_order_witness:
  "canonicalize_custom_field_value str_cmp
     (JObj [(''b'', JObj [(''y'', JNull), (''x'', JBool True)]), (''a'', JStr ''t'')]) =
   canonicalize_custom_field_value str_cmp
     (JObj [(''a'', JStr ''t''), (''b'', JObj [(''x'', JBool True), (''y'', JNull)])])"
proof (rule canonical_ignores_key_order)
  show "collation str_cmp" by (rule str_cmp.collation_axioms)
qed (auto intro!: same_value.intros)

end
