(* ===== verification/CustomFieldForm.thy ===== *)
theory CustomFieldForm
  imports CustomFields
begin

text \<open>
  \<^verbatim>\<open>components/custom-fields/custom-field-form-utils.ts\<close>: the form that creates and edits a
  field definition. A parsed default value is a value or an error text; the normalised form
  is an error text or the values that the payload of a creation or of an update is built from.
\<close>

record form_state =
  fs_key :: string
  fs_label :: string
  fs_type :: field_type
  fs_visibility :: visibility
  fs_regex :: string
  fs_description :: string
  fs_required :: bool
  fs_default :: string

definition default_form_state :: form_state where
  "default_form_state = \<lparr>fs_key = [], fs_label = [], fs_type = Ft_text, fs_visibility = Always,
     fs_regex = [], fs_description = [], fs_required = False, fs_default = []\<rparr>"

record form_values =
  fv_key :: string
  fv_label :: string
  fv_type :: field_type
  fv_visibility :: visibility
  fv_regex :: "string option"
  fv_description :: "string option"
  fv_required :: bool
  fv_default :: jsvalue
  fv_boards :: "string list"

datatype form_mode = Create | Edit

definition canonical_json :: "jsvalue \<Rightarrow> string" where
  "canonical_json value = coalesce_opt (stringify value) ''undefined''"

definition are_sorted_string_arrays_equal :: "string list \<Rightarrow> string list \<Rightarrow> bool" where
  "are_sorted_string_arrays_equal left right =
     (length left = length right \<and> list_all (\<lambda>(a, b). a = b) (zip left right))"

section \<open>Default values\<close>

fun parse_custom_field_default_value :: "field_type \<Rightarrow> string \<Rightarrow> string + jsvalue" where
  "parse_custom_field_default_value ty text =
     (let trimmed = trim text
      in if trimmed = [] then Inr JNull
         else (case ty of
           Ft_text \<Rightarrow> Inr (JStr trimmed)
         | Ft_text_long \<Rightarrow> Inr (JStr trimmed)
         | Ft_integer \<Rightarrow>
             (if \<not> is_integer_text trimmed then Inl ''Default value must be a valid integer.''
              else Inr (JNum (of_int (parse_int_text trimmed))))
         | Ft_decimal \<Rightarrow>
             (if \<not> is_decimal_text trimmed then Inl ''Default value must be a valid decimal.''
              else Inr (JNum (parse_decimal_text trimmed)))
         | Ft_boolean \<Rightarrow>
             (if to_lower trimmed = ''true'' then Inr (JBool True)
              else if to_lower trimmed = ''false'' then Inr (JBool False)
              else Inl ''Default value must be true or false.'')
         | Ft_date \<Rightarrow> Inr (JStr trimmed)
         | Ft_date_time \<Rightarrow> Inr (JStr trimmed)
         | Ft_url \<Rightarrow> Inr (JStr trimmed)
         | Ft_json \<Rightarrow>
             (case json_parse trimmed of
                None \<Rightarrow> Inl ''Default value must be valid JSON (object or array).''
              | Some parsed \<Rightarrow>
                  if is_json_container parsed then Inr parsed
                  else Inl ''Default value must be valid JSON (object or array).'')))"

declare parse_custom_field_default_value.simps [simp del]

definition format_custom_field_default_value :: "bool \<Rightarrow> jsvalue \<Rightarrow> string" where
  "format_custom_field_default_value pretty value =
     (case value of
        JNull \<Rightarrow> [] | JUndef \<Rightarrow> []
      | JStr s \<Rightarrow> s
      | v \<Rightarrow> coalesce_opt (if pretty then stringify_pretty 0 v else stringify v) [])"

section \<open>Boards of the picker\<close>

definition filter_boards_by_search :: "board_read list \<Rightarrow> string \<Rightarrow> board_read list" where
  "filter_boards_by_search boards query =
     (let normalized_query = to_lower (trim query)
      in if normalized_query = [] then boards
         else filter (\<lambda>b. includes_str (to_lower (board_name b)) normalized_query \<or>
                          includes_str (to_lower (board_slug b)) normalized_query) boards)"

section \<open>From the form to the payload\<close>

definition is_string_validation_type :: "field_type \<Rightarrow> bool" where
  "is_string_validation_type ty =
     (ty \<in> {Ft_text, Ft_text_long, Ft_date, Ft_date_time, Ft_url})"

definition non_empty :: "string \<Rightarrow> string option" where
  "non_empty s = (if s = [] then None else Some s)"

definition normalize_custom_field_form_input ::
  "form_mode \<Rightarrow> form_state \<Rightarrow> string list \<Rightarrow> string + form_values" where
  "normalize_custom_field_form_input mode fs selected =
     (let trimmed_key = trim (fs_key fs);
          trimmed_label = trim (fs_label fs);
          trimmed_regex = trim (fs_regex fs);
          boards = selected
      in if mode = Create \<and> trimmed_key = [] then Inl ''Field key is required.''
         else if trimmed_label = [] then Inl ''Label is required.''
         else if length boards = 0 then Inl ''Select at least one board.''
         else if trimmed_regex \<noteq> [] \<and> \<not> is_string_validation_type (fs_type fs)
         then Inl ''Validation regex is only supported for string field types.''
         else (case parse_custom_field_default_value (fs_type fs) (fs_default fs) of
                 Inl e \<Rightarrow> Inl e
               | Inr v \<Rightarrow> Inr \<lparr>fv_key = trimmed_key, fv_label = trimmed_label,
                   fv_type = fs_type fs, fv_visibility = fs_visibility fs,
                   fv_regex = non_empty trimmed_regex,
                   fv_description = non_empty (trim (fs_description fs)),
                   fv_required = fs_required fs, fv_default = v, fv_boards = boards\<rparr>))"

record create_payload =
  cp_field_key :: string
  cp_label :: string
  cp_field_type :: field_type
  cp_ui_visibility :: visibility
  cp_validation_regex :: "string option"
  cp_description :: "string option"
  cp_required :: bool
  cp_default_value :: jsvalue
  cp_board_ids :: "string list"

definition create_custom_field_payload :: "form_values \<Rightarrow> create_payload" where
  "create_custom_field_payload v = \<lparr>cp_field_key = fv_key v, cp_label = fv_label v,
     cp_field_type = fv_type v, cp_ui_visibility = fv_visibility v,
     cp_validation_regex = fv_regex v, cp_description = fv_description v,
     cp_required = fv_required v, cp_default_value = fv_default v, cp_board_ids = fv_boards v\<rparr>"

text \<open>An update: None for a property that is left out.\<close>

record update_payload =
  up_label :: "string option"
  up_field_type :: "field_type option"
  up_ui_visibility :: "visibility option"
  up_validation_regex :: "string optional"
  up_description :: "string optional"
  up_required :: "bool option"
  up_default_value :: "jsvalue option"
  up_board_ids :: "string list option"

definition no_updates :: update_payload where
  "no_updates = \<lparr>up_label = None, up_field_type = None, up_ui_visibility = None,
     up_validation_regex = Missing, up_description = Missing, up_required = None,
     up_default_value = None, up_board_ids = None\<rparr>"

definition build_custom_field_update_payload :: "field_def \<Rightarrow> form_values \<Rightarrow> update_payload" where
  "build_custom_field_update_payload field v =
     (let current_board_ids = js_sort str_cmp (coalesce_opt (fd_board_ids field) []);
          next_board_ids = js_sort str_cmp (fv_boards v)
      in \<lparr>up_label = (if fv_label v \<noteq> coalesce_opt (fd_label field) (fd_key field)
                      then Some (fv_label v) else None),
          up_field_type = (if fv_type v \<noteq> coalesce_opt (fd_type field) Ft_text
                           then Some (fv_type v) else None),
          up_ui_visibility = (if fv_visibility v \<noteq> coalesce_opt (fd_visibility field) Always
                              then Some (fv_visibility v) else None),
          up_validation_regex = (if fv_regex v \<noteq> or_null (fd_regex field)
                                 then of_nullable (fv_regex v) else Missing),
          up_description = (if fv_description v \<noteq> or_null (fd_description field)
                            then of_nullable (fv_description v) else Missing),
          up_required = (if fv_required v \<noteq> (fd_required field = Some True)
                         then Some (fv_required v) else None),
          up_default_value = (if canonical_json (fv_default v) \<noteq> canonical_json (fd_default field)
                              then Some (fv_default v) else None),
          up_board_ids = (if \<not> are_sorted_string_arrays_equal current_board_ids next_board_ids
                          then Some (fv_boards v) else None)\<rparr>)"

definition derive_form_state_from_custom_field :: "field_def \<Rightarrow> form_state" where
  "derive_form_state_from_custom_field field = \<lparr>fs_key = fd_key field,
     fs_label = coalesce_opt (fd_label field) (fd_key field),
     fs_type = coalesce_opt (fd_type field) Ft_text,
     fs_visibility = coalesce_opt (fd_visibility field) Always,
     fs_regex = coalesce (fd_regex field) [], fs_description = coalesce (fd_description field) [],
     fs_required = (fd_required field = Some True),
     fs_default = format_custom_field_default_value True (fd_default field)\<rparr>"

definition extract_api_error_message :: "js_error \<Rightarrow> string option \<Rightarrow> string \<Rightarrow> string" where
  "extract_api_error_message e detail fallback =
     (case e of
        Api_error st m \<Rightarrow> if m = [] then fallback else m
      | Js_error m \<Rightarrow> if m = [] then fallback else m
      | Other_error \<Rightarrow>
          (case detail of Some t \<Rightarrow> if t = [] then fallback else t | None \<Rightarrow> fallback))"

section \<open>Facts\<close>

lemma arrays_equal [simp]: "are_sorted_string_arrays_equal xs ys \<longleftrightarrow> xs = ys"
  by (auto simp: are_sorted_string_arrays_equal_def list_all_iff list.rel_eq [symmetric]
      list_all2_iff)

lemma normalize_form_Inr:
  "normalize_custom_field_form_input mode fs sel = Inr v \<Longrightarrow>
     fv_label v = trim (fs_label fs) \<and> fv_label v \<noteq> [] \<and> fv_boards v = sel \<and> sel \<noteq> [] \<and>
     (mode = Create \<longrightarrow> fv_key v \<noteq> []) \<and>
     (fv_regex v \<noteq> None \<longrightarrow> is_string_validation_type (fv_type v)) \<and>
     parse_custom_field_default_value (fs_type fs) (fs_default fs) = Inr (fv_default v)"
  by (auto simp: normalize_custom_field_form_input_def Let_def non_empty_def
      split: if_splits sum.splits)

text \<open>A definition that was saved by this form: trimmed texts, and a default value that its
  own text reads back as.\<close>

definition saved_field :: "field_def \<Rightarrow> bool" where
  "saved_field field =
     (let fs = derive_form_state_from_custom_field field
      in trim (fs_key fs) = fs_key fs \<and> fs_key fs \<noteq> [] \<and>
         trim (fs_label fs) = fs_label fs \<and> fs_label fs \<noteq> [] \<and>
         trim (fs_regex fs) = fs_regex fs \<and> trim (fs_description fs) = fs_description fs \<and>
         fd_regex field \<noteq> Val [] \<and> fd_description field \<noteq> Val [] \<and>
         (fs_regex fs \<noteq> [] \<longrightarrow> is_string_validation_type (fs_type fs)) \<and>
         parse_custom_field_default_value (fs_type fs) (fs_default fs) = Inr (fd_default field) \<and>
         coalesce_opt (fd_board_ids field) [] \<noteq> [])"

lemma non_empty_coalesce: "x \<noteq> Val [] \<Longrightarrow> non_empty (coalesce x []) = or_null x"
  by (cases x) (auto simp: non_empty_def)

section \<open>Properties\<close>

text \<open>Opening the form of a saved field and submitting it unchanged (with the same set of
  boards selected, in any order) sends an update without properties.\<close>

lemma unchanged_form_sends_nothing:
  assumes "saved_field field"
    and "set sel = set (coalesce_opt (fd_board_ids field) [])"
    and "distinct sel" and "distinct (coalesce_opt (fd_board_ids field) [])"
  shows "\<exists>v. normalize_custom_field_form_input Edit (derive_form_state_from_custom_field field) sel = Inr v
           \<and> build_custom_field_update_payload field v = no_updates"
proof -
  let ?fs = "derive_form_state_from_custom_field field"
  have sel: "sel \<noteq> []" using assms by (auto simp: saved_field_def Let_def)
  have n: "normalize_custom_field_form_input Edit ?fs sel =
      Inr \<lparr>fv_key = fs_key ?fs, fv_label = fs_label ?fs, fv_type = fs_type ?fs,
        fv_visibility = fs_visibility ?fs, fv_regex = non_empty (fs_regex ?fs),
        fv_description = non_empty (fs_description ?fs), fv_required = fs_required ?fs,
        fv_default = fd_default field, fv_boards = sel\<rparr>"
    using assms(1) sel by (auto simp: saved_field_def normalize_custom_field_form_input_def Let_def)
  have "js_sort str_cmp (coalesce_opt (fd_board_ids field) []) = js_sort str_cmp sel"
    using assms by (intro str_cmp.sort_perm) auto
  moreover have "non_empty (fs_regex ?fs) = or_null (fd_regex field)"
    "non_empty (fs_description ?fs) = or_null (fd_description field)"
    using assms(1) by (auto simp: saved_field_def Let_def derive_form_state_from_custom_field_def
        non_empty_coalesce)
  ultimately show ?thesis unfolding n
    by (simp add: build_custom_field_update_payload_def no_updates_def Let_def)
      (simp add: derive_form_state_from_custom_field_def)
qed

definition sample_field :: field_def where
  "sample_field = \<lparr>fd_key = ''points'', fd_label = Some ''Points'', fd_type = Some Ft_integer,
     fd_visibility = None, fd_regex = Null, fd_description = Missing, fd_required = Some True,
     fd_default = JNum 12, fd_board_ids = Some [''b1'', ''b2'']\<rparr>"

lemma unchanged_form_witness:
  "\<exists>v. normalize_custom_field_form_input Edit (derive_form_state_from_custom_field sample_field)
         [''b2'', ''b1''] = Inr v \<and> build_custom_field_update_payload sample_field v = no_updates"
proof (rule unchanged_form_sends_nothing)
  show "saved_field sample_field" by code_simp
qed (simp_all add: sample_field_def coalesce_opt_def insert_commute)

text \<open>Which forms are accepted: a creation needs a key, every form a label and a board, a
  validation pattern only goes with the text-like types, and the default value must read as a
  value of the type; every other form is refused with a message, the missing key first.\<close>

lemma form_accepted_iff:
  "(\<exists>v. normalize_custom_field_form_input mode fs sel = Inr v) \<longleftrightarrow>
     \<not> (mode = Create \<and> trim (fs_key fs) = []) \<and> trim (fs_label fs) \<noteq> [] \<and> sel \<noteq> [] \<and>
     (trim (fs_regex fs) = [] \<or> is_string_validation_type (fs_type fs)) \<and>
     (\<exists>d. parse_custom_field_default_value (fs_type fs) (fs_default fs) = Inr d)"
  by (cases "parse_custom_field_default_value (fs_type fs) (fs_default fs)")
    (auto simp: normalize_custom_field_form_input_def Let_def)

text \<open>The values of a field type, as the parsers of this form and of the task form mean them.\<close>

fun has_field_type :: "field_type \<Rightarrow> jsvalue \<Rightarrow> bool" where
  "has_field_type ty JNull = True"
| "has_field_type ty JUndef = False"
| "has_field_type ty (JStr s) = (is_string_validation_type ty \<and> s \<noteq> [])"
| "has_field_type ty (JNum q) = (ty = Ft_decimal \<or> (ty = Ft_integer \<and> of_int \<lfloor>q\<rfloor> = q))"
| "has_field_type ty (JBool b) = (ty = Ft_boolean)"
| "has_field_type ty (JArr xs) = (ty = Ft_json)"
| "has_field_type ty (JObj kvs) = (ty = Ft_json)"

lemma container_has_type: "is_json_container v \<Longrightarrow> has_field_type Ft_json v"
  by (cases v) simp_all

text \<open>C38: a default value that the form accepts is a value of the field's type (or null for a
  blank text), and so is the default value of the payload that is sent; the task form reads the
  same text as the same value. A text that the field form refuses is kept as a plain string by
  the task form, which refuses nothing.\<close>

lemma default_value_typed:
  "(case parse_custom_field_default_value ty s of
      Inr v \<Rightarrow> has_field_type ty v \<and> parse_custom_field_input_value (Some ty) s = v
    | Inl e \<Rightarrow> e \<noteq> [] \<and> parse_custom_field_input_value (Some ty) s = JStr (trim s)) \<and>
   (case normalize_custom_field_form_input mode fs sel of
      Inr v \<Rightarrow> has_field_type (cp_field_type (create_custom_field_payload v))
                 (cp_default_value (create_custom_field_payload v))
    | Inl e \<Rightarrow> e \<noteq> [])"
proof -
  have parsed: "case parse_custom_field_default_value ty s of
      Inr v \<Rightarrow> has_field_type ty v \<and> parse_custom_field_input_value (Some ty) s = v
    | Inl e \<Rightarrow> e \<noteq> [] \<and> parse_custom_field_input_value (Some ty) s = JStr (trim s)" for ty s
    by (cases ty) (auto simp: parse_custom_field_default_value.simps parse_custom_field_input_value_def Let_def
        is_string_validation_type_def container_has_type split: option.splits)
  have "case normalize_custom_field_form_input mode fs sel of
      Inr v \<Rightarrow> has_field_type (fv_type v) (fv_default v) | Inl e \<Rightarrow> e \<noteq> []"
    using parsed [of "fs_type fs" "fs_default fs"]
    by (auto simp: normalize_custom_field_form_input_def Let_def split: sum.splits)
  with parsed [of ty s] show ?thesis
    by (auto simp: create_custom_field_payload_def split: sum.splits)
qed

end
