(* ===== verification/Url.thy ===== *)
theory Url
  imports JsString Prelude
begin

text \<open>
  \<^verbatim>\<open>URLSearchParams\<close>: an ordered list of name/value pairs with \<^verbatim>\<open>get\<close>, \<^verbatim>\<open>set\<close>,
  \<^verbatim>\<open>delete\<close> and \<^verbatim>\<open>toString\<close> (the form encoding of the UTF-8 bytes), and the reader of
  a query string. The reader inverts the printer (\<open>parse_query_to_string\<close>), which the pages
  that keep their state in the URL rely on.
\<close>

type_synonym search_params = "(string \<times> string) list"

definition params_get :: "string \<Rightarrow> search_params \<Rightarrow> string option" where
  "params_get k ps = map_of ps k"

definition params_delete :: "string \<Rightarrow> search_params \<Rightarrow> search_params" where
  "params_delete k ps = filter (\<lambda>p. fst p \<noteq> k) ps"

text \<open>\<^verbatim>\<open>set\<close> keeps the place of the first pair of the name and drops its others.\<close>

fun params_set :: "string \<Rightarrow> string \<Rightarrow> search_params \<Rightarrow> search_params" where
  "params_set k v [] = [(k, v)]"
| "params_set k v (p # ps) =
     (if fst p = k then (k, v) # params_delete k ps else p # params_set k v ps)"

lemma get_delete [simp]:
  "params_get j (params_delete k ps) = (if j = k then None else params_get j ps)"
  by (induction ps) (auto simp: params_get_def params_delete_def)

lemma get_set [simp]:
  "params_get j (params_set k v ps) = (if j = k then Some v else params_get j ps)"
  using get_delete [of j k] by (induction ps) (auto simp: params_get_def)

lemma delete_set_other:
  "filter (\<lambda>p. fst p \<noteq> k) (params_set k v ps) = filter (\<lambda>p. fst p \<noteq> k) ps"
  by (induction ps) (auto simp: params_delete_def)

section \<open>The form encoding\<close>

definition upper_hex :: "nat \<Rightarrow> char" where
  "upper_hex n = (if n < 10 then char_of (48 + n) else char_of (55 + n))"

definition percent :: "nat \<Rightarrow> string" where
  "percent b = [CHR ''%'', upper_hex (b div 16), upper_hex (b mod 16)]"

definition form_plain :: "char \<Rightarrow> bool" where
  "form_plain c \<longleftrightarrow> is_alnum c \<or> code c \<in> {42, 45, 46, 95}"

text \<open>The UTF-8 bytes of a character up to U+00FF.\<close>

definition utf8 :: "char \<Rightarrow> nat list" where
  "utf8 c = (if code c < 128 then [code c] else [192 + code c div 64, 128 + code c mod 64])"

definition form_char :: "char \<Rightarrow> string" where
  "form_char c =
     (if form_plain c then [c] else if code c = 32 then ''+'' else concat (map percent (utf8 c)))"

definition form_encode :: "string \<Rightarrow> string" where
  "form_encode s = concat (map form_char s)"

definition params_to_string :: "search_params \<Rightarrow> string" where
  "params_to_string ps =
     join_with ''&'' (map (\<lambda>(k, v). form_encode k @ ''='' @ form_encode v) ps)"

section \<open>Reading a query string\<close>

definition hex_digit_val :: "char \<Rightarrow> nat option" where
  "hex_digit_val c =
     (if is_digit c then Some (code c - 48)
      else if 65 \<le> code c \<and> code c \<le> 70 then Some (code c - 55)
      else if 97 \<le> code c \<and> code c \<le> 102 then Some (code c - 87)
      else None)"

fun percent_decode :: "string \<Rightarrow> nat list" where
  "percent_decode (c # d # e # s) =
     (if c = CHR ''%'' then
        (case (hex_digit_val d, hex_digit_val e) of
           (Some a, Some b) \<Rightarrow> (16 * a + b) # percent_decode s
         | _ \<Rightarrow> code c # percent_decode (d # e # s))
      else if c = CHR ''+'' then 32 # percent_decode (d # e # s)
      else code c # percent_decode (d # e # s))"
| "percent_decode (c # s) = (if c = CHR ''+'' then 32 else code c) # percent_decode s"
| "percent_decode [] = []"

text \<open>The UTF-8 decoder on the two-byte sequences that reach U+00FF; other sequences of high
  bytes stand for characters outside the modelled range and read as a question mark.\<close>

fun utf8_decode :: "nat list \<Rightarrow> string" where
  "utf8_decode (b # b' # bs) =
     (if b < 128 then char_of b # utf8_decode (b' # bs)
      else if 194 \<le> b \<and> b \<le> 195 \<and> 128 \<le> b' \<and> b' < 192
      then char_of (64 * (b - 192) + (b' - 128)) # utf8_decode bs
      else CHR ''?'' # utf8_decode (b' # bs))"
| "utf8_decode [b] = [if b < 128 then char_of b else CHR ''?'']"
| "utf8_decode [] = []"

definition form_decode :: "string \<Rightarrow> string" where
  "form_decode s = utf8_decode (percent_decode s)"

definition read_pair :: "string \<Rightarrow> string \<times> string" where
  "read_pair s =
     (form_decode (takeWhile (\<lambda>c. c \<noteq> CHR ''='') s),
      form_decode (tl (dropWhile (\<lambda>c. c \<noteq> CHR ''='') s)))"

definition parse_query :: "string \<Rightarrow> search_params" where
  "parse_query s = map read_pair (filter (\<lambda>t. t \<noteq> []) (split_on (CHR ''&'') s))"

section \<open>The reader inverts the printer\<close>

lemma hex_digit_val_upper_hex [simp]: "n < 16 \<Longrightarrow> hex_digit_val (upper_hex n) = Some n"
  by (auto simp: hex_digit_val_def upper_hex_def is_digit_def)

lemma percent_decode_percent [simp]:
  "b < 256 \<Longrightarrow> percent_decode (percent b @ s) = b # percent_decode s"
  by (simp add: percent_def)

lemma percent_decode_plain:
  "c \<noteq> CHR ''%'' \<Longrightarrow> c \<noteq> CHR ''+'' \<Longrightarrow> percent_decode (c # s) = code c # percent_decode s"
  by (cases s; cases "tl s") auto

lemma percent_decode_plus: "percent_decode (CHR ''+'' # s) = 32 # percent_decode s"
  by (cases s; cases "tl s") auto

lemma utf8_bytes: "\<forall>b \<in> set (utf8 c). b < 256"
proof -
  have "code c < 256" by simp
  then have "code c div 64 < 4" by (simp add: less_mult_imp_div_less)
  then show ?thesis by (auto simp: utf8_def)
qed

lemma percent_decode_bytes:
  "\<forall>b \<in> set bs. b < 256 \<Longrightarrow> percent_decode (concat (map percent bs) @ s) = bs @ percent_decode s"
  by (induction bs) auto

lemma utf8_space: "code c = 32 \<Longrightarrow> utf8 c = [32]"
  by (simp add: utf8_def)

lemma percent_decode_form_char: "percent_decode (form_char c @ s) = utf8 c @ percent_decode s"
proof (cases "form_plain c")
  case True
  then have "c \<noteq> CHR ''%''" "c \<noteq> CHR ''+''" "code c < 128"
    by (auto simp: form_plain_def is_alnum_def is_digit_def is_upper_def is_lower_def)
  with True show ?thesis by (simp add: form_char_def utf8_def percent_decode_plain)
next
  case False
  then show ?thesis
    using percent_decode_bytes [OF utf8_bytes [of c]]
    by (cases "code c = 32") (simp_all add: form_char_def percent_decode_plus
      utf8_space)
qed

lemma percent_decode_form_encode: "percent_decode (form_encode s) = concat (map utf8 s)"
  by (induction s) (auto simp: form_encode_def percent_decode_form_char)

lemma utf8_decode_ascii: "b < 128 \<Longrightarrow> utf8_decode (b # bs) = char_of b # utf8_decode bs"
  by (cases bs) auto

lemma utf8_decode_utf8: "utf8_decode (utf8 c @ bs) = c # utf8_decode bs"
proof (cases "code c < 128")
  case True
  then show ?thesis by (simp add: utf8_def utf8_decode_ascii)
next
  case False
  have lt: "code c < 256" by simp
  have q: "code c = 64 * (code c div 64) + code c mod 64" by simp
  from False lt have "2 \<le> code c div 64" "code c div 64 < 4"
    by (simp_all add: less_mult_imp_div_less)
  then have "code c div 64 = 2 \<or> code c div 64 = 3" by linarith
  moreover have "char_of (64 * (code c div 64) + code c mod 64) = c"
    using q by (metis char_of_char)
  ultimately show ?thesis using False by (auto simp: utf8_def)
qed

lemma form_decode_encode [simp]: "form_decode (form_encode s) = s"
proof -
  have "utf8_decode (concat (map utf8 s)) = s"
    by (induction s) (auto simp: utf8_decode_utf8)
  then show ?thesis by (simp add: form_decode_def percent_decode_form_encode)
qed

lemma code_upper_hex: "n < 16 \<Longrightarrow> code (upper_hex n) = (if n < 10 then 48 + n else 55 + n)"
  by (simp add: upper_hex_def)

lemma percent_chars: "b < 256 \<Longrightarrow> c \<in> set (percent b) \<Longrightarrow> code c \<noteq> 61 \<and> code c \<noteq> 38"
  by (auto simp: percent_def code_upper_hex less_mult_imp_div_less split: if_splits)

lemma form_char_chars: "c \<in> set (form_char d) \<Longrightarrow> code c \<noteq> 61 \<and> code c \<noteq> 38"
  using percent_chars utf8_bytes [of d]
  by (auto simp: form_char_def form_plain_def is_alnum_def is_digit_def is_upper_def is_lower_def
      split: if_splits)

lemma form_encode_chars: "c \<in> set (form_encode s) \<Longrightarrow> c \<noteq> CHR ''='' \<and> c \<noteq> CHR ''&''"
  using form_char_chars by (fastforce simp: form_encode_def)

lemma read_pair_encoded [simp]: "read_pair (form_encode k @ ''='' @ form_encode v) = (k, v)"
proof -
  have "\<forall>c \<in> set (form_encode k). c \<noteq> CHR ''=''" using form_encode_chars by blast
  then show ?thesis
    by (simp add: read_pair_def takeWhile_append2 dropWhile_append2)
qed

lemma split_on_append:
  "c \<notin> set s \<Longrightarrow> split_on c (s @ c # t) = s # split_on c t"
  by (induction s) auto

lemma split_on_none: "c \<notin> set s \<Longrightarrow> split_on c s = [s]"
  by (induction s) auto

lemma split_on_join:
  "xs \<noteq> [] \<Longrightarrow> \<forall>x \<in> set xs. c \<notin> set x \<Longrightarrow> split_on c (join_with [c] xs) = xs"
  by (induction xs rule: induct_list012) (auto simp: split_on_append split_on_none)

lemma parse_query_to_string: "parse_query (params_to_string ps) = ps"
proof (cases "ps = []")
  case True
  then show ?thesis by (simp add: parse_query_def params_to_string_def)
next
  case False
  let ?xs = "map (\<lambda>(k, v). form_encode k @ ''='' @ form_encode v) ps"
  have "split_on (CHR ''&'') (join_with ''&'' ?xs) = ?xs"
    using False by (intro split_on_join) (auto dest: form_encode_chars)
  moreover have "filter (\<lambda>t. t \<noteq> []) ?xs = ?xs" by (auto simp: filter_id_conv)
  moreover have "map read_pair ?xs = ps"
    by (induction ps) (auto simp del: append.simps)
  ultimately show ?thesis by (simp add: parse_query_def params_to_string_def)
qed

end
