(* ===== verification/Backoff.thy ===== *)
theory Backoff
  imports Complex_Main JsString
begin

text \<open>
  \<^verbatim>\<open>frontend/src/lib/backoff.ts\<close>: the reconnect delays of every live stream. A JavaScript
  number is \<open>jsnum\<close>: a finite number, one of the infinities, or NaN. Finite numbers are exact
  rationals (the rounding of doubles is not modelled; every delay is a whole number of at most
  3600000, where doubles are exact). The value of \<^verbatim>\<open>Math.random()\<close> is an argument.
\<close>

section \<open>Numbers\<close>

datatype jsnum = Fin rat | PInf | NInf | NaN

fun js_is_nan :: "jsnum \<Rightarrow> bool" where
  "js_is_nan NaN = True"
| "js_is_nan _ = False"

fun js_is_finite :: "jsnum \<Rightarrow> bool" where
  "js_is_finite (Fin _) = True"
| "js_is_finite _ = False"

fun js_neg :: "jsnum \<Rightarrow> jsnum" where
  "js_neg (Fin a) = Fin (- a)"
| "js_neg PInf = NInf"
| "js_neg NInf = PInf"
| "js_neg NaN = NaN"

fun js_add :: "jsnum \<Rightarrow> jsnum \<Rightarrow> jsnum" where
  "js_add (Fin a) (Fin b) = Fin (a + b)"
| "js_add NaN _ = NaN"
| "js_add _ NaN = NaN"
| "js_add PInf NInf = NaN"
| "js_add NInf PInf = NaN"
| "js_add PInf _ = PInf"
| "js_add _ PInf = PInf"
| "js_add NInf _ = NInf"
| "js_add _ NInf = NInf"

fun js_mul :: "jsnum \<Rightarrow> jsnum \<Rightarrow> jsnum" where
  "js_mul (Fin a) (Fin b) = Fin (a * b)"
| "js_mul NaN _ = NaN"
| "js_mul _ NaN = NaN"
| "js_mul (Fin a) x = (if a = 0 then NaN else if 0 < a then x else js_neg x)"
| "js_mul x (Fin b) = (if b = 0 then NaN else if 0 < b then x else js_neg x)"
| "js_mul PInf x = x"
| "js_mul NInf x = js_neg x"

text \<open>\<^verbatim>\<open>Math.pow(x, n)\<close> for a whole exponent \<open>n \<ge> 0\<close>.\<close>

fun js_pow :: "jsnum \<Rightarrow> nat \<Rightarrow> jsnum" where
  "js_pow x 0 = Fin 1"
| "js_pow (Fin a) n = Fin (a ^ n)"
| "js_pow PInf n = PInf"
| "js_pow NInf n = (if even n then PInf else NInf)"
| "js_pow NaN n = NaN"

fun js_le :: "jsnum \<Rightarrow> jsnum \<Rightarrow> bool" where
  "js_le NaN _ = False"
| "js_le _ NaN = False"
| "js_le NInf _ = True"
| "js_le _ PInf = True"
| "js_le (Fin a) (Fin b) = (a \<le> b)"
| "js_le _ _ = False"

definition js_min :: "jsnum \<Rightarrow> jsnum \<Rightarrow> jsnum" where
  "js_min a b = (if js_is_nan a \<or> js_is_nan b then NaN else if js_le a b then a else b)"

definition js_max :: "jsnum \<Rightarrow> jsnum \<Rightarrow> jsnum" where
  "js_max a b = (if js_is_nan a \<or> js_is_nan b then NaN else if js_le b a then a else b)"

fun js_floor :: "jsnum \<Rightarrow> jsnum" where
  "js_floor (Fin a) = Fin (of_int \<lfloor>a\<rfloor>)"
| "js_floor x = x"

fun js_trunc :: "jsnum \<Rightarrow> jsnum" where
  "js_trunc (Fin a) = Fin (of_int (if 0 \<le> a then \<lfloor>a\<rfloor> else \<lceil>a\<rceil>))"
| "js_trunc x = x"

section \<open>The backoff\<close>

definition clamp_ms :: "jsnum \<Rightarrow> jsnum \<Rightarrow> jsnum \<Rightarrow> jsnum" where
  "clamp_ms value mn mx =
     (if js_is_nan value \<or> \<not> js_is_finite value then mn
      else js_min mx (js_max mn (js_trunc value)))"

record backoff_options =
  opt_base_ms :: "jsnum option"
  opt_factor :: "jsnum option"
  opt_max_ms :: "jsnum option"
  opt_jitter :: "jsnum option"

text \<open>The closure's constants and its one variable, \<^verbatim>\<open>attempt\<close>.\<close>

record backoff =
  base_ms :: jsnum
  factor :: jsnum
  max_ms :: jsnum
  jitter :: jsnum
  attempt :: nat

definition create_exponential_backoff :: "backoff_options \<Rightarrow> backoff" where
  "create_exponential_backoff options =
     (let base = clamp_ms (coalesce_opt (opt_base_ms options) (Fin 1000)) (Fin 50) (Fin 60000)
      in \<lparr>base_ms = base,
          factor = coalesce_opt (opt_factor options) (Fin 2),
          max_ms = clamp_ms (coalesce_opt (opt_max_ms options) (Fin (5 * 60000))) base
                     (Fin (60 * 60000)),
          jitter = coalesce_opt (opt_jitter options) (Fin (1 / 5)),
          attempt = 0\<rparr>)"

definition next_delay_ms :: "rat \<Rightarrow> backoff \<Rightarrow> jsnum \<times> backoff" where
  "next_delay_ms random b =
     (let raw = js_mul (base_ms b) (js_pow (factor b) (attempt b));
          capped = js_min (max_ms b) raw;
          normalized = clamp_ms capped (base_ms b) (max_ms b);
          jitter_factor = js_max (Fin 0) (jitter b);
          delay = js_add normalized
                    (js_floor (js_mul (js_mul (Fin random) jitter_factor) normalized))
      in (clamp_ms delay (base_ms b) (max_ms b), b\<lparr>attempt := min (attempt b + 1) 64\<rparr>))"

definition reset_backoff :: "backoff \<Rightarrow> backoff" where
  "reset_backoff b = b\<lparr>attempt := 0\<rparr>"

section \<open>The delays stay in their bounds\<close>

lemma clamp_ms_fin:
  assumes "a \<le> (b::rat)"
  shows "\<exists>x. clamp_ms v (Fin a) (Fin b) = Fin x \<and> a \<le> x \<and> x \<le> b"
  using assms by (cases v) (auto simp: clamp_ms_def js_min_def js_max_def)

lemma clamp_ms_id: "a \<le> of_int n \<Longrightarrow> of_int n \<le> b \<Longrightarrow> clamp_ms (Fin (of_int n)) (Fin a) (Fin b) = Fin (of_int n)"
  by (auto simp: clamp_ms_def js_min_def js_max_def)

lemma clamp_ms_int:
  "clamp_ms (Fin (of_int v)) (Fin (of_int a)) (Fin (of_int b)) = Fin (of_int (min b (max a v)))"
  by (auto simp: clamp_ms_def js_min_def js_max_def min_def max_def)

definition wf_backoff :: "backoff \<Rightarrow> bool" where
  "wf_backoff b =
     (case (base_ms b, max_ms b) of
        (Fin lo, Fin hi) \<Rightarrow> 50 \<le> lo \<and> lo \<le> 60000 \<and> lo \<le> hi \<and> hi \<le> 3600000 \<and> attempt b \<le> 64
      | _ \<Rightarrow> False)"

lemma wf_backoffE:
  assumes "wf_backoff b"
  obtains lo hi where "base_ms b = Fin lo" "max_ms b = Fin hi" "50 \<le> lo" "lo \<le> 60000" "lo \<le> hi"
    "hi \<le> 3600000" "attempt b \<le> 64"
  using assms by (auto simp: wf_backoff_def split: jsnum.splits)

lemma wf_create: "wf_backoff (create_exponential_backoff options)"
proof -
  let ?v = "coalesce_opt (opt_base_ms options) (Fin 1000)"
  let ?w = "coalesce_opt (opt_max_ms options) (Fin (5 * 60000))"
  obtain lo where lo: "clamp_ms ?v (Fin 50) (Fin 60000) = Fin lo" "50 \<le> lo" "lo \<le> 60000"
    using clamp_ms_fin [of 50 60000 ?v] by auto
  obtain hi where hi: "clamp_ms ?w (Fin lo) (Fin 3600000) = Fin hi" "lo \<le> hi" "hi \<le> 3600000"
    using clamp_ms_fin [of lo 3600000 ?w] lo by auto
  show ?thesis
    using lo hi by (simp add: wf_backoff_def create_exponential_backoff_def Let_def)
qed

lemma wf_next: "wf_backoff b \<Longrightarrow> wf_backoff (snd (next_delay_ms r b))"
  by (simp add: wf_backoff_def next_delay_ms_def Let_def split: jsnum.splits)

lemma wf_reset: "wf_backoff b \<Longrightarrow> wf_backoff (reset_backoff b)"
  by (simp add: wf_backoff_def reset_backoff_def split: jsnum.splits)

lemma next_delay_range:
  assumes "wf_backoff b" and "base_ms b = Fin lo" and "max_ms b = Fin hi"
  shows "\<exists>d. fst (next_delay_ms r b) = Fin d \<and> lo \<le> d \<and> d \<le> hi"
proof -
  have "lo \<le> hi" using assms by (simp add: wf_backoff_def)
  then show ?thesis
    using clamp_ms_fin assms(2,3) by (simp add: next_delay_ms_def Let_def)
qed

lemma next_delay_keeps [simp]:
  "base_ms (snd (next_delay_ms r b)) = base_ms b" "max_ms (snd (next_delay_ms r b)) = max_ms b"
  "factor (snd (next_delay_ms r b)) = factor b" "jitter (snd (next_delay_ms r b)) = jitter b"
  "attempt (snd (next_delay_ms r b)) = min (attempt b + 1) 64"
  by (simp_all add: next_delay_ms_def Let_def)

lemma reset_keeps [simp]:
  "base_ms (reset_backoff b) = base_ms b" "max_ms (reset_backoff b) = max_ms b"
  "factor (reset_backoff b) = factor b" "jitter (reset_backoff b) = jitter b"
  "attempt (reset_backoff b) = 0"
  by (simp_all add: reset_backoff_def)

text \<open>
  The delay after \<open>attempt b\<close> failures for whole-number settings: the exponential value, cut
  at the maximum, plus at most the jitter share of it.
\<close>

definition exp_delay :: "int \<Rightarrow> int \<Rightarrow> nat \<Rightarrow> int" where
  "exp_delay base mx n = min mx (base * 2 ^ n)"

lemma next_delay_exponential:
  assumes b: "base_ms b = Fin (of_int base)" "max_ms b = Fin (of_int mx)" "factor b = Fin 2"
    "jitter b = Fin j"
    and ok: "0 < base" "base \<le> mx" "0 \<le> j" and r: "0 \<le> r" "r < 1"
  shows "\<exists>d. fst (next_delay_ms r b) = Fin (of_int d) \<and>
           exp_delay base mx (attempt b) \<le> d \<and> d \<le> mx \<and>
           of_int d \<le> (1 + j) * of_int (exp_delay base mx (attempt b))"
proof -
  let ?n = "exp_delay base mx (attempt b)"
  let ?extra = "\<lfloor>r * j * of_int ?n\<rfloor>"
  have pow: "js_pow (Fin 2) (attempt b) = Fin (2 ^ attempt b)"
    by (cases "attempt b") auto
  have p1: "(1::int) \<le> 2 ^ attempt b" by simp
  then have "base * 1 \<le> base * 2 ^ attempt b" using ok(1) by (intro mult_left_mono) auto
  then have n: "base \<le> ?n" "?n \<le> mx" using ok by (auto simp: exp_delay_def)
  have cap: "js_min (Fin (of_int mx)) (Fin (of_int base * 2 ^ attempt b)) =
      Fin (of_int ?n)"
  proof -
    have e: "(of_int base * 2 ^ attempt b :: rat) = of_int (base * 2 ^ attempt b)" by simp
    have "js_min (Fin (of_int mx)) (Fin (of_int x)) = Fin (of_int (min mx x))" for x
      by (simp add: js_min_def min_def)
    then show ?thesis by (simp only: e exp_delay_def)
  qed
  have norm: "clamp_ms (Fin (of_int ?n)) (Fin (of_int base)) (Fin (of_int mx)) = Fin (of_int ?n)"
    using n by (intro clamp_ms_id) auto
  have jf: "js_max (Fin 0) (Fin j) = Fin j" using ok(3) by (auto simp: js_max_def)
  have val: "fst (next_delay_ms r b) =
      clamp_ms (Fin (of_int (?n + ?extra))) (Fin (of_int base)) (Fin (of_int mx))"
    by (simp add: next_delay_ms_def Let_def b pow cap norm jf)
  have nn: "0 \<le> (of_int ?n :: rat)" using n ok(1) by simp
  have e0: "0 \<le> ?extra" using r ok(3) nn by simp
  have "(r * j) * of_int ?n \<le> j * of_int ?n"
    using r ok(3) nn by (intro mult_right_mono) (auto intro: mult_left_le_one_le)
  then have e1: "(of_int ?extra :: rat) \<le> j * of_int ?n" by linarith
  have "fst (next_delay_ms r b) = Fin (of_int (min mx (?n + ?extra)))"
  proof -
    have "max base (?n + ?extra) = ?n + ?extra" using n(1) e0 by linarith
    then show ?thesis unfolding val clamp_ms_int by simp
  qed
  moreover have "?n \<le> min mx (?n + ?extra)" "min mx (?n + ?extra) \<le> mx" using n e0 by auto
  moreover have "of_int (min mx (?n + ?extra)) \<le> (1 + j) * (of_int ?n :: rat)"
    using e1 by (simp add: min_def algebra_simps)
  ultimately show ?thesis by blast
qed

lemma exp_delay_mono: "0 \<le> base \<Longrightarrow> m \<le> n \<Longrightarrow> exp_delay base mx m \<le> exp_delay base mx n"
proof -
  assume "0 \<le> base" "m \<le> n"
  then have "base * 2 ^ m \<le> base * 2 ^ n" by (intro mult_left_mono power_increasing) auto
  then show ?thesis unfolding exp_delay_def by (rule min.mono [OF order_refl])
qed

end
