(* ===== verification/BoardModel.thy ===== *)
theory BoardModel
  imports ApiModel Datetime Url Backoff
begin

text \<open>
  The data of the board page (\<^verbatim>\<open>app/boards/[boardId]/page.tsx\<close>) before its state: display
  names (\<^verbatim>\<open>lib/display-name.ts\<close>), the items of the live feed and the conversions that
  produce them, merging of comments, the normal forms of tasks, agents, approvals and tag
  colours, error texts, access rights and the URL of a selection. Formatting by the locale is
  the parameter \<open>fmt\<close>.
\<close>

section \<open>Display names\<close>

definition default_human_label :: string where
  "default_human_label = ''User''"

definition normalize_display_name :: "string option \<Rightarrow> string option" where
  "normalize_display_name value =
     (let trimmed = trim (coalesce_opt value []) in if length trimmed > 0 then Some trimmed else None)"

definition resolve_human_actor_name :: "string option \<Rightarrow> string \<Rightarrow> string" where
  "resolve_human_actor_name value fallback_name =
     (case normalize_display_name value of
        None \<Rightarrow> fallback_name
      | Some normalized \<Rightarrow>
          (let lowered = to_lower normalized
           in if lowered = ''admin'' \<or> lowered = ''user'' then fallback_name else normalized))"

definition resolve_member_display_name :: "member option \<Rightarrow> string \<Rightarrow> string" where
  "resolve_member_display_name m fallback_name =
     (let user = (case m of None \<Rightarrow> None | Some mb \<Rightarrow> or_null (member_user mb));
          preferred = (case user of None \<Rightarrow> None | Some u \<Rightarrow> or_null (user_preferred_name u));
          plain = (case user of None \<Rightarrow> None | Some u \<Rightarrow> or_null (user_name u))
      in resolve_human_actor_name
           (case normalize_display_name preferred of
              Some n \<Rightarrow> Some n
            | None \<Rightarrow> normalize_display_name plain) fallback_name)"

section \<open>Live feed items\<close>

datatype feed_event =
    Task_comment | Task_created | Task_updated | Task_status_changed | Board_chat | Board_command
  | Agent_created | Agent_online | Agent_offline | Agent_updated
  | Approval_created | Approval_updated | Approval_approved | Approval_rejected

fun feed_event_string :: "feed_event \<Rightarrow> string" where
  "feed_event_string Task_comment = ''task.comment''"
| "feed_event_string Task_created = ''task.created''"
| "feed_event_string Task_updated = ''task.updated''"
| "feed_event_string Task_status_changed = ''task.status_changed''"
| "feed_event_string Board_chat = ''board.chat''"
| "feed_event_string Board_command = ''board.command''"
| "feed_event_string Agent_created = ''agent.created''"
| "feed_event_string Agent_online = ''agent.online''"
| "feed_event_string Agent_offline = ''agent.offline''"
| "feed_event_string Agent_updated = ''agent.updated''"
| "feed_event_string Approval_created = ''approval.created''"
| "feed_event_string Approval_updated = ''approval.updated''"
| "feed_event_string Approval_approved = ''approval.approved''"
| "feed_event_string Approval_rejected = ''approval.rejected''"

definition live_feed_event_types :: "feed_event list" where
  "live_feed_event_types =
     [Task_comment, Task_created, Task_updated, Task_status_changed, Board_chat, Board_command,
      Agent_created, Agent_online, Agent_offline, Agent_updated,
      Approval_created, Approval_updated, Approval_approved, Approval_rejected]"

record feed_item =
  lf_id :: string
  lf_created_at :: string
  lf_message :: "string option"
  lf_agent_id :: "string option"
  lf_actor_name :: "string optional"
  lf_task_id :: "string option"
  lf_title :: "string optional"
  lf_event :: feed_event

text \<open>The type guard on strings, with the event type it narrows to.\<close>

definition is_live_feed_event_type :: "string \<Rightarrow> feed_event option" where
  "is_live_feed_event_type value =
     List.find (\<lambda>e. feed_event_string e = value) live_feed_event_types"

definition to_live_feed_from_activity :: "activity \<Rightarrow> feed_item option" where
  "to_live_feed_from_activity event =
     (case is_live_feed_event_type (activity_event_type event) of
        None \<Rightarrow> None
      | Some e \<Rightarrow> Some \<lparr>lf_id = activity_id event, lf_created_at = activity_created_at event,
          lf_message = activity_message event, lf_agent_id = activity_agent_id event,
          lf_actor_name = Missing, lf_task_id = activity_task_id event, lf_title = Null,
          lf_event = e\<rparr>)"

definition to_live_feed_from_comment :: "comment \<Rightarrow> feed_item" where
  "to_live_feed_from_comment c =
     \<lparr>lf_id = comment_id c, lf_created_at = comment_created_at c, lf_message = comment_message c,
      lf_agent_id = comment_agent_id c, lf_actor_name = Null, lf_task_id = comment_task_id c,
      lf_title = Null, lf_event = Task_comment\<rparr>"

definition to_live_feed_from_board_chat :: "memory \<Rightarrow> feed_item" where
  "to_live_feed_from_board_chat m =
     (let content = trim (coalesce_opt (memory_content m) []);
          actor_name = resolve_human_actor_name (or_null (memory_source m)) default_human_label;
          is_command = starts_with content ''/''
      in \<lparr>lf_id = ''chat:'' @ memory_id m, lf_created_at = memory_created_at m,
          lf_message = (if content = [] then None else Some content), lf_agent_id = None,
          lf_actor_name = Val actor_name, lf_task_id = None,
          lf_title = Val (if is_command then ''Board command'' else ''Board chat''),
          lf_event = (if is_command then Board_command else Board_chat)\<rparr>)"

section \<open>Merging comments\<close>

definition time_or_zero :: "string \<Rightarrow> int" where
  "time_or_zero s = coalesce_opt (api_datetime_to_ms (Some s)) 0"

text \<open>Every property of a comment is required, so a spread of two of them is the second one.\<close>

definition newer_comment :: "comment \<Rightarrow> comment \<Rightarrow> comment" where
  "newer_comment existing incoming =
     (if time_or_zero (comment_created_at incoming) \<ge> time_or_zero (comment_created_at existing)
      then incoming else existing)"

definition collect_comment :: "(string \<times> comment) list \<Rightarrow> comment \<Rightarrow> (string \<times> comment) list" where
  "collect_comment by_id c =
     (case map_of by_id (comment_id c) of
        None \<Rightarrow> by_id @ [(comment_id c, c)]
      | Some existing \<Rightarrow> AList.update (comment_id c) (newer_comment existing c) by_id)"

definition comment_time :: "comment \<Rightarrow> int" where
  "comment_time c = time_or_zero (comment_created_at c)"

definition merge_comments_by_id :: "comment list list \<Rightarrow> comment list" where
  "merge_comments_by_id collections =
     js_sort (by_key_desc comment_time)
       (map snd (foldl collect_comment [] (concat collections)))"

section \<open>Agents\<close>

definition normalize_agent_status :: "string option \<Rightarrow> string" where
  "normalize_agent_status value =
     (let status = to_lower (trim (coalesce_opt value []))
      in if status = [] then ''offline'' else status)"

definition humanize_agent_status :: "string \<Rightarrow> string" where
  "humanize_agent_status value =
     (let t = trim (replace_chars (\<lambda>c. c = CHR ''_'') (CHR '' '') value)
      in if t = [] then ''offline'' else t)"

definition agent_stamp :: "agent_read \<Rightarrow> string" where
  "agent_stamp a =
     coalesce (agent_last_seen_at a) (coalesce_opt (agent_updated_at a) (agent_created_at a))"

definition to_live_feed_from_agent_snapshot :: "agent_read \<Rightarrow> feed_item" where
  "to_live_feed_from_agent_snapshot a =
     (let status = normalize_agent_status (agent_status a);
          stamp = agent_stamp a;
          event = (if status = ''online'' then Agent_online
                   else if status = ''offline'' then Agent_offline else Agent_updated)
      in \<lparr>lf_id = ''agent:'' @ agent_id a @ '':snapshot:'' @ status @ '':'' @ stamp,
          lf_created_at = stamp,
          lf_message = Some (agent_name a @ '' is '' @ humanize_agent_status status @ ''.''),
          lf_agent_id = Some (agent_id a), lf_actor_name = Null, lf_task_id = None,
          lf_title = Val (''Agent '' @ middle_dot @ '' '' @ agent_name a), lf_event = event\<rparr>)"

text \<open>\<^verbatim>\<open>JSON.stringify(agent.identity_profile ?? {})\<close>.\<close>

definition profile_text :: "agent_read \<Rightarrow> string option" where
  "profile_text a = stringify (coalesce_opt (agent_identity_profile a) (JObj []))"

definition agent_event :: "agent_read \<Rightarrow> agent_read option \<Rightarrow> feed_event option" where
  "agent_event a previous =
     (let next_status = normalize_agent_status (agent_status a) in
      case previous of
        None \<Rightarrow> Some Agent_created
      | Some p \<Rightarrow>
          (let status_changed = (next_status \<noteq> normalize_agent_status (agent_status p));
               profile_changed = (agent_name p \<noteq> agent_name a \<or>
                 agent_is_board_lead p \<noteq> agent_is_board_lead a \<or> profile_text p \<noteq> profile_text a)
           in if status_changed \<and> next_status = ''online'' then Some Agent_online
              else if status_changed \<and> next_status = ''offline'' then Some Agent_offline
              else if status_changed \<or> profile_changed then Some Agent_updated
              else None))"

definition to_live_feed_from_agent_update :: "agent_read \<Rightarrow> agent_read option \<Rightarrow> feed_item option" where
  "to_live_feed_from_agent_update a previous =
     (case agent_event a previous of
        None \<Rightarrow> None
      | Some event \<Rightarrow>
          (let stamp = agent_stamp a;
               next_status = normalize_agent_status (agent_status a);
               message = (if event = Agent_created then agent_name a @ '' joined this board.''
                 else if event = Agent_online then agent_name a @ '' is online.''
                 else if event = Agent_offline then agent_name a @ '' is offline.''
                 else agent_name a @ '' updated ('' @ humanize_agent_status next_status @ '').'')
           in Some \<lparr>lf_id = ''agent:'' @ agent_id a @ '':'' @ feed_event_string event @ '':'' @ stamp,
             lf_created_at = stamp, lf_message = Some message, lf_agent_id = Some (agent_id a),
             lf_actor_name = Null, lf_task_id = None,
             lf_title = Val (''Agent '' @ middle_dot @ '' '' @ agent_name a), lf_event = event\<rparr>))"

section \<open>Approvals\<close>

definition capitalize :: "string \<Rightarrow> string" where
  "capitalize s = (case s of [] \<Rightarrow> [] | c # cs \<Rightarrow> upper_char c # cs)"

definition humanize_live_feed_approval_action :: "string \<Rightarrow> string" where
  "humanize_live_feed_approval_action value =
     (let cleaned = trim (replace_runs (\<lambda>c. c \<in> {CHR ''.'', CHR ''_'', CHR ''-''}) (CHR '' '') value)
      in if cleaned = [] then ''Approval'' else capitalize cleaned)"

definition approval_event :: "approval_read \<Rightarrow> approval_read option \<Rightarrow> feed_event" where
  "approval_event a previous =
     (let next_status = coalesce_opt (approval_status a) ''pending'';
          previous_status = (case previous of None \<Rightarrow> None | Some p \<Rightarrow> approval_status p)
      in case previous_status of
           None \<Rightarrow>
             (if next_status = ''approved'' then Approval_approved
              else if next_status = ''rejected'' then Approval_rejected
              else Approval_created)
         | Some ps \<Rightarrow>
             (if next_status \<noteq> ps then
                (if next_status = ''approved'' then Approval_approved
                 else if next_status = ''rejected'' then Approval_rejected
                 else Approval_updated)
              else Approval_updated))"

definition to_live_feed_from_approval :: "approval_read \<Rightarrow> approval_read option \<Rightarrow> feed_item" where
  "to_live_feed_from_approval a previous =
     (let next_status = coalesce_opt (approval_status a) ''pending'';
          event = approval_event a previous;
          stamp = (if event = Approval_created then approval_created_at a
                   else coalesce (approval_resolved_at a) (approval_created_at a));
          action = humanize_live_feed_approval_action (approval_action_type a);
          status_text = (if next_status = ''approved'' then ''approved''
                         else if next_status = ''rejected'' then ''rejected'' else ''pending'');
          conf = num_to_string (approval_confidence a);
          message = (if event = Approval_created then
              action @ '' requested ('' @ conf @ ''% confidence).''
            else if event = Approval_approved then
              action @ '' approved ('' @ conf @ ''% confidence).''
            else if event = Approval_rejected then
              action @ '' rejected ('' @ conf @ ''% confidence).''
            else action @ '' updated ('' @ status_text @ '', '' @ conf @ ''% confidence).'')
      in \<lparr>lf_id = ''approval:'' @ approval_id a @ '':'' @ feed_event_string event @ '':'' @ stamp,
          lf_created_at = stamp, lf_message = Some message,
          lf_agent_id = or_null (approval_agent_id a), lf_actor_name = Null,
          lf_task_id = or_null (approval_task_id a),
          lf_title = Val (''Approval '' @ middle_dot @ '' '' @ action), lf_event = event\<rparr>)"

section \<open>Labels and colours of the feed\<close>

fun live_feed_event_label :: "feed_event \<Rightarrow> string" where
  "live_feed_event_label Task_comment = ''Comment''"
| "live_feed_event_label Task_created = ''Created''"
| "live_feed_event_label Task_status_changed = ''Status''"
| "live_feed_event_label Board_chat = ''Chat''"
| "live_feed_event_label Board_command = ''Command''"
| "live_feed_event_label Agent_created = ''Agent''"
| "live_feed_event_label Agent_online = ''Online''"
| "live_feed_event_label Agent_offline = ''Offline''"
| "live_feed_event_label Agent_updated = ''Agent update''"
| "live_feed_event_label Approval_created = ''Approval''"
| "live_feed_event_label Approval_updated = ''Approval update''"
| "live_feed_event_label Approval_approved = ''Approved''"
| "live_feed_event_label Approval_rejected = ''Rejected''"
| "live_feed_event_label Task_updated = ''Updated''"

fun live_feed_event_pill_class :: "feed_event \<Rightarrow> string" where
  "live_feed_event_pill_class Task_comment = ''border-blue-200 bg-blue-50 text-blue-700''"
| "live_feed_event_pill_class Task_created = ''border-emerald-200 bg-emerald-50 text-emerald-700''"
| "live_feed_event_pill_class Task_status_changed = ''border-amber-200 bg-amber-50 text-amber-700''"
| "live_feed_event_pill_class Board_chat = ''border-teal-200 bg-teal-50 text-teal-700''"
| "live_feed_event_pill_class Board_command = ''border-fuchsia-200 bg-fuchsia-50 text-fuchsia-700''"
| "live_feed_event_pill_class Agent_created = ''border-violet-200 bg-violet-50 text-violet-700''"
| "live_feed_event_pill_class Agent_online = ''border-lime-200 bg-lime-50 text-lime-700''"
| "live_feed_event_pill_class Agent_offline = ''border-slate-300 bg-slate-100 text-slate-700''"
| "live_feed_event_pill_class Agent_updated = ''border-indigo-200 bg-indigo-50 text-indigo-700''"
| "live_feed_event_pill_class Approval_created = ''border-cyan-200 bg-cyan-50 text-cyan-700''"
| "live_feed_event_pill_class Approval_updated = ''border-sky-200 bg-sky-50 text-sky-700''"
| "live_feed_event_pill_class Approval_approved = ''border-emerald-200 bg-emerald-50 text-emerald-700''"
| "live_feed_event_pill_class Approval_rejected = ''border-rose-200 bg-rose-50 text-rose-700''"
| "live_feed_event_pill_class Task_updated = ''border-slate-200 bg-slate-100 text-slate-700''"

section \<open>Normal forms\<close>

definition normalize_task :: "task_card_read \<Rightarrow> task_card_read" where
  "normalize_task t =
     t\<lparr>tr_status := Some (coalesce_opt (tr_status t) Inbox),
       tr_priority := Some (coalesce_opt (tr_priority t) ''medium''),
       tr_approvals_count := Some (coalesce_opt (tr_approvals_count t) 0),
       tr_approvals_pending_count := Some (coalesce_opt (tr_approvals_pending_count t) 0)\<rparr>"

definition normalize_agent :: "agent_read \<Rightarrow> agent_read" where
  "normalize_agent a = a\<lparr>agent_status := Some (coalesce_opt (agent_status a) ''offline'')\<rparr>"

definition normalize_approval :: "approval_read \<Rightarrow> approval_read" where
  "normalize_approval a = a\<lparr>approval_status := Some (coalesce_opt (approval_status a) ''pending'')\<rparr>"

definition is_lower_hex :: "char \<Rightarrow> bool" where
  "is_lower_hex c \<longleftrightarrow> is_digit c \<or> (97 \<le> code c \<and> code c \<le> 102)"

definition normalize_tag_color :: "string option \<Rightarrow> string" where
  "normalize_tag_color value =
     (let t = trim (coalesce_opt value []);
          cleaned = to_lower (if starts_with t ''#'' then tl t else t)
      in if \<not> (length cleaned = 6 \<and> list_all is_lower_hex cleaned) then ''9e9e9e'' else cleaned)"

section \<open>Display, errors, access, URLs\<close>

definition format_short_timestamp :: "(int \<Rightarrow> string) \<Rightarrow> string \<Rightarrow> string" where
  "format_short_timestamp fmt value =
     (case parse_api_datetime (Some value) of None \<Rightarrow> em_dash | Some date \<Rightarrow> fmt date)"

definition comment_element_id :: "string \<Rightarrow> string" where
  "comment_element_id i =
     ''task-comment-'' @
       replace_chars (\<lambda>c. \<not> (is_alnum c \<or> c = CHR ''_'' \<or> c = CHR ''-'')) (CHR ''-'') i"

definition format_action_error :: "js_error \<Rightarrow> string \<Rightarrow> string" where
  "format_action_error err fallback =
     (case err of
        Api_error st m \<Rightarrow>
          (if st = 403 then ''Read-only access. You do not have permission to make changes.''
           else if m = [] then fallback else m)
      | Js_error m \<Rightarrow> if m \<noteq> [] then m else fallback
      | Other_error \<Rightarrow> fallback)"

definition resolve_board_access :: "member option \<Rightarrow> string option \<Rightarrow> bool \<times> bool" where
  "resolve_board_access m board =
     (case (m, board) of
        (Some mb, Some b) \<Rightarrow>
          (if b = [] then (False, False)
           else if member_all_boards_write mb then (True, True)
           else if member_all_boards_read mb then (True, False)
           else (case List.find (\<lambda>a. access_board_id a = b) (coalesce_opt (member_board_access mb) []) of
                   None \<Rightarrow> (False, False)
                 | Some entry \<Rightarrow>
                     (access_can_read entry \<or> access_can_write entry, access_can_write entry)))
      | _ \<Rightarrow> (False, False))"

definition is_org_admin :: "member option \<Rightarrow> bool" where
  "is_org_admin m = (case m of None \<Rightarrow> False | Some mb \<Rightarrow> member_role mb \<in> {''owner'', ''admin''})"

definition set_or_delete :: "string \<Rightarrow> string option \<Rightarrow> search_params \<Rightarrow> search_params" where
  "set_or_delete k v ps =
     (case v of
        Some x \<Rightarrow> if x \<noteq> [] then params_set k x ps else params_delete k ps
      | None \<Rightarrow> params_delete k ps)"

definition non_empty_string :: "string \<Rightarrow> string option" where
  "non_empty_string s = (if s = [] then None else Some s)"

definition build_url_with_task_and_comment ::
  "string \<Rightarrow> search_params \<Rightarrow> string option \<Rightarrow> string option \<Rightarrow> bool \<Rightarrow> string" where
  "build_url_with_task_and_comment pathname params task cmt panel =
     (let params1 = set_or_delete ''taskId'' task params;
          params2 = set_or_delete ''commentId'' cmt params1;
          params3 = set_or_delete ''panel'' (if panel then Some ''chat'' else None) params2;
          next_str = params_to_string params3
      in if next_str \<noteq> [] then pathname @ ''?'' @ next_str else pathname)"

definition board_custom_field_definitions ::
  "(string \<Rightarrow> string \<Rightarrow> int) \<Rightarrow> string option \<Rightarrow> field_def list option \<Rightarrow> field_def list" where
  "board_custom_field_definitions lc board data =
     (case (board, data) of
        (Some b, Some defs) \<Rightarrow>
          (if b = [] then []
           else js_sort (\<lambda>l r. lc (if coalesce_opt (fd_label l) [] = [] then fd_key l else the (fd_label l))
                                  (if coalesce_opt (fd_label r) [] = [] then fd_key r else the (fd_label r)))
                  (filter (\<lambda>d. b \<in> set (coalesce_opt (fd_board_ids d) [])) defs))
      | _ \<Rightarrow> [])"

section \<open>Facts\<close>

lemma normalize_task_idem [simp]: "normalize_task (normalize_task t) = normalize_task t"
  by (simp add: normalize_task_def coalesce_opt_def)

lemma normalize_ids [simp]:
  "tr_id (normalize_task t) = tr_id t" "agent_id (normalize_agent a) = agent_id a"
  "approval_id (normalize_approval p) = approval_id p"
  by (simp_all add: normalize_task_def normalize_agent_def normalize_approval_def)

lemma feed_event_string_inject: "feed_event_string a = feed_event_string b \<Longrightarrow> a = b"
  by (cases a; cases b) simp_all

lemma is_live_feed_event_type_iff: "is_live_feed_event_type s = Some e \<longleftrightarrow> s = feed_event_string e"
proof -
  have "is_live_feed_event_type (feed_event_string e) = Some e"
    by (cases e) (simp_all add: is_live_feed_event_type_def live_feed_event_types_def)
  moreover have "is_live_feed_event_type s = Some e \<Longrightarrow> s = feed_event_string e"
    by (auto simp: is_live_feed_event_type_def find_Some_iff)
  ultimately show ?thesis by auto
qed

text \<open>Collecting comments by id: every entry is the newest input with its id so far.\<close>

definition newest_by_id :: "comment list \<Rightarrow> (string \<times> comment) list \<Rightarrow> bool" where
  "newest_by_id inputs by_id \<longleftrightarrow>
     distinct (map fst by_id) \<and> fst ` set by_id = comment_id ` set inputs \<and>
     (\<forall>(k, c) \<in> set by_id. comment_id c = k \<and> c \<in> set inputs \<and>
        (\<forall>d \<in> set inputs. comment_id d = k \<longrightarrow> comment_time d \<le> comment_time c))"

lemma newer_comment_time:
  "newer_comment a b \<in> {a, b} \<and> comment_time a \<le> comment_time (newer_comment a b) \<and>
   comment_time b \<le> comment_time (newer_comment a b)"
  by (auto simp: newer_comment_def comment_time_def)

lemma set_update_distinct:
  "distinct (map fst al) \<Longrightarrow> k \<in> fst ` set al \<Longrightarrow>
     set (AList.update k v al) = insert (k, v) {e \<in> set al. fst e \<noteq> k}"
  by (induction al) (auto simp: rev_image_eqI)

lemma collect_step:
  assumes "newest_by_id inputs by_id"
  shows "newest_by_id (inputs @ [c]) (collect_comment by_id c)"
proof (cases "map_of by_id (comment_id c)")
  case None
  then have new: "comment_id c \<notin> fst ` set by_id" by (simp add: map_of_eq_None_iff)
  with assms have "\<forall>d \<in> set inputs. comment_id d \<noteq> comment_id c"
    unfolding newest_by_id_def by (metis image_eqI)
  with None assms new show ?thesis by (fastforce simp: newest_by_id_def collect_comment_def)
next
  case (Some a)
  then have a: "(comment_id c, a) \<in> set by_id" by (rule map_of_SomeD)
  have k: "comment_id c \<in> fst ` set by_id" using a by (metis fst_conv image_eqI)
  have ida: "comment_id a = comment_id c" using assms a by (auto simp: newest_by_id_def)
  have upd: "set (AList.update (comment_id c) (newer_comment a c) by_id) =
      insert (comment_id c, newer_comment a c) {e \<in> set by_id. fst e \<noteq> comment_id c}"
    using assms k by (intro set_update_distinct) (auto simp: newest_by_id_def)
  have "comment_id (newer_comment a c) = comment_id c"
    using newer_comment_time [of a c] ida by auto
  moreover have "newer_comment a c \<in> set (inputs @ [c])"
    using newer_comment_time [of a c] assms a by (auto simp: newest_by_id_def)
  moreover have "comment_time d \<le> comment_time (newer_comment a c)"
    if "d \<in> set (inputs @ [c])" "comment_id d = comment_id c" for d
    using newer_comment_time [of a c] assms a that by (fastforce simp: newest_by_id_def)
  moreover have "fst ` set (AList.update (comment_id c) (newer_comment a c) by_id) =
      comment_id ` set (inputs @ [c])"
    using assms k by (simp add: dom_update newest_by_id_def insert_absorb)
  moreover have "distinct (map fst (AList.update (comment_id c) (newer_comment a c) by_id))"
    using assms by (simp add: distinct_update newest_by_id_def)
  ultimately show ?thesis
    using assms Some by (simp add: newest_by_id_def collect_comment_def upd) blast
qed

lemma collect_all: "newest_by_id xs (foldl collect_comment [] xs)"
  by (induction xs rule: rev_induct) (simp add: newest_by_id_def, simp add: collect_step)

lemma newest_by_id_ids: "newest_by_id xs by_id \<Longrightarrow> map comment_id (map snd by_id) = map fst by_id"
  by (auto simp: newest_by_id_def)

lemma merge_comments_distinct: "distinct (map comment_id (merge_comments_by_id css))"
proof -
  let ?al = "foldl collect_comment [] (concat css)"
  have c: "newest_by_id (concat css) ?al" by (rule collect_all)
  then have "distinct (map comment_id (map snd ?al))"
    unfolding newest_by_id_ids [OF c] by (simp add: newest_by_id_def)
  then show ?thesis by (simp add: merge_comments_by_id_def)
qed

text \<open>The entry of the comment that was merged last: that comment, unless a strictly newer one
  of its id was there.\<close>

lemma merge_comments_last:
  "comment_id c \<in> comment_id ` set (merge_comments_by_id [cs, [c]])"
  "x \<in> set (merge_comments_by_id [cs, [c]]) \<Longrightarrow> comment_id x = comment_id c \<Longrightarrow>
     comment_time c \<le> comment_time x \<and> (comment_time x = comment_time c \<longrightarrow> x = c)"
proof -
  let ?a = "foldl collect_comment [] cs"
  let ?al = "collect_comment ?a c"
  have n: "newest_by_id (cs @ [c]) ?al" using collect_all [of "cs @ [c]"] by simp
  have set_eq: "set (merge_comments_by_id [cs, [c]]) = snd ` set ?al"
    by (simp add: merge_comments_by_id_def)
  have "comment_id c \<in> fst ` set ?al" using n by (simp add: newest_by_id_def)
  then obtain y where "(comment_id c, y) \<in> set ?al" by auto
  moreover from this have "comment_id y = comment_id c" using n by (auto simp: newest_by_id_def)
  ultimately show "comment_id c \<in> comment_id ` set (merge_comments_by_id [cs, [c]])"
    unfolding set_eq by (metis image_eqI snd_conv)
  assume x: "x \<in> set (merge_comments_by_id [cs, [c]])" "comment_id x = comment_id c"
  then have xal: "(comment_id c, x) \<in> set ?al"
    unfolding set_eq using n by (auto simp: newest_by_id_def)
  then have look: "map_of ?al (comment_id c) = Some x"
    using n by (intro map_of_is_SomeI) (auto simp: newest_by_id_def)
  have "x = c \<or> (\<exists>a. x = newer_comment a c)"
    using look by (auto simp: collect_comment_def update_conv map_add_def
        split: option.splits if_splits)
  moreover have "comment_time c \<le> comment_time x"
    using n xal by (auto simp: newest_by_id_def)
  ultimately show "comment_time c \<le> comment_time x \<and> (comment_time x = comment_time c \<longrightarrow> x = c)"
    by (auto simp: newer_comment_def comment_time_def)
qed

section \<open>Properties\<close>

text \<open>Merging lists of comments yields one comment per id that occurs in them, the newest
  of that id, and the result is ordered from the newest to the oldest.\<close>

lemma merge_comments_correct:
  "distinct (map comment_id (merge_comments_by_id css)) \<and>
   comment_id ` set (merge_comments_by_id css) = comment_id ` set (concat css) \<and>
   (\<forall>c \<in> set (merge_comments_by_id css). c \<in> set (concat css) \<and>
      (\<forall>d \<in> set (concat css). comment_id d = comment_id c \<longrightarrow> comment_time d \<le> comment_time c)) \<and>
   sorted_wrt (\<lambda>a b. comment_time b \<le> comment_time a) (merge_comments_by_id css)"
proof -
  let ?al = "foldl collect_comment [] (concat css)"
  have c: "newest_by_id (concat css) ?al" by (rule collect_all)
  have "distinct (map comment_id (map snd ?al))"
    unfolding newest_by_id_ids [OF c] using c by (simp add: newest_by_id_def)
  moreover have "comment_id ` set (map snd ?al) = comment_id ` set (concat css)"
    using c arg_cong [OF newest_by_id_ids [OF c], of set] by (simp add: newest_by_id_def image_image)
  moreover have "\<forall>c \<in> set (map snd ?al). c \<in> set (concat css) \<and>
      (\<forall>d \<in> set (concat css). comment_id d = comment_id c \<longrightarrow> comment_time d \<le> comment_time c)"
    using c by (auto simp: newest_by_id_def)
  moreover have "sorted_wrt (\<lambda>a b. comment_time b \<le> comment_time a) (merge_comments_by_id css)"
    using by_key_desc.sorted_sort [of comment_time "map snd ?al"]
    by (simp add: merge_comments_by_id_def by_key_desc_def)
  ultimately show ?thesis by (simp add: merge_comments_by_id_def)
qed

lemma merge_comments_witness:
  "let c1 = \<lparr>comment_id = ''c1'', comment_created_at = ''t'', comment_message = Some ''old'',
               comment_agent_id = None, comment_task_id = Some ''t1''\<rparr>;
       c2 = c1\<lparr>comment_message := Some ''new''\<rparr>
   in merge_comments_by_id [[c1], [c2]] = [c2] \<and> comment_time c1 \<le> comment_time c2"
proof -
  let ?c1 = "\<lparr>comment_id = ''c1'', comment_created_at = ''t'', comment_message = Some ''old'',
               comment_agent_id = None, comment_task_id = Some ''t1''\<rparr>"
  let ?c2 = "?c1\<lparr>comment_message := Some ''new''\<rparr>"
  have m: "merge_comments_by_id [[?c1], [?c2]] = [?c2]"
    by (simp add: merge_comments_by_id_def collect_comment_def newer_comment_def js_sort_def)
  have "comment_time ?c1 \<le> comment_time ?c2"
    using merge_comments_correct [of "[[?c1], [?c2]]"] unfolding m by simp
  with m show ?thesis by (simp add: Let_def)
qed

text \<open>Write access to a board implies read access, and either is granted exactly by the
  member's global rights or, where there are none, by the first entry for the board.\<close>

lemma board_access_correct:
  "resolve_board_access m board = (can_read, can_write) \<longleftrightarrow>
     (case (m, board) of
        (Some mb, Some b) \<Rightarrow>
          (let entry = List.find (\<lambda>a. access_board_id a = b) (coalesce_opt (member_board_access mb) []);
               global = member_all_boards_write mb \<or> member_all_boards_read mb
           in can_write = (b \<noteq> [] \<and> (member_all_boards_write mb \<or>
                 \<not> global \<and> (\<exists>e. entry = Some e \<and> access_can_write e))) \<and>
              can_read = (can_write \<or> b \<noteq> [] \<and> (global \<or> (\<exists>e. entry = Some e \<and> access_can_read e))))
      | _ \<Rightarrow> \<not> can_read \<and> \<not> can_write)"
  by (auto simp: resolve_board_access_def Let_def split: option.splits)

lemma built_url_split:
  assumes "CHR ''?'' \<notin> set pathname"
  shows "tl (dropWhile (\<lambda>c. c \<noteq> CHR ''?'') (if q \<noteq> [] then pathname @ ''?'' @ q else pathname)) = q \<and>
         takeWhile (\<lambda>c. c \<noteq> CHR ''?'') (if q \<noteq> [] then pathname @ ''?'' @ q else pathname) = pathname"
proof -
  have "\<forall>c \<in> set pathname. c \<noteq> CHR ''?''" using assms by auto
  then have d: "dropWhile (\<lambda>c. c \<noteq> CHR ''?'') (pathname @ t) = dropWhile (\<lambda>c. c \<noteq> CHR ''?'') t"
    "takeWhile (\<lambda>c. c \<noteq> CHR ''?'') (pathname @ t) = pathname @ takeWhile (\<lambda>c. c \<noteq> CHR ''?'') t" for t
    by (simp_all add: dropWhile_append2 takeWhile_append2)
  have "tl (dropWhile (\<lambda>c. c \<noteq> CHR ''?'') pathname) = []"
    using d(1) [of "[]"] by (simp only: append_Nil2 dropWhile.simps list.sel)
  with d [of "''?'' @ q"] d(2) [of "[]"] show ?thesis by simp
qed

lemma get_set_or_delete:
  "params_get j (set_or_delete k v ps) =
     (if j = k then Option.bind v non_empty_string else params_get j ps)"
  by (auto simp: set_or_delete_def non_empty_string_def split: option.splits)

text \<open>The URL of a selection: its query, read back, holds the task, the comment and the
  chat panel as given (an empty id stands for none) and every other parameter as before.\<close>

lemma built_url_reads_back:
  assumes "CHR ''?'' \<notin> set pathname"
  shows "let url = build_url_with_task_and_comment pathname ps task cmt panel;
             ps' = parse_query (tl (dropWhile (\<lambda>c. c \<noteq> CHR ''?'') url))
         in takeWhile (\<lambda>c. c \<noteq> CHR ''?'') url = pathname \<and>
            params_get ''taskId'' ps' = Option.bind task non_empty_string \<and>
            params_get ''commentId'' ps' = Option.bind cmt non_empty_string \<and>
            params_get ''panel'' ps' = (if panel then Some ''chat'' else None) \<and>
            (\<forall>k. k \<notin> {''taskId'', ''commentId'', ''panel''} \<longrightarrow> params_get k ps' = params_get k ps)"
proof -
  let ?ps = "set_or_delete ''panel'' (if panel then Some ''chat'' else None)
      (set_or_delete ''commentId'' cmt (set_or_delete ''taskId'' task ps))"
  let ?url = "build_url_with_task_and_comment pathname ps task cmt panel"
  have get: "params_get k ?ps =
      (if k = ''panel'' then (if panel then Some ''chat'' else None)
       else if k = ''commentId'' then Option.bind cmt non_empty_string
       else if k = ''taskId'' then Option.bind task non_empty_string else params_get k ps)" for k
    by (simp add: get_set_or_delete non_empty_string_def)
  have url: "?url = (if params_to_string ?ps \<noteq> [] then pathname @ ''?'' @ params_to_string ?ps
      else pathname)"
    by (simp only: build_url_with_task_and_comment_def Let_def)
  from built_url_split [OF assms, of "params_to_string ?ps"]
  have path: "takeWhile (\<lambda>c. c \<noteq> CHR ''?'') ?url = pathname"
    and query: "parse_query (tl (dropWhile (\<lambda>c. c \<noteq> CHR ''?'') ?url)) = ?ps"
    unfolding url by (simp_all only: parse_query_to_string)
  show ?thesis unfolding Let_def path query get by simp
qed

lemma built_url_witness:
  "let url = build_url_with_task_and_comment ''/boards/b1'' [(''taskId'', ''t0''), (''q'', ''a b'')]
               (Some ''t1'') None True;
       ps' = parse_query (tl (dropWhile (\<lambda>c. c \<noteq> CHR ''?'') url))
   in takeWhile (\<lambda>c. c \<noteq> CHR ''?'') url = ''/boards/b1'' \<and>
      params_get ''taskId'' ps' = Option.bind (Some ''t1'') non_empty_string \<and>
      params_get ''commentId'' ps' = Option.bind None non_empty_string \<and>
      params_get ''panel'' ps' = (if True then Some ''chat'' else None) \<and>
      (\<forall>k. k \<notin> {''taskId'', ''commentId'', ''panel''} \<longrightarrow>
         params_get k ps' = params_get k [(''taskId'', ''t0''), (''q'', ''a b'')])"
  by (rule built_url_reads_back) simp

end
