(* ===== verification/LiveFeed.thy ===== *)
theory LiveFeed
  imports BoardModel
begin

text \<open>
  The live feed of the board page: \<^verbatim>\<open>pushLiveFeed\<close> with the timers that end the flashing of
  a new item, the reset on a change of board, the removal of the page, and the loading of the
  history (chat messages, agents and approvals at hand, then pages of the activity log). A
  timer is pending until it is cleared or fires; its handle is the number
  \<^verbatim>\<open>window.setTimeout\<close> returned. The function \<open>fetch\<close> gives the outcome of the request
  for the page at an offset; the response may find the effect cancelled.
\<close>

section \<open>State\<close>

record feed_state =
  feed :: "feed_item list"
  feed_ref :: "feed_item list"
  feed_open_ref :: bool
  flash_ids :: "string list"
  flash_timers :: "(string \<times> nat) list"
  pending_timers :: "(nat \<times> string) list"
  next_timer :: nat
  history_loading :: bool
  history_error :: "string option"
  history_loaded :: bool

definition initial_feed :: feed_state where
  "initial_feed = \<lparr>feed = [], feed_ref = [], feed_open_ref = False, flash_ids = [],
     flash_timers = [], pending_timers = [], next_timer = 1, history_loading = False,
     history_error = None, history_loaded = False\<rparr>"

section \<open>Pushing an item\<close>

definition has_item :: "string \<Rightarrow> feed_item list \<Rightarrow> bool" where
  "has_item i items = list_ex (\<lambda>x. lf_id x = i) items"

definition add_item :: "feed_item \<Rightarrow> feed_item list \<Rightarrow> feed_item list" where
  "add_item item prev = (if has_item (lf_id item) prev then prev else take 50 (item # prev))"

text \<open>The 2200 ms timer that ends the flash of an item, after clearing one that is running.\<close>

definition start_flash_timer :: "string \<Rightarrow> feed_state \<Rightarrow> feed_state" where
  "start_flash_timer i s =
     (let h = next_timer s;
          s1 = (case map_of (flash_timers s) i of
                  None \<Rightarrow> s
                | Some old \<Rightarrow> s\<lparr>pending_timers := filter (\<lambda>(t, _). t \<noteq> old) (pending_timers s)\<rparr>)
      in s1\<lparr>flash_timers := AList.update i h (flash_timers s1),
            pending_timers := (h, i) # pending_timers s1, next_timer := h + 1\<rparr>)"

definition push_live_feed :: "feed_item \<Rightarrow> feed_state \<Rightarrow> feed_state" where
  "push_live_feed item s =
     (let already_seen = has_item (lf_id item) (feed_ref s);
          s1 = s\<lparr>feed := add_item item (feed s)\<rparr>
      in if already_seen then s1
         else if \<not> feed_open_ref s then s1
         else start_flash_timer (lf_id item)
                (s1\<lparr>flash_ids := (if lf_id item \<in> set (flash_ids s1) then flash_ids s1
                                  else flash_ids s1 @ [lf_id item])\<rparr>))"

text \<open>The callback of a timer.\<close>

definition fire_flash_timer :: "nat \<Rightarrow> feed_state \<Rightarrow> feed_state" where
  "fire_flash_timer h s =
     (case map_of (pending_timers s) h of
        None \<Rightarrow> s
      | Some i \<Rightarrow> s\<lparr>pending_timers := filter (\<lambda>(t, _). t \<noteq> h) (pending_timers s),
                   flash_timers := AList.delete i (flash_timers s),
                   flash_ids := filter (\<lambda>j. j \<noteq> i) (flash_ids s)\<rparr>)"

definition clear_flash_timers :: "feed_state \<Rightarrow> feed_state" where
  "clear_flash_timers s =
     s\<lparr>pending_timers := filter (\<lambda>(t, _). t \<notin> snd ` set (flash_timers s)) (pending_timers s),
       flash_timers := []\<rparr>"

text \<open>The effects on a change of board, on the removal of the page, and after each commit.\<close>

definition reset_feed :: "feed_state \<Rightarrow> feed_state" where
  "reset_feed s =
     clear_flash_timers (s\<lparr>history_loaded := False, history_loading := False,
       history_error := None, feed := [], flash_ids := []\<rparr>)"

definition unmount_feed :: "feed_state \<Rightarrow> feed_state" where
  "unmount_feed s = clear_flash_timers s"

definition sync_feed :: "bool \<Rightarrow> feed_state \<Rightarrow> feed_state" where
  "sync_feed is_open s = s\<lparr>feed_ref := feed s, feed_open_ref := is_open\<rparr>"

section \<open>Loading the history\<close>

type_synonym collection = "feed_item list \<times> string list"

definition history_cap :: nat where "history_cap = 200"

definition collect_item :: "feed_item \<Rightarrow> collection \<Rightarrow> collection" where
  "collect_item item c =
     (if lf_id item \<in> set (snd c) then c else (fst c @ [item], lf_id item # snd c))"

fun collect_chat :: "memory list \<Rightarrow> collection \<Rightarrow> collection" where
  "collect_chat [] c = c"
| "collect_chat (m # ms) c =
     (let item = to_live_feed_from_board_chat m in
      if lf_id item \<in> set (snd c) then collect_chat ms c
      else let c' = collect_item item c
        in if length (fst c') \<ge> history_cap then c' else collect_chat ms c')"

text \<open>The loops over agents and over approvals.\<close>

fun collect_capped :: "('a \<Rightarrow> feed_item) \<Rightarrow> 'a list \<Rightarrow> collection \<Rightarrow> collection" where
  "collect_capped conv [] c = c"
| "collect_capped conv (x # xs) c =
     (if length (fst c) \<ge> history_cap then c
      else let item = conv x in
        if lf_id item \<in> set (snd c) then collect_capped conv xs c
        else let c' = collect_item item c
          in if length (fst c') \<ge> history_cap then c' else collect_capped conv xs c')"

text \<open>The loop over the events of one page of the activity log.\<close>

fun collect_activity :: "string list \<Rightarrow> activity list \<Rightarrow> collection \<Rightarrow> collection" where
  "collect_activity board_tasks [] c = c"
| "collect_activity board_tasks (e # es) c =
     (case to_live_feed_from_activity e of
        None \<Rightarrow> collect_activity board_tasks es c
      | Some item \<Rightarrow>
          (case lf_task_id item of
             None \<Rightarrow> collect_activity board_tasks es c
           | Some t \<Rightarrow>
               (if t = [] \<or> t \<notin> set board_tasks \<or> lf_id item \<in> set (snd c)
                then collect_activity board_tasks es c
                else let c' = collect_item item c
                  in if length (fst c') \<ge> history_cap then c'
                     else collect_activity board_tasks es c')))"

datatype page_result = Page "activity list" | Page_status int | Page_failed js_error | Page_cancelled

datatype history = Loaded "feed_item list" | Failed string | Cancelled

definition page_limit :: nat where "page_limit = 200"

function fetch_pages :: "(nat \<Rightarrow> page_result) \<Rightarrow> string list \<Rightarrow> nat \<Rightarrow> collection \<Rightarrow> history" where
  "fetch_pages fetch board_tasks offset c =
     (if \<not> (length (fst c) < history_cap \<and> offset < 1000) then Loaded (fst c)
      else (case fetch offset of
          Page_cancelled \<Rightarrow> Cancelled
        | Page_failed e \<Rightarrow> Failed (error_message e ''Unable to load live feed.'')
        | Page_status st \<Rightarrow> Failed ''Unable to load live feed.''
        | Page items \<Rightarrow>
            (let c' = collect_activity board_tasks items c
             in if length (fst c') \<ge> history_cap \<or> length items < page_limit
                then Loaded (fst c')
                else fetch_pages fetch board_tasks (offset + page_limit) c')))"
  by pat_completeness auto
termination
  by (relation "measure (\<lambda>(_, _, offset, _). 1000 - offset)") (auto simp: page_limit_def)

declare fetch_pages.simps [simp del]

definition memory_time :: "memory \<Rightarrow> int" where
  "memory_time m = time_or_zero (memory_created_at m)"

definition item_time :: "feed_item \<Rightarrow> int" where
  "item_time i = time_or_zero (lf_created_at i)"

definition fetch_history ::
  "(nat \<Rightarrow> page_result) \<Rightarrow> string list \<Rightarrow> memory list \<Rightarrow> agent_read list \<Rightarrow> approval_read list \<Rightarrow> history" where
  "fetch_history fetch board_tasks chats agents approvals =
     (let recent = take 50 (js_sort (by_key_desc memory_time) chats);
          c1 = collect_chat recent ([], []);
          c2 = collect_capped to_live_feed_from_agent_snapshot agents c1;
          c3 = collect_capped (\<lambda>a. to_live_feed_from_approval a None) approvals c2
      in fetch_pages fetch board_tasks 0 c3)"

text \<open>\<^verbatim>\<open>setLiveFeed\<close> with the history: a \<^verbatim>\<open>Map\<close> by id, sorted from the newest.\<close>

definition merge_history :: "feed_item list \<Rightarrow> feed_item list \<Rightarrow> feed_item list" where
  "merge_history prev collected =
     take 50 (js_sort (by_key_desc item_time)
       (map snd (foldl (\<lambda>m item. AList.update (lf_id item) item m) [] (prev @ collected))))"

text \<open>The effect: whether it starts a load, and what it does when the load is over.\<close>

definition history_starts :: "bool \<Rightarrow> bool \<Rightarrow> bool \<Rightarrow> feed_state \<Rightarrow> bool" where
  "history_starts is_open signed_in_on_board is_loading s =
     (is_open \<and> signed_in_on_board \<and> \<not> is_loading \<and> \<not> history_loaded s)"

definition begin_history :: "feed_state \<Rightarrow> feed_state" where
  "begin_history s = s\<lparr>history_loading := True, history_error := None\<rparr>"

fun finish_history :: "history \<Rightarrow> bool \<Rightarrow> feed_state \<Rightarrow> feed_state" where
  "finish_history (Loaded collected) cancelled s =
     (let s1 = s\<lparr>history_loaded := True, feed := merge_history (feed s) collected\<rparr>
      in if cancelled then s1 else s1\<lparr>history_loading := False\<rparr>)"
| "finish_history (Failed message) cancelled s =
     (if cancelled then s else s\<lparr>history_error := Some message, history_loading := False\<rparr>)"
| "finish_history Cancelled cancelled s = s"

section \<open>Showing the feed\<close>

definition ordered_live_feed :: "feed_item list \<Rightarrow> feed_item list" where
  "ordered_live_feed items = js_sort (by_key_desc item_time) items"

section \<open>Invariant\<close>

text \<open>The table maps each item with a pending timer to its handle.\<close>

definition timers_ok :: "(string \<times> nat) list \<Rightarrow> (nat \<times> string) list \<Rightarrow> nat \<Rightarrow> bool" where
  "timers_ok table pending fresh \<longleftrightarrow>
     distinct (map fst pending) \<and> (\<forall>i h. map_of table i = Some h \<longleftrightarrow> (h, i) \<in> set pending) \<and>
     (\<forall>h \<in> fst ` set pending. h < fresh)"

text \<open>The feed has distinct ids and at most 50 items; the flashing items are exactly those with
  a pending timer.\<close>

definition feed_ok :: "feed_state \<Rightarrow> bool" where
  "feed_ok s \<longleftrightarrow>
     distinct (map lf_id (feed s)) \<and> length (feed s) \<le> 50 \<and>
     set (flash_ids s) = snd ` set (pending_timers s) \<and>
     timers_ok (flash_timers s) (pending_timers s) (next_timer s)"

lemma feed_ok_initial [simp]: "feed_ok initial_feed"
  by (simp add: feed_ok_def timers_ok_def initial_feed_def)

lemma has_item_iff: "has_item i items \<longleftrightarrow> i \<in> lf_id ` set items"
  by (auto simp: has_item_def list_ex_iff)

lemma distinct_add_item: "distinct (map lf_id items) \<Longrightarrow> distinct (map lf_id (add_item x items))"
proof -
  assume d: "distinct (map lf_id items)"
  have "distinct (map lf_id (take 50 (x # items)))" if "lf_id x \<notin> lf_id ` set items"
    using d that distinct_take [of "map lf_id (x # items)" 50] by (simp add: take_map [symmetric])
  with d show ?thesis by (simp add: add_item_def has_item_iff)
qed

lemma length_add_item: "length items \<le> 50 \<Longrightarrow> length (add_item x items) \<le> 50"
  by (simp add: add_item_def)

lemma timers_ok_delete:
  assumes t: "timers_ok table pending n" and h: "map_of table i = Some h"
  shows "timers_ok (AList.delete i table) (filter (\<lambda>(t, _). t \<noteq> h) pending) n"
    and "snd ` {e \<in> set pending. fst e \<noteq> h} = snd ` set pending - {i}"
proof -
  have inj: "i' = i" if "(h, i') \<in> set pending" for i'
  proof -
    have "(h, i) \<in> set pending" using t h by (simp add: timers_ok_def)
    with t that show ?thesis by (auto simp: timers_ok_def dest: eq_key_imp_eq_value)
  qed
  have key: "h' \<noteq> h \<longleftrightarrow> i' \<noteq> i" if "(h', i') \<in> set pending" for h' i'
  proof -
    have "map_of table i' = Some h'" using t that by (simp add: timers_ok_def)
    with h that inj show ?thesis by (metis option.inject)
  qed
  then show "snd ` {e \<in> set pending. fst e \<noteq> h} = snd ` set pending - {i}"
    by (force simp: image_iff)
  show "timers_ok (AList.delete i table) (filter (\<lambda>(t, _). t \<noteq> h) pending) n"
    using t key by (auto simp: timers_ok_def delete_conv split_def distinct_map_filter)
qed

lemma timers_ok_update:
  assumes t: "timers_ok table pending n" and i: "i \<notin> snd ` set pending"
  shows "timers_ok (AList.update i n table) ((n, i) # pending) (Suc n)"
  using assms by (force simp: timers_ok_def update_conv)

lemma timers_update_delete:
  "timers_ok (AList.update i n (AList.delete i table)) p k = timers_ok (AList.update i n table) p k"
  by (simp add: timers_ok_def update_conv delete_conv fun_eq_iff)

lemma start_flash_timer_ok:
  assumes "timers_ok (flash_timers s) (pending_timers s) (next_timer s)"
  shows "timers_ok (flash_timers (start_flash_timer i s)) (pending_timers (start_flash_timer i s))
           (next_timer (start_flash_timer i s))"
    and "snd ` set (pending_timers (start_flash_timer i s)) = insert i (snd ` set (pending_timers s))"
proof -
  let ?t = "flash_timers s" and ?p = "pending_timers s" and ?n = "next_timer s"
  have "timers_ok (AList.update i ?n ?t)
      ((?n, i) # (case map_of ?t i of None \<Rightarrow> ?p | Some h \<Rightarrow> filter (\<lambda>(t, _). t \<noteq> h) ?p)) (Suc ?n) \<and>
    insert i (snd ` set (case map_of ?t i of None \<Rightarrow> ?p | Some h \<Rightarrow> filter (\<lambda>(t, _). t \<noteq> h) ?p)) =
      insert i (snd ` set ?p)"
  proof (cases "map_of ?t i")
    case None
    then have "i \<notin> snd ` set ?p" using assms by (force simp: timers_ok_def)
    with None show ?thesis using timers_ok_update [OF assms] by simp
  next
    case (Some h)
    note d = timers_ok_delete [OF assms Some]
    have "i \<notin> snd ` set (filter (\<lambda>(t, _). t \<noteq> h) ?p)" using d(2) by (simp add: split_def)
    from timers_ok_update [OF d(1) this] d(2) Some show ?thesis
      by (auto simp: timers_update_delete split_def)
  qed
  moreover have "flash_timers (start_flash_timer i s) = AList.update i ?n ?t"
    "pending_timers (start_flash_timer i s) =
       (?n, i) # (case map_of ?t i of None \<Rightarrow> ?p | Some h \<Rightarrow> filter (\<lambda>(t, _). t \<noteq> h) ?p)"
    "next_timer (start_flash_timer i s) = Suc ?n"
    by (auto simp: start_flash_timer_def Let_def split: option.splits)
  ultimately show "timers_ok (flash_timers (start_flash_timer i s))
      (pending_timers (start_flash_timer i s)) (next_timer (start_flash_timer i s))"
    "snd ` set (pending_timers (start_flash_timer i s)) = insert i (snd ` set ?p)"
    by simp_all
qed

lemma start_flash_timer_other [simp]:
  "feed (start_flash_timer i s) = feed s" "flash_ids (start_flash_timer i s) = flash_ids s"
  "feed_ref (start_flash_timer i s) = feed_ref s"
  "feed_open_ref (start_flash_timer i s) = feed_open_ref s"
  by (auto simp: start_flash_timer_def Let_def split: option.splits)

lemma push_live_feed_ok: "feed_ok s \<Longrightarrow> feed_ok (push_live_feed item s)"
  using start_flash_timer_ok [of "s\<lparr>feed := add_item item (feed s),
      flash_ids := flash_ids s @ [lf_id item]\<rparr>" "lf_id item"]
    start_flash_timer_ok [of "s\<lparr>feed := add_item item (feed s)\<rparr>" "lf_id item"]
  by (auto simp: push_live_feed_def Let_def feed_ok_def distinct_add_item length_add_item)

lemma feed_push: "feed (push_live_feed item s) = add_item item (feed s)"
  by (simp add: push_live_feed_def Let_def)

lemma fire_flash_timer_ok: "feed_ok s \<Longrightarrow> feed_ok (fire_flash_timer h s)"
proof (cases "map_of (pending_timers s) h")
  case None
  then show "feed_ok s \<Longrightarrow> ?thesis" by (simp add: fire_flash_timer_def)
next
  case (Some i)
  assume s: "feed_ok s"
  from Some have "(h, i) \<in> set (pending_timers s)" by (rule map_of_SomeD)
  with s have "map_of (flash_timers s) i = Some h" by (simp add: feed_ok_def timers_ok_def)
  with timers_ok_delete [of "flash_timers s" "pending_timers s" "next_timer s" i h] s Some
  show ?thesis by (auto simp: feed_ok_def fire_flash_timer_def split_def)
qed

lemma clear_flash_timers_none: "feed_ok s \<Longrightarrow> pending_timers (clear_flash_timers s) = []"
proof -
  assume "feed_ok s"
  then have "h \<in> snd ` set (flash_timers s)" if "(h, i) \<in> set (pending_timers s)" for h i
    using that unfolding feed_ok_def timers_ok_def by (metis image_eqI map_of_SomeD snd_conv)
  then show ?thesis by (force simp: clear_flash_timers_def filter_empty_conv)
qed

lemma reset_feed_ok: "feed_ok s \<Longrightarrow> feed_ok (reset_feed s)"
proof -
  assume s: "feed_ok s"
  have "pending_timers (reset_feed s) = pending_timers (clear_flash_timers s)"
    by (simp add: reset_feed_def clear_flash_timers_def)
  with clear_flash_timers_none [OF s] have "pending_timers (reset_feed s) = []" by simp
  then show ?thesis by (simp add: feed_ok_def timers_ok_def reset_feed_def clear_flash_timers_def)
qed

lemma sync_feed_ok [simp]: "feed_ok (sync_feed b s) = feed_ok s"
  by (simp add: feed_ok_def sync_feed_def)

section \<open>The history\<close>

lemma fold_by_id:
  fixes items :: "feed_item list"
  defines "m \<equiv> foldl (\<lambda>m item. AList.update (lf_id item) item m) [] items"
  shows "distinct (map fst m)" and "\<forall>(k, v) \<in> set m. lf_id v = k"
    and "map_of m k = List.find (\<lambda>i. lf_id i = k) (rev items)"
proof -
  have "distinct (map fst m) \<and> (\<forall>(k, v) \<in> set m. lf_id v = k) \<and>
      (\<forall>k. map_of m k = List.find (\<lambda>i. lf_id i = k) (rev items))"
    unfolding m_def
  proof (induction items rule: rev_induct)
    case Nil
    then show ?case by simp
  next
    case (snoc x xs)
    let ?m = "foldl (\<lambda>m item. AList.update (lf_id item) item m) [] xs"
    have "set (AList.update (lf_id x) x ?m) \<subseteq> insert (lf_id x, x) (set ?m)"
      by (rule set_update_subset)
    with snoc show ?case by (auto simp: distinct_update update_conv)
  qed
  then show "distinct (map fst m)" and "\<forall>(k, v) \<in> set m. lf_id v = k"
    and "map_of m k = List.find (\<lambda>i. lf_id i = k) (rev items)" by blast+
qed

lemma merge_history_list:
  fixes prev collected :: "feed_item list"
  defines "m \<equiv> foldl (\<lambda>m item. AList.update (lf_id item) item m) [] (prev @ collected)"
  shows "distinct (map lf_id (map snd m))"
proof -
  have "map lf_id (map snd m) = map fst m"
    using fold_by_id(2) [of "prev @ collected"] by (auto simp: m_def)
  then show ?thesis using fold_by_id(1) [of "prev @ collected"] by (simp only: m_def)
qed

lemma distinct_map_take: "distinct (map f xs) \<Longrightarrow> distinct (map f (take n xs))"
  by (metis distinct_take take_map)

lemma merge_history_ok:
  "distinct (map lf_id (merge_history prev collected))" "length (merge_history prev collected) \<le> 50"
  unfolding merge_history_def
  by (rule distinct_map_take, simp only: distinct_map_js_sort merge_history_list) simp

lemma merge_history_sorted:
  "sorted_wrt (\<lambda>a b. item_time b \<le> item_time a) (merge_history prev collected)"
  unfolding merge_history_def using by_key_desc.sorted_sort [of item_time]
  by (intro sorted_wrt_take) (simp add: by_key_desc_def)

lemma finish_history_ok: "feed_ok s \<Longrightarrow> feed_ok (finish_history h c s)"
  by (cases h) (auto simp: feed_ok_def Let_def merge_history_ok)

lemma begin_history_ok [simp]: "feed_ok (begin_history s) = feed_ok s"
  by (simp add: feed_ok_def begin_history_def)

text \<open>What is collected: distinct ids, all recorded as seen, never more than the cap.\<close>

definition collection_ok :: "collection \<Rightarrow> bool" where
  "collection_ok c \<longleftrightarrow> distinct (map lf_id (fst c)) \<and> lf_id ` set (fst c) = set (snd c) \<and>
     length (fst c) \<le> history_cap"

lemma collect_item_ok:
  "collection_ok c \<Longrightarrow> length (fst c) < history_cap \<Longrightarrow> collection_ok (collect_item i c)"
  by (auto simp: collection_ok_def collect_item_def)

lemma collect_capped_ok: "collection_ok c \<Longrightarrow> collection_ok (collect_capped conv xs c)"
  by (induction conv xs c rule: collect_capped.induct) (auto simp: Let_def collect_item_ok)

lemma collect_chat_ok:
  "collection_ok c \<Longrightarrow> length (fst c) < history_cap \<Longrightarrow> collection_ok (collect_chat ms c)"
  by (induction ms c rule: collect_chat.induct) (auto simp: Let_def collect_item_ok)

lemma collect_activity_ok:
  "collection_ok c \<Longrightarrow> length (fst c) < history_cap \<Longrightarrow> collection_ok (collect_activity ts es c)"
  by (induction ts es c rule: collect_activity.induct)
    (auto simp: Let_def collect_item_ok split: option.splits)

lemma fetch_pages_ok:
  "collection_ok c \<Longrightarrow> fetch_pages f ts off c = Loaded xs \<Longrightarrow>
     distinct (map lf_id xs) \<and> length xs \<le> history_cap"
proof (induction f ts off c rule: fetch_pages.induct)
  case (1 f ts off c)
  show ?case
  proof (cases "length (fst c) < history_cap \<and> off < 1000")
    case False
    with "1.prems" show ?thesis
      by (auto simp: fetch_pages.simps [of f ts off c] collection_ok_def)
  next
    case True
    with "1.prems"(2) obtain items where items: "f off = Page items"
      by (auto simp: fetch_pages.simps [of f ts off c] split: page_result.splits)
    let ?c = "collect_activity ts items c"
    have ok: "collection_ok ?c" using "1.prems"(1) True by (intro collect_activity_ok) auto
    show ?thesis
    proof (cases "length (fst ?c) \<ge> history_cap \<or> length items < page_limit")
      case stop: True
      with "1.prems"(2) True items have "xs = fst ?c"
        by (simp add: fetch_pages.simps [of f ts off c] Let_def)
      with ok show ?thesis by (simp add: collection_ok_def)
    next
      case go: False
      with "1.prems"(2) True items have "fetch_pages f ts (off + page_limit) ?c = Loaded xs"
        by (simp add: fetch_pages.simps [of f ts off c] Let_def)
      then show ?thesis using "1.IH" [OF _ items refl go ok] True by blast
    qed
  qed
qed

lemma fetch_pages_agree:
  "(\<And>k. k < 5 \<Longrightarrow> f (200 * k) = g (200 * k)) \<Longrightarrow> off = 200 * j \<Longrightarrow>
     fetch_pages f ts off c = fetch_pages g ts off c"
proof (induction f ts off c arbitrary: j rule: fetch_pages.induct)
  case (1 f ts off c)
  show ?case
  proof (cases "length (fst c) < history_cap \<and> off < 1000")
    case False
    then show ?thesis by (simp add: fetch_pages.simps [of _ ts off c])
  next
    case True
    then have "j < 5" using "1.prems"(2) by simp
    then have fg: "f off = g off" using "1.prems" by simp
    show ?thesis
    proof (cases "f off")
      case (Page items)
      let ?c = "collect_activity ts items c"
      have "fetch_pages f ts (off + page_limit) ?c = fetch_pages g ts (off + page_limit) ?c"
        if "\<not> (length (fst ?c) \<ge> history_cap \<or> length items < page_limit)"
        using True Page that "1.prems" by (intro "1.IH" [of items ?c "Suc j"]) (auto simp: page_limit_def)
      with True Page fg show ?thesis
        by (simp add: fetch_pages.simps [of f ts off c] fetch_pages.simps [of g ts off c] Let_def)
    qed (use True fg in \<open>simp_all add: fetch_pages.simps [of f ts off c] fetch_pages.simps [of g ts off c]\<close>)
  qed
qed

section \<open>Reachable states\<close>

inductive feed_step :: "feed_state \<Rightarrow> feed_state \<Rightarrow> bool" where
  step_push: "feed_step s (push_live_feed item s)"
| step_fire: "feed_step s (fire_flash_timer h s)"
| step_board: "feed_step s (reset_feed s)"
| step_commit: "feed_step s (sync_feed is_open s)"
| step_begin: "history_starts is_open ready is_loading s \<Longrightarrow> feed_step s (begin_history s)"
| step_finish: "feed_step s (finish_history (fetch_history fetch ts chats ags aps) cancelled s)"

definition feed_reachable :: "feed_state \<Rightarrow> bool" where
  "feed_reachable s \<longleftrightarrow> feed_step\<^sup>*\<^sup>* initial_feed s"

lemma feed_step_ok: "feed_step s t \<Longrightarrow> feed_ok s \<Longrightarrow> feed_ok t"
  by (induction rule: feed_step.induct)
    (auto intro: push_live_feed_ok fire_flash_timer_ok reset_feed_ok finish_history_ok)

lemma feed_reachable_ok: "feed_reachable s \<Longrightarrow> feed_ok s"
  unfolding feed_reachable_def by (induction rule: rtranclp_induct) (auto intro: feed_step_ok)

lemma fire_all:
  "feed_ok s \<Longrightarrow> set (map fst (pending_timers s)) \<subseteq> set hs \<Longrightarrow>
     pending_timers (foldl (\<lambda>s h. fire_flash_timer h s) s hs) = []"
proof (induction hs arbitrary: s)
  case Nil
  then show ?case by simp
next
  case (Cons h hs)
  have "pending_timers (fire_flash_timer h s) = filter (\<lambda>(t, _). t \<noteq> h) (pending_timers s)"
    by (auto simp: fire_flash_timer_def map_of_eq_None_iff split: option.splits
        intro!: filter_True [symmetric]) (metis fst_conv image_eqI)
  then have "set (map fst (pending_timers (fire_flash_timer h s))) \<subseteq> set hs"
    using Cons.prems(2) by auto
  with Cons.IH [OF fire_flash_timer_ok [OF Cons.prems(1)]] show ?case by simp
qed

lemma fires_ok: "feed_ok s \<Longrightarrow> feed_ok (foldl (\<lambda>s h. fire_flash_timer h s) s hs)"
  by (induction hs arbitrary: s) (auto intro: fire_flash_timer_ok)

section \<open>Properties\<close>

text \<open>C33: in every state the page can reach by pushing items, firing timers, changing boards,
  committing renders and loading the history, the live feed holds at most 50 items with
  distinct ids, and exactly the items with a pending timer flash.\<close>

lemma feed_invariant:
  assumes "feed_reachable s"
  shows "distinct (map lf_id (feed s)) \<and> length (feed s) \<le> 50 \<and>
         set (flash_ids s) = snd ` set (pending_timers s)"
  using feed_reachable_ok [OF assms] by (simp add: feed_ok_def)

definition sample_chat :: memory where
  "sample_chat = \<lparr>memory_id = ''m1'', memory_content = Some '' /pause '',
     memory_created_at = ''2026-01-02T03:04:05Z'', memory_source = Missing,
     memory_tags = Val [''chat'']\<rparr>"

definition sample_feed :: feed_state where
  "sample_feed = push_live_feed (to_live_feed_from_board_chat sample_chat) (sync_feed True initial_feed)"

lemma feed_invariant_witness:
  "flash_ids sample_feed = [''chat:m1''] \<and>
   (distinct (map lf_id (feed sample_feed)) \<and> length (feed sample_feed) \<le> 50 \<and>
    set (flash_ids sample_feed) = snd ` set (pending_timers sample_feed))"
proof
  show "flash_ids sample_feed = [''chat:m1'']" by code_simp
  have "feed_reachable sample_feed"
    unfolding feed_reachable_def sample_feed_def
    by (meson rtranclp.rtrancl_into_rtrancl rtranclp.rtrancl_refl step_commit step_push)
  then show "distinct (map lf_id (feed sample_feed)) \<and> length (feed sample_feed) \<le> 50 \<and>
      set (flash_ids sample_feed) = snd ` set (pending_timers sample_feed)"
    by (rule feed_invariant)
qed

text \<open>No item flashes for ever: once the pending timers of a reachable state have fired,
  in any order, nothing flashes and no timer is left.\<close>

lemma flashing_ends:
  assumes "feed_reachable s" and "set (map fst (pending_timers s)) \<subseteq> set hs"
  shows "flash_ids (foldl (\<lambda>s h. fire_flash_timer h s) s hs) = [] \<and>
         pending_timers (foldl (\<lambda>s h. fire_flash_timer h s) s hs) = []"
  using fire_all [OF feed_reachable_ok [OF assms(1)] assms(2)]
    fires_ok [OF feed_reachable_ok [OF assms(1)], of hs]
  by (simp add: feed_ok_def)

lemma flashing_ends_witness:
  "flash_ids (foldl (\<lambda>s h. fire_flash_timer h s) sample_feed [7, 1]) = [] \<and>
   pending_timers (foldl (\<lambda>s h. fire_flash_timer h s) sample_feed [7, 1]) = []"
proof (rule flashing_ends)
  show "feed_reachable sample_feed"
    unfolding feed_reachable_def sample_feed_def
    by (meson rtranclp.rtrancl_into_rtrancl rtranclp.rtrancl_refl step_commit step_push)
  have "map fst (pending_timers sample_feed) = [1]" by code_simp
  then show "set (map fst (pending_timers sample_feed)) \<subseteq> set [7, 1]" by simp
qed

text \<open>C39: loading the history always ends, after at most five requests: only the answers for
  the offsets 0, 200, 400, 600 and 800 matter.\<close>

lemma history_requests_bounded:
  assumes "\<And>k. k < 5 \<Longrightarrow> f (200 * k) = g (200 * k)"
  shows "fetch_history f ts chats ags aps = fetch_history g ts chats ags aps"
  unfolding fetch_history_def Let_def by (rule fetch_pages_agree [where j = 0]) (simp_all add: assms)

lemma history_requests_bounded_witness:
  "fetch_history (\<lambda>off. if off < 1000 then Page_status 503 else Page []) [''t1''] [sample_chat] [] [] =
   fetch_history (\<lambda>off. Page_status 503) [''t1''] [sample_chat] [] []"
  by (rule history_requests_bounded) simp

text \<open>A successful load yields at most 200 items with distinct ids; and what it makes of
  the feed is ordered from the newest item to the oldest, at most 50 items with distinct ids.\<close>

lemma history_load_correct:
  assumes "fetch_history f ts chats ags aps = Loaded xs"
  shows "distinct (map lf_id xs) \<and> length xs \<le> 200 \<and>
         distinct (map lf_id (merge_history prev xs)) \<and> length (merge_history prev xs) \<le> 50 \<and>
         sorted_wrt (\<lambda>a b. item_time b \<le> item_time a) (merge_history prev xs)"
proof -
  have c0: "collection_ok ([], [])" by (simp add: collection_ok_def)
  then have "collection_ok (collect_chat (take 50 (js_sort (by_key_desc memory_time) chats)) ([], []))"
    by (rule collect_chat_ok) (simp add: history_cap_def)
  then have "distinct (map lf_id xs) \<and> length xs \<le> history_cap"
    using assms unfolding fetch_history_def Let_def
    by (intro fetch_pages_ok) (auto intro: collect_capped_ok)
  then show ?thesis by (simp add: merge_history_ok merge_history_sorted history_cap_def)
qed

lemma history_load_witness:
  "\<exists>xs. fetch_history (\<lambda>off. Page []) [] [sample_chat] [] [] = Loaded xs \<and>
     (distinct (map lf_id xs) \<and> length xs \<le> 200 \<and>
      distinct (map lf_id (merge_history [] xs)) \<and> length (merge_history [] xs) \<le> 50 \<and>
      sorted_wrt (\<lambda>a b. item_time b \<le> item_time a) (merge_history [] xs))"
proof -
  have e: "fetch_history (\<lambda>off. Page []) [] [sample_chat] [] [] =
      Loaded [to_live_feed_from_board_chat sample_chat]"
    by code_simp
  from e history_load_correct [OF e] show ?thesis by blast
qed

end
