(* ===== verification/SseStream.thy ===== *)
theory SseStream
  imports Backoff
begin

text \<open>
  The server-sent-event loop that the board page runs once per live resource
  (\<^verbatim>\<open>frontend/src/app/boards/[boardId]/page.tsx\<close>): decode a chunk, append it to the buffer,
  normalise line ends, cut the buffer at each blank line, read the \<^verbatim>\<open>event:\<close> and
  \<^verbatim>\<open>data:\<close> lines of each block and hand them to the resource's handler; after the stream
  ends or fails, wait for the backoff and connect again. A chunk is its number of bytes and
  the text the decoder yields for it. \<open>sse_client\<close> is the contract between the loop and the
  handlers of the four resources: a handler keeps an invariant of the page state, and then so
  does every connection and every sequence of reconnects.

  The main fact is that the events do not depend on how the network cuts the stream into
  chunks (\<open>feed_all_concat\<close>), for streams in which no carriage return stands before a CRLF.
\<close>

section \<open>The buffer\<close>

text \<open>\<^verbatim>\<open>buffer.replace(/\r\n/g, "\n")\<close>.\<close>

fun replace_crlf :: "string \<Rightarrow> string" where
  "replace_crlf (c # d # cs) =
     (if c = carriage \<and> d = newline then newline # replace_crlf cs
      else c # replace_crlf (d # cs))"
| "replace_crlf [c] = [c]"
| "replace_crlf [] = []"

definition blank_line :: string where
  "blank_line = [newline, newline]"

text \<open>The inner loop: the raw blocks cut off at \<^verbatim>\<open>"\n\n"\<close>, and what stays in the buffer.\<close>

function drain :: "string \<Rightarrow> string list \<times> string" where
  "drain buffer =
     (case index_of buffer blank_line of
        None \<Rightarrow> ([], buffer)
      | Some boundary \<Rightarrow>
          (case drain (drop (boundary + 2) buffer) of
             (raws, rest) \<Rightarrow> (take boundary buffer # raws, rest)))"
  by pat_completeness auto
termination
proof (relation "measure length")
  fix buffer boundary
  assume "index_of buffer blank_line = Some boundary"
  from index_of_Some [OF this] have "boundary + 2 \<le> length buffer" by (simp add: blank_line_def)
  then show "(drop (boundary + 2) buffer, buffer) \<in> measure length" by simp
qed simp

declare drain.simps [simp del]

text \<open>One chunk: the blocks it completes and the new buffer.\<close>

definition feed_chunk :: "string \<Rightarrow> string \<Rightarrow> string list \<times> string" where
  "feed_chunk buffer chunk = drain (replace_crlf (buffer @ chunk))"

fun feed_all :: "string \<Rightarrow> string list \<Rightarrow> string list \<times> string" where
  "feed_all buffer [] = ([], buffer)"
| "feed_all buffer (c # cs) =
     (case feed_chunk buffer c of (raws, b) \<Rightarrow>
       (case feed_all b cs of (raws', b') \<Rightarrow> (raws @ raws', b')))"

text \<open>The lines of a block: the last \<^verbatim>\<open>event:\<close> line gives the type, the \<^verbatim>\<open>data:\<close> lines are
  trimmed and concatenated.\<close>

fun read_line :: "string \<times> string \<Rightarrow> string \<Rightarrow> string \<times> string" where
  "read_line (event_type, data) line =
     (if starts_with line ''event:'' then (trim (drop 6 line), data)
      else if starts_with line ''data:'' then (event_type, data @ trim (drop 5 line))
      else (event_type, data))"

definition read_block :: "string \<Rightarrow> string \<times> string" where
  "read_block raw = foldl read_line (''message'', []) (split_on newline raw)"

section \<open>The connection\<close>

datatype read = Chunk nat string | ReadDone | ReadError | Abort

text \<open>One read: the handler runs on each completed block, in order.\<close>

definition handle_blocks :: "(string \<Rightarrow> string \<Rightarrow> 's \<Rightarrow> 's) \<Rightarrow> string list \<Rightarrow> 's \<Rightarrow> 's" where
  "handle_blocks handle raws s =
     foldl (\<lambda>st raw. case read_block raw of (ev, data) \<Rightarrow> handle ev data st) s raws"

text \<open>The reading loop; the last component says whether the effect was torn down meanwhile.\<close>

fun read_loop ::
  "(string \<Rightarrow> string \<Rightarrow> 's \<Rightarrow> 's) \<Rightarrow> read list \<Rightarrow> string \<Rightarrow> 's \<Rightarrow> backoff \<Rightarrow> 's \<times> backoff \<times> bool" where
  "read_loop handle [] buffer s b = (s, b, True)"
| "read_loop handle (ReadDone # rs) buffer s b = (s, b, False)"
| "read_loop handle (ReadError # rs) buffer s b = (s, b, False)"
| "read_loop handle (Abort # rs) buffer s b = (s, b, True)"
| "read_loop handle (Chunk n text # rs) buffer s b =
     (case feed_chunk buffer text of
        (raws, buffer') \<Rightarrow>
          read_loop handle rs buffer' (handle_blocks handle raws s)
            (if 0 < n then reset_backoff b else b))"

text \<open>What a connection attempt meets: an error status or a missing body or a failed request,
  a stream, or the teardown of the effect during the request.\<close>

datatype connection = Refused | Streaming "read list" | Torn

text \<open>One \<^verbatim>\<open>connect()\<close>: the new page state, the new backoff, and the delay after which it runs
  again (None once the effect is torn down).\<close>

definition connect ::
  "(string \<Rightarrow> string \<Rightarrow> 's \<Rightarrow> 's) \<Rightarrow> rat \<Rightarrow> connection \<Rightarrow> 's \<Rightarrow> backoff \<Rightarrow>
     's \<times> backoff \<times> jsnum option" where
  "connect handle random conn s b =
     (let (s', b', cancelled) =
        (case conn of
           Refused \<Rightarrow> (s, b, False)
         | Torn \<Rightarrow> (s, b, True)
         | Streaming reads \<Rightarrow> read_loop handle reads [] s b)
      in if cancelled then (s', b', None)
         else (case next_delay_ms random b' of (delay, b'') \<Rightarrow> (s', b'', Some delay)))"

fun reconnects ::
  "(string \<Rightarrow> string \<Rightarrow> 's \<Rightarrow> 's) \<Rightarrow> (rat \<times> connection) list \<Rightarrow> 's \<Rightarrow> backoff \<Rightarrow>
     's \<times> backoff \<times> jsnum list" where
  "reconnects handle [] s b = (s, b, [])"
| "reconnects handle ((random, conn) # cs) s b =
     (case connect handle random conn s b of
        (s', b', None) \<Rightarrow> (s', b', [])
      | (s', b', Some delay) \<Rightarrow>
          (case reconnects handle cs s' b' of (s'', b'', ds) \<Rightarrow> (s'', b'', delay # ds)))"

text \<open>\<^verbatim>\<open>SSE_RECONNECT_BACKOFF\<close>.\<close>

definition sse_reconnect_backoff :: backoff_options where
  "sse_reconnect_backoff =
     \<lparr>opt_base_ms = Some (Fin 1000), opt_factor = Some (Fin 2),
      opt_max_ms = Some (Fin (5 * 60000)), opt_jitter = Some (Fin (1 / 5))\<rparr>"

section \<open>The blocks do not depend on the chunks\<close>

lemma newline_not_carriage [simp]: "newline \<noteq> carriage" "carriage \<noteq> newline"
  by (simp_all add: newline_def carriage_def)

definition blocks :: "string list \<Rightarrow> string" where
  "blocks raws = concat (map (\<lambda>r. r @ blank_line) raws)"

definition block_ok :: "string \<Rightarrow> bool" where
  "block_ok r = (index_of (r @ blank_line) blank_line = Some (length r))"

lemma starts_with_append_long: "length p \<le> length s \<Longrightarrow> starts_with (s @ t) p = starts_with s p"
  by (induction s p rule: starts_with.induct) auto

lemma index_of_append_Some: "index_of s p = Some i \<Longrightarrow> index_of (s @ t) p = Some i"
proof (induction s arbitrary: i)
  case Nil
  then show ?case by (cases t) (auto split: if_splits)
next
  case (Cons c cs)
  from index_of_Some [OF Cons.prems] have "length p \<le> length (c # cs)" by simp
  then have "starts_with (c # cs @ t) p = starts_with (c # cs) p"
    using starts_with_append_long [of p "c # cs" t] by simp
  with Cons show ?case by auto
qed

lemma drain_spec:
  "drain x = (raws, rest) \<Longrightarrow>
     x = blocks raws @ rest \<and> (\<forall>r \<in> set raws. block_ok r) \<and> index_of rest blank_line = None"
proof (induction x arbitrary: raws rest rule: drain.induct)
  case (1 x)
  show ?case
  proof (cases "index_of x blank_line")
    case None
    with "1.prems" show ?thesis by (simp add: drain.simps [of x] blocks_def)
  next
    case (Some i)
    obtain rs where d: "drain (drop (i + 2) x) = (rs, rest)" and raws: "raws = take i x # rs"
      using "1.prems" Some
      by (auto simp: drain.simps [of x] split: prod.splits)
    have IH: "drop (i + 2) x = blocks rs @ rest \<and> (\<forall>r \<in> set rs. block_ok r) \<and>
        index_of rest blank_line = None"
      using "1.IH" [OF Some d] .
    have two: "length blank_line = 2" by (simp add: blank_line_def)
    from index_of_Some [OF Some] have len: "i + 2 \<le> length x"
      and bl: "take 2 (drop i x) = blank_line" by (auto simp: two)
    have x: "x = take i x @ blank_line @ drop (i + 2) x"
      using bl append_take_drop_id [of i x] append_take_drop_id [of 2 "drop i x"]
      by (simp add: add.commute)
    have "index_of (take i x @ blank_line) blank_line = Some i"
    proof (cases "index_of (take i x @ blank_line) blank_line")
      case None
      then show ?thesis using index_of_append [of "take i x" blank_line "[]"] by simp
    next
      case (Some j)
      then have "index_of ((take i x @ blank_line) @ drop (i + 2) x) blank_line = Some j"
        by (rule index_of_append_Some)
      then show ?thesis using \<open>index_of x blank_line = Some i\<close> x Some by simp
    qed
    then have "block_ok (take i x)" using len by (simp add: block_ok_def)
    with IH x show ?thesis by (simp add: raws blocks_def)
  qed
qed

lemma drain_blocks:
  "(\<forall>r \<in> set raws. block_ok r) \<Longrightarrow> drain z = (raws', rest) \<Longrightarrow>
     drain (blocks raws @ z) = (raws @ raws', rest)"
proof (induction raws)
  case Nil
  then show ?case by (simp add: blocks_def)
next
  case (Cons r rs)
  have "index_of (r @ blank_line) blank_line = Some (length r)"
    using Cons.prems(1) by (simp add: block_ok_def)
  note index_of_append_Some [OF this, of "blocks rs @ z"]
  then have i: "index_of (blocks (r # rs) @ z) blank_line = Some (length r)"
    by (simp add: blocks_def)
  have "drop (length r + 2) (blocks (r # rs) @ z) = blocks rs @ z"
    by (simp add: blocks_def blank_line_def)
  moreover have "take (length r) (blocks (r # rs) @ z) = r" by (simp add: blocks_def)
  ultimately show ?case
    using Cons by (simp add: drain.simps [of "blocks (r # rs) @ z"] i)
qed

definition cr_crlf :: string where
  "cr_crlf = [carriage, carriage, newline]"

definition crlf_free :: "string \<Rightarrow> bool" where
  "crlf_free s = (index_of s [carriage, newline] = None)"

lemma crlf_free_id: "crlf_free s \<Longrightarrow> replace_crlf s = s"
  by (induction s rule: replace_crlf.induct) (auto simp: crlf_free_def)

lemma replace_crlf_skip: "c \<noteq> carriage \<Longrightarrow> replace_crlf (c # s) = c # replace_crlf s"
  by (cases s) auto

lemma hd_replace_crlf:
  "s \<noteq> [] \<Longrightarrow> \<not> starts_with s [carriage, newline] \<Longrightarrow>
     replace_crlf s \<noteq> [] \<and> hd (replace_crlf s) = hd s"
  by (cases s rule: replace_crlf.cases) auto

lemma index_of_ConsD: "index_of (c # s) p = None \<Longrightarrow> index_of s p = None"
  by (auto split: if_splits)

lemma replace_crlf_again:
  "index_of (p @ c) cr_crlf = None \<Longrightarrow> replace_crlf (p @ c) = replace_crlf (replace_crlf p @ c)"
proof (induction p rule: replace_crlf.induct)
  case (1 a b ps)
  show ?case
  proof (cases "a = carriage \<and> b = newline")
    case True
    have "index_of (ps @ c) cr_crlf = None"
      using "1.prems" index_of_ConsD [of b "ps @ c" cr_crlf] index_of_ConsD [of a "b # ps @ c" cr_crlf]
      by (simp only: append_Cons)
    with True "1.IH"(1) show ?thesis by (simp add: replace_crlf_skip)
  next
    case False
    have t: "index_of ((b # ps) @ c) cr_crlf = None"
      using "1.prems" index_of_ConsD [of a "b # ps @ c" cr_crlf] by (simp only: append_Cons)
    have IH: "replace_crlf ((b # ps) @ c) = replace_crlf (replace_crlf (b # ps) @ c)"
      using "1.IH"(2) [OF False t] .
    have "replace_crlf (a # replace_crlf (b # ps) @ c) = a # replace_crlf (replace_crlf (b # ps) @ c)"
    proof (cases "a = carriage")
      case True
      have ns: "\<not> starts_with (b # ps) [carriage, newline]"
      proof
        assume "starts_with (b # ps) [carriage, newline]"
        then have "starts_with ((a # b # ps) @ c) cr_crlf"
          using True by (auto simp: cr_crlf_def starts_with_iff)
        with "1.prems" show False by simp
      qed
      from hd_replace_crlf [OF _ ns] have h: "replace_crlf (b # ps) \<noteq> []"
        "hd (replace_crlf (b # ps)) = b" by auto
      then obtain t where "replace_crlf (b # ps) = b # t" by (cases "replace_crlf (b # ps)") auto
      with True False show ?thesis by simp
    next
      case False
      then show ?thesis by (rule replace_crlf_skip)
    qed
    moreover have "replace_crlf (a # b # ps) = a # replace_crlf (b # ps)"
      "replace_crlf (a # b # ps @ c) = a # replace_crlf (b # ps @ c)"
      using False by auto
    ultimately show ?thesis using IH by (simp only: append_Cons)
  qed
qed auto

lemma length_replace_crlf: "length (replace_crlf s) \<le> length s"
  by (induction s rule: replace_crlf.induct) auto

lemma crlf_shrinks: "\<not> crlf_free s \<Longrightarrow> length (replace_crlf s) < length s"
proof (induction s rule: replace_crlf.induct)
  case (1 c d cs)
  show ?case
  proof (cases "c = carriage \<and> d = newline")
    case True
    then show ?thesis using length_replace_crlf [of cs] by simp
  next
    case False
    with "1.prems" have "\<not> crlf_free (d # cs)" by (auto simp: crlf_free_def)
    with "1.IH"(2) [OF False] False show ?thesis by auto
  qed
qed (auto simp: crlf_free_def)

lemma crlf_free_replace: "index_of s cr_crlf = None \<Longrightarrow> crlf_free (replace_crlf s)"
proof -
  assume "index_of s cr_crlf = None"
  then have "replace_crlf (s @ []) = replace_crlf (replace_crlf s @ [])"
    by (intro replace_crlf_again) simp
  then have same: "replace_crlf (replace_crlf s) = replace_crlf s" by simp
  then show ?thesis using crlf_shrinks [of "replace_crlf s"] by auto
qed

lemma replace_crlf_append:
  "crlf_free e \<Longrightarrow> e = [] \<or> last e \<noteq> carriage \<Longrightarrow> replace_crlf (e @ z) = e @ replace_crlf z"
proof (induction e)
  case Nil
  then show ?case by simp
next
  case (Cons a e)
  from Cons.prems(1) have f: "crlf_free e" by (auto simp: crlf_free_def split: if_splits)
  have l: "e = [] \<or> last e \<noteq> carriage" using Cons.prems(2) by auto
  show ?case
  proof (cases "a = carriage")
    case True
    with Cons.prems obtain b e' where e: "e = b # e'" by (cases e) auto
    with True Cons.prems(1) have "b \<noteq> newline" by (auto simp: crlf_free_def)
    with Cons.IH [OF f l] e True show ?thesis by simp
  next
    case False
    with Cons.IH [OF f l] show ?thesis by (simp add: replace_crlf_skip)
  qed
qed

lemma crlf_free_prefix: "crlf_free (a @ b) \<Longrightarrow> crlf_free a"
  unfolding crlf_free_def by (metis append.assoc index_of_None)

lemma last_blocks: "blocks raws = [] \<or> last (blocks raws) = newline"
  by (induction raws) (auto simp: blocks_def blank_line_def)

lemma feed_step:
  assumes p: "drain (replace_crlf p) = (raws, b)" and ok: "index_of (p @ c) cr_crlf = None"
    and f: "feed_chunk b c = (raws', b')"
  shows "drain (replace_crlf (p @ c)) = (raws @ raws', b')"
proof -
  have s: "replace_crlf p = blocks raws @ b" "\<forall>r \<in> set raws. block_ok r"
    using drain_spec [OF p] by auto
  have "index_of p cr_crlf = None"
    using ok unfolding index_of_None by (metis append.assoc)
  then have "crlf_free (blocks raws)"
    using crlf_free_replace s(1) crlf_free_prefix by metis
  then have "replace_crlf (blocks raws @ b @ c) = blocks raws @ replace_crlf (b @ c)"
    using last_blocks [of raws] by (intro replace_crlf_append) auto
  then have "replace_crlf (p @ c) = blocks raws @ replace_crlf (b @ c)"
    using replace_crlf_again [OF ok] s(1) by simp
  then show ?thesis using drain_blocks [OF s(2)] f by (simp add: feed_chunk_def)
qed

lemma feed_all_from:
  "drain (replace_crlf p) = (raws, b) \<Longrightarrow> index_of (p @ concat cs) cr_crlf = None \<Longrightarrow>
     drain (replace_crlf (p @ concat cs)) = (raws @ fst (feed_all b cs), snd (feed_all b cs))"
proof (induction cs arbitrary: p raws b)
  case Nil
  then show ?case by simp
next
  case (Cons c cs)
  obtain r1 b1 where f: "feed_chunk b c = (r1, b1)" by (cases "feed_chunk b c") auto
  have "index_of (p @ c) cr_crlf = None"
    using Cons.prems(2) unfolding index_of_None by (metis append.assoc concat.simps(2))
  from feed_step [OF Cons.prems(1) this f] Cons.prems(2)
  have "drain (replace_crlf ((p @ c) @ concat cs)) =
      ((raws @ r1) @ fst (feed_all b1 cs), snd (feed_all b1 cs))"
    by (intro Cons.IH) auto
  then show ?case by (simp add: f split: prod.splits)
qed

lemma feed_all_concat:
  assumes "index_of (concat cs) cr_crlf = None"
  shows "feed_all [] cs = feed_chunk [] (concat cs)"
proof -
  have "index_of [] blank_line = None" by (simp add: blank_line_def)
  then have "drain (replace_crlf []) = ([], [])" by (simp add: drain.simps [of "[]"])
  from feed_all_from [OF this, of cs] assms show ?thesis
    by (simp add: feed_chunk_def prod_eq_iff)
qed

section \<open>The contract of a handler\<close>

locale sse_client =
  fixes handle :: "string \<Rightarrow> string \<Rightarrow> 's \<Rightarrow> 's" and inv :: "'s \<Rightarrow> bool"
  assumes handle_inv: "inv s \<Longrightarrow> inv (handle ev data s)"
begin

lemma handle_blocks_inv: "inv s \<Longrightarrow> inv (handle_blocks handle raws s)"
  by (induction raws arbitrary: s) (auto simp: handle_blocks_def handle_inv split: prod.splits)

lemma read_loop_inv:
  "inv s \<Longrightarrow> wf_backoff b \<Longrightarrow> read_loop handle rs buffer s b = (s', b', c) \<Longrightarrow>
     inv s' \<and> wf_backoff b' \<and> base_ms b' = base_ms b \<and> max_ms b' = max_ms b"
proof (induction rs arbitrary: buffer s b)
  case Nil
  then show ?case by simp
next
  case (Cons r rs)
  show ?case
  proof (cases r)
    case (Chunk n t)
    obtain raws buffer' where f: "feed_chunk buffer t = (raws, buffer')"
      by (cases "feed_chunk buffer t") auto
    let ?b = "if 0 < n then reset_backoff b else b"
    have b: "wf_backoff ?b" "base_ms ?b = base_ms b" "max_ms ?b = max_ms b"
      using Cons.prems(2) by (auto simp: wf_reset)
    have "read_loop handle rs buffer' (handle_blocks handle raws s) ?b = (s', b', c)"
      using Cons.prems(3) by (simp add: Chunk f)
    from Cons.IH [OF handle_blocks_inv [OF Cons.prems(1)] b(1) this] b show ?thesis by simp
  qed (use Cons.prems in auto)
qed

lemma connect_inv:
  assumes "inv s" and "wf_backoff b" and "connect handle random conn s b = (s', b', d)"
  shows "inv s' \<and> wf_backoff b' \<and> base_ms b' = base_ms b \<and> max_ms b' = max_ms b"
proof -
  obtain s1 b1 c where r: "(case conn of Refused \<Rightarrow> (s, b, False) | Torn \<Rightarrow> (s, b, True)
      | Streaming reads \<Rightarrow> read_loop handle reads [] s b) = (s1, b1, c)"
    by (metis prod_cases3)
  have 1: "inv s1 \<and> wf_backoff b1 \<and> base_ms b1 = base_ms b \<and> max_ms b1 = max_ms b"
    using r assms(1,2) by (cases conn) (auto dest: read_loop_inv)
  have "s' = s1 \<and> b' = (if c then b1 else snd (next_delay_ms random b1))"
    using assms(3) by (auto simp: connect_def r Let_def split: if_splits prod.splits)
  then show ?thesis using 1 wf_next [of b1 random] by simp
qed

lemma reconnects_inv:
  "inv s \<Longrightarrow> wf_backoff b \<Longrightarrow> reconnects handle conns s b = (s', b', ds) \<Longrightarrow> inv s' \<and> wf_backoff b'"
proof (induction conns arbitrary: s b s' b' ds)
  case Nil
  then show ?case by simp
next
  case (Cons rc conns)
  obtain random conn where rc: "rc = (random, conn)" by (cases rc)
  obtain s1 b1 d where c: "connect handle random conn s b = (s1, b1, d)" by (metis prod_cases3)
  from connect_inv [OF Cons.prems(1,2) c] have 1: "inv s1" "wf_backoff b1" by auto
  show ?case
  proof (cases d)
    case None
    with Cons.prems(3) c 1 show ?thesis by (simp add: rc)
  next
    case (Some delay)
    obtain s2 b2 ds2 where r: "reconnects handle conns s1 b1 = (s2, b2, ds2)" by (metis prod_cases3)
    from Cons.IH [OF 1 r] Cons.prems(3) c r Some show ?thesis by (simp add: rc)
  qed
qed

end

section \<open>Delays between connections\<close>

interpretation any_handler: sse_client handle "\<lambda>_. True" for handle
  by unfold_locales

lemma connect_delay:
  assumes wf: "wf_backoff b" and base: "base_ms b = Fin lo" and mx: "max_ms b = Fin hi"
    and c: "connect handle random conn s b = (s', b', Some delay)"
  shows "\<exists>d. delay = Fin d \<and> lo \<le> d \<and> d \<le> hi"
proof -
  obtain s1 b1 cn where r: "(case conn of Refused \<Rightarrow> (s, b, False) | Torn \<Rightarrow> (s, b, True)
      | Streaming reads \<Rightarrow> read_loop handle reads [] s b) = (s1, b1, cn)"
    by (metis prod_cases3)
  have 1: "wf_backoff b1 \<and> base_ms b1 = base_ms b \<and> max_ms b1 = max_ms b"
    using r wf by (cases conn) (auto dest: any_handler.read_loop_inv [OF TrueI])
  have "fst (next_delay_ms random b1) = delay"
    using c by (auto simp: connect_def r Let_def split: if_splits prod.splits)
  then show ?thesis using next_delay_range [of b1 lo hi random] 1 base mx by simp
qed

lemma reconnects_delays:
  "wf_backoff b \<Longrightarrow> base_ms b = Fin lo \<Longrightarrow> max_ms b = Fin hi \<Longrightarrow>
     reconnects handle conns s b = (s', b', ds) \<Longrightarrow> \<forall>delay \<in> set ds. \<exists>d. delay = Fin d \<and> lo \<le> d \<and> d \<le> hi"
proof (induction conns arbitrary: s b s' b' ds)
  case Nil
  then show ?case by simp
next
  case (Cons rc conns)
  obtain random conn where rc: "rc = (random, conn)" by (cases rc)
  obtain s1 b1 d where c: "connect handle random conn s b = (s1, b1, d)" by (metis prod_cases3)
  note keep = any_handler.connect_inv [OF TrueI Cons.prems(1) c]
  show ?case
  proof (cases d)
    case None
    with Cons.prems(4) c show ?thesis by (simp add: rc)
  next
    case (Some delay)
    obtain s2 b2 ds2 where r: "reconnects handle conns s1 b1 = (s2, b2, ds2)" by (metis prod_cases3)
    have "\<exists>d. delay = Fin d \<and> lo \<le> d \<and> d \<le> hi"
      using connect_delay [OF Cons.prems(1-3)] c Some by metis
    moreover have "\<forall>delay \<in> set ds2. \<exists>d. delay = Fin d \<and> lo \<le> d \<and> d \<le> hi"
      using Cons.IH [OF _ _ _ r] keep Cons.prems(2,3) by simp
    ultimately show ?thesis using Cons.prems(4) c r Some by (auto simp: rc)
  qed
qed

text \<open>A stream that fails \<open>n\<close> times in a row, without a byte in between, has used up \<open>n\<close>
  attempts (at most 64), and the first byte of a later stream starts over.\<close>

lemma read_loop_failed:
  "read_loop handle [ReadError] buffer s b = (s, b, False)"
  by simp

lemma connect_refused:
  "connect handle random Refused s b =
     (s, snd (next_delay_ms random b), Some (fst (next_delay_ms random b)))"
  by (simp add: connect_def split: prod.splits)

lemma refused_attempts:
  "attempt (fst (snd (reconnects handle (map (\<lambda>r. (r, Refused)) rs) s b))) =
     (if rs = [] then attempt b else min (attempt b + length rs) 64)"
  by (induction rs arbitrary: b) (auto simp: connect_refused case_prod_beta)

text \<open>What a stream of chunks does: the handler runs on the blocks of all of them.\<close>

definition chunks :: "(nat \<times> string) list \<Rightarrow> read list" where
  "chunks cs = map (\<lambda>(n, text). Chunk n text) cs"

lemma read_loop_chunks:
  "fst (read_loop handle (chunks cs @ [ReadDone]) buffer s b) =
     handle_blocks handle (fst (feed_all buffer (map snd cs))) s"
proof (induction cs arbitrary: buffer s b)
  case Nil
  then show ?case by (simp add: handle_blocks_def chunks_def)
next
  case (Cons nc cs)
  obtain n c where nc: "nc = (n, c)" by (cases nc)
  obtain raws buffer' where f: "feed_chunk buffer c = (raws, buffer')" by (cases "feed_chunk buffer c")
  obtain raws' buffer'' where g: "feed_all buffer' (map snd cs) = (raws', buffer'')"
    by (cases "feed_all buffer' (map snd cs)")
  show ?case
    using Cons.IH [of buffer' "handle_blocks handle raws s"] f g nc
    by (simp add: handle_blocks_def chunks_def)
qed

lemma connect_chunks:
  "fst (connect handle random (Streaming (chunks cs @ [ReadDone])) s b) =
     handle_blocks handle (fst (feed_all [] (map snd cs))) s"
  using read_loop_chunks [of handle cs "[]" s b]
  by (auto simp: connect_def Let_def split: prod.splits)

lemma sse_backoff_values [simp]:
  "base_ms (create_exponential_backoff sse_reconnect_backoff) = Fin (of_int 1000)"
  "max_ms (create_exponential_backoff sse_reconnect_backoff) = Fin (of_int 300000)"
  "factor (create_exponential_backoff sse_reconnect_backoff) = Fin 2"
  "jitter (create_exponential_backoff sse_reconnect_backoff) = Fin (1 / 5)"
  "attempt (create_exponential_backoff sse_reconnect_backoff) = 0"
  by (simp_all add: create_exponential_backoff_def sse_reconnect_backoff_def coalesce_opt_def
      clamp_ms_def js_min_def js_max_def Let_def)

lemma refused_keeps:
  "base_ms (fst (snd (reconnects handle (map (\<lambda>r. (r, Refused)) rs) s b))) = base_ms b"
  "max_ms (fst (snd (reconnects handle (map (\<lambda>r. (r, Refused)) rs) s b))) = max_ms b"
  "factor (fst (snd (reconnects handle (map (\<lambda>r. (r, Refused)) rs) s b))) = factor b"
  "jitter (fst (snd (reconnects handle (map (\<lambda>r. (r, Refused)) rs) s b))) = jitter b"
  by (induction rs arbitrary: b) (auto simp: connect_refused case_prod_beta)

section \<open>Properties\<close>



text \<open>C31: however the connections of a stream go, the page waits between one second and five
  minutes before each reconnection.\<close>

lemma reconnect_delays_bounded:
  assumes "reconnects handle conns s (create_exponential_backoff sse_reconnect_backoff) = (s', b', ds)"
  shows "\<forall>delay \<in> set ds. \<exists>d. delay = Fin d \<and> 1000 \<le> d \<and> d \<le> 300000"
  using reconnects_delays [OF wf_create _ _ assms, of 1000 300000] by simp

lemma reconnect_delays_witness:
  "list_all (\<lambda>delay. \<exists>d. delay = Fin d \<and> 1000 \<le> d \<and> d \<le> 300000)
     (snd (snd (reconnects (\<lambda>ev data st. st) [(0, Refused), (1 / 2, Streaming [Chunk 1 '':'', ReadDone])]
       () (create_exponential_backoff sse_reconnect_backoff))))"
proof -
  obtain s' b' ds where r: "reconnects (\<lambda>ev data st. st)
      [(0, Refused), (1 / 2, Streaming [Chunk 1 '':'', ReadDone])] ()
      (create_exponential_backoff sse_reconnect_backoff) = (s', b', ds)"
    by (metis prod_cases3)
  show ?thesis unfolding r snd_conv list_all_iff by (rule reconnect_delays_bounded [OF r])
qed

text \<open>The wait doubles with each failed connection: after \<open>n\<close> failures without a byte
  received it is at least \<open>min 300000 (1000 * 2 ^ n)\<close> milliseconds (\<open>n\<close> counted up to 64), and
  at most a fifth above that.\<close>

lemma reconnect_delay_doubles:
  assumes "0 \<le> r" and "r < 1"
    and b: "b = fst (snd (reconnects handle (map (\<lambda>r. (r, Refused)) rs) s
                            (create_exponential_backoff sse_reconnect_backoff)))"
  shows "\<exists>d. fst (next_delay_ms r b) = Fin (of_int d) \<and> d \<le> 300000 \<and>
           exp_delay 1000 300000 (min (length rs) 64) \<le> d \<and>
           of_int d \<le> (1 + 1 / 5) * (of_int (exp_delay 1000 300000 (min (length rs) 64)) :: rat)"
proof -
  let ?b0 = "create_exponential_backoff sse_reconnect_backoff"
  have a: "attempt b = min (length rs) 64"
    using refused_attempts [of handle rs s ?b0] by (simp add: b split: if_splits)
  have "base_ms b = Fin (of_int 1000)" "max_ms b = Fin (of_int 300000)" "factor b = Fin 2"
    "jitter b = Fin (1 / 5)"
    by (simp_all only: b refused_keeps sse_backoff_values)
  from next_delay_exponential [OF this _ _ _ assms(1,2)] a show ?thesis by auto
qed

lemma reconnect_delay_doubles_witness:
  "\<exists>d. fst (next_delay_ms (1 / 2) (fst (snd (reconnects (\<lambda>ev data st. st)
           (map (\<lambda>r. (r, Refused)) [0, 0, 0]) () (create_exponential_backoff sse_reconnect_backoff))))) =
         Fin (of_int d) \<and> d \<le> 300000 \<and>
         exp_delay 1000 300000 (min (length [0, 0, 0 :: rat]) 64) \<le> d \<and>
         of_int d \<le> (1 + 1 / 5) * (of_int (exp_delay 1000 300000 (min (length [0, 0, 0 :: rat]) 64)) :: rat)"
  by (rule reconnect_delay_doubles [OF _ _ refl]) simp_all

end
