(* ===== verification/BoardStreams.thy ===== *)
theory BoardStreams
  imports LiveFeed SseStream
begin

text \<open>
  The live data of the board page and the handlers of its four event streams (chat,
  approvals, tasks, agents), with the \<^verbatim>\<open>since\<close> cursors they reconnect with. State updates
  take effect at once; the refs that the handlers read (\<^verbatim>\<open>tasksRef\<close> and the others) follow
  at the next \<open>commit_refs\<close>, the effects that run after a render. The decoding of an event's
  JSON into its typed payload is the parameter \<open>parse\<close> (None for malformed data, which the
  handlers ignore). The lists of approvals, agents and tasks are upserts by id: each
  interprets \<open>keyed_upsert\<close>, and each handler interprets \<open>sse_client\<close> with the invariant
  \<open>live_ok\<close>.
\<close>

record live =
  lv_board :: "board_read option"
  lv_tasks :: "task_card_read list"
  lv_agents :: "agent_read list"
  lv_approvals :: "approval_read list"
  lv_chat :: "memory list"
  lv_selected :: "task_card_read option"
  lv_comments :: "comment list"
  lv_tasks_ref :: "task_card_read list"
  lv_agents_ref :: "agent_read list"
  lv_approvals_ref :: "approval_read list"
  lv_chat_ref :: "memory list"
  lv_selected_ref :: "string option"
  lv_feed :: feed_state

text \<open>The effects that copy the state into the refs.\<close>

definition commit_refs :: "bool \<Rightarrow> 'a live_scheme \<Rightarrow> 'a live_scheme" where
  "commit_refs feed_open s =
     s\<lparr>lv_tasks_ref := lv_tasks s, lv_approvals_ref := lv_approvals s, lv_agents_ref := lv_agents s,
       lv_selected_ref := map_option tr_id (lv_selected s), lv_chat_ref := lv_chat s,
       lv_feed := sync_feed feed_open (lv_feed s)\<rparr>"

definition push_feed :: "feed_item \<Rightarrow> 'a live_scheme \<Rightarrow> 'a live_scheme" where
  "push_feed item s = s\<lparr>lv_feed := push_live_feed item (lv_feed s)\<rparr>"

section \<open>Cursors\<close>

definition later_time :: "int \<Rightarrow> string option \<Rightarrow> int" where
  "later_time latest value =
     (case value of
        None \<Rightarrow> latest
      | Some v \<Rightarrow>
          (if v = [] then latest
           else (case api_datetime_to_ms (Some v) of
                   None \<Rightarrow> latest
                 | Some t \<Rightarrow> if t > latest then t else latest)))"

definition latest_of :: "('a \<Rightarrow> string option) \<Rightarrow> 'a list \<Rightarrow> string option" where
  "latest_of stamp items =
     (let latest_time = foldl (\<lambda>latest x. later_time latest (stamp x)) 0 items
      in if latest_time \<noteq> 0 then Some (to_iso latest_time) else None)"

definition latest_task_timestamp :: "task_card_read list \<Rightarrow> string option" where
  "latest_task_timestamp items = latest_of (\<lambda>t. Some (tr_updated_at t)) items"

definition latest_approval_timestamp :: "approval_read list \<Rightarrow> string option" where
  "latest_approval_timestamp items =
     latest_of (\<lambda>a. Some (coalesce (approval_resolved_at a) (approval_created_at a))) items"

definition latest_agent_timestamp :: "agent_read list \<Rightarrow> string option" where
  "latest_agent_timestamp items =
     latest_of (\<lambda>a. case agent_updated_at a of Some t \<Rightarrow> Some t | None \<Rightarrow> or_null (agent_last_seen_at a)) items"

definition latest_chat_timestamp :: "memory list \<Rightarrow> string option" where
  "latest_chat_timestamp items =
     (if items = [] then None
      else let latest = foldl (\<lambda>mx item. case api_datetime_to_ms (Some (memory_created_at item)) of
                                None \<Rightarrow> mx | Some ts \<Rightarrow> max mx ts) 0 items
        in if latest = 0 then None else Some (to_iso latest))"

section \<open>Chat\<close>

definition add_chat_message :: "memory \<Rightarrow> memory list \<Rightarrow> memory list" where
  "add_chat_message m prev =
     (if list_ex (\<lambda>x. memory_id x = memory_id m) prev then prev
      else js_sort (by_key memory_time) (prev @ [m]))"

definition is_chat :: "memory \<Rightarrow> bool" where
  "is_chat m = (case memory_tags m of Val tags \<Rightarrow> ''chat'' \<in> set tags | _ \<Rightarrow> False)"

definition receive_chat :: "memory \<Rightarrow> 'a live_scheme \<Rightarrow> 'a live_scheme" where
  "receive_chat m s =
     (if is_chat m then
        (push_feed (to_live_feed_from_board_chat m) s)\<lparr>lv_chat := add_chat_message m (lv_chat s)\<rparr>
      else s)"

definition handle_chat ::
  "(string \<Rightarrow> memory option option) \<Rightarrow> string \<Rightarrow> string \<Rightarrow> 'a live_scheme \<Rightarrow> 'a live_scheme" where
  "handle_chat parse ev data s =
     (if ev = ''memory'' \<and> data \<noteq> [] then
        (case parse data of
           Some (Some m) \<Rightarrow> receive_chat m s
         | _ \<Rightarrow> s)
      else s)"

definition last_agent_control_command :: "memory list \<Rightarrow> string option" where
  "last_agent_control_command chats =
     List.find (\<lambda>v. v = ''/pause'' \<or> v = ''/resume'')
       (map (\<lambda>m. to_lower (trim (coalesce_opt (memory_content m) []))) (rev chats))"

definition is_agents_paused :: "memory list \<Rightarrow> bool" where
  "is_agents_paused chats = (last_agent_control_command chats = Some ''/pause'')"

section \<open>Approvals\<close>

definition spread_approval :: "approval_read \<Rightarrow> approval_read \<Rightarrow> approval_read" where
  "spread_approval old new =
     new\<lparr>approval_status := spread_opt (approval_status old) (approval_status new),
         approval_resolved_at := spread (approval_resolved_at old) (approval_resolved_at new),
         approval_agent_id := spread (approval_agent_id old) (approval_agent_id new),
         approval_task_id := spread (approval_task_id old) (approval_task_id new),
         approval_task_ids := spread_opt (approval_task_ids old) (approval_task_ids new),
         approval_task_titles := spread_opt (approval_task_titles old) (approval_task_titles new),
         approval_payload := spread_opt (approval_payload old) (approval_payload new)\<rparr>"

definition put_approval :: "approval_read \<Rightarrow> approval_read list \<Rightarrow> approval_read list" where
  "put_approval a prev = upsert approval_id spread_approval (\<lambda>x. x) (approval_id a) a prev"

record task_count =
  tc_task_id :: "string option"
  tc_count :: "int option"
  tc_pending :: "int option"

text \<open>The counts of a task: \<^verbatim>\<open>new Map\<close> keeps the last row of an id.\<close>

definition apply_counts :: "task_count list \<Rightarrow> task_card_read \<Rightarrow> task_card_read" where
  "apply_counts rows t =
     (case List.find (\<lambda>r. tc_task_id r = Some (tr_id t))
             (rev (filter (\<lambda>r. tc_task_id r \<noteq> None \<and> tc_task_id r \<noteq> Some []) rows)) of
        None \<Rightarrow> t
      | Some r \<Rightarrow> t\<lparr>tr_approvals_count := spread_opt (tr_approvals_count t) (tc_count r),
                   tr_approvals_pending_count :=
                     spread_opt (tr_approvals_pending_count t) (tc_pending r)\<rparr>)"

record approval_payload_event =
  ape_approval :: "approval_read option"
  ape_counts :: "task_count list"

definition receive_approval :: "approval_read \<Rightarrow> 'a live_scheme \<Rightarrow> 'a live_scheme" where
  "receive_approval a s =
     (let normalized = normalize_approval a;
          previous = List.find (\<lambda>x. approval_id x = approval_id normalized) (lv_approvals_ref s)
      in (push_feed (to_live_feed_from_approval normalized previous) s)
           \<lparr>lv_approvals := put_approval normalized (lv_approvals s)\<rparr>)"

definition handle_approval ::
  "(string \<Rightarrow> approval_payload_event option) \<Rightarrow> string \<Rightarrow> string \<Rightarrow> 'a live_scheme \<Rightarrow> 'a live_scheme" where
  "handle_approval parse ev data s =
     (if ev = ''approval'' \<and> data \<noteq> [] then
        (case parse data of
           None \<Rightarrow> s
         | Some payload \<Rightarrow>
             (let s1 = (case ape_approval payload of None \<Rightarrow> s | Some a \<Rightarrow> receive_approval a s)
              in if length (ape_counts payload) > 0
                 then s1\<lparr>lv_tasks := map (apply_counts (ape_counts payload)) (lv_tasks s1)\<rparr>
                 else s1))
      else s)"

section \<open>Tasks\<close>

text \<open>\<^verbatim>\<open>{...old, ...incoming}\<close> for a card and a task off the wire, and for two cards.\<close>

definition spread_task :: "task_card_read \<Rightarrow> task_read \<Rightarrow> task_card_read" where
  "spread_task old new =
     old\<lparr>tr_id := tr_id new, tr_title := tr_title new, tr_board_id := tr_board_id new,
         tr_created_at := tr_created_at new, tr_updated_at := tr_updated_at new,
         tr_created_by_user_id := tr_created_by_user_id new,
         tr_in_progress_at := tr_in_progress_at new,
         tr_status := spread_opt (tr_status old) (tr_status new),
         tr_priority := spread_opt (tr_priority old) (tr_priority new),
         tr_description := spread (tr_description old) (tr_description new),
         tr_due_at := spread (tr_due_at old) (tr_due_at new),
         tr_assigned_agent_id := spread (tr_assigned_agent_id old) (tr_assigned_agent_id new),
         tr_blocked_by_task_ids := spread_opt (tr_blocked_by_task_ids old) (tr_blocked_by_task_ids new),
         tr_depends_on_task_ids := spread_opt (tr_depends_on_task_ids old) (tr_depends_on_task_ids new),
         tr_is_blocked := spread_opt (tr_is_blocked old) (tr_is_blocked new),
         tr_tag_ids := spread_opt (tr_tag_ids old) (tr_tag_ids new),
         tr_tags := spread_opt (tr_tags old) (tr_tags new),
         tr_custom_field_values := spread_opt (tr_custom_field_values old) (tr_custom_field_values new)\<rparr>"

definition spread_card :: "task_card_read \<Rightarrow> task_card_read \<Rightarrow> task_card_read" where
  "spread_card old new =
     (spread_task old (task_read.truncate new))
       \<lparr>tr_assignee := spread (tr_assignee old) (tr_assignee new),
        tr_approvals_count := spread_opt (tr_approvals_count old) (tr_approvals_count new),
        tr_approvals_pending_count :=
          spread_opt (tr_approvals_pending_count old) (tr_approvals_pending_count new)\<rparr>"

definition as_card :: "task_read \<Rightarrow> string option \<Rightarrow> int \<Rightarrow> int \<Rightarrow> task_card_read" where
  "as_card t assignee count pending =
     task_read.extend t (task_card_read.fields (of_nullable assignee) (Some count) (Some pending))"

definition assignee_name :: "agent_read list \<Rightarrow> task_read \<Rightarrow> string option" where
  "assignee_name agents t =
     (case tr_assigned_agent_id t of
        Val a \<Rightarrow>
          (if a = [] then None
           else map_option agent_name (List.find (\<lambda>g. agent_id g = a) agents))
      | _ \<Rightarrow> None)"

definition create_card :: "agent_read list \<Rightarrow> task_read \<Rightarrow> task_card_read" where
  "create_card agents t = normalize_task (as_card t (assignee_name agents t) 0 0)"

definition update_card :: "agent_read list \<Rightarrow> task_card_read \<Rightarrow> task_read \<Rightarrow> task_card_read" where
  "update_card agents existing t =
     spread_card existing
       (normalize_task ((spread_task existing t)
         \<lparr>tr_assignee := of_nullable (assignee_name agents t),
          tr_approvals_count := tr_approvals_count existing,
          tr_approvals_pending_count := tr_approvals_pending_count existing\<rparr>))"

definition put_task :: "agent_read list \<Rightarrow> task_read \<Rightarrow> task_card_read list \<Rightarrow> task_card_read list" where
  "put_task agents t prev = upsert tr_id (update_card agents) (create_card agents) (tr_id t) t prev"

definition update_selected :: "task_read \<Rightarrow> task_card_read option \<Rightarrow> task_card_read option" where
  "update_selected t prev =
     (case prev of
        None \<Rightarrow> None
      | Some p \<Rightarrow> if tr_id p \<noteq> tr_id t then Some p else Some (spread_task p t))"

record task_event =
  te_type :: "string option"
  te_activity :: "activity option"
  te_task :: "task_read option"
  te_comment :: "comment option"

definition task_event_item :: "task_event \<Rightarrow> feed_item option" where
  "task_event_item e =
     (case te_activity e of
        Some a \<Rightarrow> to_live_feed_from_activity a
      | None \<Rightarrow>
          (if te_type e = Some ''task.comment'' then map_option to_live_feed_from_comment (te_comment e)
           else None))"

definition receive_comment :: "comment \<Rightarrow> 'a live_scheme \<Rightarrow> 'a live_scheme" where
  "receive_comment c s =
     (if lv_selected_ref s \<noteq> comment_task_id c then s
      else s\<lparr>lv_comments := merge_comments_by_id [lv_comments s, [c]]\<rparr>)"

definition receive_task :: "task_read \<Rightarrow> 'a live_scheme \<Rightarrow> 'a live_scheme" where
  "receive_task t s =
     (let s1 = s\<lparr>lv_tasks := put_task (lv_agents_ref s) t (lv_tasks s)\<rparr>
      in if lv_selected_ref s = Some (tr_id t)
         then s1\<lparr>lv_selected := update_selected t (lv_selected s1)\<rparr> else s1)"

definition handle_task ::
  "(string \<Rightarrow> task_event option) \<Rightarrow> string \<Rightarrow> string \<Rightarrow> 'a live_scheme \<Rightarrow> 'a live_scheme" where
  "handle_task parse ev data s =
     (if ev = ''task'' \<and> data \<noteq> [] then
        (case parse data of
           None \<Rightarrow> s
         | Some payload \<Rightarrow>
             (let s1 = (case task_event_item payload of None \<Rightarrow> s | Some item \<Rightarrow> push_feed item s);
                  cmt = (case te_comment payload of
                      None \<Rightarrow> None
                    | Some c \<Rightarrow> if comment_task_id c \<notin> {None, Some []} then Some c else None)
              in if cmt \<noteq> None \<and> te_type payload = Some ''task.comment'' then receive_comment (the cmt) s1
                 else (case te_task payload of None \<Rightarrow> s1 | Some t \<Rightarrow> receive_task t s1)))
      else s)"

section \<open>Agents\<close>

definition spread_agent :: "agent_read \<Rightarrow> agent_read \<Rightarrow> agent_read" where
  "spread_agent old new =
     new\<lparr>agent_status := spread_opt (agent_status old) (agent_status new),
         agent_board_id := spread (agent_board_id old) (agent_board_id new),
         agent_updated_at := spread_opt (agent_updated_at old) (agent_updated_at new),
         agent_last_seen_at := spread (agent_last_seen_at old) (agent_last_seen_at new),
         agent_is_board_lead := spread_opt (agent_is_board_lead old) (agent_is_board_lead new),
         agent_is_gateway_main := spread_opt (agent_is_gateway_main old) (agent_is_gateway_main new),
         agent_identity_profile := spread_opt (agent_identity_profile old) (agent_identity_profile new)\<rparr>"

definition put_agent :: "agent_read \<Rightarrow> agent_read list \<Rightarrow> agent_read list" where
  "put_agent a prev = upsert agent_id spread_agent (\<lambda>x. x) (agent_id a) a prev"

definition receive_agent :: "agent_read \<Rightarrow> 'a live_scheme \<Rightarrow> 'a live_scheme" where
  "receive_agent a s =
     (let normalized = normalize_agent a;
          previous = List.find (\<lambda>x. agent_id x = agent_id normalized) (lv_agents_ref s);
          s1 = (case to_live_feed_from_agent_update normalized previous of
                  None \<Rightarrow> s | Some item \<Rightarrow> push_feed item s)
      in s1\<lparr>lv_agents := put_agent normalized (lv_agents s1)\<rparr>)"

definition handle_agent ::
  "(string \<Rightarrow> agent_read option option) \<Rightarrow> string \<Rightarrow> string \<Rightarrow> 'a live_scheme \<Rightarrow> 'a live_scheme" where
  "handle_agent parse ev data s =
     (if ev = ''agent'' \<and> data \<noteq> [] then
        (case parse data of Some (Some a) \<Rightarrow> receive_agent a s | _ \<Rightarrow> s)
      else s)"

section \<open>Upserts\<close>

lemma spread_ids [simp]:
  "approval_id (spread_approval a b) = approval_id b" "agent_id (spread_agent g h) = agent_id h"
  "tr_id (spread_task t u) = tr_id u" "tr_id (spread_card c d) = tr_id d"
  by (simp_all add: spread_approval_def spread_agent_def spread_task_def spread_card_def
      task_read.truncate_def)

lemma update_card_id [simp]: "tr_id (update_card ags c t) = tr_id t"
  by (simp add: update_card_def normalize_task_def)

lemma create_card_id [simp]: "tr_id (create_card ags t) = tr_id t"
  by (simp add: create_card_def as_card_def task_read.extend_def task_card_read.fields_def)

interpretation approvals: keyed_upsert approval_id spread_approval "\<lambda>x. x" approval_id
  by unfold_locales simp_all

interpretation agents: keyed_upsert agent_id spread_agent "\<lambda>x. x" agent_id
  by unfold_locales simp_all

interpretation cards: keyed_upsert tr_id "update_card ags" "create_card ags" tr_id for ags
  by unfold_locales simp_all

section \<open>The invariant of the live data\<close>

text \<open>Tasks in their normal form: a status, a priority and both counts are present.\<close>

definition task_ok :: "task_card_read \<Rightarrow> bool" where
  "task_ok t \<longleftrightarrow> tr_status t \<noteq> None \<and> tr_priority t \<noteq> None \<and> tr_approvals_count t \<noteq> None \<and>
     tr_approvals_pending_count t \<noteq> None"

definition live_ok :: "'a live_scheme \<Rightarrow> bool" where
  "live_ok s \<longleftrightarrow>
     distinct (map tr_id (lv_tasks s)) \<and> distinct (map agent_id (lv_agents s)) \<and>
     distinct (map approval_id (lv_approvals s)) \<and> distinct (map memory_id (lv_chat s)) \<and>
     distinct (map comment_id (lv_comments s)) \<and> (\<forall>t \<in> set (lv_tasks s). task_ok t) \<and>
     (\<forall>a \<in> set (lv_agents s). agent_status a \<noteq> None) \<and>
     (\<forall>a \<in> set (lv_approvals s). approval_status a \<noteq> None) \<and> feed_ok (lv_feed s)"

lemma spread_opt_None: "spread_opt a b = None \<longleftrightarrow> a = None \<and> b = None"
  by (cases b) auto

lemma spread_opt_Some [simp]: "\<exists>y. spread_opt (Some a) b = Some y"
  by (cases b) auto

lemma normalize_task_ok [simp]: "task_ok (normalize_task t)"
  by (simp add: task_ok_def normalize_task_def)

lemma create_card_ok [simp]: "task_ok (create_card ags t)"
  by (simp add: create_card_def)

lemma update_card_ok [simp]: "task_ok c \<Longrightarrow> task_ok (update_card ags c t)"
  by (simp add: update_card_def spread_card_def task_ok_def spread_task_def spread_opt_None
      normalize_task_def task_read.truncate_def)

lemma apply_counts_ok [simp]: "task_ok t \<Longrightarrow> task_ok (apply_counts rows t)"
  by (auto simp: apply_counts_def task_ok_def spread_opt_None split: option.splits)

lemma apply_counts_id [simp]: "tr_id (apply_counts rows t) = tr_id t"
  by (auto simp: apply_counts_def split: option.splits)

lemma set_upsert:
  "x \<in> set (upsert key mrg mk k b xs) \<Longrightarrow> x \<in> set xs \<or> x = mk b \<or> (\<exists>a \<in> set xs. x = mrg a b)"
proof (cases "find_index (\<lambda>x. key x = k) xs")
  case None
  then show "x \<in> set (upsert key mrg mk k b xs) \<Longrightarrow> ?thesis" by (auto simp: upsert_def)
next
  case (Some i)
  then have "i < length xs" by (auto dest: find_index_Some)
  then have "xs ! i \<in> set xs" by simp
  then show "x \<in> set (upsert key mrg mk k b xs) \<Longrightarrow> ?thesis"
    using Some set_update_subset_insert [of xs i "mrg (xs ! i) b"] by (auto simp: upsert_def)
qed

lemma put_task_ok:
  "\<forall>t \<in> set ts. task_ok t \<Longrightarrow> \<forall>t \<in> set (put_task ags u ts). task_ok t"
  by (auto simp: put_task_def dest!: set_upsert)

lemma push_feed_ok: "live_ok s \<Longrightarrow> live_ok (push_feed item s)"
  by (simp add: live_ok_def push_feed_def push_live_feed_ok)

lemma push_feed_other [simp]:
  "lv_tasks (push_feed i s) = lv_tasks s" "lv_agents (push_feed i s) = lv_agents s"
  "lv_approvals (push_feed i s) = lv_approvals s" "lv_chat (push_feed i s) = lv_chat s"
  "lv_selected (push_feed i s) = lv_selected s" "lv_comments (push_feed i s) = lv_comments s"
  "lv_selected_ref (push_feed i s) = lv_selected_ref s"
  "lv_agents_ref (push_feed i s) = lv_agents_ref s"
  by (simp_all add: push_feed_def)

lemma distinct_add_chat:
  "distinct (map memory_id ms) \<Longrightarrow> distinct (map memory_id (add_chat_message m ms))"
  by (auto simp: add_chat_message_def list_ex_iff distinct_map_js_sort simp del: map_append)
    (auto simp: image_iff)

lemma receive_chat_ok: "live_ok s \<Longrightarrow> live_ok (receive_chat m s)"
  using push_feed_ok [of s "to_live_feed_from_board_chat m"]
  by (auto simp: receive_chat_def live_ok_def distinct_add_chat)

lemma handle_chat_ok: "live_ok s \<Longrightarrow> live_ok (handle_chat parse ev data s)"
  by (auto simp: handle_chat_def receive_chat_ok split: option.splits)

lemma receive_approval_ok: "live_ok s \<Longrightarrow> live_ok (receive_approval a s)"
proof -
  assume s: "live_ok s"
  let ?item = "to_live_feed_from_approval (normalize_approval a)
      (List.find (\<lambda>x. approval_id x = approval_id (normalize_approval a)) (lv_approvals_ref s))"
  have "live_ok (push_feed ?item s)" using s by (rule push_feed_ok)
  moreover have "distinct (map approval_id (put_approval (normalize_approval a) (lv_approvals s)))"
    using s approvals.distinct_put [of "lv_approvals s" "normalize_approval a"]
    by (simp add: live_ok_def put_approval_def)
  moreover have "approval_status x \<noteq> None"
    if "x \<in> set (put_approval (normalize_approval a) (lv_approvals s))" for x
    using that s unfolding put_approval_def
    by (auto dest!: set_upsert simp: live_ok_def spread_approval_def spread_opt_None normalize_approval_def)
  ultimately show ?thesis by (auto simp: receive_approval_def Let_def live_ok_def)
qed

lemma handle_approval_ok: "live_ok s \<Longrightarrow> live_ok (handle_approval parse ev data s)"
proof -
  assume s: "live_ok s"
  have counts: "live_ok (u\<lparr>lv_tasks := map (apply_counts rows) (lv_tasks u)\<rparr>)"
    if "live_ok u" for u :: "'a live_scheme" and rows
    using that by (auto simp: live_ok_def comp_def)
  show ?thesis
    using s receive_approval_ok [OF s]
    by (auto simp: handle_approval_def Let_def intro!: counts split: option.splits)
qed

lemma receive_task_ok: "live_ok s \<Longrightarrow> live_ok (receive_task t s)"
  using cards.distinct_put [of "lv_tasks s" "lv_agents_ref s" t]
    put_task_ok [of "lv_tasks s" "lv_agents_ref s" t]
  by (auto simp: receive_task_def live_ok_def put_task_def Let_def)

lemma receive_comment_ok: "live_ok s \<Longrightarrow> live_ok (receive_comment c s)"
  using merge_comments_distinct [of "[lv_comments s, [c]]"]
  by (auto simp: receive_comment_def live_ok_def)

lemma handle_task_ok: "live_ok s \<Longrightarrow> live_ok (handle_task parse ev data s)"
  by (auto simp: handle_task_def Let_def push_feed_ok receive_task_ok receive_comment_ok
      split: option.splits)

lemma receive_agent_ok: "live_ok s \<Longrightarrow> live_ok (receive_agent a s)"
proof -
  assume s: "live_ok s"
  let ?s1 = "case to_live_feed_from_agent_update (normalize_agent a)
      (List.find (\<lambda>x. agent_id x = agent_id (normalize_agent a)) (lv_agents_ref s)) of
      None \<Rightarrow> s | Some item \<Rightarrow> push_feed item s"
  have 1: "live_ok ?s1" using s by (auto simp: push_feed_ok split: option.splits)
  have "distinct (map agent_id (put_agent (normalize_agent a) (lv_agents ?s1)))"
    using 1 agents.distinct_put [of "lv_agents ?s1" "normalize_agent a"]
    by (simp add: live_ok_def put_agent_def)
  moreover have "agent_status x \<noteq> None"
    if "x \<in> set (put_agent (normalize_agent a) (lv_agents ?s1))" for x
    using that 1 unfolding put_agent_def
    by (auto dest!: set_upsert simp: live_ok_def spread_agent_def spread_opt_None normalize_agent_def)
  ultimately show ?thesis using 1 by (simp add: receive_agent_def Let_def live_ok_def)
qed

lemma handle_agent_ok: "live_ok s \<Longrightarrow> live_ok (handle_agent parse ev data s)"
  by (auto simp: handle_agent_def receive_agent_ok split: option.splits)

lemma commit_refs_ok [simp]: "live_ok (commit_refs b s) = live_ok s"
  by (simp add: live_ok_def commit_refs_def)

section \<open>The four clients of the stream loop\<close>

interpretation chat_stream: sse_client "handle_chat parse" live_ok for parse
  by unfold_locales (rule handle_chat_ok)

interpretation approval_stream: sse_client "handle_approval parse" live_ok for parse
  by unfold_locales (rule handle_approval_ok)

interpretation task_stream: sse_client "handle_task parse" live_ok for parse
  by unfold_locales (rule handle_task_ok)

interpretation agent_stream: sse_client "handle_agent parse" live_ok for parse
  by unfold_locales (rule handle_agent_ok)

text \<open>What the page can do between two states: a connection of one of the streams, and the
  effects after a render.\<close>

inductive live_step :: "live \<Rightarrow> live \<Rightarrow> bool" where
  ls_chat: "wf_backoff b \<Longrightarrow> connect (handle_chat parse) random conn s b = (t, b', d) \<Longrightarrow> live_step s t"
| ls_approval: "wf_backoff b \<Longrightarrow> connect (handle_approval parse) random conn s b = (t, b', d) \<Longrightarrow> live_step s t"
| ls_task: "wf_backoff b \<Longrightarrow> connect (handle_task parse) random conn s b = (t, b', d) \<Longrightarrow> live_step s t"
| ls_agent: "wf_backoff b \<Longrightarrow> connect (handle_agent parse) random conn s b = (t, b', d) \<Longrightarrow> live_step s t"
| ls_commit: "live_step s (commit_refs feed_open s)"

lemma live_step_ok: "live_step s t \<Longrightarrow> live_ok s \<Longrightarrow> live_ok t"
proof (induction rule: live_step.induct)
  case (ls_chat b parse random conn s t b' d)
  then show ?case using chat_stream.connect_inv by blast
next
  case (ls_approval b parse random conn s t b' d)
  then show ?case using approval_stream.connect_inv by blast
next
  case (ls_task b parse random conn s t b' d)
  then show ?case using task_stream.connect_inv by blast
next
  case (ls_agent b parse random conn s t b' d)
  then show ?case using agent_stream.connect_inv by blast
qed simp

section \<open>Replayed events\<close>

lemma upsert_absorbs:
  assumes "key (mk b) = k" and "\<And>a. key a = k \<Longrightarrow> key (mrg a b) = k"
    and "mrg (mk b) b = mk b" and "\<And>a. key a = k \<Longrightarrow> mrg (mrg a b) b = mrg a b"
  shows "upsert key mrg mk k b (upsert key mrg mk k b xs) = upsert key mrg mk k b xs"
proof -
  have "upsert key mrg mk k b ys = (case ys of [] \<Rightarrow> [mk b] | y # zs \<Rightarrow>
      if key y = k then mrg y b # zs
      else if k \<in> key ` set zs then y # upsert key mrg mk k b zs else mk b # y # zs)" for ys
  proof (cases ys)
    case (Cons y zs)
    have "find_index (\<lambda>x. key x = k) zs = None \<longleftrightarrow> k \<notin> key ` set zs"
      by (auto simp: find_index_None)
    with Cons show ?thesis by (cases "find_index (\<lambda>x. key x = k) zs") (auto simp: upsert_def)
  qed (simp add: upsert_def)
  note unfold = this
  have in_upsert: "k \<in> key ` set (upsert key mrg mk k b ys)" for ys
  proof (induction ys)
    case (Cons y ys)
    then show ?case using assms(1,2) by (subst unfold) auto
  qed (simp add: unfold assms(1))
  show ?thesis
  proof (induction xs)
    case Nil
    then show ?case using assms(1,3) by (simp add: unfold)
  next
    case (Cons y zs)
    consider "key y = k" | "key y \<noteq> k" "k \<in> key ` set zs" | "key y \<noteq> k" "k \<notin> key ` set zs" by blast
    then show ?case
    proof cases
      case 1
      then show ?thesis using assms by (simp add: unfold [of "_ # _"])
    next
      case 2
      then show ?thesis using Cons in_upsert [of zs] by (simp add: unfold [of "_ # _"])
    next
      case 3
      then show ?thesis using assms(1,3) by (simp add: unfold [of "_ # _"])
    qed
  qed
qed

lemma spread_absorb [simp]:
  "spread (spread a b) b = spread a b" "spread a a = a" "spread b (spread a b) = spread a b"
  "spread a (spread a b) = spread a b"
  by (cases b; cases a; simp)+

lemma spread_opt_absorb [simp]:
  "spread_opt (spread_opt a b) b = spread_opt a b" "spread_opt a a = a"
  "spread_opt b (spread_opt a b) = spread_opt a b" "spread_opt (Some v) None = Some v"
  "spread_opt a (spread_opt a b) = spread_opt a b"
  "spread_opt a (Some w) = Some w"
  "spread_opt (Some (coalesce_opt (spread_opt a b) v)) b = Some (coalesce_opt (spread_opt a b) v)"
  "spread_opt (Some (coalesce_opt b v)) b = Some (coalesce_opt b v)"
  "coalesce_opt (Some w) v = w"
  by (cases a; cases b; simp add: coalesce_opt_def)+

lemma put_approval_again: "put_approval a (put_approval a xs) = put_approval a xs"
  unfolding put_approval_def by (rule upsert_absorbs) (simp_all add: spread_approval_def)

lemma put_agent_again: "put_agent a (put_agent a xs) = put_agent a xs"
  unfolding put_agent_def by (rule upsert_absorbs) (simp_all add: spread_agent_def)

lemma put_task_again: "put_task ags t (put_task ags t xs) = put_task ags t xs"
  unfolding put_task_def
proof (rule upsert_absorbs)
  show "update_card ags (create_card ags t) t = create_card ags t"
    by (simp add: update_card_def create_card_def spread_card_def spread_task_def normalize_task_def
        as_card_def task_read.truncate_def task_read.extend_def task_card_read.fields_def)
next
  fix a :: task_card_read
  show "update_card ags (update_card ags a t) t = update_card ags a t"
    by (simp add: update_card_def spread_card_def spread_task_def normalize_task_def
        task_read.truncate_def)
qed simp_all

lemma update_selected_again [simp]:
  "update_selected t (update_selected t p) = update_selected t p"
  by (auto simp: update_selected_def spread_task_def split: option.splits)

lemma receive_task_again: "receive_task t (receive_task t s) = receive_task t s"
  by (simp add: receive_task_def Let_def put_task_again)

lemma apply_counts_again: "apply_counts rows (apply_counts rows t) = apply_counts rows t"
  by (simp add: apply_counts_def split: option.splits)

lemma add_item_again: "add_item x (add_item x xs) = add_item x xs"
  by (simp add: add_item_def has_item_def)

lemma add_chat_again: "add_chat_message m (add_chat_message m ms) = add_chat_message m ms"
  by (auto simp: add_chat_message_def list_ex_iff)

lemma collect_distinct:
  "distinct (map comment_id cs) \<Longrightarrow> comment_id ` set cs \<inter> fst ` set acc = {} \<Longrightarrow>
     foldl collect_comment acc cs = acc @ map (\<lambda>c. (comment_id c, c)) cs"
proof (induction cs arbitrary: acc)
  case Nil
  then show ?case by simp
next
  case (Cons c cs)
  then have "map_of acc (comment_id c) = None" by (auto simp: map_of_eq_None_iff)
  then have "collect_comment acc c = acc @ [(comment_id c, c)]" by (simp add: collect_comment_def)
  moreover have "comment_id ` set cs \<inter> fst ` set (acc @ [(comment_id c, c)]) = {}"
    using Cons.prems by auto
  ultimately show ?case using Cons.IH [of "acc @ [(comment_id c, c)]"] Cons.prems(1) by simp
qed

lemma update_id_self: "map_of al k = Some v \<Longrightarrow> AList.update k v al = al"
  by (induction al) (auto split: if_splits)

lemma merge_again:
  "merge_comments_by_id [merge_comments_by_id [cs, [c]], [c]] = merge_comments_by_id [cs, [c]]"
proof -
  let ?m = "merge_comments_by_id [cs, [c]]"
  have d: "distinct (map comment_id ?m)" by (rule merge_comments_distinct)
  have mem: "comment_id c \<in> comment_id ` set ?m"
    and best: "\<And>x. x \<in> set ?m \<Longrightarrow> comment_id x = comment_id c \<Longrightarrow>
      comment_time c \<le> comment_time x \<and> (comment_time x = comment_time c \<longrightarrow> x = c)"
    using merge_comments_last [where c = c and cs = cs] by blast+
  then obtain x where x: "x \<in> set ?m" "comment_id x = comment_id c" by auto
  let ?al = "map (\<lambda>c. (comment_id c, c)) ?m"
  have al: "foldl collect_comment [] ?m = ?al" using d by (simp add: collect_distinct)
  have look: "map_of ?al (comment_id c) = Some x"
    using x d by (intro map_of_is_SomeI) (auto simp: comp_def image_iff)
  have "newer_comment x c = x"
    using best [OF x] by (auto simp: newer_comment_def comment_time_def)
  then have "collect_comment ?al c = ?al"
    using look by (simp add: collect_comment_def update_id_self)
  then have "merge_comments_by_id [?m, [c]] = js_sort (by_key_desc comment_time) ?m"
    by (simp add: merge_comments_by_id_def [of "[?m, [c]]"] al comp_def)
  also have "\<dots> = ?m" by (simp add: merge_comments_by_id_def by_key_desc.sort_idem)
  finally show ?thesis .
qed

lemma receive_comment_again: "receive_comment c (receive_comment c s) = receive_comment c s"
  by (simp add: receive_comment_def merge_again)

text \<open>What a render shows of the live data.\<close>

definition shown :: "'a live_scheme \<Rightarrow>
  task_card_read list \<times> agent_read list \<times> approval_read list \<times> memory list \<times>
  task_card_read option \<times> comment list \<times> feed_item list" where
  "shown s = (lv_tasks s, lv_agents s, lv_approvals s, lv_chat s, lv_selected s, lv_comments s,
              feed (lv_feed s))"

lemma shown_push: "shown (push_feed i s) = (lv_tasks s, lv_agents s, lv_approvals s, lv_chat s,
    lv_selected s, lv_comments s, add_item i (feed (lv_feed s)))"
  by (simp add: shown_def push_feed_def feed_push)

lemma shown_chat_again:
  "shown (handle_chat parse ev data (handle_chat parse ev data s)) = shown (handle_chat parse ev data s)"
  by (auto simp: handle_chat_def receive_chat_def shown_def push_feed_def feed_push add_chat_again
      add_item_again split: option.splits)

lemma shown_agent_again:
  "shown (handle_agent parse ev data (handle_agent parse ev data s)) = shown (handle_agent parse ev data s)"
  by (auto simp: handle_agent_def receive_agent_def Let_def shown_def push_feed_def feed_push
      put_agent_again add_item_again split: option.splits)

lemma shown_approval_again:
  "shown (handle_approval parse ev data (handle_approval parse ev data s)) =
     shown (handle_approval parse ev data s)"
  by (auto simp: handle_approval_def receive_approval_def Let_def shown_def push_feed_def feed_push
      put_approval_again add_item_again apply_counts_again comp_def split: option.splits)

lemma shown_task_again:
  "shown (handle_task parse ev data (handle_task parse ev data s)) = shown (handle_task parse ev data s)"
proof -
  have push_task: "receive_task t (push_feed i s) = push_feed i (receive_task t s)" for t i and s :: "'a live_scheme"
    by (simp add: receive_task_def push_feed_def Let_def)
  have push_comment: "receive_comment c (push_feed i s) = push_feed i (receive_comment c s)"
    for c i and s :: "'a live_scheme"
    by (simp add: receive_comment_def push_feed_def)
  have again: "shown (push_feed i (push_feed i s)) = shown (push_feed i s)" for i and s :: "'a live_scheme"
    by (simp add: shown_def push_feed_def feed_push add_item_again)
  show ?thesis
  proof (cases "ev = ''task'' \<and> data \<noteq> [] \<and> parse data \<noteq> None")
    case False
    then have "handle_task parse ev data u = u" for u :: "'a live_scheme"
      by (auto simp: handle_task_def)
    then show ?thesis by simp
  next
    case True
    then obtain e where e: "parse data = Some e" by auto
    define push where "push u = (case task_event_item e of None \<Rightarrow> u | Some i \<Rightarrow> push_feed i u)"
      for u :: "'a live_scheme"
    define cmt where "cmt = (case te_comment e of None \<Rightarrow> None
        | Some c \<Rightarrow> if comment_task_id c \<notin> {None, Some []} then Some c else None)"
    have eq: "handle_task parse ev data u =
        (if cmt \<noteq> None \<and> te_type e = Some ''task.comment'' then receive_comment (the cmt) (push u)
         else (case te_task e of None \<Rightarrow> push u | Some t \<Rightarrow> receive_task t (push u)))"
      for u :: "'a live_scheme"
      unfolding handle_task_def push_def cmt_def Let_def using True e by simp
    have push_item: "push (receive_task t u) = receive_task t (push u)"
      "push (receive_comment c u) = receive_comment c (push u)"
      "shown (push (push u)) = shown (push u)" for t c and u :: "'a live_scheme"
      by (simp_all add: push_def push_task push_comment again split: option.split)
    have twice: "shown (receive_task t (push (push u))) = shown (receive_task t (push u))"
      "shown (receive_comment c (push (push u))) = shown (receive_comment c (push u))"
      for t c and u :: "'a live_scheme"
      unfolding push_item(1,2) [symmetric] by (rule push_item(3))+
    show ?thesis
      by (cases "te_task e")
        (simp_all add: eq push_item twice receive_task_again receive_comment_again)
  qed
qed

lemma spread_opt_normal:
  "a \<noteq> None \<Longrightarrow> spread_opt a (Some (coalesce_opt (spread_opt a b) v)) = spread_opt a b"
  "a \<noteq> None \<Longrightarrow> Some (coalesce_opt (spread_opt a b) v) = spread_opt a b"
  "a \<noteq> None \<Longrightarrow> Some (coalesce_opt a v) = a"
  by (cases b; auto simp: coalesce_opt_def)+

lemma later_time_max:
  "later_time latest v = max latest (case Option.bind v (\<lambda>x. api_datetime_to_ms (Some x)) of
     None \<Rightarrow> latest | Some t \<Rightarrow> t)"
  by (auto simp: later_time_def api_datetime_to_ms_def parse_api_datetime_def split: option.splits)

lemma fold_later_time:
  "m \<le> foldl (\<lambda>l x. later_time l (stamp x)) m xs \<and>
   (\<forall>x \<in> set xs. \<forall>t. Option.bind (stamp x) (\<lambda>v. api_datetime_to_ms (Some v)) = Some t \<longrightarrow>
      t \<le> foldl (\<lambda>l x. later_time l (stamp x)) m xs) \<and>
   (foldl (\<lambda>l x. later_time l (stamp x)) m xs = m \<or>
    (\<exists>x \<in> set xs. Option.bind (stamp x) (\<lambda>v. api_datetime_to_ms (Some v)) =
       Some (foldl (\<lambda>l x. later_time l (stamp x)) m xs)))"
proof (induction xs arbitrary: m)
  case Nil
  then show ?case by simp
next
  case (Cons x xs)
  have "m \<le> later_time m (stamp x)" by (simp add: later_time_max)
  moreover have "t \<le> later_time m (stamp x)"
    if "Option.bind (stamp x) (\<lambda>v. api_datetime_to_ms (Some v)) = Some t" for t
    using that by (simp add: later_time_max)
  moreover have "later_time m (stamp x) = m \<or>
      Option.bind (stamp x) (\<lambda>v. api_datetime_to_ms (Some v)) = Some (later_time m (stamp x))"
    by (auto simp: later_time_max max_def split: option.splits)
  ultimately show ?case using Cons.IH [of "later_time m (stamp x)"] by fastforce
qed

section \<open>Properties\<close>

text \<open>C1: whatever the four streams deliver, in whatever order, over however many connections
  and renders: tasks, agents, approvals, chat messages and comments stay without duplicates,
  tasks, agents and approvals keep a status, and the live feed keeps its invariant.\<close>

lemma streams_keep_live_data:
  assumes "live_step\<^sup>*\<^sup>* s t" and "live_ok s"
  shows "live_ok t"
  using assms(1,2) by (induction rule: rtranclp_induct) (auto intro: live_step_ok)

definition empty_live :: live where
  "empty_live = \<lparr>lv_board = None, lv_tasks = [], lv_agents = [], lv_approvals = [], lv_chat = [],
     lv_selected = None, lv_comments = [], lv_tasks_ref = [], lv_agents_ref = [],
     lv_approvals_ref = [], lv_chat_ref = [], lv_selected_ref = None, lv_feed = initial_feed\<rparr>"

definition sample_task :: task_read where
  "sample_task = \<lparr>tr_id = ''t1'', tr_title = ''Ship'', tr_board_id = Some ''b1'',
     tr_created_at = ''2026-01-01T00:00:00'', tr_updated_at = ''2026-01-02T00:00:00'',
     tr_created_by_user_id = None, tr_in_progress_at = None, tr_status = Some Review,
     tr_priority = None, tr_description = Null, tr_due_at = Missing,
     tr_assigned_agent_id = Val ''a1'', tr_blocked_by_task_ids = None,
     tr_depends_on_task_ids = Some [''t2''], tr_is_blocked = None, tr_tag_ids = None,
     tr_tags = None, tr_custom_field_values = None\<rparr>"

definition task_stream_text :: string where
  "task_stream_text = ''event: task'' @ newline # ''data: {}'' @ [newline, newline]"

definition parse_sample :: "string \<Rightarrow> task_event option" where
  "parse_sample data = Some \<lparr>te_type = Some ''task.updated'', te_activity = None,
     te_task = Some sample_task, te_comment = None\<rparr>"

lemma streams_keep_live_data_witness:
  "\<exists>t. live_step\<^sup>*\<^sup>* empty_live t \<and> map tr_id (lv_tasks t) = [''t1''] \<and> live_ok t"
proof -
  let ?b = "create_exponential_backoff sse_reconnect_backoff"
  let ?c = "connect (handle_task parse_sample) 0 
      (Streaming (chunks [(23, task_stream_text)] @ [ReadDone])) empty_live ?b"
  obtain t b' d where c: "?c = (t, b', d)" by (metis prod_cases3)
  have step: "live_step\<^sup>*\<^sup>* empty_live t" using ls_task [OF wf_create c] by blast
  have blocks: "fst (feed_all [] (map snd [(23 :: nat, task_stream_text)])) =
      [''event: task'' @ newline # ''data: {}'']" by code_simp
  have block: "read_block (''event: task'' @ newline # ''data: {}'') = (''task'', ''{}'')" by code_simp
  have "map tr_id (lv_tasks (handle_task parse_sample ''task'' ''{}'' empty_live)) = [''t1'']"
    by code_simp
  then have "map tr_id (lv_tasks (handle_blocks (handle_task parse_sample)
      (fst (feed_all [] (map snd [(23 :: nat, task_stream_text)]))) empty_live)) = [''t1'']"
    unfolding blocks handle_blocks_def by (simp only: foldl.simps block prod.case)
  then have "map tr_id (lv_tasks (fst ?c)) = [''t1'']" by (simp only: connect_chunks)
  then have ids: "map tr_id (lv_tasks t) = [''t1'']" by (simp only: c fst_conv)
  have "live_ok empty_live" by (simp add: live_ok_def empty_live_def)
  from streams_keep_live_data [OF step this] step ids show ?thesis by (intro exI conjI)
qed

text \<open>C6: a task event changes the task it is about and no other: an unknown task is put on
  the board with no approvals, a known one takes the event's properties, keeps its approval
  counts, and shows the name of the agent it is assigned to.\<close>

lemma task_event_correct:
  "List.find (\<lambda>c. tr_id c = k) (lv_tasks (receive_task t s)) =
     (if k = tr_id t then
        Some (case List.find (\<lambda>c. tr_id c = k) (lv_tasks s) of
                None \<Rightarrow> create_card (lv_agents_ref s) t
              | Some c \<Rightarrow> update_card (lv_agents_ref s) c t)
      else List.find (\<lambda>c. tr_id c = k) (lv_tasks s)) \<and>
   (\<forall>c. task_ok c \<longrightarrow>
      tr_title (update_card ags c t) = tr_title t \<and>
      tr_status (update_card ags c t) = spread_opt (tr_status c) (tr_status t) \<and>
      tr_assignee (update_card ags c t) = of_nullable (assignee_name ags t) \<and>
      tr_approvals_count (update_card ags c t) = tr_approvals_count c \<and>
      tr_approvals_pending_count (update_card ags c t) = tr_approvals_pending_count c)"
proof -
  have "List.find (\<lambda>c. tr_id c = k) (lv_tasks (receive_task t s)) =
      List.find (\<lambda>c. tr_id c = k) (put_task (lv_agents_ref s) t (lv_tasks s))"
    by (simp add: receive_task_def Let_def)
  moreover have "tr_status (update_card ags c t) = spread_opt (tr_status c) (tr_status t) \<and>
      tr_approvals_count (update_card ags c t) = tr_approvals_count c \<and>
      tr_approvals_pending_count (update_card ags c t) = tr_approvals_pending_count c"
    if "task_ok c" for c
    using that by (simp add: task_ok_def update_card_def spread_card_def
        spread_task_def normalize_task_def task_read.truncate_def spread_opt_normal)
  moreover have "tr_title (update_card ags c t) = tr_title t \<and>
      tr_assignee (update_card ags c t) = of_nullable (assignee_name ags t)" for c
    by (simp add: update_card_def spread_card_def spread_task_def normalize_task_def
        task_read.truncate_def)
  ultimately show ?thesis
    using cards.find_put_same [of t "lv_agents_ref s" "lv_tasks s"]
      cards.find_put_other [of k t "lv_agents_ref s" "lv_tasks s"]
    by (simp add: put_task_def)
qed

lemma task_event_witness:
  "(List.find (\<lambda>c. tr_id c = ''t1'') (lv_tasks (receive_task sample_task empty_live)) =
     (if ''t1'' = tr_id sample_task then
        Some (case List.find (\<lambda>c. tr_id c = ''t1'') (lv_tasks empty_live) of
                None \<Rightarrow> create_card (lv_agents_ref empty_live) sample_task
              | Some c \<Rightarrow> update_card (lv_agents_ref empty_live) c sample_task)
      else List.find (\<lambda>c. tr_id c = ''t1'') (lv_tasks empty_live))) \<and>
   tr_approvals_count (update_card [] (create_card [] sample_task) sample_task) = Some 0"
proof -
  note c = task_event_correct [where k = "''t1''" and t = sample_task and s = empty_live and ags = "[]"]
  have "tr_approvals_count (update_card [] (create_card [] sample_task) sample_task) =
      tr_approvals_count (create_card [] sample_task)"
    using conjunct2 [OF c] by simp
  also have "\<dots> = Some 0"
    by (simp add: create_card_def normalize_task_def as_card_def task_read.extend_def
        task_card_read.fields_def coalesce_opt_def)
  finally show ?thesis using conjunct1 [OF c] by blast
qed


text \<open>The cursor a stream reconnects with is the latest time stamp among the items at hand
  (as text that reads back as that time, up to the year 9999): no item is newer, and one has
  it. There is none exactly when no item has a time after 1970.\<close>

lemma cursor_is_latest:
  assumes "latest_of stamp items = Some cursor"
    and "\<forall>x \<in> set items. \<forall>v t. stamp x = Some v \<longrightarrow> api_datetime_to_ms (Some v) = Some t \<longrightarrow> year_of t \<le> 9999"
  shows "\<exists>t > 0. api_datetime_to_ms (Some cursor) = Some t \<and>
           (\<exists>x \<in> set items. \<exists>v. stamp x = Some v \<and> api_datetime_to_ms (Some v) = Some t) \<and>
           (\<forall>x \<in> set items. \<forall>v t'. stamp x = Some v \<longrightarrow> api_datetime_to_ms (Some v) = Some t' \<longrightarrow> t' \<le> t)"
proof -
  let ?t = "foldl (\<lambda>l x. later_time l (stamp x)) 0 items"
  have c: "?t \<noteq> 0" "cursor = to_iso ?t"
    using assms(1) by (auto simp: latest_of_def Let_def split: if_splits)
  note f = fold_later_time [of 0 stamp items]
  then have pos: "0 < ?t" using c(1) by auto
  from f c(1) obtain x where x: "x \<in> set items"
    "Option.bind (stamp x) (\<lambda>v. api_datetime_to_ms (Some v)) = Some ?t" by auto
  then obtain v where v: "stamp x = Some v" "api_datetime_to_ms (Some v) = Some ?t"
    by (auto simp: bind_eq_Some_conv)
  have "year_of ?t \<le> 9999" using assms(2) x(1) v by blast
  moreover have "0 \<le> year_of ?t" using year_of_nonneg [of ?t] pos by simp
  ultimately have "api_datetime_to_ms (Some cursor) = Some ?t"
    using parse_api_to_iso c(2) by (simp add: api_datetime_to_ms_def)
  moreover have "\<forall>x \<in> set items. \<forall>v t'. stamp x = Some v \<longrightarrow>
      api_datetime_to_ms (Some v) = Some t' \<longrightarrow> t' \<le> ?t"
    using f by (auto simp: bind_eq_Some_conv)
  ultimately show ?thesis using pos x(1) v by blast
qed

lemma cursor_is_latest_witness:
  "\<exists>t > 0. api_datetime_to_ms (Some (to_iso 86400000)) = Some t \<and>
     (\<exists>x \<in> set [to_iso 0, to_iso 86400000, []]. \<exists>v. Some x = Some v \<and> api_datetime_to_ms (Some v) = Some t) \<and>
     (\<forall>x \<in> set [to_iso 0, to_iso 86400000, []]. \<forall>v t'. Some x = Some v \<longrightarrow>
        api_datetime_to_ms (Some v) = Some t' \<longrightarrow> t' \<le> t)"
proof (rule cursor_is_latest)
  have years: "year_of 0 = 1970" "year_of 86400000 = 1970" by code_simp+
  have ms: "api_datetime_to_ms (Some (to_iso 0)) = Some 0"
    "api_datetime_to_ms (Some (to_iso 86400000)) = Some 86400000"
    "api_datetime_to_ms (Some []) = None"
    by (simp_all add: api_datetime_to_ms_def parse_api_to_iso years)
      (simp add: parse_api_datetime_def)
  have "to_iso 0 \<noteq> []" "to_iso 86400000 \<noteq> []" by (simp_all add: to_iso_def time_string_def)
  then show "latest_of Some [to_iso 0, to_iso 86400000, []] = Some (to_iso 86400000)"
    by (simp add: latest_of_def later_time_def ms)
  show "\<forall>x \<in> set [to_iso 0, to_iso 86400000, []]. \<forall>v t. Some x = Some v \<longrightarrow>
      api_datetime_to_ms (Some v) = Some t \<longrightarrow> year_of t \<le> 9999"
    by (simp add: ms years)
qed

text \<open>When the selected task is reassigned by an event, the open detail panel gets the new
  agent's id but keeps the old agent's name, while the board shows the new name.\<close>

lemma selected_task_keeps_stale_assignee:
  assumes "lv_selected s = Some p" and "lv_selected_ref s = Some (tr_id p)" and "tr_id t = tr_id p"
    and "tr_assigned_agent_id t = Val a"
  shows "\<exists>q. lv_selected (receive_task t s) = Some q \<and> tr_assigned_agent_id q = Val a \<and>
           tr_assignee q = tr_assignee p \<and>
           (\<exists>c. List.find (\<lambda>c. tr_id c = tr_id t) (lv_tasks (receive_task t s)) = Some c \<and>
              tr_assignee c = of_nullable (assignee_name (lv_agents_ref s) t))"
proof -
  have sel: "lv_selected (receive_task t s) = Some (spread_task p t)"
    using assms by (simp add: receive_task_def update_selected_def)
  have "List.find (\<lambda>c. tr_id c = tr_id t) (lv_tasks (receive_task t s)) =
      Some (case List.find (\<lambda>c. tr_id c = tr_id t) (lv_tasks s) of
        None \<Rightarrow> create_card (lv_agents_ref s) t | Some c \<Rightarrow> update_card (lv_agents_ref s) c t)"
    using cards.find_put_same [of t "lv_agents_ref s" "lv_tasks s"]
    by (simp add: receive_task_def Let_def put_task_def)
  moreover have "tr_assignee (update_card ags c t) = of_nullable (assignee_name ags t)"
    "tr_assignee (create_card ags t) = of_nullable (assignee_name ags t)" for ags c
    by (simp_all add: update_card_def create_card_def spread_card_def spread_task_def
        normalize_task_def task_read.truncate_def as_card_def task_read.extend_def
        task_card_read.fields_def)
  ultimately show ?thesis
    using sel assms(4) by (auto simp: spread_task_def split: option.splits)
qed

lemma selected_task_witness:
  "\<exists>q. lv_selected (receive_task (sample_task\<lparr>tr_assigned_agent_id := Val ''a2''\<rparr>)
       (empty_live\<lparr>lv_selected := Some (create_card [] sample_task), lv_selected_ref := Some ''t1''\<rparr>)) = Some q \<and>
     tr_assigned_agent_id q = Val ''a2'' \<and> tr_assignee q = tr_assignee (create_card [] sample_task) \<and>
     (\<exists>c. List.find (\<lambda>c. tr_id c = tr_id (sample_task\<lparr>tr_assigned_agent_id := Val ''a2''\<rparr>))
        (lv_tasks (receive_task (sample_task\<lparr>tr_assigned_agent_id := Val ''a2''\<rparr>)
          (empty_live\<lparr>lv_selected := Some (create_card [] sample_task), lv_selected_ref := Some ''t1''\<rparr>))) = Some c \<and>
        tr_assignee c = of_nullable (assignee_name (lv_agents_ref (empty_live\<lparr>lv_selected :=
          Some (create_card [] sample_task), lv_selected_ref := Some ''t1''\<rparr>))
          (sample_task\<lparr>tr_assigned_agent_id := Val ''a2''\<rparr>)))"
  by (rule selected_task_keeps_stale_assignee) (simp_all add: sample_task_def)

end
