(* ===== verification/BoardPage.thy ===== *)
theory BoardPage
  imports BoardStreams CustomFields
begin

text \<open>
  The board page around its live data: toasts with their timers, the side panels and the URL
  they are kept in, loading the board, loading and posting comments, the chat and the control
  of the agents. A handler that awaits a request is two functions, one up to the request
  (with what is sent) and one for what follows the outcome, so that stream events, renders
  and other handlers can come in between. \<^verbatim>\<open>router.replace\<close> sets the query of the page's
  URL; the fields the page never reads back (scroll positions, focus) are left out.
\<close>

section \<open>Toasts\<close>

record toast =
  toast_id :: nat
  toast_message :: string
  toast_error :: bool

text \<open>\<open>toast_timers\<close> holds the ids of the toasts whose timer is running.\<close>

record toast_state =
  toasts :: "toast list"
  toast_id_ref :: nat
  toast_timers :: "nat list"

definition dismiss_toast :: "nat \<Rightarrow> toast_state \<Rightarrow> toast_state" where
  "dismiss_toast i s =
     s\<lparr>toasts := filter (\<lambda>t. toast_id t \<noteq> i) (toasts s),
       toast_timers := filter (\<lambda>j. j \<noteq> i) (toast_timers s)\<rparr>"

definition push_toast_state :: "string \<Rightarrow> bool \<Rightarrow> toast_state \<Rightarrow> toast_state" where
  "push_toast_state message is_error s =
     (let trimmed = trim message
      in if trimmed = [] then s
         else let i = toast_id_ref s + 1
           in s\<lparr>toast_id_ref := i,
                toasts := toasts s @ [\<lparr>toast_id = i, toast_message = trimmed, toast_error = is_error\<rparr>],
                toast_timers := i # toast_timers s\<rparr>)"

text \<open>The 3500 ms timer of a toast fires, if it is still running.\<close>

definition fire_toast_timer :: "nat \<Rightarrow> toast_state \<Rightarrow> toast_state" where
  "fire_toast_timer i s = (if i \<in> set (toast_timers s) then dismiss_toast i s else s)"

section \<open>State of the page\<close>

record panels =
  pn_path :: string
  pn_query :: search_params
  pn_detail :: bool
  pn_chat :: bool
  pn_feed :: bool
  pn_edit :: bool
  pn_highlighted :: "string option"
  pn_opened_task :: "string option"
  pn_opened_panel :: bool

record requests =
  rq_loading :: bool
  rq_loaded :: bool
  rq_error :: "string option"
  rq_approvals_loading :: bool
  rq_approvals_error :: "string option"
  rq_updating_approval :: "string option"
  rq_group :: "jsvalue option"
  rq_group_error :: "string option"
  rq_comments_loading :: bool
  rq_comments_error :: "string option"
  rq_posting :: bool
  rq_post_error :: "string option"
  rq_creating :: bool
  rq_create_error :: "string option"
  rq_saving :: bool
  rq_save_error :: "string option"
  rq_deleting :: bool
  rq_delete_error :: "string option"
  rq_chat_sending :: bool
  rq_chat_error :: "string option"
  rq_control_sending :: bool
  rq_control_error :: "string option"

record create_form =
  cf_title :: string
  cf_description :: string
  cf_priority :: string
  cf_due_date :: string
  cf_tag_ids :: "string list"
  cf_custom :: field_values

record edit_form =
  ef_title :: string
  ef_description :: string
  ef_status :: task_status
  ef_priority :: string
  ef_due_date :: string
  ef_assignee_id :: string
  ef_tag_ids :: "string list"
  ef_depends_on :: "string list"
  ef_custom :: field_values

record page = live +
  pg_signed_in :: bool
  pg_board_id :: "string option"
  pg_can_write :: bool
  pg_user_name :: string
  pg_defs :: "field_def list"
  pg_panels :: panels
  pg_req :: requests
  pg_toasts :: toast_state
  pg_create :: create_form
  pg_create_open :: bool
  pg_edit :: edit_form
  pg_delete_open :: bool
  pg_control_open :: bool
  pg_control_pause :: bool

text \<open>The test \<^verbatim>\<open>isSignedIn && boardId\<close> that guards the handlers.\<close>

definition can_call :: "page \<Rightarrow> bool" where
  "can_call p = (pg_signed_in p \<and> pg_board_id p \<noteq> None \<and> pg_board_id p \<noteq> Some [])"

definition push_toast :: "string \<Rightarrow> page \<Rightarrow> page" where
  "push_toast message p = p\<lparr>pg_toasts := push_toast_state message True (pg_toasts p)\<rparr>"

definition with_panels :: "(panels \<Rightarrow> panels) \<Rightarrow> page \<Rightarrow> page" where
  "with_panels f p = p\<lparr>pg_panels := f (pg_panels p)\<rparr>"

definition with_req :: "(requests \<Rightarrow> requests) \<Rightarrow> page \<Rightarrow> page" where
  "with_req f p = p\<lparr>pg_req := f (pg_req p)\<rparr>"

text \<open>A render with its effects.\<close>

definition commit :: "page \<Rightarrow> page" where
  "commit p = commit_refs (pn_feed (pg_panels p)) p"

section \<open>Loading the board\<close>

record snapshot =
  sn_board :: board_read
  sn_tasks :: "task_card_read list option"
  sn_agents :: "agent_read list option"
  sn_approvals :: "approval_read list option"
  sn_chat :: "memory list option"

definition begin_load_board :: "page \<Rightarrow> page option" where
  "begin_load_board p =
     (if \<not> can_call p then None
      else Some (with_req (\<lambda>r. r\<lparr>rq_loaded := False, rq_loading := True, rq_approvals_loading := True,
             rq_error := None, rq_approvals_error := None, rq_chat_error := None,
             rq_group_error := None\<rparr>) p))"

datatype 'a response = Ok 'a | Status int | Threw js_error

definition apply_snapshot :: "snapshot \<Rightarrow> page \<Rightarrow> page" where
  "apply_snapshot sn p =
     p\<lparr>lv_board := Some (sn_board sn),
       lv_tasks := map normalize_task (coalesce_opt (sn_tasks sn) []),
       lv_agents := map normalize_agent (coalesce_opt (sn_agents sn) []),
       lv_approvals := map normalize_approval (coalesce_opt (sn_approvals sn) []),
       lv_chat := coalesce_opt (sn_chat sn) []\<rparr>"

definition apply_group :: "jsvalue response \<Rightarrow> page \<Rightarrow> page" where
  "apply_group result p =
     (case result of
        Ok g \<Rightarrow> with_req (\<lambda>r. r\<lparr>rq_group := Some g\<rparr>) p
      | Status st \<Rightarrow> with_req (\<lambda>r. r\<lparr>rq_group := None\<rparr>) p
      | Threw e \<Rightarrow> with_req (\<lambda>r. r\<lparr>rq_group_error := Some (error_message e ''Unable to load board group snapshot.''),
                                 rq_group := None\<rparr>) p)"

definition fail_load :: "string \<Rightarrow> page \<Rightarrow> page" where
  "fail_load message p =
     with_req (\<lambda>r. r\<lparr>rq_error := Some message, rq_approvals_error := Some message,
       rq_chat_error := Some message, rq_group_error := Some message, rq_group := None\<rparr>) p"

definition end_load :: "page \<Rightarrow> page" where
  "end_load p = with_req (\<lambda>r. r\<lparr>rq_loading := False, rq_approvals_loading := False, rq_loaded := True\<rparr>) p"

text \<open>The group's snapshot is requested only after the board's arrived.\<close>

definition finish_load_board :: "snapshot response \<Rightarrow> jsvalue response \<Rightarrow> page \<Rightarrow> page" where
  "finish_load_board result grp p =
     end_load (case result of
        Ok sn \<Rightarrow> apply_group grp (apply_snapshot sn p)
      | Status st \<Rightarrow> fail_load ''Unable to load board snapshot.'' p
      | Threw e \<Rightarrow> fail_load (error_message e ''Something went wrong.'') p)"

section \<open>The edit form\<close>

definition form_of_task :: "(string \<Rightarrow> string \<Rightarrow> int) \<Rightarrow> (int \<Rightarrow> int) \<Rightarrow> field_def list \<Rightarrow> task_card_read \<Rightarrow> edit_form" where
  "form_of_task lc lz defs t =
     \<lparr>ef_title = tr_title t, ef_description = coalesce (tr_description t) [],
      ef_status = coalesce_opt (tr_status t) Inbox, ef_priority = coalesce_opt (tr_priority t) [],
      ef_due_date = to_local_date_input lz (or_null (tr_due_at t)),
      ef_assignee_id = coalesce (tr_assigned_agent_id t) [],
      ef_tag_ids = coalesce_opt (tr_tag_ids t) [],
      ef_depends_on = coalesce_opt (tr_depends_on_task_ids t) [],
      ef_custom = board_custom_field_values lc defs (coalesce_opt (tr_custom_field_values t) JUndef)\<rparr>"

definition empty_form :: "(string \<Rightarrow> string \<Rightarrow> int) \<Rightarrow> field_def list \<Rightarrow> edit_form" where
  "empty_form lc defs =
     \<lparr>ef_title = [], ef_description = [], ef_status = Inbox, ef_priority = ''medium'',
      ef_due_date = [], ef_assignee_id = [], ef_tag_ids = [], ef_depends_on = [],
      ef_custom = board_custom_field_values lc defs (JObj [])\<rparr>"

text \<open>The effect on \<^verbatim>\<open>selectedTask\<close> and on the definitions, and \<^verbatim>\<open>handleTaskReset\<close>.\<close>

definition reset_edit_form :: "(string \<Rightarrow> string \<Rightarrow> int) \<Rightarrow> (int \<Rightarrow> int) \<Rightarrow> page \<Rightarrow> page" where
  "reset_edit_form lc lz p =
     with_req (\<lambda>r. r\<lparr>rq_save_error := None\<rparr>)
       (p\<lparr>pg_edit := (case lv_selected p of
             None \<Rightarrow> empty_form lc (pg_defs p)
           | Some t \<Rightarrow> form_of_task lc lz (pg_defs p) t)\<rparr>)"

definition handle_task_reset :: "(string \<Rightarrow> string \<Rightarrow> int) \<Rightarrow> (int \<Rightarrow> int) \<Rightarrow> page \<Rightarrow> page" where
  "handle_task_reset lc lz p =
     (case lv_selected p of
        None \<Rightarrow> p
      | Some t \<Rightarrow> with_req (\<lambda>r. r\<lparr>rq_save_error := None\<rparr>)
                    (p\<lparr>pg_edit := form_of_task lc lz (pg_defs p) t\<rparr>))"

text \<open>Adding and removing an id in the tag and dependency pickers.\<close>

definition add_id :: "string \<Rightarrow> string list \<Rightarrow> string list" where
  "add_id i prev = (if i \<in> set prev then prev else prev @ [i])"

definition remove_id :: "string \<Rightarrow> string list \<Rightarrow> string list" where
  "remove_id i prev = filter (\<lambda>v. v \<noteq> i) prev"

section \<open>Comments\<close>

definition begin_load_comments :: "page \<Rightarrow> page option" where
  "begin_load_comments p =
     (if \<not> can_call p then None
      else Some (with_req (\<lambda>r. r\<lparr>rq_comments_loading := True, rq_comments_error := None\<rparr>) p))"

definition finish_load_comments :: "comment list response \<Rightarrow> page \<Rightarrow> page" where
  "finish_load_comments result p =
     with_req (\<lambda>r. r\<lparr>rq_comments_loading := False\<rparr>)
       (case result of
          Ok items \<Rightarrow> p\<lparr>lv_comments := merge_comments_by_id [items]\<rparr>
        | Status st \<Rightarrow> with_req (\<lambda>r. r\<lparr>rq_comments_error := Some ''Unable to load comments.''\<rparr>) p
        | Threw e \<Rightarrow> with_req (\<lambda>r. r\<lparr>rq_comments_error := Some (error_message e ''Something went wrong.'')\<rparr>) p)"

text \<open>\<^verbatim>\<open>handlePostComment\<close>: the task and the text sent, None when nothing is sent.\<close>

definition begin_post_comment :: "string \<Rightarrow> page \<Rightarrow> page \<times> (string \<times> string) option" where
  "begin_post_comment message p =
     (case lv_selected p of
        None \<Rightarrow> (p, None)
      | Some t \<Rightarrow>
          (if \<not> can_call p then (p, None)
           else let trimmed = trim message
             in if trimmed = []
                then (with_req (\<lambda>r. r\<lparr>rq_post_error := Some ''Write a message before sending.''\<rparr>) p, None)
                else (with_req (\<lambda>r. r\<lparr>rq_posting := True, rq_post_error := None\<rparr>) p,
                      Some (tr_id t, trimmed))))"

definition finish_post_comment :: "comment response \<Rightarrow> page \<Rightarrow> page \<times> bool" where
  "finish_post_comment result p =
     (let fail = (\<lambda>e. (let message = format_action_error e ''Unable to send message.''
                      in with_req (\<lambda>r. r\<lparr>rq_posting := False\<rparr>)
                           (push_toast message (with_req (\<lambda>r. r\<lparr>rq_post_error := Some message\<rparr>) p))))
      in case result of
           Ok created \<Rightarrow>
             (with_req (\<lambda>r. r\<lparr>rq_posting := False\<rparr>)
                (p\<lparr>lv_comments := merge_comments_by_id [[created], lv_comments p]\<rparr>), True)
         | Status st \<Rightarrow> (fail (Js_error ''Unable to send message.''), False)
         | Threw e \<Rightarrow> (fail e, False))"

section \<open>Panels\<close>

text \<open>\<^verbatim>\<open>router.replace\<close> with the URL built from the query \<open>q\<close> that the render saw.\<close>

definition replace_url ::
  "search_params \<Rightarrow> string option \<Rightarrow> string option \<Rightarrow> bool \<Rightarrow> panels \<Rightarrow> panels" where
  "replace_url q task cmt panel n =
     n\<lparr>pn_query := set_or_delete ''panel'' (if panel then Some ''chat'' else None)
                    (set_or_delete ''commentId'' cmt (set_or_delete ''taskId'' task q))\<rparr>"

definition query_of :: "page \<Rightarrow> search_params" where
  "query_of p = pn_query (pg_panels p)"

definition url_has :: "string \<Rightarrow> search_params \<Rightarrow> bool" where
  "url_has k q = (case params_get k q of None \<Rightarrow> False | Some v \<Rightarrow> v \<noteq> [])"

text \<open>\<^verbatim>\<open>openComments\<close>; the second component is the task whose comments it starts to load.\<close>

definition open_comments :: "string \<Rightarrow> bool \<Rightarrow> page \<Rightarrow> page \<times> string option" where
  "open_comments i preserve p =
     (let q = query_of p;
          p1 = with_panels (\<lambda>n. n\<lparr>pn_chat := False, pn_feed := False\<rparr>) p in
      case List.find (\<lambda>t. tr_id t = i) (lv_tasks_ref p1) of
        None \<Rightarrow> (p1, None)
      | Some full_task \<Rightarrow>
          (let current_comment = params_get ''commentId'' q;
               target = (if preserve then current_comment else None);
               p2 = (if params_get ''taskId'' q \<noteq> Some (tr_id full_task) \<or> current_comment \<noteq> target
                     then with_panels (replace_url q (Some (tr_id full_task)) target False) p1 else p1);
               p3 = with_panels (\<lambda>n. n\<lparr>pn_detail := True\<rparr>)
                      (p2\<lparr>lv_selected_ref := Some (tr_id full_task), lv_selected := Some full_task\<rparr>)
           in case begin_load_comments p3 of
                None \<Rightarrow> (p3, None)
              | Some p4 \<Rightarrow> (p4, Some i)))"

definition clear_selection :: "page \<Rightarrow> page" where
  "clear_selection p =
     with_req (\<lambda>r. r\<lparr>rq_comments_error := None, rq_post_error := None\<rparr>)
       (p\<lparr>lv_selected_ref := None, lv_selected := None, lv_comments := []\<rparr>)"

text \<open>The functions below are called from one another within one render, so they all see its
  query \<open>q\<close>.\<close>

definition close_comments_in :: "search_params \<Rightarrow> page \<Rightarrow> page" where
  "close_comments_in q p =
     (let p1 = with_panels (\<lambda>n. n\<lparr>pn_opened_task := None\<rparr>) p;
          p2 = (if url_has ''taskId'' q \<or> url_has ''commentId'' q
                then with_panels (replace_url q None None False) p1 else p1)
      in with_panels (\<lambda>n. n\<lparr>pn_detail := False, pn_highlighted := None, pn_edit := False\<rparr>)
           (clear_selection p2))"

definition close_comments :: "page \<Rightarrow> page" where
  "close_comments p = close_comments_in (query_of p) p"

definition open_board_chat :: "page \<Rightarrow> page" where
  "open_board_chat p =
     (let q = query_of p;
          p1 = (if pn_detail (pg_panels p) then close_comments_in q p else p);
          p2 = with_panels (\<lambda>n. n\<lparr>pn_feed := False\<rparr>) p1;
          p3 = (if params_get ''panel'' q \<noteq> Some ''chat'' \<or> url_has ''taskId'' q \<or> url_has ''commentId'' q
                then with_panels (replace_url q None None True) p2 else p2)
      in with_panels (\<lambda>n. n\<lparr>pn_chat := True\<rparr>) p3)"

definition close_board_chat_in :: "search_params \<Rightarrow> page \<Rightarrow> page" where
  "close_board_chat_in q p =
     (let p1 = (if params_get ''panel'' q = Some ''chat''
                then with_panels (replace_url q None None False) p else p)
      in with_req (\<lambda>r. r\<lparr>rq_chat_error := None\<rparr>) (with_panels (\<lambda>n. n\<lparr>pn_chat := False\<rparr>) p1))"

definition close_board_chat :: "page \<Rightarrow> page" where
  "close_board_chat p = close_board_chat_in (query_of p) p"

definition open_live_feed :: "page \<Rightarrow> page" where
  "open_live_feed p =
     (let q = query_of p;
          p1 = (if pn_detail (pg_panels p) then close_comments_in q p else p);
          p2 = (if pn_chat (pg_panels p) then close_board_chat_in q p1 else p1)
      in with_panels (\<lambda>n. n\<lparr>pn_feed := True\<rparr>) p2)"

definition close_live_feed :: "page \<Rightarrow> page" where
  "close_live_feed p = with_panels (\<lambda>n. n\<lparr>pn_feed := False\<rparr>) p"

text \<open>The effects on the URL: a task id opens its panel once it is on the board, an unknown one
  is removed; the chat panel opens once.\<close>

definition task_url_effect :: "page \<Rightarrow> page \<times> string option" where
  "task_url_effect p =
     (if \<not> rq_loaded (pg_req p) then (p, None)
      else (case params_get ''taskId'' (query_of p) of
          None \<Rightarrow> (with_panels (\<lambda>n. n\<lparr>pn_opened_task := None\<rparr>) p, None)
        | Some i \<Rightarrow>
            (if i = [] then (with_panels (\<lambda>n. n\<lparr>pn_opened_task := None\<rparr>) p, None)
             else if pn_opened_task (pg_panels p) = Some i then (p, None)
             else if \<not> list_ex (\<lambda>t. tr_id t = i) (lv_tasks p)
             then (with_panels (replace_url (query_of p) None None False) p, None)
             else open_comments i True (with_panels (\<lambda>n. n\<lparr>pn_opened_task := Some i\<rparr>) p))))"

definition panel_url_effect :: "page \<Rightarrow> page" where
  "panel_url_effect p =
     (if \<not> rq_loaded (pg_req p) then p
      else if params_get ''panel'' (query_of p) \<noteq> Some ''chat''
      then with_panels (\<lambda>n. n\<lparr>pn_opened_panel := False\<rparr>) p
      else if pn_opened_panel (pg_panels p) then p
      else with_panels (\<lambda>n. n\<lparr>pn_opened_panel := True, pn_detail := False, pn_feed := False, pn_chat := True\<rparr>)
             (clear_selection p))"

definition highlight_effect :: "page \<Rightarrow> page" where
  "highlight_effect p =
     (case params_get ''commentId'' (query_of p) of
        None \<Rightarrow> with_panels (\<lambda>n. n\<lparr>pn_highlighted := None\<rparr>) p
      | Some i \<Rightarrow>
          (if \<not> pn_detail (pg_panels p) \<or> i = [] then with_panels (\<lambda>n. n\<lparr>pn_highlighted := None\<rparr>) p
           else (case List.find (\<lambda>c. comment_id c = i) (lv_comments p) of
                   None \<Rightarrow> p
                 | Some target \<Rightarrow> with_panels (\<lambda>n. n\<lparr>pn_highlighted := Some (comment_id target)\<rparr>) p)))"

section \<open>Chat and control of the agents\<close>

record chat_message =
  cm_content :: string
  cm_tags :: "string list"
  cm_source :: string

definition begin_post_chat :: "string \<Rightarrow> page \<Rightarrow> (bool \<times> string option) + chat_message" where
  "begin_post_chat content p =
     (if \<not> can_call p then Inl (False, Some ''Sign in to send messages.'')
      else let trimmed = trim content
        in if trimmed = [] then Inl (False, None)
           else Inr \<lparr>cm_content = trimmed, cm_tags = [''chat''], cm_source = pg_user_name p\<rparr>)"

definition finish_post_chat :: "memory response \<Rightarrow> page \<Rightarrow> page \<times> bool \<times> string option" where
  "finish_post_chat result p =
     (case result of
        Ok created \<Rightarrow> (receive_chat created p, True, None)
      | Status st \<Rightarrow> (p, False, Some (format_action_error (Js_error ''Unable to send message.'') ''Unable to send message.''))
      | Threw e \<Rightarrow> (p, False, Some (format_action_error e ''Unable to send message.'')))"

text \<open>\<^verbatim>\<open>handleSendChat\<close> up to the request, and after the outcome of \<^verbatim>\<open>postBoardChatMessage\<close>.\<close>

definition begin_send_chat :: "string \<Rightarrow> page \<Rightarrow> page option" where
  "begin_send_chat content p =
     (if trim content = [] then None
      else Some (with_req (\<lambda>r. r\<lparr>rq_chat_sending := True, rq_chat_error := None\<rparr>) p))"

definition finish_send_chat :: "bool \<times> string option \<Rightarrow> page \<Rightarrow> page \<times> bool" where
  "finish_send_chat result p =
     (let done = with_req (\<lambda>r. r\<lparr>rq_chat_sending := False\<rparr>) in
      case result of
        (True, _) \<Rightarrow> (done p, True)
      | (False, Some e) \<Rightarrow>
          (if e = [] then (done p, False)
           else (done (push_toast e (with_req (\<lambda>r. r\<lparr>rq_chat_error := Some e\<rparr>) p)), False))
      | (False, None) \<Rightarrow> (done p, False))"

definition open_agents_control :: "bool \<Rightarrow> page \<Rightarrow> page" where
  "open_agents_control pause p =
     (with_req (\<lambda>r. r\<lparr>rq_control_error := None\<rparr>) p)\<lparr>pg_control_pause := pause, pg_control_open := True\<rparr>"

definition control_command :: "page \<Rightarrow> string" where
  "control_command p = (if pg_control_pause p then ''/pause'' else ''/resume'')"

definition begin_agents_control :: "page \<Rightarrow> page \<times> string" where
  "begin_agents_control p =
     (with_req (\<lambda>r. r\<lparr>rq_control_sending := True, rq_control_error := None\<rparr>) p, control_command p)"

definition finish_agents_control :: "string \<Rightarrow> bool \<times> string option \<Rightarrow> page \<Rightarrow> page" where
  "finish_agents_control command result p =
     with_req (\<lambda>r. r\<lparr>rq_control_sending := False\<rparr>)
       (if \<not> fst result then
          (let message = coalesce_opt (snd result) (''Unable to send '' @ command @ '' command.'')
           in push_toast message (with_req (\<lambda>r. r\<lparr>rq_control_error := Some message\<rparr>) p))
        else p\<lparr>pg_control_open := False\<rparr>)"

section \<open>The four connections\<close>

text \<open>When the effect of a stream runs, and what its request carries: the board and the cursor.
  Each connection then is the loop of \<open>SseStream\<close> with the resource's handler.\<close>

record stream_request =
  sr_board :: string
  sr_since :: "string option"

definition stream_on_board :: "bool \<Rightarrow> page \<Rightarrow> string option \<Rightarrow> stream_request option" where
  "stream_on_board active p since =
     (if \<not> active then None
      else if \<not> can_call p \<or> lv_board p = None then None
      else map_option (\<lambda>b. \<lparr>sr_board = b, sr_since = since\<rparr>) (pg_board_id p))"

definition chat_stream_request :: "bool \<Rightarrow> page \<Rightarrow> stream_request option" where
  "chat_stream_request active p =
     (if \<not> pn_chat (pg_panels p) \<and> \<not> pn_feed (pg_panels p) then None
      else stream_on_board active p (latest_chat_timestamp (lv_chat_ref p)))"

definition approval_stream_request :: "bool \<Rightarrow> page \<Rightarrow> stream_request option" where
  "approval_stream_request active p =
     stream_on_board active p (latest_approval_timestamp (lv_approvals_ref p))"

definition task_stream_request :: "bool \<Rightarrow> page \<Rightarrow> stream_request option" where
  "task_stream_request active p = stream_on_board active p (latest_task_timestamp (lv_tasks_ref p))"

text \<open>The agents' stream does not wait for the board, but only administrators have it.\<close>

definition agent_stream_request :: "bool \<Rightarrow> bool \<Rightarrow> page \<Rightarrow> stream_request option" where
  "agent_stream_request active admin p =
     (if \<not> active then None
      else if \<not> can_call p \<or> \<not> admin then None
      else map_option (\<lambda>b. \<lparr>sr_board = b, sr_since = latest_agent_timestamp (lv_agents_ref p)\<rparr>)
             (pg_board_id p))"

definition connect_chat ::
  "(string \<Rightarrow> memory option option) \<Rightarrow> rat \<Rightarrow> connection \<Rightarrow> page \<Rightarrow> backoff \<Rightarrow> page \<times> backoff \<times> jsnum option" where
  "connect_chat parse random conn p b = connect (handle_chat parse) random conn p b"

definition connect_approvals ::
  "(string \<Rightarrow> approval_payload_event option) \<Rightarrow> rat \<Rightarrow> connection \<Rightarrow> page \<Rightarrow> backoff \<Rightarrow>
     page \<times> backoff \<times> jsnum option" where
  "connect_approvals parse random conn p b = connect (handle_approval parse) random conn p b"

definition connect_tasks ::
  "(string \<Rightarrow> task_event option) \<Rightarrow> rat \<Rightarrow> connection \<Rightarrow> page \<Rightarrow> backoff \<Rightarrow> page \<times> backoff \<times> jsnum option" where
  "connect_tasks parse random conn p b = connect (handle_task parse) random conn p b"

definition connect_agents ::
  "(string \<Rightarrow> agent_read option option) \<Rightarrow> rat \<Rightarrow> connection \<Rightarrow> page \<Rightarrow> backoff \<Rightarrow> page \<times> backoff \<times> jsnum option" where
  "connect_agents parse random conn p b = connect (handle_agent parse) random conn p b"

end
