(* ===== verification/BoardTasks.thy ===== *)
theory BoardTasks
  imports BoardPage
begin

text \<open>
  The operations on tasks and approvals of the board page: creating a task, saving the edit
  form, deleting, moving a card between columns (optimistic, with the list of before as the
  rollback) and deciding an approval. Each is split at its request, as in \<open>BoardPage\<close>.
\<close>

section \<open>Names\<close>

definition assignee_by_id :: "page \<Rightarrow> (string \<times> string) list" where
  "assignee_by_id p =
     foldl (\<lambda>m a. AList.update (agent_id a) (agent_name a) m) []
       (filter (\<lambda>a. pg_board_id p = None \<or> pg_board_id p = Some [] \<or>
          or_null (agent_board_id a) = pg_board_id p) (lv_agents p))"

definition task_title_by_id :: "task_card_read list \<Rightarrow> (string \<times> string) list" where
  "task_title_by_id tasks = foldl (\<lambda>m t. AList.update (tr_id t) (tr_title t) m) [] tasks"

definition task_by_id :: "task_card_read list \<Rightarrow> (string \<times> task_card_read) list" where
  "task_by_id tasks = foldl (\<lambda>m t. AList.update (tr_id t) t m) [] tasks"

definition assignee_of :: "(string \<Rightarrow> string option) \<Rightarrow> task_read \<Rightarrow> string option" where
  "assignee_of names t =
     (case tr_assigned_agent_id t of
        Val a \<Rightarrow> if a = [] then None else names a
      | _ \<Rightarrow> None)"

section \<open>Creating a task\<close>

definition reset_form :: "(string \<Rightarrow> string \<Rightarrow> int) \<Rightarrow> page \<Rightarrow> page" where
  "reset_form lc p =
     with_req (\<lambda>r. r\<lparr>rq_create_error := None\<rparr>)
       (p\<lparr>pg_create := \<lparr>cf_title = [], cf_description = [], cf_priority = ''medium'',
            cf_due_date = [], cf_tag_ids = [],
            cf_custom = board_custom_field_values lc (pg_defs p) (JObj [])\<rparr>\<rparr>)"

record create_request =
  cq_title :: string
  cq_description :: "string option"
  cq_status :: task_status
  cq_priority :: string
  cq_due_at :: "string option"
  cq_tag_ids :: "string list"
  cq_custom :: field_values

definition required_message :: "string \<Rightarrow> string" where
  "required_message label = ''Custom field '' @ dquote @ label @ dquote @ '' is required.''"

definition text_or_null :: "string \<Rightarrow> string option" where
  "text_or_null s = (let t = trim s in if t = [] then None else Some t)"

definition begin_create_task :: "(int \<Rightarrow> int) \<Rightarrow> page \<Rightarrow> page \<times> create_request option" where
  "begin_create_task uz p =
     (if \<not> can_call p then (p, None)
      else let f = pg_create p; trimmed = trim (cf_title f)
        in if trimmed = []
           then (with_req (\<lambda>r. r\<lparr>rq_create_error := Some ''Add a task title to continue.''\<rparr>) p, None)
           else let payload = custom_field_payload (pg_defs p) (cf_custom f)
             in (case first_missing_required_custom_field (pg_defs p) payload of
                   Some label \<Rightarrow>
                     (with_req (\<lambda>r. r\<lparr>rq_create_error := Some (required_message label)\<rparr>) p, None)
                 | None \<Rightarrow>
                     (with_req (\<lambda>r. r\<lparr>rq_creating := True, rq_create_error := None\<rparr>) p,
                      Some \<lparr>cq_title = trimmed, cq_description = text_or_null (cf_description f),
                        cq_status = Inbox, cq_priority = cf_priority f,
                        cq_due_at = local_date_input_to_utc_iso uz (Some (cf_due_date f)),
                        cq_tag_ids = cf_tag_ids f, cq_custom = payload\<rparr>)))"

definition finish_create_task ::
  "(string \<Rightarrow> string \<Rightarrow> int) \<Rightarrow> (string \<times> string) list \<Rightarrow> task_read response \<Rightarrow> page \<Rightarrow> page" where
  "finish_create_task lc names result p =
     (let fail = (\<lambda>e. let message = format_action_error e ''Something went wrong.''
                     in push_toast message (with_req (\<lambda>r. r\<lparr>rq_create_error := Some message\<rparr>) p))
      in with_req (\<lambda>r. r\<lparr>rq_creating := False\<rparr>)
           (case result of
              Ok t \<Rightarrow>
                (let created = normalize_task (as_card t (assignee_of (map_of names) t) 0 0)
                 in reset_form lc (p\<lparr>lv_tasks := created # lv_tasks p, pg_create_open := False\<rparr>))
            | Status st \<Rightarrow> fail (Js_error ''Unable to create task.'')
            | Threw e \<Rightarrow> fail e))"

section \<open>Saving the edit form\<close>

definition joined :: "string list \<Rightarrow> string" where
  "joined ids = join_with ''|'' (js_sort str_cmp ids)"

text \<open>\<^verbatim>\<open>hasTaskChanges\<close>, which enables the save button.\<close>

definition has_task_changes :: "(string \<Rightarrow> string \<Rightarrow> int) \<Rightarrow> (int \<Rightarrow> int) \<Rightarrow> page \<Rightarrow> bool" where
  "has_task_changes lc lz p =
     (case lv_selected p of
        None \<Rightarrow> False
      | Some t \<Rightarrow>
          (let f = pg_edit p
           in trim (ef_title f) \<noteq> tr_title t \<or>
              trim (ef_description f) \<noteq> trim (coalesce (tr_description t) []) \<or>
              Some (ef_status f) \<noteq> tr_status t \<or>
              Some (ef_priority f) \<noteq> tr_priority t \<or>
              ef_due_date f \<noteq> to_local_date_input lz (or_null (tr_due_at t)) \<or>
              ef_assignee_id f \<noteq> coalesce (tr_assigned_agent_id t) [] \<or>
              joined (coalesce_opt (tr_tag_ids t) []) \<noteq> joined (ef_tag_ids f) \<or>
              joined (coalesce_opt (tr_depends_on_task_ids t) []) \<noteq> joined (ef_depends_on f) \<or>
              canonicalize_custom_field_values lc (JObj (board_custom_field_values lc (pg_defs p)
                (coalesce_opt (tr_custom_field_values t) JUndef))) \<noteq>
              canonicalize_custom_field_values lc (JObj (custom_field_payload (pg_defs p) (ef_custom f)))))"

text \<open>The body of the update: None for a property that is left out.\<close>

record update_request =
  uq_title :: string
  uq_description :: "string option"
  uq_status :: task_status
  uq_priority :: string
  uq_assigned :: "string option"
  uq_depends_on :: "string list option"
  uq_tag_ids :: "string list option"
  uq_due_at :: "string optional"
  uq_custom :: "field_values option"

definition build_update :: "(string \<Rightarrow> string \<Rightarrow> int) \<Rightarrow> (int \<Rightarrow> int) \<Rightarrow> (int \<Rightarrow> int) \<Rightarrow>
    task_card_read \<Rightarrow> edit_form \<Rightarrow> string \<Rightarrow> field_values \<Rightarrow> update_request" where
  "build_update lc lz uz t f trimmed_title patch =
     (let deps_changed = joined (coalesce_opt (tr_depends_on_task_ids t) []) \<noteq> joined (ef_depends_on f);
          tags_changed = joined (coalesce_opt (tr_tag_ids t) []) \<noteq> joined (ef_tag_ids f);
          due_changed = ef_due_date f \<noteq> to_local_date_input lz (or_null (tr_due_at t))
      in \<lparr>uq_title = trimmed_title, uq_description = text_or_null (ef_description f),
          uq_status = ef_status f, uq_priority = ef_priority f,
          uq_assigned = non_empty_string (ef_assignee_id f),
          uq_depends_on = (if deps_changed \<and> tr_status t \<noteq> Some Done then Some (ef_depends_on f) else None),
          uq_tag_ids = (if tags_changed then Some (ef_tag_ids f) else None),
          uq_due_at = (if due_changed
                       then of_nullable (local_date_input_to_utc_iso uz (Some (ef_due_date f)))
                       else Missing),
          uq_custom = (if length patch > 0 then Some patch else None)\<rparr>)"

definition begin_task_save :: "(string \<Rightarrow> string \<Rightarrow> int) \<Rightarrow> (int \<Rightarrow> int) \<Rightarrow> (int \<Rightarrow> int) \<Rightarrow>
    page \<Rightarrow> page \<times> (task_card_read \<times> update_request) option" where
  "begin_task_save lc lz uz p =
     (case lv_selected p of
        None \<Rightarrow> (p, None)
      | Some t \<Rightarrow>
          (if \<not> can_call p then (p, None)
           else let f = pg_edit p; trimmed_title = trim (ef_title f)
             in if trimmed_title = []
                then (with_req (\<lambda>r. r\<lparr>rq_save_error := Some ''Title is required.''\<rparr>) p, None)
                else let current = board_custom_field_values lc (pg_defs p)
                           (coalesce_opt (tr_custom_field_values t) JUndef);
                         payload = custom_field_payload (pg_defs p) (ef_custom f);
                         patch = custom_field_patch_payload lc (pg_defs p) current payload
                  in (case first_missing_required_custom_field
                            (filter (\<lambda>d. fd_key d \<in> fst ` set patch) (pg_defs p)) patch of
                        Some label \<Rightarrow>
                          (with_req (\<lambda>r. r\<lparr>rq_save_error := Some (required_message label)\<rparr>) p, None)
                      | None \<Rightarrow>
                          (with_req (\<lambda>r. r\<lparr>rq_saving := True, rq_save_error := None\<rparr>) p,
                           Some (t, build_update lc lz uz t f trimmed_title patch)))))"

text \<open>The outcome of an update as the code distinguishes it: a conflict (409) with its message
  and the blocking tasks, a validation error (422) with its first message, or a task.\<close>

datatype update_outcome =
    Updated task_read
  | Conflict string "string list option"
  | Invalid "string option"
  | Update_threw js_error

definition blocked_message :: "(string \<times> string) list \<Rightarrow> string \<Rightarrow> string list option \<Rightarrow> string" where
  "blocked_message titles message blocked =
     (let blocked_titles = join_with '', ''
            (map (\<lambda>i. coalesce_opt (map_of titles i) i) (coalesce_opt blocked []))
      in if blocked_titles \<noteq> [] then message @ '' Blocked by: '' @ blocked_titles else message)"

definition merge_updated ::
  "task_card_read \<Rightarrow> task_read \<Rightarrow> string option \<Rightarrow> task_card_read" where
  "merge_updated previous t assignee =
     normalize_task ((spread_task previous t)
       \<lparr>tr_assignee := of_nullable assignee,
        tr_approvals_count := tr_approvals_count previous,
        tr_approvals_pending_count := tr_approvals_pending_count previous\<rparr>)"

definition replace_task :: "task_card_read \<Rightarrow> task_card_read list \<Rightarrow> task_card_read list" where
  "replace_task updated tasks =
     map (\<lambda>t. if tr_id t = tr_id updated then spread_card t updated else t) tasks"

text \<open>\<open>selected\<close>, \<open>names\<close> and \<open>titles\<close> are those of the render that started the save.\<close>

definition finish_task_save ::
  "bool \<Rightarrow> task_card_read \<Rightarrow> (string \<times> string) list \<Rightarrow> (string \<times> string) list \<Rightarrow>
     update_outcome \<Rightarrow> page \<Rightarrow> page" where
  "finish_task_save close_on_success selected names titles result p =
     with_req (\<lambda>r. r\<lparr>rq_saving := False\<rparr>)
       (case result of
          Conflict message blocked \<Rightarrow>
            with_req (\<lambda>r. r\<lparr>rq_save_error := Some (blocked_message titles message blocked)\<rparr>) p
        | Invalid msg \<Rightarrow>
            with_req (\<lambda>r. r\<lparr>rq_save_error :=
              Some (coalesce_opt msg ''Validation error while saving task.'')\<rparr>) p
        | Update_threw e \<Rightarrow>
            (let message = format_action_error e ''Something went wrong.''
             in push_toast message (with_req (\<lambda>r. r\<lparr>rq_save_error := Some message\<rparr>) p))
        | Updated t \<Rightarrow>
            (let previous = coalesce_opt (List.find (\<lambda>c. tr_id c = tr_id selected) (lv_tasks_ref p)) selected;
                 updated = merge_updated previous t (assignee_of (map_of names) t);
                 p1 = p\<lparr>lv_tasks := replace_task updated (lv_tasks p), lv_selected := Some updated\<rparr>
             in if close_on_success then with_panels (\<lambda>n. n\<lparr>pn_edit := False\<rparr>) p1 else p1))"

section \<open>Deleting a task\<close>

definition begin_delete_task :: "page \<Rightarrow> page \<times> string option" where
  "begin_delete_task p =
     (case lv_selected p of
        None \<Rightarrow> (p, None)
      | Some t \<Rightarrow>
          (if \<not> can_call p then (p, None)
           else (with_req (\<lambda>r. r\<lparr>rq_deleting := True, rq_delete_error := None\<rparr>) p, Some (tr_id t))))"

text \<open>\<open>q\<close> is the query of the render that started the deletion.\<close>

definition finish_delete_task :: "search_params \<Rightarrow> string \<Rightarrow> unit response \<Rightarrow> page \<Rightarrow> page" where
  "finish_delete_task q i result p =
     (let fail = (\<lambda>e. let message = format_action_error e ''Something went wrong.''
                     in push_toast message (with_req (\<lambda>r. r\<lparr>rq_delete_error := Some message\<rparr>) p))
      in with_req (\<lambda>r. r\<lparr>rq_deleting := False\<rparr>)
           (case result of
              Ok u \<Rightarrow> close_comments_in q
                (p\<lparr>lv_tasks := filter (\<lambda>t. tr_id t \<noteq> i) (lv_tasks p), pg_delete_open := False\<rparr>)
            | Status st \<Rightarrow> fail (Js_error ''Unable to delete task.'')
            | Threw e \<Rightarrow> fail e))"

section \<open>Moving a card\<close>

definition move_card :: "string \<Rightarrow> task_status \<Rightarrow> task_card_read \<Rightarrow> task_card_read" where
  "move_card i status t =
     (if tr_id t = i then
        t\<lparr>tr_status := Some status,
          tr_assigned_agent_id := (if status = Inbox then Null else tr_assigned_agent_id t),
          tr_assignee := (if status = Inbox then Null else tr_assignee t)\<rparr>
      else t)"

text \<open>What a started move keeps: the task and the list of tasks of before.\<close>

definition begin_task_move ::
  "string \<Rightarrow> task_status \<Rightarrow> page \<Rightarrow> page \<times> (task_card_read \<times> task_card_read list) option" where
  "begin_task_move i status p =
     (if \<not> can_call p then (p, None)
      else (case List.find (\<lambda>t. tr_id t = i) (lv_tasks_ref p) of
          None \<Rightarrow> (p, None)
        | Some current \<Rightarrow>
            (if tr_status current = Some status then (p, None)
             else if tr_is_blocked current = Some True \<and> status \<noteq> Inbox
             then (with_req (\<lambda>r. r\<lparr>rq_error := Some ''Task is blocked by incomplete dependencies.''\<rparr>) p, None)
             else (p\<lparr>lv_tasks := map (move_card i status) (lv_tasks p)\<rparr>,
                   Some (current, lv_tasks_ref p)))))"

definition fail_move :: "task_card_read list \<Rightarrow> js_error \<Rightarrow> page \<Rightarrow> page" where
  "fail_move previous_tasks e p =
     (let message = format_action_error e ''Unable to move task.''
      in push_toast message (with_req (\<lambda>r. r\<lparr>rq_error := Some message\<rparr>) (p\<lparr>lv_tasks := previous_tasks\<rparr>)))"

definition finish_task_move ::
  "task_card_read \<Rightarrow> task_card_read list \<Rightarrow> (string \<times> string) list \<Rightarrow> update_outcome \<Rightarrow> page \<Rightarrow> page" where
  "finish_task_move current previous_tasks titles result p =
     (case result of
        Conflict message blocked \<Rightarrow>
          fail_move previous_tasks (Js_error (blocked_message titles message blocked)) p
      | Invalid msg \<Rightarrow>
          fail_move previous_tasks (Js_error (coalesce_opt msg ''Validation error while moving task.'')) p
      | Update_threw e \<Rightarrow> fail_move previous_tasks e p
      | Updated t \<Rightarrow>
          (let updated = merge_updated current t (assignee_name (lv_agents_ref p) t)
           in p\<lparr>lv_tasks := replace_task updated (lv_tasks p)\<rparr>))"

section \<open>Deciding an approval\<close>

definition begin_approval_decision :: "string \<Rightarrow> page \<Rightarrow> page \<times> bool" where
  "begin_approval_decision i p =
     (if \<not> can_call p then (p, False)
      else if \<not> pg_can_write p
      then (push_toast ''Read-only access. You do not have permission to update approvals.'' p, False)
      else (with_req (\<lambda>r. r\<lparr>rq_updating_approval := Some i, rq_approvals_error := None\<rparr>) p, True))"

definition finish_approval_decision :: "string \<Rightarrow> approval_read response \<Rightarrow> page \<Rightarrow> page" where
  "finish_approval_decision i result p =
     (let fail = (\<lambda>e. let message = format_action_error e ''Unable to update approval.''
                     in push_toast message (with_req (\<lambda>r. r\<lparr>rq_approvals_error := Some message\<rparr>) p))
      in with_req (\<lambda>r. r\<lparr>rq_updating_approval := None\<rparr>)
           (case result of
              Ok a \<Rightarrow> p\<lparr>lv_approvals :=
                map (\<lambda>x. if approval_id x = i then normalize_approval a else x) (lv_approvals p)\<rparr>
            | Status st \<Rightarrow> fail (Js_error ''Unable to update approval.'')
            | Threw e \<Rightarrow> fail e))"

section \<open>Panels: one at a time\<close>

text \<open>At most one side panel is open, and the detail panel always has its task.\<close>

definition panels_ok :: "page \<Rightarrow> bool" where
  "panels_ok p \<longleftrightarrow>
     (let n = pg_panels p
      in \<not> (pn_detail n \<and> pn_chat n) \<and> \<not> (pn_detail n \<and> pn_feed n) \<and> \<not> (pn_chat n \<and> pn_feed n) \<and>
         (pn_detail n \<longrightarrow> lv_selected p \<noteq> None))"

lemmas panel_defs = with_panels_def with_req_def replace_url_def clear_selection_def
  close_comments_in_def close_board_chat_in_def Let_def

lemma push_feed_page [simp]:
  "pg_panels (push_feed i p) = pg_panels p" "lv_selected (push_feed i p) = lv_selected p"
  by (simp_all add: push_feed_def)

lemma receive_page [simp]:
  "pg_panels (receive_chat m p) = pg_panels p" "lv_selected (receive_chat m p) = lv_selected p"
  "pg_panels (receive_approval a p) = pg_panels p" "lv_selected (receive_approval a p) = lv_selected p"
  "pg_panels (receive_agent g p) = pg_panels p" "lv_selected (receive_agent g p) = lv_selected p"
  "pg_panels (receive_comment c p) = pg_panels p" "lv_selected (receive_comment c p) = lv_selected p"
  "pg_panels (receive_task t p) = pg_panels p"
  "lv_selected (receive_task t p) = None \<longleftrightarrow> lv_selected p = None"
  by (auto simp: receive_chat_def receive_approval_def receive_agent_def receive_comment_def
      receive_task_def update_selected_def push_feed_def Let_def split: option.splits)

lemma panels_ok_same:
  "pg_panels p' = pg_panels p \<Longrightarrow> (lv_selected p' = None \<longleftrightarrow> lv_selected p = None) \<Longrightarrow>
     panels_ok p' = panels_ok p"
  by (simp add: panels_ok_def)

lemma handle_panels [simp]:
  "panels_ok (handle_chat pc ev data p) = panels_ok p"
  "panels_ok (handle_approval pa ev data p) = panels_ok p"
  "panels_ok (handle_task pt ev data p) = panels_ok p"
  "panels_ok (handle_agent pg ev data p) = panels_ok p"
  by (auto simp: handle_chat_def handle_approval_def handle_task_def handle_agent_def Let_def
      intro!: panels_ok_same split: option.splits)

lemma push_toast_panels [simp]:
  "pg_panels (push_toast m p) = pg_panels p" "lv_selected (push_toast m p) = lv_selected p"
  by (simp_all add: push_toast_def)

lemma with_req_panels [simp]:
  "pg_panels (with_req f p) = pg_panels p" "lv_selected (with_req f p) = lv_selected p"
  "pg_panels (with_panels g p) = g (pg_panels p)" "lv_selected (with_panels g p) = lv_selected p"
  by (simp_all add: with_req_def with_panels_def)

lemma open_comments_ok: "panels_ok p \<Longrightarrow> panels_ok (fst (open_comments i keep p))"
  by (auto simp: panels_ok_def open_comments_def panel_defs begin_load_comments_def
      split: option.splits)

lemma close_comments_ok: "panels_ok p \<Longrightarrow> panels_ok (close_comments_in q p)"
  by (simp add: panels_ok_def panel_defs)

lemma panel_operations_ok:
  "panels_ok p \<Longrightarrow> panels_ok (open_board_chat p)"
  "panels_ok p \<Longrightarrow> panels_ok (close_board_chat p)"
  "panels_ok p \<Longrightarrow> panels_ok (open_live_feed p)"
  "panels_ok p \<Longrightarrow> panels_ok (close_live_feed p)"
  "panels_ok p \<Longrightarrow> panels_ok (panel_url_effect p)"
  "panels_ok p \<Longrightarrow> panels_ok (highlight_effect p)"
  by (auto simp: panels_ok_def open_board_chat_def close_board_chat_def open_live_feed_def
      close_live_feed_def panel_url_effect_def highlight_effect_def panel_defs split: option.splits)

lemma task_url_effect_ok: "panels_ok p \<Longrightarrow> panels_ok (fst (task_url_effect p))"
proof -
  assume p: "panels_ok p"
  have "panels_ok (with_panels (\<lambda>n. n\<lparr>pn_opened_task := v\<rparr>) p)"
    "panels_ok (with_panels (replace_url q None None False) p)" for v q
    using p by (simp_all add: panels_ok_def replace_url_def Let_def)
  then show ?thesis
    using p by (auto simp: task_url_effect_def intro!: open_comments_ok split: option.splits)
qed

section \<open>An untouched edit form\<close>

lemma alist_eqI:
  "distinct (map fst xs) \<Longrightarrow> map fst xs = map fst ys \<Longrightarrow> map_of xs = map_of ys \<Longrightarrow> xs = ys"
proof (intro nth_equalityI)
  assume d: "distinct (map fst xs)" and k: "map fst xs = map fst ys" and m: "map_of xs = map_of ys"
  then show len: "length xs = length ys" by (metis length_map)
  fix i assume i: "i < length xs"
  have "map_of xs (fst (xs ! i)) = Some (snd (xs ! i))"
    using d i by (simp add: map_of_eq_Some_iff)
  moreover have "map_of ys (fst (ys ! i)) = Some (snd (ys ! i))"
    using d k i len by (simp add: map_of_eq_Some_iff)
  moreover have "fst (xs ! i) = fst (ys ! i)" using k i len by (metis nth_map)
  ultimately show "xs ! i = ys ! i" using m by (simp add: prod_eq_iff)
qed

lemma fold_update_keys:
  "map fst acc = map fst acc' \<Longrightarrow>
     map fst (foldl (\<lambda>acc d. AList.update (key d) (f d) acc) acc ds) =
     map fst (foldl (\<lambda>acc d. AList.update (key d) (g d) acc) acc' ds)"
proof (induction ds arbitrary: acc acc')
  case Nil
  then show ?case by simp
next
  case (Cons d ds)
  have "map fst (AList.update (key d) (f d) acc) = map fst (AList.update (key d) (g d) acc')"
    using Cons.prems by (simp add: update_keys)
  from Cons.IH [OF this] show ?case by simp
qed

lemma fold_update_distinct:
  "distinct (map fst acc) \<Longrightarrow>
     distinct (map fst (foldl (\<lambda>acc d. AList.update (key d) (f d) acc) acc ds))"
  by (induction ds arbitrary: acc) (auto simp: distinct_update)

lemma board_values_fold:
  "board_custom_field_values lc defs v =
     foldl (\<lambda>acc d. AList.update (fd_key d)
       (case map_of (normalize_custom_field_values lc v) (fd_key d) of
          Some w \<Rightarrow> w | None \<Rightarrow> or_js_null (fd_default d)) acc) [] defs"
proof -
  have eq: "(\<lambda>acc d. case map_of m (fd_key d) of Some w \<Rightarrow> AList.update (fd_key d) w acc
          | None \<Rightarrow> AList.update (fd_key d) (or_js_null (fd_default d)) acc) =
        (\<lambda>acc d. AList.update (fd_key d)
          (case map_of m (fd_key d) of Some w \<Rightarrow> w | None \<Rightarrow> or_js_null (fd_default d)) acc)" for m
    by (intro ext) (auto split: option.split)
  show ?thesis unfolding board_custom_field_values_def Let_def eq ..
qed

lemma map_of_payload:
  "map_of (custom_field_payload defs vs) k =
     (if k \<in> fd_key ` set defs then Some (if own_or_null vs k \<noteq> JUndef then own_or_null vs k else JNull)
      else None)"
proof -
  let ?f = "\<lambda>k. Some (if own_or_null vs k \<noteq> JUndef then own_or_null vs k else JNull)"
  have "(case map_of vs j of None \<Rightarrow> JNull | Some v \<Rightarrow> if v \<noteq> JUndef then v else JNull) = the (?f j)" for j
    by (auto simp: own_or_null_def split: option.split)
  then have "custom_field_payload defs vs =
      foldl (\<lambda>acc d. case ?f (fd_key d) of None \<Rightarrow> acc | Some v \<Rightarrow> AList.update (fd_key d) v acc) [] defs"
    by (simp add: custom_field_payload_def)
  then show ?thesis by (simp only: map_of_key_fold [where f = ?f]) simp
qed

text \<open>The payload made of a form that holds the board's values is those values.\<close>

lemma payload_of_board_values:
  assumes "JUndef \<notin> snd ` set (board_custom_field_values lc defs v)"
  shows "custom_field_payload defs (board_custom_field_values lc defs v) = board_custom_field_values lc defs v"
proof (rule alist_eqI)
  let ?b = "board_custom_field_values lc defs v"
  show "distinct (map fst (custom_field_payload defs ?b))"
    unfolding custom_field_payload_def by (rule fold_update_distinct) simp
  show keys: "map fst (custom_field_payload defs ?b) = map fst ?b"
    unfolding custom_field_payload_def board_values_fold by (rule fold_update_keys) simp
  show "map_of (custom_field_payload defs ?b) = map_of ?b"
  proof
    fix k
    have dom: "k \<in> fst ` set ?b \<longleftrightarrow> k \<in> fd_key ` set defs"
    proof -
      have "k \<in> fst ` set ?b \<longleftrightarrow> map_of (custom_field_payload defs ?b) k \<noteq> None"
        using keys by (metis list.set_map map_of_eq_None_iff)
      then show ?thesis by (simp add: map_of_payload)
    qed
    show "map_of (custom_field_payload defs ?b) k = map_of ?b k"
    proof (cases "map_of ?b k")
      case None
      then have "k \<notin> fst ` set ?b" by (simp add: map_of_eq_None_iff)
      with dom None show ?thesis by (simp add: map_of_payload)
    next
      case (Some w)
      then have "(k, w) \<in> set ?b" by (rule map_of_SomeD)
      then have "w \<noteq> JUndef" "k \<in> fst ` set ?b" using assms by force+
      with Some dom show ?thesis by (simp add: map_of_payload own_or_null_def)
    qed
  qed
qed

lemma patch_same: "custom_field_patch_payload lc defs vs vs = []"
  by (induction defs) (simp_all add: custom_field_patch_payload_def)

end
