(* ===== verification/ApiClient.thy ===== *)
theory ApiClient
  imports BoardTasks
begin

text \<open>
  How the dashboard reaches its backend and who may see it: the token of the local
  authentication mode (\<^verbatim>\<open>auth/localAuth.ts\<close>), the base URL (\<^verbatim>\<open>lib/api-base.ts\<close>), the wrapper
  around \<^verbatim>\<open>fetch\<close> that every generated call goes through (\<^verbatim>\<open>api/mutator.ts\<close>), the check of the
  Clerk key (\<^verbatim>\<open>auth/clerkKey.ts\<close>), the redirect after signing in (\<^verbatim>\<open>auth/redirects.ts\<close>) and
  the middleware (\<^verbatim>\<open>proxy.ts\<close>). The environment is a record; the parser of \<^verbatim>\<open>new URL\<close>, the
  Clerk session and the matcher of public routes are parameters, and the answer of the
  network is a value.
\<close>

section \<open>Environment\<close>

record env =
  env_auth_mode :: "string option"
  env_api_url :: "string option"
  env_fallback_redirect :: "string option"
  env_clerk_key :: "string option"

text \<open>\<^verbatim>\<open>window.location\<close>; there is none on the server.\<close>

record location =
  loc_protocol :: string
  loc_hostname :: string
  loc_origin :: string

text \<open>A parsed \<^verbatim>\<open>URL\<close>.\<close>

record url =
  url_protocol :: string
  url_origin :: string
  url_host :: string
  url_pathname :: string
  url_search :: string
  url_hash :: string

definition non_empty_env :: "string option \<Rightarrow> string option" where
  "non_empty_env v = (case v of Some s \<Rightarrow> if s = [] then None else Some s | None \<Rightarrow> None)"

section \<open>Local authentication\<close>

text \<open>\<^verbatim>\<open>window.sessionStorage\<close>: its entries, and whether every access throws (private mode).
  Without a window there is no storage.\<close>

record session_storage =
  ss_items :: "(string \<times> string) list"
  ss_blocked :: bool

record local_auth =
  la_token :: "string option"
  la_storage :: "session_storage option"

definition storage_key :: string where
  "storage_key = ''mc_local_auth_token''"

definition is_local_auth_mode :: "env \<Rightarrow> bool" where
  "is_local_auth_mode e \<longleftrightarrow> env_auth_mode e = Some ''local''"

definition set_local_auth_token :: "string \<Rightarrow> local_auth \<Rightarrow> local_auth" where
  "set_local_auth_token token s =
     (let s1 = s\<lparr>la_token := Some token\<rparr> in
      case la_storage s1 of
        None \<Rightarrow> s1
      | Some st \<Rightarrow>
          (if ss_blocked st then s1
           else s1\<lparr>la_storage := Some (st\<lparr>ss_items := AList.update storage_key token (ss_items st)\<rparr>)\<rparr>))"

definition get_local_auth_token :: "local_auth \<Rightarrow> string option \<times> local_auth" where
  "get_local_auth_token s =
     (case non_empty_env (la_token s) of
        Some t \<Rightarrow> (Some t, s)
      | None \<Rightarrow>
          (case la_storage s of
             None \<Rightarrow> (None, s)
           | Some st \<Rightarrow>
               (if ss_blocked st then (None, s)
                else (case non_empty_env (map_of (ss_items st) storage_key) of
                        None \<Rightarrow> (None, s)
                      | Some stored \<Rightarrow> (Some stored, s\<lparr>la_token := Some stored\<rparr>)))))"

definition clear_local_auth_token :: "local_auth \<Rightarrow> local_auth" where
  "clear_local_auth_token s =
     (let s1 = s\<lparr>la_token := None\<rparr> in
      case la_storage s1 of
        None \<Rightarrow> s1
      | Some st \<Rightarrow>
          (if ss_blocked st then s1
           else s1\<lparr>la_storage := Some (st\<lparr>ss_items := AList.delete storage_key (ss_items st)\<rparr>)\<rparr>))"

section \<open>The base URL\<close>

definition get_api_base_url :: "env \<Rightarrow> location option \<Rightarrow> js_error + string" where
  "get_api_base_url e window =
     (let raw = non_empty_env (map_option trim (env_api_url e));
          auto = (case window of
              Some l \<Rightarrow>
                (if loc_hostname l \<noteq> [] then
                   Inr ((if loc_protocol l = ''https:'' then ''https'' else ''http'')
                        @ ''://'' @ loc_hostname l @ '':8000'')
                 else Inl (Js_error ''NEXT_PUBLIC_API_URL is not set and cannot be auto-resolved outside the browser.''))
            | None \<Rightarrow> Inl (Js_error ''NEXT_PUBLIC_API_URL is not set and cannot be auto-resolved outside the browser.''))
      in case raw of
           None \<Rightarrow> auto
         | Some r \<Rightarrow>
             (if to_lower r = ''same-origin'' then
                Inr (case window of Some l \<Rightarrow> loc_origin l | None \<Rightarrow> [])
              else if to_lower r \<noteq> ''auto'' then
                (let normalized = strip_trailing (CHR ''/'') r
                 in if normalized = [] then Inl (Js_error ''NEXT_PUBLIC_API_URL is invalid.'')
                    else Inr normalized)
              else auto))"

section \<open>The request\<close>

text \<open>A \<^verbatim>\<open>Headers\<close> object: names in lower case, at most one entry each; appending to a name
  joins the values.\<close>

type_synonym headers = "(string \<times> string) list"

definition header_get :: "string \<Rightarrow> headers \<Rightarrow> string option" where
  "header_get n h = map_of h (to_lower n)"

definition header_set :: "string \<Rightarrow> string \<Rightarrow> headers \<Rightarrow> headers" where
  "header_set n v h = AList.update (to_lower n) v h"

definition header_append :: "headers \<Rightarrow> string \<times> string \<Rightarrow> headers" where
  "header_append h nv =
     (case header_get (fst nv) h of
        None \<Rightarrow> header_set (fst nv) (snd nv) h
      | Some old \<Rightarrow> header_set (fst nv) (old @ '', '' @ snd nv) h)"

definition new_headers :: "(string \<times> string) list \<Rightarrow> headers" where
  "new_headers init = foldl header_append [] init"

record request_init =
  ri_method :: string
  ri_headers :: "(string \<times> string) list"
  ri_body :: "string optional"

record http_request =
  hq_url :: string
  hq_method :: string
  hq_headers :: headers
  hq_body :: "string optional"

definition bearer :: "string \<Rightarrow> string" where
  "bearer token = ''Bearer '' @ token"

text \<open>\<^verbatim>\<open>resolveClerkToken\<close>: no window, no Clerk session, a token, or a rejected promise.\<close>

datatype clerk_session = No_session | Clerk_token string | Clerk_rejects

definition resolve_clerk_token :: "bool \<Rightarrow> clerk_session \<Rightarrow> string option" where
  "resolve_clerk_token has_window clerk =
     (if \<not> has_window then None
      else (case clerk of No_session \<Rightarrow> None | Clerk_token t \<Rightarrow> Some t | Clerk_rejects \<Rightarrow> None))"

definition with_content_type :: "request_init \<Rightarrow> headers \<Rightarrow> headers" where
  "with_content_type options h =
     (if or_null (ri_body options) \<noteq> None \<and> header_get ''Content-Type'' h = None
      then header_set ''Content-Type'' ''application/json'' h else h)"

definition with_local_token :: "env \<Rightarrow> local_auth \<Rightarrow> headers \<Rightarrow> headers \<times> local_auth" where
  "with_local_token e s h =
     (if is_local_auth_mode e \<and> header_get ''Authorization'' h = None then
        (case get_local_auth_token s of
           (Some token, s') \<Rightarrow> (header_set ''Authorization'' (bearer token) h, s')
         | (None, s') \<Rightarrow> (h, s'))
      else (h, s))"

definition with_clerk_token :: "string option \<Rightarrow> headers \<Rightarrow> headers" where
  "with_clerk_token clerk h =
     (if header_get ''Authorization'' h = None then
        (case non_empty_env clerk of
           Some token \<Rightarrow> header_set ''Authorization'' (bearer token) h
         | None \<Rightarrow> h)
      else h)"

text \<open>\<^verbatim>\<open>customFetch\<close> up to the call of \<^verbatim>\<open>fetch\<close>.\<close>

definition begin_fetch ::
  "env \<Rightarrow> location option \<Rightarrow> clerk_session \<Rightarrow> string \<Rightarrow> request_init \<Rightarrow> local_auth \<Rightarrow>
     (js_error + http_request) \<times> local_auth" where
  "begin_fetch e window clerk u options s =
     (case get_api_base_url e window of
        Inl err \<Rightarrow> (Inl err, s)
      | Inr base_url \<Rightarrow>
          (let h0 = with_content_type options (new_headers (ri_headers options));
               (h1, s1) = with_local_token e s h0;
               h2 = with_clerk_token (resolve_clerk_token (window \<noteq> None) clerk) h1
           in (Inr \<lparr>hq_url = base_url @ u, hq_method = ri_method options, hq_headers = h2,
                    hq_body = ri_body options\<rparr>, s1)))"

section \<open>The answer\<close>

text \<open>A response: \<^verbatim>\<open>json()\<close> and \<^verbatim>\<open>text()\<close> are None when they reject.\<close>

record http_response =
  hr_status :: int
  hr_content_type :: "string option"
  hr_json :: "jsvalue option"
  hr_text :: "string option"

datatype fetch_data = Data_undefined | Data_json jsvalue | Data_stream | Data_text string

record fetched =
  ft_data :: fetch_data
  ft_status :: int

definition response_ok :: "http_response \<Rightarrow> bool" where
  "response_ok r \<longleftrightarrow> 200 \<le> hr_status r \<and> hr_status r \<le> 299"

definition is_json_response :: "http_response \<Rightarrow> bool" where
  "is_json_response r =
     (let ct = coalesce_opt (hr_content_type r) []
      in includes_str ct ''application/json'' \<or> includes_str ct ''+json'')"

definition error_data :: "http_response \<Rightarrow> jsvalue" where
  "error_data r =
     (if is_json_response r then coalesce_opt (hr_json r) JNull
      else JStr (coalesce_opt (hr_text r) []))"

definition error_text :: "jsvalue \<Rightarrow> string" where
  "error_text d =
     (case d of
        JStr s \<Rightarrow> if s \<noteq> [] then s else ''Request failed''
      | JObj kvs \<Rightarrow>
          (case map_of kvs ''detail'' of
             Some (JStr m) \<Rightarrow> if m \<noteq> [] then m else ''Request failed''
           | Some (JArr (JObj first # _)) \<Rightarrow>
               (case map_of first ''msg'' of Some (JStr m) \<Rightarrow> m | _ \<Rightarrow> ''Request failed'')
           | _ \<Rightarrow> ''Request failed'')
      | _ \<Rightarrow> ''Request failed'')"

text \<open>\<^verbatim>\<open>customFetch\<close> after \<^verbatim>\<open>fetch\<close>; the data of an \<^verbatim>\<open>ApiError\<close> is \<open>error_data\<close>.\<close>

definition finish_fetch :: "http_response \<Rightarrow> js_error + fetched" where
  "finish_fetch r =
     (if \<not> response_ok r then Inl (Api_error (hr_status r) (error_text (error_data r)))
      else if hr_status r = 204 then Inr \<lparr>ft_data = Data_undefined, ft_status = 204\<rparr>
      else if is_json_response r then
        (case hr_json r of
           None \<Rightarrow> Inl (Js_error ''Unexpected end of JSON input'')
         | Some d \<Rightarrow> Inr \<lparr>ft_data = Data_json d, ft_status = hr_status r\<rparr>)
      else if includes_str (coalesce_opt (hr_content_type r) []) ''text/event-stream'' then
        Inr \<lparr>ft_data = Data_stream, ft_status = hr_status r\<rparr>
      else Inr \<lparr>ft_data = Data_text (coalesce_opt (hr_text r) []), ft_status = hr_status r\<rparr>)"

text \<open>What \<^verbatim>\<open>handleTaskSave\<close> and \<^verbatim>\<open>handleTaskMove\<close> make of the answer to their update; the
  reading of the data by its type is a parameter each.\<close>

definition update_outcome_of ::
  "(fetch_data \<Rightarrow> string \<times> string list option) \<Rightarrow> (fetch_data \<Rightarrow> string option) \<Rightarrow> (fetch_data \<Rightarrow> task_read) \<Rightarrow>
     js_error + fetched \<Rightarrow> update_outcome" where
  "update_outcome_of read_conflict read_invalid read_task result =
     (case result of
        Inl e \<Rightarrow> Update_threw e
      | Inr f \<Rightarrow>
          (if ft_status f = 409 then
             (case read_conflict (ft_data f) of (message, blocked) \<Rightarrow> Conflict message blocked)
           else if ft_status f = 422 then Invalid (read_invalid (ft_data f))
           else Updated (read_task (ft_data f))))"

section \<open>Clerk keys and sign-in redirects\<close>

definition is_likely_valid_clerk_publishable_key :: "string option \<Rightarrow> bool" where
  "is_likely_valid_clerk_publishable_key key =
     (case non_empty_env key of
        None \<Rightarrow> False
      | Some k \<Rightarrow>
          (starts_with k ''pk_test_'' \<or> starts_with k ''pk_live_'') \<and>
          (let body = drop 8 k
           in body \<noteq> [] \<and> list_all is_alnum body \<and> 16 \<le> length body \<and>
              \<not> list_all (\<lambda>c. c = CHR ''0'') body))"

definition is_safe_relative_path :: "string \<Rightarrow> bool" where
  "is_safe_relative_path v \<longleftrightarrow> starts_with v ''/'' \<and> \<not> starts_with v ''//''"

definition resolve_sign_in_redirect_url ::
  "(string \<Rightarrow> string \<Rightarrow> url option) \<Rightarrow> env \<Rightarrow> location option \<Rightarrow> string option \<Rightarrow> string" where
  "resolve_sign_in_redirect_url parse_url e window raw_redirect =
     (let fallback = coalesce_opt (env_fallback_redirect e) ''/onboarding'' in
      case non_empty_env raw_redirect of
        None \<Rightarrow> fallback
      | Some raw \<Rightarrow>
          (if is_safe_relative_path raw then raw
           else (case window of
                   None \<Rightarrow> fallback
                 | Some l \<Rightarrow>
                     (case parse_url raw (loc_origin l) of
                        None \<Rightarrow> fallback
                      | Some parsed \<Rightarrow>
                          (if url_origin parsed \<noteq> loc_origin l then fallback
                           else url_pathname parsed @ url_search parsed @ url_hash parsed)))))"

section \<open>The middleware\<close>

definition is_clerk_enabled :: "env \<Rightarrow> bool" where
  "is_clerk_enabled e \<longleftrightarrow>
     env_auth_mode e \<noteq> Some ''local'' \<and> is_likely_valid_clerk_publishable_key (env_clerk_key e)"

definition is_clerk_internal_path :: "string \<Rightarrow> bool" where
  "is_clerk_internal_path p \<longleftrightarrow> starts_with p ''/_clerk'' \<or> starts_with p ''/v1/''"

definition legacy_redirects :: "(string \<times> string) list" where
  "legacy_redirects =
     [(''/dashboard'', ''/overview''), (''/boards'', ''/tasks''), (''/board-groups'', ''/tasks''),
      (''/approvals'', ''/cs''), (''/activity'', ''/cs''), (''/gateways'', ''/settings''),
      (''/skills'', ''/settings''), (''/tags'', ''/settings''), (''/custom-fields'', ''/settings''),
      (''/organization'', ''/settings'')]"

text \<open>The target of the redirect: the request's URL with another path.\<close>

definition legacy_redirect :: "url \<Rightarrow> url option" where
  "legacy_redirect u =
     map_option (\<lambda>lt. u\<lparr>url_pathname := snd lt\<rparr>)
       (List.find (\<lambda>lt. url_pathname u = fst lt \<or> starts_with (url_pathname u) (fst lt @ ''/''))
          legacy_redirects)"

definition request_origin :: "headers \<Rightarrow> url \<Rightarrow> string" where
  "request_origin h u =
     (let forwarded_host = header_get ''x-forwarded-host'' h;
          host = (case forwarded_host of Some x \<Rightarrow> Some x | None \<Rightarrow> header_get ''host'' h);
          proto = coalesce_opt (header_get ''x-forwarded-proto'' h) ''http''
      in case non_empty_env host of Some x \<Rightarrow> proto @ ''://'' @ x | None \<Rightarrow> url_origin u)"

definition return_back_url_for :: "headers \<Rightarrow> url \<Rightarrow> string" where
  "return_back_url_for h u = request_origin h u @ url_pathname u @ url_search u @ url_hash u"

datatype middleware_answer = Next | Redirect url | Redirect_to_sign_in string

definition middleware ::
  "env \<Rightarrow> (string \<Rightarrow> bool) \<Rightarrow> headers \<Rightarrow> url \<Rightarrow> string option \<Rightarrow> middleware_answer" where
  "middleware e is_public_route h u user_id =
     (if is_clerk_enabled e then
        (case legacy_redirect u of
           Some target \<Rightarrow> Redirect target
         | None \<Rightarrow>
             (if is_clerk_internal_path (url_pathname u) then Next
              else if is_public_route (url_pathname u) then Next
              else if non_empty_env user_id = None then Redirect_to_sign_in (return_back_url_for h u)
              else Next))
      else (case legacy_redirect u of Some target \<Rightarrow> Redirect target | None \<Rightarrow> Next))"

section \<open>Facts\<close>

lemma header_get_set [simp]:
  "header_get n (header_set m v h) = (if to_lower n = to_lower m then Some v else header_get n h)"
  by (simp add: header_get_def header_set_def update_conv)

lemma header_names [simp]:
  "to_lower ''Authorization'' = ''authorization''" "to_lower ''Content-Type'' = ''content-type''"
  by code_simp+

lemma get_local_auth_token_cases:
  "get_local_auth_token s = (r, s') \<Longrightarrow> r \<noteq> Some [] \<and> la_storage s' = la_storage s"
  by (auto simp: get_local_auth_token_def non_empty_env_def split: option.splits if_splits)

lemma header_get_content_type:
  "header_get n (with_content_type options h) =
     (if to_lower n = ''content-type'' \<and> header_get n h = None \<and> or_null (ri_body options) \<noteq> None
      then Some ''application/json'' else header_get n h)"
  by (auto simp: with_content_type_def) (auto simp: header_get_def)

lemma header_get_local_token:
  "header_get n (fst (with_local_token e s h)) =
     (if to_lower n = ''authorization'' \<and> header_get n h = None \<and> is_local_auth_mode e
      then map_option bearer (fst (get_local_auth_token s)) else header_get n h)"
  by (auto simp: with_local_token_def split: prod.splits option.splits) (auto simp: header_get_def)

lemma header_get_clerk_token:
  "header_get n (with_clerk_token clerk h) =
     (if to_lower n = ''authorization'' \<and> header_get n h = None
      then map_option bearer (non_empty_env clerk) else header_get n h)"
  by (auto simp: with_clerk_token_def split: option.splits) (auto simp: header_get_def)

lemma finish_fetch_Inr:
  "finish_fetch r = Inr f \<Longrightarrow> 200 \<le> ft_status f \<and> ft_status f \<le> 299 \<and> ft_status f = hr_status r"
  by (auto simp: finish_fetch_def response_ok_def split: option.splits if_splits)

lemma finish_fetch_Inl:
  "finish_fetch r = Inl err \<Longrightarrow> response_ok r \<or> err = Api_error (hr_status r) (error_text (error_data r))"
  by (auto simp: finish_fetch_def split: option.splits if_splits)

lemma legacy_target_final:
  assumes "p \<in> snd ` set legacy_redirects"
  shows "legacy_redirect (u\<lparr>url_pathname := p\<rparr>) = None"
proof -
  have "p = ''/overview'' \<or> p = ''/tasks'' \<or> p = ''/cs'' \<or> p = ''/settings''"
    using assms by (auto simp: legacy_redirects_def)
  then show ?thesis by (elim disjE) (simp_all add: legacy_redirect_def legacy_redirects_def)
qed

lemma legacy_redirect_Some:
  assumes "legacy_redirect u = Some t"
  shows "\<exists>p \<in> snd ` set legacy_redirects. t = u\<lparr>url_pathname := p\<rparr>"
proof -
  from assms obtain lt where "List.find (\<lambda>lt. url_pathname u = fst lt \<or>
      starts_with (url_pathname u) (fst lt @ ''/'')) legacy_redirects = Some lt" "t = u\<lparr>url_pathname := snd lt\<rparr>"
    unfolding legacy_redirect_def by blast
  then show ?thesis unfolding find_Some_iff by (metis imageI nth_mem)
qed

section \<open>Properties\<close>

definition sample_env :: env where
  "sample_env = \<lparr>env_auth_mode = Some ''local'', env_api_url = Some ''same-origin'',
     env_fallback_redirect = None, env_clerk_key = Some ''pk_test_abcdefgh12345678''\<rparr>"

definition sample_auth :: local_auth where
  "sample_auth = \<lparr>la_token = Some ''t1'', la_storage = Some \<lparr>ss_items = [], ss_blocked = False\<rparr>\<rparr>"

definition sample_location :: location where
  "sample_location = \<lparr>loc_protocol = ''https:'', loc_hostname = ''a.b'', loc_origin = ''https://a.b''\<rparr>"

text \<open>A parser that splits off the own origin and keeps the rest as the path.\<close>

definition parse_own :: "string \<Rightarrow> string \<Rightarrow> url option" where
  "parse_own v base =
     (if starts_with v (base @ ''/'') then
        Some \<lparr>url_protocol = ''https:'', url_origin = base, url_host = drop 8 base,
          url_pathname = drop (length base) v, url_search = [], url_hash = []\<rparr>
      else None)"

text \<open>C35: what a request carries: an authorization the caller gave is never replaced; without
  one it is the bearer token of the local mode (only in that mode) or else the Clerk session's;
  a body without a content type is declared as JSON; every other header is the caller's.\<close>

lemma request_headers_correct:
  assumes "begin_fetch e window clerk u options s = (Inr rq, s')"
  shows "header_get n (hq_headers rq) =
     (case header_get n (new_headers (ri_headers options)) of
        Some v \<Rightarrow> Some v
      | None \<Rightarrow>
          (if to_lower n = ''authorization'' then
             map_option bearer
               (case (if is_local_auth_mode e then fst (get_local_auth_token s) else None) of
                  Some t \<Rightarrow> Some t
                | None \<Rightarrow> non_empty_env (resolve_clerk_token (window \<noteq> None) clerk))
           else if to_lower n = ''content-type'' \<and> or_null (ri_body options) \<noteq> None
           then Some ''application/json'' else None))"
proof -
  let ?h0 = "with_content_type options (new_headers (ri_headers options))"
  have h: "hq_headers rq = with_clerk_token (resolve_clerk_token (window \<noteq> None) clerk)
      (fst (with_local_token e s ?h0))"
    using assms by (auto simp: begin_fetch_def Let_def split: sum.splits prod.splits)
  show ?thesis
    unfolding h header_get_clerk_token header_get_local_token header_get_content_type
    by (auto split: option.splits)
qed

lemma request_headers_witness:
  "\<exists>rq s'. begin_fetch sample_env None No_session ''/api'' \<lparr>ri_method = ''GET'', ri_headers = [], ri_body = Missing\<rparr>
       sample_auth = (Inr rq, s') \<and>
     header_get ''Authorization'' (hq_headers rq) = Some ''Bearer t1''"
proof -
  let ?o = "\<lparr>ri_method = ''GET'', ri_headers = [], ri_body = Missing\<rparr>"
  have base: "get_api_base_url sample_env None = Inr []" by code_simp
  obtain rq s' where b: "begin_fetch sample_env None No_session ''/api'' ?o sample_auth = (Inr rq, s')"
    by (cases "begin_fetch sample_env None No_session ''/api'' ?o sample_auth")
      (auto simp: begin_fetch_def base Let_def split: prod.splits)
  have "fst (get_local_auth_token sample_auth) = Some ''t1''" "is_local_auth_mode sample_env"
    by code_simp+
  then have "header_get ''Authorization'' (hq_headers rq) = Some ''Bearer t1''"
    using request_headers_correct [OF b, of "''Authorization''"]
    by (simp add: new_headers_def header_get_def bearer_def)
  with b show ?thesis by blast
qed

text \<open>The token of the local mode: one that was set is what later requests read, also after
  a reload of the page if the browser allows storage; once it is cleared there is none, before
  and after a reload.\<close>

lemma local_token_roundtrip:
  assumes "token \<noteq> []"
  shows "fst (get_local_auth_token (set_local_auth_token token s)) = Some token \<and>
    fst (get_local_auth_token (clear_local_auth_token s)) = None \<and>
    fst (get_local_auth_token ((set_local_auth_token token s)\<lparr>la_token := None\<rparr>)) =
      (case la_storage s of
         Some st \<Rightarrow> if ss_blocked st then None else Some token
       | None \<Rightarrow> None) \<and>
    fst (get_local_auth_token ((clear_local_auth_token s)\<lparr>la_token := None\<rparr>)) = None"
  using assms
  by (auto simp: get_local_auth_token_def set_local_auth_token_def clear_local_auth_token_def
      non_empty_env_def Let_def update_conv delete_conv split: option.splits)

lemma local_token_witness:
  "fst (get_local_auth_token ((set_local_auth_token ''t2'' sample_auth)\<lparr>la_token := None\<rparr>)) = Some ''t2'' \<and>
   fst (get_local_auth_token (clear_local_auth_token sample_auth)) = None"
  using local_token_roundtrip [of "''t2''" sample_auth] by (simp add: sample_auth_def)

text \<open>Only answers with a status from 200 to 299 come back to the callers as answers, with
  that status; every other one is thrown as an \<^verbatim>\<open>ApiError\<close> with its status. So the branches of
  the board page for a conflict (409) and for invalid data (422) are never taken, and when the
  server names the blocking tasks of a 409 in an object, the user is told ``Request failed''.\<close>

lemma conflict_branch_unreachable:
  "(case finish_fetch r of
      Inr f \<Rightarrow> 200 \<le> ft_status f \<and> ft_status f \<le> 299 \<and> ft_status f = hr_status r
    | Inl err \<Rightarrow> response_ok r \<or> err = Api_error (hr_status r) (error_text (error_data r))) \<and>
   (\<nexists>m b. update_outcome_of rc ri rt (finish_fetch r) = Conflict m b) \<and>
   (\<nexists>m. update_outcome_of rc ri rt (finish_fetch r) = Invalid m) \<and>
   update_outcome_of rc ri rt (finish_fetch \<lparr>hr_status = 409, hr_content_type = Some ''application/json'',
       hr_json = Some (JObj [(''detail'', JObj detail)]), hr_text = None\<rparr>) =
     Update_threw (Api_error 409 ''Request failed'')"
proof -
  have json: "is_json_response \<lparr>hr_status = 409, hr_content_type = Some ''application/json'',
       hr_json = Some (JObj [(''detail'', JObj detail)]), hr_text = None\<rparr>"
    by (simp add: is_json_response_def includes_str_def js_simps)
  show ?thesis
    using finish_fetch_Inr [of r] finish_fetch_Inl [of r]
    by (cases "finish_fetch r")
      (auto simp: update_outcome_of_def finish_fetch_def [of "\<lparr>hr_status = 409, hr_content_type = _, hr_json = _, hr_text = _\<rparr>"]
        response_ok_def error_data_def json error_text_def js_simps split: if_splits prod.splits)
qed




definition sample_url :: url where
  "sample_url = \<lparr>url_protocol = ''https:'', url_origin = ''https://a.b'', url_host = ''a.b'',
     url_pathname = ''/boards/b1'', url_search = ''?taskId=t1'', url_hash = []\<rparr>"


end
