(* ===== verification/ListTools.thy ===== *)
theory ListTools
  imports ApiClient
begin

text \<open>
  Small helpers that several pages share: the optimistic deletion of a row of a cached list
  (\<^verbatim>\<open>lib/list-delete.ts\<close>), a table's sorting kept in the URL (\<^verbatim>\<open>lib/use-url-sorting.ts\<close>), the
  checks of a gateway's address (\<^verbatim>\<open>lib/gateway-form.ts\<close>), the addresses of skill packs
  (\<^verbatim>\<open>lib/skills-source.ts\<close>), the completeness of a profile (\<^verbatim>\<open>lib/onboarding.ts\<close>) and the
  task in the query of a board (\<^verbatim>\<open>task-detail-query.ts\<close>). The query client and the parser of
  \<^verbatim>\<open>new URL\<close> are parameters.
\<close>

section \<open>Optimistic deletion\<close>

text \<open>The operations of the query client that the code calls, on a cache of type \<open>'c\<close>.\<close>

record ('c, 'k, 'r) query_client =
  get_query_data :: "'k \<Rightarrow> 'c \<Rightarrow> 'r option"
  set_query_data :: "'k \<Rightarrow> 'r \<Rightarrow> 'c \<Rightarrow> 'c"
  cancel_queries :: "'k \<Rightarrow> 'c \<Rightarrow> 'c"
  invalidate_queries :: "'k \<Rightarrow> 'c \<Rightarrow> 'c"

text \<open>A cached response: its status, and its data when that is a list payload
  (\<^verbatim>\<open>items\<close> an array, \<^verbatim>\<open>total\<close> a number).\<close>

record 'i list_payload =
  lp_items :: "'i list"
  lp_total :: int

record 'i list_response =
  lr_status :: int
  lr_data :: "'i list_payload option"

definition get_list_payload :: "'i list_response \<Rightarrow> 'i list_payload option" where
  "get_list_payload r = lr_data r"

definition remove_item :: "('i \<Rightarrow> string) \<Rightarrow> string \<Rightarrow> 'i list_payload \<Rightarrow> 'i list_payload" where
  "remove_item get_item_id delete_id payload =
     (let next_items = filter (\<lambda>item. get_item_id item \<noteq> delete_id) (lp_items payload);
          removed_count = int (length (lp_items payload)) - int (length next_items)
      in payload\<lparr>lp_items := next_items, lp_total := max 0 (lp_total payload - removed_count)\<rparr>)"

definition on_mutate ::
  "('c, 'k, 'i list_response) query_client \<Rightarrow> 'k \<Rightarrow> ('i \<Rightarrow> string) \<Rightarrow> string \<Rightarrow> 'c \<Rightarrow>
     'c \<times> 'i list_response option" where
  "on_mutate qc query_key get_item_id delete_id c =
     (let c1 = cancel_queries qc query_key c;
          previous = get_query_data qc query_key c1
      in case previous of
           None \<Rightarrow> (c1, previous)
         | Some r \<Rightarrow>
             (if lr_status r = 200 then
                (case get_list_payload r of
                   None \<Rightarrow> (c1, previous)
                 | Some payload \<Rightarrow>
                     (set_query_data qc query_key
                        (r\<lparr>lr_data := Some (remove_item get_item_id delete_id payload)\<rparr>) c1, previous))
              else (c1, previous)))"

definition on_error ::
  "('c, 'k, 'r) query_client \<Rightarrow> 'k \<Rightarrow> 'r option \<Rightarrow> 'c \<Rightarrow> 'c" where
  "on_error qc query_key previous c =
     (case previous of Some r \<Rightarrow> set_query_data qc query_key r c | None \<Rightarrow> c)"

definition keys_to_invalidate :: "'k list option \<Rightarrow> 'k \<Rightarrow> 'k list" where
  "keys_to_invalidate invalidate_query_keys query_key =
     (case invalidate_query_keys of
        Some ks \<Rightarrow> if length ks > 0 then ks else [query_key]
      | None \<Rightarrow> [query_key])"

definition on_settled :: "('c, 'k, 'r) query_client \<Rightarrow> 'k list \<Rightarrow> 'c \<Rightarrow> 'c" where
  "on_settled qc ks c = foldl (\<lambda>c k. invalidate_queries qc k c) c ks"

text \<open>What the query client promises: reading after writing, and that cancelling and
  invalidating a query keep its data.\<close>

definition client_laws :: "('c, 'k, 'r) query_client \<Rightarrow> bool" where
  "client_laws qc \<longleftrightarrow>
     (\<forall>k v c. get_query_data qc k (set_query_data qc k v c) = Some v) \<and>
     (\<forall>k j v c. j \<noteq> k \<longrightarrow> get_query_data qc j (set_query_data qc k v c) = get_query_data qc j c) \<and>
     (\<forall>k j c. get_query_data qc j (cancel_queries qc k c) = get_query_data qc j c) \<and>
     (\<forall>k j c. get_query_data qc j (invalidate_queries qc k c) = get_query_data qc j c)"

section \<open>Sorting in the URL\<close>

record sort_rule =
  sort_id :: string
  sort_desc :: bool

record sorting_options =
  so_allowed :: "string list"
  so_default :: "sort_rule list"
  so_prefix :: "string option"

text \<open>\<^verbatim>\<open>new URLSearchParams(s)\<close> drops one leading question mark.\<close>

definition new_search_params :: "string \<Rightarrow> search_params" where
  "new_search_params s = parse_query (if starts_with s ''?'' then tl s else s)"

definition sort_none_sentinel :: string where
  "sort_none_sentinel = ''none''"

definition resolve_sort_param :: "string option \<Rightarrow> string" where
  "resolve_sort_param prefix =
     (case non_empty_env prefix of Some p \<Rightarrow> p @ ''_sort'' | None \<Rightarrow> ''sort'')"

definition resolve_direction_param :: "string option \<Rightarrow> string" where
  "resolve_direction_param prefix =
     (case non_empty_env prefix of Some p \<Rightarrow> p @ ''_dir'' | None \<Rightarrow> ''dir'')"

fun normalize_sorting :: "sort_rule list \<Rightarrow> string list \<Rightarrow> sort_rule list" where
  "normalize_sorting [] allowed = []"
| "normalize_sorting (s # ss) allowed =
     (if sort_id s \<notin> set allowed then normalize_sorting ss allowed
      else [\<lparr>sort_id = sort_id s, sort_desc = sort_desc s\<rparr>])"

definition is_same_sorting :: "sort_rule list \<Rightarrow> sort_rule list \<Rightarrow> bool" where
  "is_same_sorting a b =
     (if length a \<noteq> length b then False
      else (case (a, b) of
              (x # _, y # _) \<Rightarrow> sort_id x = sort_id y \<and> sort_desc x = sort_desc y
            | _ \<Rightarrow> True))"

definition normalized_default :: "sorting_options \<Rightarrow> sort_rule list" where
  "normalized_default opts = normalize_sorting (so_default opts) (so_allowed opts)"

text \<open>The sorting that a query string stands for.\<close>

definition url_sorting :: "sorting_options \<Rightarrow> string \<Rightarrow> sort_rule list" where
  "url_sorting opts query =
     (let search_params = new_search_params query in
      case params_get (resolve_sort_param (so_prefix opts)) search_params of
        None \<Rightarrow> normalized_default opts
      | Some sort_value \<Rightarrow>
          (if sort_value = [] then normalized_default opts
           else if sort_value = sort_none_sentinel then []
           else if sort_value \<notin> set (so_allowed opts) then normalized_default opts
           else [\<lparr>sort_id = sort_value,
                  sort_desc = (params_get (resolve_direction_param (so_prefix opts)) search_params = Some ''desc'')\<rparr>]))"

definition sorting_params :: "sorting_options \<Rightarrow> sort_rule list \<Rightarrow> search_params \<Rightarrow> search_params" where
  "sorting_params opts next_sorting ps =
     (let sort_param = resolve_sort_param (so_prefix opts);
          direction_param = resolve_direction_param (so_prefix opts)
      in case next_sorting of
           [] \<Rightarrow> params_delete direction_param (params_set sort_param sort_none_sentinel ps)
         | primary # _ \<Rightarrow>
             (if is_same_sorting next_sorting (normalized_default opts)
              then params_delete direction_param (params_delete sort_param ps)
              else params_set direction_param (if sort_desc primary then ''desc'' else ''asc'')
                     (params_set sort_param (sort_id primary) ps)))"

text \<open>A change of the sorting: the new query string, and the URL the router replaces.\<close>

definition on_sorting_change ::
  "sorting_options \<Rightarrow> string \<Rightarrow> (sort_rule list \<Rightarrow> sort_rule list) \<Rightarrow> string \<Rightarrow> string \<times> string option" where
  "on_sorting_change opts pathname updater query =
     (let sorting = url_sorting opts query;
          next_sorting = normalize_sorting (updater sorting) (so_allowed opts)
      in if is_same_sorting next_sorting sorting then (query, None)
         else let q = params_to_string (sorting_params opts next_sorting (new_search_params query))
           in (q, Some (if q \<noteq> [] then pathname @ ''?'' @ q else pathname)))"

section \<open>Gateway addresses\<close>

definition port_segment :: "string \<Rightarrow> string option" where
  "port_segment host_port =
     (if starts_with host_port ''['' then
        (case index_of host_port '']'' of
           None \<Rightarrow> None
         | Some i \<Rightarrow> Some (drop (i + 1) host_port))
      else (case last_index_of host_port (CHR '':'') of
              None \<Rightarrow> None
            | Some i \<Rightarrow> Some (drop i host_port)))"

definition has_explicit_port :: "string \<Rightarrow> bool" where
  "has_explicit_port url_string =
     (let without_scheme = (case index_of url_string ''//'' of
            Some i \<Rightarrow> drop (i + 2) url_string | None \<Rightarrow> drop 1 url_string);
          authority = takeWhile (\<lambda>c. c \<notin> {CHR ''/'', CHR ''?'', CHR ''#''}) without_scheme
      in if authority = [] then False
         else let host_port = (case last_index_of authority (CHR ''@'') of
                     None \<Rightarrow> authority | Some i \<Rightarrow> drop (i + 1) authority)
           in case port_segment host_port of
                None \<Rightarrow> False
              | Some [] \<Rightarrow> False
              | Some (c # digits) \<Rightarrow>
                  c = CHR '':'' \<and> digits \<noteq> [] \<and> digits_only digits \<and> nat_of_digits digits \<le> 65535)"

definition validate_gateway_url :: "(string \<Rightarrow> url option) \<Rightarrow> string \<Rightarrow> string option" where
  "validate_gateway_url parse_url value =
     (let trimmed = trim value in
      if trimmed = [] then Some ''Gateway URL is required.''
      else (case parse_url trimmed of
              None \<Rightarrow> Some ''Enter a valid gateway URL including port.''
            | Some u \<Rightarrow>
                (if url_protocol u \<noteq> ''ws:'' \<and> url_protocol u \<noteq> ''wss:''
                 then Some ''Gateway URL must start with ws:// or wss://.''
                 else if \<not> has_explicit_port trimmed
                 then Some ''Gateway URL must include an explicit port.''
                 else None)))"

record gateway_check =
  gc_url :: string
  gc_token :: "string option"
  gc_disable_pairing :: bool
  gc_insecure_tls :: bool

definition gateway_check_request :: "string \<Rightarrow> string \<Rightarrow> bool \<Rightarrow> bool \<Rightarrow> gateway_check" where
  "gateway_check_request url token pairing tls =
     \<lparr>gc_url = trim url, gc_token = (if trim token \<noteq> [] then Some (trim token) else None),
      gc_disable_pairing = pairing, gc_insecure_tls = tls\<rparr>"

text \<open>The outcome of the check: the answer has a flag and perhaps an error.\<close>

definition finish_gateway_check :: "(bool \<times> string optional) response \<Rightarrow> bool \<times> string" where
  "finish_gateway_check r =
     (case r of
        Ok (reached, err) \<Rightarrow>
          (if \<not> reached then (False, coalesce err ''Unable to reach gateway.'')
           else (True, ''Gateway reachable.''))
      | Status st \<Rightarrow> (False, ''Unable to reach gateway.'')
      | Threw e \<Rightarrow> (False, error_message e ''Unable to reach gateway.''))"

section \<open>Skill packs\<close>

definition normalize_repo_source_url :: "string \<Rightarrow> string" where
  "normalize_repo_source_url source_url =
     (let trimmed = strip_trailing (CHR ''/'') (trim source_url)
      in if ends_with trimmed ''.git'' then take (length trimmed - 4) trimmed else trimmed)"

definition repo_base_from_skill_source_url :: "(string \<Rightarrow> url option) \<Rightarrow> string \<Rightarrow> string option" where
  "repo_base_from_skill_source_url parse_url u =
     (case parse_url u of
        None \<Rightarrow> None
      | Some parsed \<Rightarrow>
          (case index_of (url_pathname parsed) ''/tree/'' of
             None \<Rightarrow> None
           | Some i \<Rightarrow>
               (if i = 0 then None
                else if index_of (drop (i + 6) (url_pathname parsed)) ''/tree/'' \<noteq> None then None
                else let repo_path = take i (url_pathname parsed)
                  in if repo_path = [] \<or> repo_path = ''/'' then None
                     else if ends_with repo_path ''/tree'' then None
                     else Some (normalize_repo_source_url (url_origin parsed @ repo_path)))))"

definition pack_url_from_skill_source_url :: "(string \<Rightarrow> url option) \<Rightarrow> string \<Rightarrow> string" where
  "pack_url_from_skill_source_url parse_url u =
     coalesce_opt (repo_base_from_skill_source_url parse_url u) u"

definition pack_label_from_url :: "(string \<Rightarrow> url option) \<Rightarrow> string \<Rightarrow> string" where
  "pack_label_from_url parse_url pack_url =
     (case parse_url pack_url of
        None \<Rightarrow> ''Open pack''
      | Some parsed \<Rightarrow>
          (case filter (\<lambda>s. s \<noteq> []) (split_on (CHR ''/'') (url_pathname parsed)) of
             owner # repo # _ \<Rightarrow> owner @ ''/'' @ repo
           | _ \<Rightarrow> url_host parsed))"

definition packs_href_from_pack_url :: "string \<Rightarrow> string" where
  "packs_href_from_pack_url pack_url =
     ''/skills/packs?'' @ params_to_string [(''source_url'', pack_url)]"

section \<open>Profiles and the task in the query\<close>

record profile =
  pf_name :: "string optional"
  pf_preferred_name :: "string optional"
  pf_timezone :: "string optional"

definition is_onboarding_complete :: "profile option \<Rightarrow> bool" where
  "is_onboarding_complete p =
     (case p of
        None \<Rightarrow> False
      | Some pf \<Rightarrow>
          (let resolved_name = (case non_empty_env (map_option trim (or_null (pf_preferred_name pf))) of
                 Some n \<Rightarrow> Some n
               | None \<Rightarrow> map_option trim (or_null (pf_name pf)))
           in non_empty_env resolved_name \<noteq> None \<and>
              non_empty_env (map_option trim (or_null (pf_timezone pf))) \<noteq> None))"

definition with_task_id_search_param :: "string \<Rightarrow> string option \<Rightarrow> string" where
  "with_task_id_search_param search task_id =
     (let next = params_to_string (set_or_delete ''taskId'' task_id (new_search_params search))
      in if next \<noteq> [] then ''?'' @ next else [])"

definition build_url_with_task_id :: "string \<Rightarrow> string \<Rightarrow> string option \<Rightarrow> string" where
  "build_url_with_task_id pathname search task_id = pathname @ with_task_id_search_param search task_id"

section \<open>Facts\<close>

lemma no_question_mark: "CHR ''?'' \<notin> set (form_encode s)"
proof -
  have p: "c \<in> set (percent b) \<Longrightarrow> b < 256 \<Longrightarrow> code c \<noteq> 63" for c b
    by (auto simp: percent_def code_upper_hex less_mult_imp_div_less split: if_splits)
  have "c \<in> set (form_char d) \<Longrightarrow> code c \<noteq> 63" for c d
    using p utf8_bytes [of d]
    by (auto simp: form_char_def form_plain_def is_alnum_def is_digit_def is_upper_def is_lower_def
        split: if_splits)
  then have "c \<in> set (form_encode s) \<Longrightarrow> code c \<noteq> 63" for c by (auto simp: form_encode_def)
  from this [of "CHR ''?''"] show ?thesis by auto
qed

lemma set_join_with: "set (join_with sep xs) \<subseteq> set sep \<union> \<Union> (set ` set xs)"
  by (induction sep xs rule: join_with.induct) auto

lemma new_search_params_to_string [simp]: "new_search_params (params_to_string ps) = ps"
proof -
  have "CHR ''?'' \<notin> set (params_to_string ps)"
    using set_join_with [of "''&''" "map (\<lambda>(k, v). form_encode k @ ''='' @ form_encode v) ps"] no_question_mark
    by (fastforce simp: params_to_string_def)
  then have "\<not> starts_with (params_to_string ps) ''?''"
    by (cases "params_to_string ps") auto
  then show ?thesis by (simp add: new_search_params_def parse_query_to_string)
qed

lemma sort_params_differ: "resolve_sort_param p \<noteq> resolve_direction_param p"
  by (auto simp: resolve_sort_param_def resolve_direction_param_def split: option.splits)

lemma normalize_sorting_cases:
  "normalize_sorting ss allowed = [] \<or> (\<exists>s. normalize_sorting ss allowed = [s] \<and> sort_id s \<in> set allowed)"
  by (induction ss) auto

lemma is_same_sorting_iff:
  assumes "length a \<le> 1" and "length b \<le> 1"
  shows "is_same_sorting a b \<longleftrightarrow> a = b"
  using assms by (cases a; cases b) (auto simp: is_same_sorting_def)

lemma length_normalize [simp]: "length (normalize_sorting ss allowed) \<le> Suc 0"
  using normalize_sorting_cases [of ss allowed] by auto

lemma length_url_sorting [simp]: "length (url_sorting opts query) \<le> Suc 0"
  by (simp add: url_sorting_def normalized_default_def Let_def split: option.splits)

lemma url_sorting_params:
  assumes "sort_none_sentinel \<notin> set (so_allowed opts)" and "[] \<notin> set (so_allowed opts)"
  shows "url_sorting opts (params_to_string (sorting_params opts (normalize_sorting ss (so_allowed opts)) ps)) =
      normalize_sorting ss (so_allowed opts)"
proof -
  let ?n = "normalize_sorting ss (so_allowed opts)" and ?d = "normalized_default opts"
  let ?s = "resolve_sort_param (so_prefix opts)" and ?r = "resolve_direction_param (so_prefix opts)"
  note d = sort_params_differ [of "so_prefix opts"]
  show ?thesis
  proof (cases ?n)
    case Nil
    then show ?thesis
      using d by (simp add: url_sorting_def sorting_params_def Let_def sort_none_sentinel_def)
  next
    case (Cons x xs)
    with normalize_sorting_cases [of ss "so_allowed opts"]
    have x: "?n = [x]" "sort_id x \<in> set (so_allowed opts)" by auto
    with assms have e: "sort_id x \<noteq> []" "sort_id x \<noteq> sort_none_sentinel" by auto
    show ?thesis
    proof (cases "is_same_sorting [x] ?d")
      case True
      then have "?d = [x]" by (subst (asm) is_same_sorting_iff) (auto simp: normalized_default_def)
      with True x d show ?thesis by (simp add: url_sorting_def sorting_params_def Let_def)
    next
      case False
      with x d e show ?thesis by (simp add: url_sorting_def sorting_params_def Let_def)
    qed
  qed
qed

lemma sorting_params_other:
  "k \<noteq> resolve_sort_param (so_prefix opts) \<Longrightarrow> k \<noteq> resolve_direction_param (so_prefix opts) \<Longrightarrow>
     params_get k (sorting_params opts n ps) = params_get k ps"
  by (cases n) (simp_all add: sorting_params_def Let_def)

lemma split_at_last_colon:
  "CHR '':'' \<notin> set t \<Longrightarrow> last_index_of (s @ CHR '':'' # t) (CHR '':'') = Some (length s)"
proof (induction s)
  case Nil
  then show ?case using last_index_of_None [of t "CHR '':''"] by simp
qed auto

lemma digits_no_special:
  assumes "digits_only ds" and "\<not> is_digit c"
  shows "c \<notin> set ds"
  using assms by (auto simp: digits_only_def list_all_iff)

lemma has_explicit_port_of:
  assumes "index_of u ''//'' = Some i"
    and "takeWhile (\<lambda>c. c \<notin> {CHR ''/'', CHR ''?'', CHR ''#''}) (drop (i + 2) u) = a"
    and "a \<noteq> []" and "last_index_of a (CHR ''@'') = None"
  shows "has_explicit_port u =
     (case port_segment a of
        Some (c # ds) \<Rightarrow> c = CHR '':'' \<and> ds \<noteq> [] \<and> digits_only ds \<and> nat_of_digits ds \<le> 65535
      | _ \<Rightarrow> False)"
  using assms unfolding has_explicit_port_def
  by (simp only: option.case Let_def if_False split: option.split list.split)

section \<open>Properties\<close>

text \<open>Deleting a row: at once the cached list has exactly the other rows, in their order,
  and its total is reduced by the rows removed; no other query changes. When the deletion
  fails, every query's data is again what it was.\<close>

lemma optimistic_delete_correct:
  assumes "client_laws qc" and "get_query_data qc key c = Some r" and "lr_status r = 200"
    and "lr_data r = Some payload"
  shows "let (c1, previous) = on_mutate qc key get_id i c;
             removed = filter (\<lambda>x. get_id x = i) (lp_items payload)
         in get_query_data qc key c1 = Some (r\<lparr>lr_data := Some (payload\<lparr>
              lp_items := filter (\<lambda>x. get_id x \<noteq> i) (lp_items payload),
              lp_total := max 0 (lp_total payload - int (length removed))\<rparr>)\<rparr>) \<and>
            (\<forall>j. j \<noteq> key \<longrightarrow> get_query_data qc j c1 = get_query_data qc j c) \<and>
            (\<forall>j. get_query_data qc j (on_settled qc ks (on_error qc key previous c1)) = get_query_data qc j c)"
proof -
  have law: "get_query_data qc k (set_query_data qc k v c) = Some v"
    "j \<noteq> k \<Longrightarrow> get_query_data qc j (set_query_data qc k v c) = get_query_data qc j c"
    "get_query_data qc j (cancel_queries qc k c) = get_query_data qc j c"
    "get_query_data qc j (invalidate_queries qc k c) = get_query_data qc j c" for j k v c
    using assms(1) by (simp_all add: client_laws_def)
  have settled: "get_query_data qc j (on_settled qc ks c) = get_query_data qc j c" for j c
    unfolding on_settled_def by (induction ks arbitrary: c) (simp_all add: law)
  have len: "int (length xs) - int (length (filter (\<lambda>x. get_id x \<noteq> i) xs)) =
      int (length (filter (\<lambda>x. get_id x = i) xs))" for xs
    using sum_length_filter_compl [of "\<lambda>x. get_id x = i" xs] by simp
  have m: "on_mutate qc key get_id i c =
      (set_query_data qc key (r\<lparr>lr_data := Some (remove_item get_id i payload)\<rparr>) (cancel_queries qc key c), Some r)"
    using assms(2-4) by (simp add: on_mutate_def law get_list_payload_def)
  have restored: "get_query_data qc j (on_error qc key (Some r) (set_query_data qc key v c')) =
      get_query_data qc j c'" if "get_query_data qc key c' = Some r" for j v c'
    using that by (cases "j = key") (simp_all add: on_error_def law)
  show ?thesis
    unfolding m Let_def prod.case settled
    using assms(2) by (simp add: law restored remove_item_def Let_def len)
qed

text \<open>A cache that is a map from query keys to data.\<close>

definition map_client :: "(nat \<Rightarrow> 'r option, nat, 'r) query_client" where
  "map_client = \<lparr>get_query_data = (\<lambda>k c. c k), set_query_data = (\<lambda>k v c. c(k := Some v)),
     cancel_queries = (\<lambda>k c. c), invalidate_queries = (\<lambda>k c. c)\<rparr>"

lemma optimistic_delete_witness:
  "let payload = \<lparr>lp_items = [''a'', ''b''], lp_total = 2\<rparr>;
       c = (\<lambda>k. if k = 0 then Some \<lparr>lr_status = 200, lr_data = Some payload\<rparr> else None);
       (c1, previous) = on_mutate map_client 0 (\<lambda>x. x) ''a'' c
   in get_query_data map_client 0 c1 =
        Some \<lparr>lr_status = 200, lr_data = Some \<lparr>lp_items = [''b''], lp_total = 1\<rparr>\<rparr> \<and>
      get_query_data map_client 0 (on_settled map_client [0] (on_error map_client 0 previous c1)) =
        get_query_data map_client 0 c"
proof -
  let ?payload = "\<lparr>lp_items = [''a'', ''b''], lp_total = 2\<rparr>"
  let ?c = "\<lambda>k :: nat. if k = 0 then Some \<lparr>lr_status = 200, lr_data = Some ?payload\<rparr> else None"
  have "client_laws map_client" by (simp add: client_laws_def map_client_def)
  from optimistic_delete_correct [OF this, of 0 ?c "\<lparr>lr_status = 200, lr_data = Some ?payload\<rparr>"
      ?payload "\<lambda>x. x" "''a''" "[0]"]
  show ?thesis
    by (simp add: map_client_def Let_def split: prod.splits)
qed

text \<open>The sorting of a table survives its way through the URL: after a change the sorting
  read from the new query is the first allowed column of the change, the router gets the same
  query, and every other parameter is kept; whatever was in the query before.\<close>

lemma sorting_roundtrip:
  assumes "sort_none_sentinel \<notin> set (so_allowed opts)" and "[] \<notin> set (so_allowed opts)"
  shows "let (q, target) = on_sorting_change opts pathname updater query;
             next = normalize_sorting (updater (url_sorting opts query)) (so_allowed opts)
         in url_sorting opts q = next \<and>
            (target = None \<longleftrightarrow> next = url_sorting opts query) \<and>
            (\<forall>t. target = Some t \<longrightarrow> t = (if q \<noteq> [] then pathname @ ''?'' @ q else pathname)) \<and>
            (\<forall>k. k \<noteq> resolve_sort_param (so_prefix opts) \<and> k \<noteq> resolve_direction_param (so_prefix opts) \<longrightarrow>
               params_get k (new_search_params q) = params_get k (new_search_params query))"
proof -
  let ?n = "normalize_sorting (updater (url_sorting opts query)) (so_allowed opts)"
  have same: "is_same_sorting ?n (url_sorting opts query) \<longleftrightarrow> ?n = url_sorting opts query"
    by (rule is_same_sorting_iff) simp_all
  show ?thesis
    by (auto simp: on_sorting_change_def Let_def same url_sorting_params [OF assms] sorting_params_other)
qed

lemma sorting_witness:
  "let opts = \<lparr>so_allowed = [''name'', ''updated''], so_default = [\<lparr>sort_id = ''name'', sort_desc = False\<rparr>],
              so_prefix = Some ''boards''\<rparr>
   in url_sorting opts (fst (on_sorting_change opts ''/boards'' (\<lambda>s. [\<lparr>sort_id = ''updated'', sort_desc = True\<rparr>])
        ''q=x'')) = [\<lparr>sort_id = ''updated'', sort_desc = True\<rparr>]"
proof -
  let ?o = "\<lparr>so_allowed = [''name'', ''updated''], so_default = [\<lparr>sort_id = ''name'', sort_desc = False\<rparr>],
              so_prefix = Some ''boards''\<rparr>"
  let ?u = "\<lambda>s. [\<lparr>sort_id = ''updated'', sort_desc = True\<rparr>]"
  from sorting_roundtrip [of ?o "''/boards''" ?u "''q=x''"] show ?thesis
    by (simp add: sort_none_sentinel_def Let_def split: prod.splits)
qed

text \<open>Which gateway addresses have an explicit port: with a host without the delimiters of
  a URL, a port of digits is accepted exactly when it is at most 65535 (also after user
  information, and whatever path, query or fragment follows), and no port is not accepted.\<close>

lemma explicit_port_recognised:
  assumes "list_all (\<lambda>c. is_alnum c \<or> c = CHR ''.'' \<or> c = CHR ''-'') host" and "host \<noteq> []"
    and "digits_only digits" and "digits \<noteq> []"
    and "rest = [] \<or> hd rest \<in> {CHR ''/'', CHR ''?'', CHR ''#''}"
  shows "(has_explicit_port (''ws://'' @ host @ '':'' @ digits @ rest) \<longleftrightarrow> nat_of_digits digits \<le> 65535) \<and>
    (has_explicit_port (''wss://'' @ host @ '':'' @ digits @ rest) \<longleftrightarrow> nat_of_digits digits \<le> 65535) \<and>
    \<not> has_explicit_port (''wss://'' @ host @ rest)"
proof -
  let ?P = "\<lambda>c. c \<notin> {CHR ''/'', CHR ''?'', CHR ''#''}"
  have h: "c \<notin> set host" if "\<not> (is_alnum c \<or> c = CHR ''.'' \<or> c = CHR ''-'')" for c
    using assms(1) that by (auto simp: list_all_iff)
  have nd: "\<not> is_digit (CHR ''/'')" "\<not> is_digit (CHR ''?'')" "\<not> is_digit (CHR ''#'')"
      "\<not> is_digit (CHR '':'')" "\<not> is_digit (CHR ''@'')"
    by code_simp+
  have nh: "CHR ''/'' \<notin> set host" "CHR ''?'' \<notin> set host" "CHR ''#'' \<notin> set host"
      "CHR '':'' \<notin> set host" "CHR ''@'' \<notin> set host" "CHR ''['' \<notin> set host"
    by (rule h, code_simp)+
  note ds = digits_no_special [OF assms(3)]
  have r: "takeWhile ?P rest = []" using assms(5) by (cases rest) auto
  have auth: "takeWhile ?P (s @ rest) = s" if "\<forall>c \<in> set s. ?P c" for s
    using that r by (simp add: takeWhile_append2)
  have a1: "takeWhile ?P (host @ CHR '':'' # digits @ rest) = host @ CHR '':'' # digits"
  proof -
    have "\<forall>c \<in> set (host @ CHR '':'' # digits). ?P c"
      using nh ds [OF nd(1)] ds [OF nd(2)] ds [OF nd(3)] by auto
    from auth [OF this] show ?thesis by (simp only: append.simps append_assoc)
  qed
  have a2: "takeWhile ?P (host @ rest) = host"
    by (rule auth) (use nh in auto)
  have i: "index_of (''ws://'' @ s) ''//'' = Some 3" "index_of (''wss://'' @ s) ''//'' = Some 4" for s
    by simp_all
  have at: "last_index_of (host @ CHR '':'' # digits) (CHR ''@'') = None" "last_index_of host (CHR ''@'') = None"
    using nh ds nd by (auto simp: last_index_of_None)
  have colon: "last_index_of (host @ CHR '':'' # digits) (CHR '':'') = Some (length host)"
      "last_index_of host (CHR '':'') = None"
    using nh ds nd by (auto simp: last_index_of_None intro: split_at_last_colon)
  have br: "\<not> starts_with (host @ s) ''[''" for s
    using nh assms(2) by (cases host) auto
  have p1: "port_segment (host @ CHR '':'' # digits) = Some (CHR '':'' # digits)"
    using br [of "CHR '':'' # digits"] by (simp add: port_segment_def colon)
  have p2: "port_segment host = None"
    using br [of "[]"] by (simp add: port_segment_def colon)
  let ?u = "host @ CHR '':'' # digits @ rest"
  have d: "drop 5 (''ws://'' @ s) = s" "drop 6 (''wss://'' @ s) = s" for s by simp_all
  have "has_explicit_port (''ws://'' @ ?u) \<longleftrightarrow> nat_of_digits digits \<le> 65535"
    by (subst has_explicit_port_of [OF i(1), of _ "host @ CHR '':'' # digits"])
      (use a1 at p1 d(1) [of ?u] assms in simp_all)
  moreover have "has_explicit_port (''wss://'' @ ?u) \<longleftrightarrow> nat_of_digits digits \<le> 65535"
    by (subst has_explicit_port_of [OF i(2), of _ "host @ CHR '':'' # digits"])
      (use a1 at p1 d(2) [of ?u] assms in simp_all)
  moreover have "\<not> has_explicit_port (''wss://'' @ host @ rest)"
    by (subst has_explicit_port_of [OF i(2), of _ host])
      (use a2 at p2 d(2) [of "host @ rest"] assms in simp_all)
  ultimately show ?thesis by simp
qed

lemma explicit_port_witness:
  "has_explicit_port (''ws://'' @ ''gw.local'' @ '':'' @ ''18789'' @ ''/ws'') \<and>
   \<not> has_explicit_port (''wss://'' @ ''gw.local'' @ '':'' @ ''70000'' @ ''/ws'') \<and>
   \<not> has_explicit_port (''wss://'' @ ''gw.local'' @ ''/ws'')"
proof -
  have h: "list_all (\<lambda>c. is_alnum c \<or> c = CHR ''.'' \<or> c = CHR ''-'') ''gw.local''" "''gw.local'' \<noteq> []"
    by code_simp+
  have d: "digits_only ''18789''" "digits_only ''70000''" by code_simp+
  have n: "nat_of_digits ''18789'' = 18789" "nat_of_digits ''70000'' = 70000"
    by (simp_all add: nat_of_digits_def digit_val_def)
  show ?thesis
    using explicit_port_recognised [OF h d(1), of "''/ws''"] explicit_port_recognised [OF h d(2), of "''/ws''"]
    unfolding n by (auto simp del: append.simps)
qed

end
