(* ===== verification/BoardSteps.thy ===== *)
theory BoardSteps
  imports BoardTasks
begin

text \<open>
  The board page as a state machine: every handler of \<open>BoardPage\<close> and \<open>BoardTasks\<close>, every
  stream event, timer, render and navigation is a step of \<open>page_step\<close>, in any order, so that
  what follows an awaited request meets whatever state the page is in by then. The
  properties: one side panel at a time, toasts that always end, what a move, a creation and
  a save do, and where late answers go wrong.
\<close>

inductive page_step :: "page \<Rightarrow> page \<Rightarrow> bool" where
  ps_chat_event: "page_step p (handle_chat pc ev data p)"
| ps_approval_event: "page_step p (handle_approval pa ev data p)"
| ps_task_event: "page_step p (handle_task pt ev data p)"
| ps_agent_event: "page_step p (handle_agent pg ev data p)"
| ps_commit: "page_step p (commit p)"
| ps_toast_timer: "page_step p (p\<lparr>pg_toasts := fire_toast_timer i (pg_toasts p)\<rparr>)"
| ps_dismiss: "page_step p (p\<lparr>pg_toasts := dismiss_toast i (pg_toasts p)\<rparr>)"
| ps_flash_timer: "page_step p (p\<lparr>lv_feed := fire_flash_timer h (lv_feed p)\<rparr>)"
| ps_history: "page_step p (p\<lparr>lv_feed := finish_history h c (lv_feed p)\<rparr>)"
| ps_navigate: "page_step p (with_panels (\<lambda>n. n\<lparr>pn_query := q\<rparr>) p)"
| ps_edit: "page_step p (p\<lparr>pg_edit := f\<rparr>)"
| ps_create_form: "page_step p (p\<lparr>pg_create := g, pg_create_open := b\<rparr>)"
| ps_edit_dialog: "page_step p (with_panels (\<lambda>n. n\<lparr>pn_edit := b\<rparr>) p)"
| ps_delete_dialog: "page_step p (p\<lparr>pg_delete_open := b\<rparr>)"
| ps_reset_edit: "page_step p (reset_edit_form lc lz p)"
| ps_task_reset: "page_step p (handle_task_reset lc lz p)"
| ps_open_comments: "page_step p (fst (open_comments i keep p))"
| ps_close_comments: "page_step p (close_comments p)"
| ps_open_chat: "page_step p (open_board_chat p)"
| ps_close_chat: "page_step p (close_board_chat p)"
| ps_open_feed: "page_step p (open_live_feed p)"
| ps_close_feed: "page_step p (close_live_feed p)"
| ps_task_url: "page_step p (fst (task_url_effect p))"
| ps_panel_url: "page_step p (panel_url_effect p)"
| ps_highlight: "page_step p (highlight_effect p)"
| ps_load: "begin_load_board p = Some p' \<Longrightarrow> page_step p p'"
| ps_loaded: "page_step p (finish_load_board sn grp p)"
| ps_comments_loaded: "page_step p (finish_load_comments cs p)"
| ps_post: "page_step p (fst (begin_post_comment m p))"
| ps_posted: "page_step p (fst (finish_post_comment c p))"
| ps_send: "begin_send_chat m p = Some p' \<Longrightarrow> page_step p p'"
| ps_chat_posted: "page_step p (fst (finish_post_chat r p))"
| ps_sent: "page_step p (fst (finish_send_chat ok p))"
| ps_control: "page_step p (open_agents_control b p)"
| ps_control_send: "page_step p (fst (begin_agents_control p))"
| ps_control_sent: "page_step p (finish_agents_control m ok p)"
| ps_create: "page_step p (fst (begin_create_task uz p))"
| ps_created: "page_step p (finish_create_task lc names r p)"
| ps_save: "page_step p (fst (begin_task_save lc lz uz p))"
| ps_saved: "page_step p (finish_task_save b t names titles u p)"
| ps_delete: "page_step p (fst (begin_delete_task p))"
| ps_deleted: "page_step p (finish_delete_task q i d p)"
| ps_move: "page_step p (fst (begin_task_move i st p))"
| ps_moved: "page_step p (finish_task_move t prev titles u p)"
| ps_decide: "page_step p (fst (begin_approval_decision i p))"
| ps_decided: "page_step p (finish_approval_decision i a p)"

section \<open>Panels\<close>

lemma load_panels [simp]:
  "pg_panels (apply_snapshot sn p) = pg_panels p" "lv_selected (apply_snapshot sn p) = lv_selected p"
  "pg_panels (apply_group g p) = pg_panels p" "lv_selected (apply_group g p) = lv_selected p"
  "pg_panels (fail_load m p) = pg_panels p" "lv_selected (fail_load m p) = lv_selected p"
  "pg_panels (end_load p) = pg_panels p" "lv_selected (end_load p) = lv_selected p"
  by (auto simp: apply_snapshot_def apply_group_def fail_load_def end_load_def split: response.splits)

lemma page_step_panels: "page_step p p' \<Longrightarrow> panels_ok p \<Longrightarrow> panels_ok p'"
proof (induction rule: page_step.induct)
  case (ps_commit p)
  then show ?case by (simp add: commit_def commit_refs_def panels_ok_def)
next
  case (ps_close_comments p)
  then show ?case by (simp add: close_comments_def close_comments_ok)
next
  case (ps_task_url p)
  then show ?case by (rule task_url_effect_ok)
next
  case (ps_open_comments p i keep)
  then show ?case by (rule open_comments_ok)
next
  case (ps_load p p')
  then show ?case by (auto simp: begin_load_board_def panels_ok_def split: if_splits)
next
  case (ps_loaded p sn grp)
  then show ?case
    by (simp add: finish_load_board_def panels_ok_def split: response.split)
next
  case (ps_comments_loaded p cs)
  then show ?case by (simp add: finish_load_comments_def panels_ok_def split: response.split)
next
  case (ps_post p m)
  then show ?case by (auto simp: begin_post_comment_def panels_ok_def Let_def split: option.split)
next
  case (ps_posted p c)
  then show ?case by (simp add: finish_post_comment_def panels_ok_def Let_def split: response.split)
next
  case (ps_send m p p')
  then show ?case by (auto simp: begin_send_chat_def panels_ok_def split: if_splits)
next
  case (ps_chat_posted p r)
  then show ?case by (simp add: finish_post_chat_def panels_ok_def split: response.split)
next
  case (ps_sent p ok)
  then show ?case
    by (cases ok; cases "fst ok"; cases "snd ok") (simp_all add: finish_send_chat_def panels_ok_def Let_def)
next
  case (ps_saved p b t names titles u)
  then show ?case
    by (simp add: finish_task_save_def panels_ok_def Let_def split: update_outcome.split)
next
  case (ps_created p lc names r)
  then show ?case
    by (simp add: finish_create_task_def reset_form_def panels_ok_def Let_def split: response.split)
next
  case (ps_create p uz)
  then show ?case by (auto simp: begin_create_task_def panels_ok_def Let_def split: option.splits)
next
  case (ps_save p lc lz uz)
  then show ?case by (auto simp: begin_task_save_def panels_ok_def Let_def split: option.splits)
next
  case (ps_delete p)
  then show ?case by (auto simp: begin_delete_task_def panels_ok_def split: option.splits)
next
  case (ps_deleted p q i d)
  have "panels_ok (p\<lparr>lv_tasks := ts, pg_delete_open := b\<rparr>)" for ts b
    using ps_deleted by (simp add: panels_ok_def)
  from close_comments_ok [OF this] show ?case
    using ps_deleted by (simp add: finish_delete_task_def panels_ok_def Let_def split: response.split)
next
  case (ps_move p i st)
  then show ?case by (auto simp: begin_task_move_def panels_ok_def split: option.splits)
next
  case (ps_moved p t prev titles u)
  then show ?case
    by (simp add: finish_task_move_def fail_move_def panels_ok_def Let_def split: update_outcome.split)
next
  case (ps_decide p i)
  then show ?case by (simp add: begin_approval_decision_def panels_ok_def)
next
  case (ps_decided p i a)
  then show ?case
    by (simp add: finish_approval_decision_def panels_ok_def Let_def split: response.split)
next
  case (ps_reset_edit p lc lz)
  then show ?case by (simp add: reset_edit_form_def panels_ok_def)
next
  case (ps_task_reset p lc lz)
  then show ?case by (auto simp: handle_task_reset_def panels_ok_def Let_def split: option.splits)
next
  case (ps_control p b)
  then show ?case by (simp add: open_agents_control_def panels_ok_def)
next
  case (ps_control_send p)
  then show ?case by (simp add: begin_agents_control_def panels_ok_def)
next
  case (ps_control_sent p m ok)
  then show ?case by (simp add: finish_agents_control_def panels_ok_def Let_def)
qed (simp_all add: panel_operations_ok, simp_all add: panels_ok_def Let_def)

section \<open>Toasts\<close>

definition toasts_ok :: "toast_state \<Rightarrow> bool" where
  "toasts_ok s \<longleftrightarrow>
     distinct (map toast_id (toasts s)) \<and> toast_id ` set (toasts s) = set (toast_timers s) \<and>
     (\<forall>t \<in> set (toasts s). toast_id t \<le> toast_id_ref s \<and> toast_message t \<noteq> [])"

lemma dismiss_toast_ok: "toasts_ok s \<Longrightarrow> toasts_ok (dismiss_toast i s)"
  by (auto simp: toasts_ok_def dismiss_toast_def distinct_map_filter)

lemma push_toast_state_ok: "toasts_ok s \<Longrightarrow> toasts_ok (push_toast_state m e s)"
proof -
  assume s: "toasts_ok s"
  then have "\<forall>t \<in> set (toasts s). toast_id t \<noteq> Suc (toast_id_ref s)"
    by (auto simp: toasts_ok_def)
  then have "Suc (toast_id_ref s) \<notin> toast_id ` set (toasts s)" by auto
  with s show ?thesis by (auto simp: toasts_ok_def push_toast_state_def Let_def)
qed

lemma fire_toast_timer_ok: "toasts_ok s \<Longrightarrow> toasts_ok (fire_toast_timer i s)"
  by (simp add: fire_toast_timer_def dismiss_toast_ok)

lemma with_toasts [simp]:
  "pg_toasts (with_req f p) = pg_toasts p" "pg_toasts (with_panels g p) = pg_toasts p"
  "pg_toasts (push_toast m p) = push_toast_state m True (pg_toasts p)"
  by (simp_all add: with_req_def with_panels_def push_toast_def)

lemma push_feed_toasts [simp]: "pg_toasts (push_feed i p) = pg_toasts p"
  by (simp add: push_feed_def)

lemma receive_toasts [simp]:
  "pg_toasts (receive_chat m p) = pg_toasts p" "pg_toasts (receive_approval a p) = pg_toasts p"
  "pg_toasts (receive_agent g p) = pg_toasts p" "pg_toasts (receive_comment c p) = pg_toasts p"
  "pg_toasts (receive_task t p) = pg_toasts p"
  by (auto simp: receive_chat_def receive_approval_def receive_agent_def receive_comment_def
      receive_task_def push_feed_def Let_def split: option.splits)

lemma handle_toasts [simp]:
  "pg_toasts (handle_chat pc ev data p) = pg_toasts p"
  "pg_toasts (handle_approval pa ev data p) = pg_toasts p"
  "pg_toasts (handle_task pt ev data p) = pg_toasts p"
  "pg_toasts (handle_agent pg ev data p) = pg_toasts p"
  by (auto simp: handle_chat_def handle_approval_def handle_task_def handle_agent_def Let_def
      split: option.splits)

lemma panel_toasts [simp]:
  "pg_toasts (clear_selection p) = pg_toasts p" "pg_toasts (close_comments_in q p) = pg_toasts p"
  "pg_toasts (close_board_chat_in q p) = pg_toasts p" "pg_toasts (open_board_chat p) = pg_toasts p"
  "pg_toasts (open_live_feed p) = pg_toasts p" "pg_toasts (fst (open_comments i keep p)) = pg_toasts p"
  "pg_toasts (panel_url_effect p) = pg_toasts p" "pg_toasts (highlight_effect p) = pg_toasts p"
  by (auto simp: clear_selection_def close_comments_in_def close_board_chat_in_def
      open_board_chat_def open_live_feed_def open_comments_def begin_load_comments_def
      panel_url_effect_def highlight_effect_def Let_def split: option.splits)

lemma task_url_toasts [simp]: "pg_toasts (fst (task_url_effect p)) = pg_toasts p"
  by (auto simp: task_url_effect_def split: option.splits)

lemma load_toasts [simp]:
  "pg_toasts (apply_snapshot sn p) = pg_toasts p" "pg_toasts (apply_group g p) = pg_toasts p"
  "pg_toasts (fail_load m p) = pg_toasts p" "pg_toasts (end_load p) = pg_toasts p"
  by (auto simp: apply_snapshot_def apply_group_def fail_load_def end_load_def split: response.splits)

lemma page_step_toasts: "page_step p p' \<Longrightarrow> toasts_ok (pg_toasts p) \<Longrightarrow> toasts_ok (pg_toasts p')"
proof (induction rule: page_step.induct)
  case (ps_toast_timer p i)
  then show ?case by (simp add: fire_toast_timer_ok)
next
  case (ps_dismiss p i)
  then show ?case by (simp add: dismiss_toast_ok)
next
  case (ps_sent p ok)
  then show ?case
    by (cases ok; cases "fst ok"; cases "snd ok")
      (simp_all add: finish_send_chat_def push_toast_state_ok Let_def)
qed (auto simp: push_toast_state_ok commit_def commit_refs_def close_comments_def close_board_chat_def
    close_live_feed_def begin_load_board_def finish_load_board_def finish_load_comments_def
    begin_post_comment_def finish_post_comment_def begin_send_chat_def finish_post_chat_def
    open_agents_control_def begin_agents_control_def finish_agents_control_def begin_create_task_def
    finish_create_task_def reset_form_def begin_task_save_def finish_task_save_def
    begin_delete_task_def finish_delete_task_def begin_task_move_def finish_task_move_def
    fail_move_def begin_approval_decision_def finish_approval_decision_def reset_edit_form_def
    handle_task_reset_def Let_def
    split: option.splits response.splits update_outcome.splits if_splits)

section \<open>Facts about the operations\<close>

lemma page_steps_ok:
  "page_step\<^sup>*\<^sup>* p p' \<Longrightarrow> panels_ok p \<and> toasts_ok (pg_toasts p) \<Longrightarrow>
     panels_ok p' \<and> toasts_ok (pg_toasts p')"
  by (induction rule: rtranclp_induct) (auto intro: page_step_panels page_step_toasts)

lemma fire_all_toasts:
  "toasts_ok s \<Longrightarrow> set (toast_timers s) \<subseteq> set is \<Longrightarrow>
     toasts (foldl (\<lambda>s i. fire_toast_timer i s) s is) = []"
proof (induction "is" arbitrary: s)
  case Nil
  then show ?case by (simp add: toasts_ok_def)
next
  case (Cons i js)
  have "set (toast_timers (fire_toast_timer i s)) \<subseteq> set js"
    using Cons.prems(2) by (auto simp: fire_toast_timer_def dismiss_toast_def)
  with Cons.IH [OF fire_toast_timer_ok [OF Cons.prems(1)]] show ?case by simp
qed

definition empty_requests :: requests where
  "empty_requests = \<lparr>rq_loading = False, rq_loaded = True, rq_error = None,
     rq_approvals_loading = False, rq_approvals_error = None, rq_updating_approval = None,
     rq_group = None, rq_group_error = None, rq_comments_loading = False, rq_comments_error = None,
     rq_posting = False, rq_post_error = None, rq_creating = False, rq_create_error = None,
     rq_saving = False, rq_save_error = None, rq_deleting = False, rq_delete_error = None,
     rq_chat_sending = False, rq_chat_error = None, rq_control_sending = False,
     rq_control_error = None\<rparr>"

definition closed_panels :: panels where
  "closed_panels = \<lparr>pn_path = ''/boards/b1'', pn_query = [], pn_detail = False, pn_chat = False,
     pn_feed = False, pn_edit = False, pn_highlighted = None, pn_opened_task = None,
     pn_opened_panel = False\<rparr>"

definition page_of :: "live \<Rightarrow> page" where
  "page_of s = live.extend s (page.fields True (Some ''b1'') True ''User'' [] closed_panels
     empty_requests \<lparr>toasts = [], toast_id_ref = 0, toast_timers = []\<rparr>
     \<lparr>cf_title = [], cf_description = [], cf_priority = ''medium'', cf_due_date = [],
      cf_tag_ids = [], cf_custom = []\<rparr> False (empty_form str_cmp []) False False False)"

definition sample_page :: page where
  "sample_page = page_of (empty_live\<lparr>lv_tasks := [create_card [] sample_task],
     lv_tasks_ref := [create_card [] sample_task]\<rparr>)"

lemma sample_page_fields [simp]:
  "lv_tasks sample_page = [create_card [] sample_task]" "lv_tasks_ref sample_page = [create_card [] sample_task]"
  "lv_selected sample_page = None" "pg_panels sample_page = closed_panels" "can_call sample_page"
  "pg_toasts sample_page = \<lparr>toasts = [], toast_id_ref = 0, toast_timers = []\<rparr>"
  "lv_agents_ref sample_page = []" "lv_comments sample_page = []"
  by (simp_all add: sample_page_def page_of_def live.extend_def page.fields_def empty_live_def can_call_def)

lemma sample_page_ok: "panels_ok sample_page \<and> toasts_ok (pg_toasts sample_page)"
  by (simp add: panels_ok_def toasts_ok_def closed_panels_def)

section \<open>Properties\<close>

text \<open>C3: whatever the user, the server, the timers and the URL do, in any order, at most one
  of the detail, chat and live feed panels is open, and an open detail panel has its task.\<close>

lemma one_panel_at_a_time:
  assumes "page_step\<^sup>*\<^sup>* p p'" and "panels_ok p" and "toasts_ok (pg_toasts p)"
  shows "\<not> (pn_detail (pg_panels p') \<and> pn_chat (pg_panels p')) \<and>
         \<not> (pn_detail (pg_panels p') \<and> pn_feed (pg_panels p')) \<and>
         \<not> (pn_chat (pg_panels p') \<and> pn_feed (pg_panels p')) \<and>
         (pn_detail (pg_panels p') \<longrightarrow> lv_selected p' \<noteq> None)"
  using page_steps_ok [OF assms(1)] assms(2,3) by (simp add: panels_ok_def Let_def)

lemma one_panel_witness:
  "let p' = open_live_feed (fst (open_comments ''t1'' False sample_page))
   in pn_feed (pg_panels p') \<and>
      (\<not> (pn_detail (pg_panels p') \<and> pn_chat (pg_panels p')) \<and>
       \<not> (pn_detail (pg_panels p') \<and> pn_feed (pg_panels p')) \<and>
       \<not> (pn_chat (pg_panels p') \<and> pn_feed (pg_panels p')) \<and>
       (pn_detail (pg_panels p') \<longrightarrow> lv_selected p' \<noteq> None))"
proof -
  have "page_step\<^sup>*\<^sup>* sample_page (open_live_feed (fst (open_comments ''t1'' False sample_page)))"
    by (meson ps_open_comments ps_open_feed rtranclp.rtrancl_into_rtrancl rtranclp.rtrancl_refl)
  from one_panel_at_a_time [OF this] sample_page_ok
  show ?thesis unfolding Let_def by (simp add: open_live_feed_def Let_def)
qed

text \<open>Every toast goes away: after any history, once the timers still running have fired
  (in any order) no toast is left; and the ids of the toasts shown are distinct.\<close>

lemma toasts_end:
  assumes "page_step\<^sup>*\<^sup>* p p'" and "panels_ok p" and "toasts_ok (pg_toasts p)"
    and "set (toast_timers (pg_toasts p')) \<subseteq> set is"
  shows "toasts (foldl (\<lambda>s i. fire_toast_timer i s) (pg_toasts p') is) = [] \<and>
         distinct (map toast_id (toasts (pg_toasts p')))"
  using page_steps_ok [OF assms(1)] assms(2-4) fire_all_toasts [of "pg_toasts p'" "is"]
  by (simp add: toasts_ok_def)

lemma toasts_end_witness:
  "let p' = finish_task_move (create_card [] sample_task) [] [] (Update_threw (Js_error ''Offline'')) sample_page
   in toasts (pg_toasts p') \<noteq> [] \<and>
      (toasts (foldl (\<lambda>s i. fire_toast_timer i s) (pg_toasts p') [1]) = [] \<and>
       distinct (map toast_id (toasts (pg_toasts p'))))"
proof -
  let ?p = "finish_task_move (create_card [] sample_task) [] [] (Update_threw (Js_error ''Offline'')) sample_page"
  have t: "trim ''Offline'' = ''Offline''" by code_simp
  have s: "pg_toasts ?p = push_toast_state ''Offline'' True (pg_toasts sample_page)"
    by (simp add: finish_task_move_def fail_move_def format_action_error_def Let_def)
  have "page_step\<^sup>*\<^sup>* sample_page ?p" by (meson ps_moved r_into_rtranclp)
  moreover have "set (toast_timers (pg_toasts ?p)) \<subseteq> set [1]"
    by (simp add: s push_toast_state_def t)
  ultimately have "toasts (foldl (\<lambda>s i. fire_toast_timer i s) (pg_toasts ?p) [1]) = [] \<and>
      distinct (map toast_id (toasts (pg_toasts ?p)))"
    using sample_page_ok by (intro toasts_end) auto
  moreover have "toasts (pg_toasts ?p) \<noteq> []" by (simp add: s push_toast_state_def t)
  ultimately show ?thesis unfolding Let_def by blast
qed

text \<open>Dragging a card: the move starts exactly when the user may call the server, the task
  is on the board with another status, and it is not blocked (unless it goes back to the
  inbox); it changes only that card, and back in the inbox the card loses its assignee.\<close>

lemma move_starts_correctly:
  "(snd (begin_task_move i status p) \<noteq> None \<longleftrightarrow>
      can_call p \<and> (\<exists>t. List.find (\<lambda>t. tr_id t = i) (lv_tasks_ref p) = Some t \<and>
        tr_status t \<noteq> Some status \<and> (tr_is_blocked t = Some True \<longrightarrow> status = Inbox))) \<and>
   lv_tasks (fst (begin_task_move i status p)) =
     (if snd (begin_task_move i status p) = None then lv_tasks p
      else map (\<lambda>t. if tr_id t = i then
                 t\<lparr>tr_status := Some status,
                   tr_assigned_agent_id := (if status = Inbox then Null else tr_assigned_agent_id t),
                   tr_assignee := (if status = Inbox then Null else tr_assignee t)\<rparr>
               else t) (lv_tasks p))"
  by (auto simp: begin_task_move_def move_card_def with_req_def split: option.splits)

lemma move_starts_witness:
  "snd (begin_task_move (tr_id sample_task) Done sample_page) \<noteq> None \<and>
   map tr_status (lv_tasks (fst (begin_task_move (tr_id sample_task) Done sample_page))) = [Some Done]"
proof -
  have c: "tr_id (create_card [] sample_task) = tr_id sample_task"
      "tr_status (create_card [] sample_task) = Some Review"
      "tr_is_blocked (create_card [] sample_task) = None"
    by (simp_all add: create_card_def normalize_task_def as_card_def sample_task_def
        task_card_read.defs task_read.defs)
  have s: "snd (begin_task_move (tr_id sample_task) Done sample_page) \<noteq> None"
    using move_starts_correctly [of "tr_id sample_task" Done sample_page] c by simp
  show ?thesis
    using move_starts_correctly [of "tr_id sample_task" Done sample_page] s c by simp
qed

text \<open>A move that fails puts the board back as it was when the card was dropped, provided
  nothing else happened meanwhile, and reports the error to the user.\<close>

lemma failed_move_rolls_back:
  assumes "begin_task_move i status (commit p) = (p1, Some (current, prev))"
    and "\<forall>t. outcome \<noteq> Updated t" and "lv_tasks p2 = lv_tasks p1"
  shows "lv_tasks (finish_task_move current prev titles outcome p2) = lv_tasks p \<and>
         rq_error (pg_req (finish_task_move current prev titles outcome p2)) \<noteq> None"
proof -
  have "prev = lv_tasks p"
    using assms(1) by (auto simp: begin_task_move_def commit_def commit_refs_def
        split: option.splits if_splits)
  with assms(2) show ?thesis
    by (cases outcome) (auto simp: finish_task_move_def fail_move_def Let_def push_toast_def with_req_def)
qed

lemma failed_move_witness:
  "lv_tasks (finish_task_move (create_card [] sample_task) [create_card [] sample_task] []
      (Conflict ''Task is blocked.'' (Some [''t0''])) (fst (begin_task_move ''t1'' Done (commit sample_page)))) =
     lv_tasks sample_page \<and>
   rq_error (pg_req (finish_task_move (create_card [] sample_task) [create_card [] sample_task] []
      (Conflict ''Task is blocked.'' (Some [''t0''])) (fst (begin_task_move ''t1'' Done (commit sample_page))))) \<noteq> None"
proof (rule failed_move_rolls_back [where status = Done and i = "''t1''"])
  have "tr_id (create_card [] sample_task) = ''t1''" "tr_status (create_card [] sample_task) = Some Review"
    "tr_is_blocked (create_card [] sample_task) = None"
    by code_simp+
  then show "begin_task_move ''t1'' Done (commit sample_page) =
      (fst (begin_task_move ''t1'' Done (commit sample_page)),
       Some (create_card [] sample_task, [create_card [] sample_task]))"
    using sample_page_fields(5)
    by (simp add: begin_task_move_def commit_def commit_refs_def can_call_def)
qed simp_all

text \<open>But the rollback restores the list of the moment of the drop: an update of any task
  that a stream delivers while the request is on its way is lost when the move fails.\<close>

lemma failed_move_loses_updates:
  assumes "begin_task_move i status (commit p) = (p1, Some (current, prev))"
    and "\<forall>t. outcome \<noteq> Updated t"
  shows "lv_tasks (finish_task_move current prev titles outcome (receive_task u p1)) = lv_tasks p"
proof -
  have "prev = lv_tasks p"
    using assms(1) by (auto simp: begin_task_move_def commit_def commit_refs_def
        split: option.splits if_splits)
  with assms(2) show ?thesis
    by (cases outcome) (auto simp: finish_task_move_def fail_move_def Let_def push_toast_def with_req_def)
qed

lemma failed_move_loses_updates_witness:
  "tr_id sample_task \<noteq> ''t9'' \<and>
   lv_tasks (finish_task_move (create_card [] sample_task) [create_card [] sample_task] []
      (Update_threw Other_error)
      (receive_task (sample_task\<lparr>tr_id := ''t9''\<rparr>) (fst (begin_task_move ''t1'' Done (commit sample_page))))) =
     lv_tasks sample_page"
proof
  show "tr_id sample_task \<noteq> ''t9''" by (simp add: sample_task_def)
  have "tr_id (create_card [] sample_task) = ''t1''" "tr_status (create_card [] sample_task) = Some Review"
    "tr_is_blocked (create_card [] sample_task) = None"
    by code_simp+
  then have "begin_task_move ''t1'' Done (commit sample_page) =
      (fst (begin_task_move ''t1'' Done (commit sample_page)),
       Some (create_card [] sample_task, [create_card [] sample_task]))"
    using sample_page_fields(5)
    by (simp add: begin_task_move_def commit_def commit_refs_def can_call_def)
  then show "lv_tasks (finish_task_move (create_card [] sample_task) [create_card [] sample_task] []
      (Update_threw Other_error)
      (receive_task (sample_task\<lparr>tr_id := ''t9''\<rparr>) (fst (begin_task_move ''t1'' Done (commit sample_page))))) =
     lv_tasks sample_page"
    by (rule failed_move_loses_updates) simp
qed

text \<open>Creating a task puts exactly one new card in front of the board, except that when the
  task stream delivers the new task before the answer to its creation, the board shows it
  twice.\<close>

lemma creation_and_stream_duplicate:
  "lv_tasks (finish_create_task lc names (Ok t) p) =
     normalize_task (as_card t (assignee_of (map_of names) t) 0 0) # lv_tasks p \<and>
   length (filter (\<lambda>c. tr_id c = tr_id t) (lv_tasks (finish_create_task lc names (Ok t) (receive_task t p)))) \<ge> 2"
proof -
  have tasks: "lv_tasks (finish_create_task lc names (Ok t) u) =
      normalize_task (as_card t (assignee_of (map_of names) t) 0 0) # lv_tasks u" for u
    by (simp add: finish_create_task_def reset_form_def with_req_def Let_def)
  have "tr_id t \<in> tr_id ` set (lv_tasks (receive_task t p))"
    using cards.put_member [of t "lv_agents_ref p" "lv_tasks p"]
    by (simp add: receive_task_def Let_def put_task_def)
  then obtain c where "c \<in> set (lv_tasks (receive_task t p))" "tr_id c = tr_id t" by auto
  then have "filter (\<lambda>c. tr_id c = tr_id t) (lv_tasks (receive_task t p)) \<noteq> []"
    by (auto simp: filter_empty_conv)
  moreover have "tr_id (normalize_task (as_card t (assignee_of (map_of names) t) 0 0)) = tr_id t"
    by (simp add: as_card_def task_read.extend_def task_card_read.fields_def)
  ultimately show ?thesis by (simp add: tasks Suc_le_eq)
qed

text \<open>A successful save updates the card of the task on the board and nothing else there:
  title and status are the server's, the approval counts stay. But it also selects the task
  again, whichever task the user has opened since.\<close>

lemma save_updates_and_selects:
  assumes "tr_id t = tr_id sel" and "List.find (\<lambda>c. tr_id c = tr_id sel) (lv_tasks_ref p) = Some prev"
    and "task_ok prev"
  shows "\<exists>u. lv_selected (finish_task_save close sel names titles (Updated t) p) = Some u \<and>
           tr_id u = tr_id sel \<and> tr_title u = tr_title t \<and>
           tr_status u = spread_opt (tr_status prev) (tr_status t) \<and>
           tr_approvals_count u = tr_approvals_count prev \<and>
           tr_approvals_pending_count u = tr_approvals_pending_count prev \<and>
           lv_tasks (finish_task_save close sel names titles (Updated t) p) =
             map (\<lambda>c. if tr_id c = tr_id sel then spread_card c u else c) (lv_tasks p)"
proof -
  let ?u = "merge_updated prev t (assignee_of (map_of names) t)"
  have "lv_selected (finish_task_save close sel names titles (Updated t) p) = Some ?u"
    "lv_tasks (finish_task_save close sel names titles (Updated t) p) = replace_task ?u (lv_tasks p)"
    using assms(2) by (simp_all add: finish_task_save_def with_req_def with_panels_def Let_def
        coalesce_opt_def)
  moreover have "tr_id ?u = tr_id t" "tr_title ?u = tr_title t"
    "tr_status ?u = spread_opt (tr_status prev) (tr_status t)"
    "tr_approvals_count ?u = tr_approvals_count prev"
    "tr_approvals_pending_count ?u = tr_approvals_pending_count prev"
    using assms(3) by (simp_all add: merge_updated_def normalize_task_def spread_task_def task_ok_def
        spread_opt_normal)
  ultimately show ?thesis using assms(1) by (simp add: replace_task_def)
qed

lemma save_updates_and_selects_witness:
  "lv_selected sample_page = None \<and>
   (\<exists>u. lv_selected (finish_task_save False (create_card [] sample_task) [] [] (Updated sample_task) sample_page) = Some u \<and>
        tr_id u = tr_id (create_card [] sample_task) \<and> tr_title u = tr_title sample_task \<and>
        tr_status u = spread_opt (tr_status (create_card [] sample_task)) (tr_status sample_task) \<and>
        tr_approvals_count u = tr_approvals_count (create_card [] sample_task) \<and>
        tr_approvals_pending_count u = tr_approvals_pending_count (create_card [] sample_task) \<and>
        lv_tasks (finish_task_save False (create_card [] sample_task) [] [] (Updated sample_task) sample_page) =
          map (\<lambda>c. if tr_id c = tr_id (create_card [] sample_task) then spread_card c u else c)
            (lv_tasks sample_page))"
proof
  show "\<exists>u. lv_selected (finish_task_save False (create_card [] sample_task) [] [] (Updated sample_task) sample_page) = Some u \<and>
        tr_id u = tr_id (create_card [] sample_task) \<and> tr_title u = tr_title sample_task \<and>
        tr_status u = spread_opt (tr_status (create_card [] sample_task)) (tr_status sample_task) \<and>
        tr_approvals_count u = tr_approvals_count (create_card [] sample_task) \<and>
        tr_approvals_pending_count u = tr_approvals_pending_count (create_card [] sample_task) \<and>
        lv_tasks (finish_task_save False (create_card [] sample_task) [] [] (Updated sample_task) sample_page) =
          map (\<lambda>c. if tr_id c = tr_id (create_card [] sample_task) then spread_card c u else c)
            (lv_tasks sample_page)"
    by (rule save_updates_and_selects) simp_all
qed simp

text \<open>Loading comments is not tied to the selection: if the user opens one task and then
  another, and the first task's comments arrive last, the panel of the second task shows the
  comments of the first.\<close>

lemma late_comments_are_shown:
  assumes "List.find (\<lambda>t. tr_id t = j) (lv_tasks_ref p) = Some t"
  shows "let p1 = fst (open_comments j False (fst (open_comments i False p)));
             p2 = finish_load_comments (Ok cs_i) (finish_load_comments (Ok cs_j) p1)
         in lv_selected p2 = Some t \<and> lv_comments p2 = merge_comments_by_id [cs_i]"
proof -
  have ref: "lv_tasks_ref (fst (open_comments i False p)) = lv_tasks_ref p"
    by (auto simp: open_comments_def begin_load_comments_def with_req_def with_panels_def Let_def
        split: option.splits)
  have "lv_selected (fst (open_comments j False u)) = Some t" if "lv_tasks_ref u = lv_tasks_ref p" for u
    using assms that by (auto simp: open_comments_def begin_load_comments_def with_req_def
        with_panels_def Let_def split: option.splits)
  from this [OF ref] show ?thesis
    by (simp add: finish_load_comments_def with_req_def Let_def)
qed

definition sample_comment :: comment where
  "sample_comment = \<lparr>comment_id = ''c1'', comment_created_at = ''2026-01-01'',
     comment_message = Some ''hi'', comment_agent_id = None, comment_task_id = Some ''t0''\<rparr>"

lemma late_comments_witness:
  "let p1 = fst (open_comments ''t1'' False (fst (open_comments ''t0'' False sample_page)));
       p2 = finish_load_comments (Ok [sample_comment]) (finish_load_comments (Ok []) p1)
   in lv_selected p2 = Some (create_card [] sample_task) \<and>
      lv_comments p2 = merge_comments_by_id [[sample_comment]]"
proof (rule late_comments_are_shown)
  have "tr_id (create_card [] sample_task) = ''t1''" by code_simp
  then show "List.find (\<lambda>t. tr_id t = ''t1'') (lv_tasks_ref sample_page) = Some (create_card [] sample_task)"
    by simp
qed

text \<open>The URL follows the panels: opening a task that is on the board puts its id into the
  query; opening the chat puts the chat panel there and removes task and comment; closing
  either removes them; other parameters are never touched.\<close>

lemma url_follows_panels:
  assumes "i \<noteq> []" and "List.find (\<lambda>t. tr_id t = i) (lv_tasks_ref p) \<noteq> None"
  shows "params_get ''taskId'' (query_of (fst (open_comments i keep p))) = Some i \<and>
    params_get ''panel'' (query_of (open_board_chat p)) = Some ''chat'' \<and>
    \<not> url_has ''taskId'' (query_of (open_board_chat p)) \<and>
    \<not> url_has ''commentId'' (query_of (open_board_chat p)) \<and>
    \<not> url_has ''taskId'' (query_of (close_comments p)) \<and>
    \<not> url_has ''commentId'' (query_of (close_comments p)) \<and>
    params_get ''panel'' (query_of (close_board_chat p)) \<noteq> Some ''chat'' \<and>
    (\<forall>k. k \<notin> {''taskId'', ''commentId'', ''panel''} \<longrightarrow>
       (\<forall>p' \<in> {fst (open_comments i keep p), open_board_chat p, close_comments p, close_board_chat p,
                open_live_feed p}. params_get k (query_of p') = params_get k (query_of p)))"
proof -
  obtain t where t: "List.find (\<lambda>t. tr_id t = i) (lv_tasks_ref p) = Some t" "tr_id t = i"
    using assms(2) by (auto simp: find_Some_iff)
  have q [simp]: "query_of (with_req f u) = query_of u" "query_of (clear_selection u) = query_of u"
    for f u by (simp_all add: query_of_def clear_selection_def)
  define url where "url task cmt panel = set_or_delete ''panel'' (if panel then Some ''chat'' else None)
      (set_or_delete ''commentId'' cmt (set_or_delete ''taskId'' task (query_of p)))" for task cmt panel
  have get: "params_get k (url task cmt panel) =
      (if k = ''panel'' then (if panel then Some ''chat'' else None)
       else if k = ''commentId'' then Option.bind cmt non_empty_string
       else if k = ''taskId'' then Option.bind task non_empty_string else params_get k (query_of p))"
    for k task cmt panel
    by (simp add: url_def get_set_or_delete non_empty_string_def)
  define opened where "opened = query_of (fst (open_comments i keep p))"
  have opened: "opened = query_of p \<and> params_get ''taskId'' (query_of p) = Some i \<or>
      (\<exists>c. opened = url (Some i) c False)"
    using t by (auto simp: opened_def open_comments_def begin_load_comments_def with_req_def
        with_panels_def replace_url_def query_of_def url_def Let_def)
  have chat: "query_of (open_board_chat p) = url None None True \<or>
      query_of (open_board_chat p) = query_of p \<and> params_get ''panel'' (query_of p) = Some ''chat'' \<and>
      \<not> url_has ''taskId'' (query_of p) \<and> \<not> url_has ''commentId'' (query_of p)"
    by (auto simp: open_board_chat_def close_comments_in_def with_panels_def replace_url_def
        query_of_def url_def clear_selection_def with_req_def Let_def)
  have closed: "query_of (close_comments p) = url None None False \<or>
      query_of (close_comments p) = query_of p \<and>
      \<not> url_has ''taskId'' (query_of p) \<and> \<not> url_has ''commentId'' (query_of p)"
    by (auto simp: close_comments_def close_comments_in_def with_panels_def replace_url_def
        query_of_def url_def clear_selection_def with_req_def Let_def)
  have no_chat: "query_of (close_board_chat p) = url None None False \<or>
      query_of (close_board_chat p) = query_of p \<and> params_get ''panel'' (query_of p) \<noteq> Some ''chat''"
    by (auto simp: close_board_chat_def close_board_chat_in_def with_panels_def replace_url_def
        query_of_def url_def with_req_def Let_def)
  have feed: "query_of (open_live_feed p) \<in> {query_of p, url None None False}"
    by (auto simp: open_live_feed_def close_comments_in_def close_board_chat_in_def with_panels_def
        replace_url_def query_of_def url_def clear_selection_def with_req_def Let_def)
  have task: "params_get ''taskId'' opened = Some i"
    using opened assms(1) by (auto simp: get non_empty_string_def)
  have other: "params_get k (query_of p') = params_get k (query_of p)"
    if "k \<notin> {''taskId'', ''commentId'', ''panel''}"
      "p' \<in> {fst (open_comments i keep p), open_board_chat p, close_comments p, close_board_chat p,
                open_live_feed p}" for k p'
    using that opened chat closed no_chat feed by (elim insertE emptyE) (auto simp: opened_def get)
  from chat have "params_get ''panel'' (query_of (open_board_chat p)) = Some ''chat''"
    "\<not> url_has ''taskId'' (query_of (open_board_chat p))"
    "\<not> url_has ''commentId'' (query_of (open_board_chat p))"
    by (elim disjE; simp add: get url_has_def)+
  moreover from closed have "\<not> url_has ''taskId'' (query_of (close_comments p))"
    "\<not> url_has ''commentId'' (query_of (close_comments p))"
    by (elim disjE; simp add: get url_has_def)+
  moreover from no_chat have "params_get ''panel'' (query_of (close_board_chat p)) \<noteq> Some ''chat''"
    by (elim disjE) (simp_all add: get)
  ultimately show ?thesis using task other unfolding opened_def by blast
qed

lemma url_follows_panels_witness:
  "params_get ''taskId'' (query_of (fst (open_comments ''t1'' False sample_page))) = Some ''t1'' \<and>
   params_get ''panel'' (query_of (open_board_chat sample_page)) = Some ''chat''"
proof -
  have "tr_id (create_card [] sample_task) = ''t1''" by code_simp
  then have "List.find (\<lambda>t. tr_id t = ''t1'') (lv_tasks_ref sample_page) \<noteq> None" by simp
  from url_follows_panels [OF _ this, of False] show ?thesis by simp
qed

text \<open>Saving an untouched edit form (of a task whose title has no surrounding blanks, and
  whose field values came as JSON) is not offered, and if it is sent anyway it carries no tags,
  dependencies, due date or custom fields.\<close>

lemma untouched_form_saves_nothing:
  assumes "lv_selected p = Some t" and "can_call p" and "trim (tr_title t) = tr_title t"
    and "tr_title t \<noteq> []" and "task_ok t"
    and "JUndef \<notin> snd ` set (board_custom_field_values lc (pg_defs p) (coalesce_opt (tr_custom_field_values t) JUndef))"
  shows "\<not> has_task_changes lc lz (reset_edit_form lc lz p) \<and>
         (\<exists>req. snd (begin_task_save lc lz uz (reset_edit_form lc lz p)) = Some (t, req) \<and>
            uq_title req = tr_title t \<and> Some (uq_status req) = tr_status t \<and> uq_depends_on req = None \<and>
            uq_tag_ids req = None \<and> uq_due_at req = Missing \<and> uq_custom req = None)"
proof -
  let ?b = "board_custom_field_values lc (pg_defs p) (coalesce_opt (tr_custom_field_values t) JUndef)"
  let ?p = "reset_edit_form lc lz p"
  have sel: "lv_selected ?p = Some t" "pg_edit ?p = form_of_task lc lz (pg_defs p) t"
    "pg_defs ?p = pg_defs p" "can_call ?p"
    using assms(1,2) by (simp_all add: reset_edit_form_def with_req_def can_call_def)
  have payload: "custom_field_payload (pg_defs p) ?b = ?b" by (rule payload_of_board_values) fact
  have "first_missing_required_custom_field [] vs = None" for vs by simp
  moreover have "joined xs = joined xs" for xs ..
  moreover have "Some (coalesce_opt (tr_status t) Inbox) = tr_status t"
    "Some (coalesce_opt (tr_priority t) []) = tr_priority t"
    using assms(5) by (auto simp: task_ok_def coalesce_opt_def)
  ultimately show ?thesis
    using assms(3,4) unfolding has_task_changes_def begin_task_save_def build_update_def Let_def sel
    by (simp add: form_of_task_def payload patch_same sel)
qed

definition sample_selected :: page where
  "sample_selected = sample_page\<lparr>lv_selected := Some (create_card [] sample_task)\<rparr>"

lemma untouched_form_witness:
  "\<not> has_task_changes str_cmp (\<lambda>t. t) (reset_edit_form str_cmp (\<lambda>t. t) sample_selected) \<and>
   (\<exists>req. snd (begin_task_save str_cmp (\<lambda>t. t) (\<lambda>t. t) (reset_edit_form str_cmp (\<lambda>t. t) sample_selected)) =
        Some (create_card [] sample_task, req) \<and>
      uq_title req = tr_title (create_card [] sample_task) \<and>
      Some (uq_status req) = tr_status (create_card [] sample_task) \<and> uq_depends_on req = None \<and>
      uq_tag_ids req = None \<and> uq_due_at req = Missing \<and> uq_custom req = None)"
proof (rule untouched_form_saves_nothing)
  show "lv_selected sample_selected = Some (create_card [] sample_task)"
    by (simp add: sample_selected_def)
  show "can_call sample_selected"
    using sample_page_fields(5) by (simp add: sample_selected_def can_call_def)
  show "trim (tr_title (create_card [] sample_task)) = tr_title (create_card [] sample_task)"
    "tr_title (create_card [] sample_task) \<noteq> []" by code_simp+
  show "JUndef \<notin> snd ` set (board_custom_field_values str_cmp (pg_defs sample_selected)
      (coalesce_opt (tr_custom_field_values (create_card [] sample_task)) JUndef))"
    by (simp add: sample_selected_def sample_page_def page_of_def live.extend_def page.fields_def
        board_custom_field_values_def)
qed simp

end
