(* ===== verification/JsonText.thy ===== *)
theory JsonText
  imports JsJson
begin

text \<open>
  Reading back what \<^verbatim>\<open>JSON.stringify\<close> printed. A value is plain when it has no
  \<^verbatim>\<open>undefined\<close>, only whole numbers, and no key twice in an object; for plain values
  \<open>json_parse\<close> is the inverse of \<open>stringify\<close>. The page passes such values through the
  drag-and-drop data of the browser.
\<close>

fun json_plain :: "jsvalue \<Rightarrow> bool" where
  "json_plain JUndef = False"
| "json_plain (JNum q) = (q = of_int \<lfloor>q\<rfloor>)"
| "json_plain (JArr xs) = list_all json_plain xs"
| "json_plain (JObj kvs) = (distinct (map fst kvs) \<and> list_all (\<lambda>kv. json_plain (snd kv)) kvs)"
| "json_plain _ = True"

definition js_text :: "jsvalue \<Rightarrow> string" where
  "js_text v = coalesce_opt (stringify v) ''null''"

section \<open>Strings\<close>

lemma hex_val_hex_digit [simp]: "n < 16 \<Longrightarrow> hex_val (hex_digit n) = Some n"
  by (auto simp: hex_val_def hex_digit_def is_digit_def)

lemma pescape_control:
  assumes "code c < 32"
  shows "pescape (''u00'' @ [hex_digit (code c div 16), hex_digit (code c mod 16)] @ r) = Some (c, r)"
proof -
  have z: "hex_val (CHR ''0'') = Some 0" by code_simp
  have "16 * (code c div 16) + code c mod 16 = code c" by simp
  then show ?thesis using assms by (simp add: pescape_def z)
qed

lemma unescape_letters:
  "unescape (CHR ''b'') = Some (char_of (8::nat))" "unescape (CHR ''t'') = Some (char_of (9::nat))"
  "unescape (CHR ''n'') = Some (char_of (10::nat))" "unescape (CHR ''f'') = Some (char_of (12::nat))"
  "unescape (CHR ''r'') = Some (char_of (13::nat))"
  "unescape (char_of (34::nat)) = Some (char_of (34::nat))" "unescape (char_of (92::nat)) = Some (char_of (92::nat))"
  by code_simp+

lemma char_of_code: "code c = n \<Longrightarrow> c = char_of n"
  by auto

lemma pstring_quote_char:
  "pstring (quote_char c @ r) = map_option (\<lambda>(t, rest). (c # t, rest)) (pstring r)"
proof -
  have esc: "pstring (char_of (92::nat) # e # s) =
      (case pescape (e # s) of None \<Rightarrow> None
       | Some (d, r1) \<Rightarrow> map_option (\<lambda>(t, rest). (d # t, rest)) (pstring r1))" for e s
    by simp
  have simple: "pescape (e # s) = map_option (\<lambda>d. (d, s)) (unescape e)" if "e \<noteq> CHR ''u''" for e s
    using that by (simp add: pescape_def)
  have q: "char_of (34::nat) \<noteq> CHR ''u''" "char_of (92::nat) \<noteq> CHR ''u''" by code_simp+
  have ctl: "code c < 32 \<Longrightarrow> pstring (char_of (92::nat) # ''u00'' @ [hex_digit (code c div 16), hex_digit (code c mod 16)] @ r) =
      map_option (\<lambda>(t, rest). (c # t, rest)) (pstring r)"
    using esc [of "CHR ''u''" "''00'' @ [hex_digit (code c div 16), hex_digit (code c mod 16)] @ r"]
      pescape_control [of c r] by simp
  consider "code c = 34" | "code c = 92" | "code c = 8" | "code c = 9" | "code c = 10" | "code c = 12"
    | "code c = 13" | "code c < 32" "code c \<notin> {8, 9, 10, 12, 13}"
    | "\<not> code c < 32" "code c \<noteq> 34" "code c \<noteq> 92"
    by fastforce
  then show ?thesis
  proof cases
    case 1
    then have "quote_char c = [char_of (92::nat), char_of (34::nat)]" "c = char_of (34::nat)"
      using char_of_code [OF 1] by (simp_all add: quote_char_def)
    then show ?thesis by (simp only: q not_False_eq_True append.simps esc simple unescape_letters option.map option.case prod.case)
  next
    case 2
    then have "quote_char c = [char_of (92::nat), char_of (92::nat)]" "c = char_of (92::nat)"
      using char_of_code [OF 2] by (simp_all add: quote_char_def)
    then show ?thesis by (simp only: q not_False_eq_True append.simps esc simple unescape_letters option.map option.case prod.case)
  next
    case 8
    then have "quote_char c = char_of (92::nat) # ''u00'' @ [hex_digit (code c div 16), hex_digit (code c mod 16)]"
      by (auto simp: quote_char_def Let_def)
    with ctl [OF 8(1)] show ?thesis by (simp only: append.simps append_assoc)
  next
    case 9
    then have "quote_char c = [c]"
      by (auto simp: quote_char_def Let_def)
    with 9 show ?thesis by simp
  qed (drule char_of_code, simp add: quote_char_def esc simple unescape_letters del: pstring.simps)+
qed

lemma pstring_quoted: "pstring (concat (map quote_char s) @ char_of (34::nat) # r) = Some (s, r)"
  by (induction s) (simp_all add: pstring_quote_char del: pstring.simps(2), simp)

section \<open>Numbers\<close>

text \<open>What may follow a value in printed text.\<close>

definition delimited :: "string \<Rightarrow> bool" where
  "delimited r \<longleftrightarrow> r = [] \<or> is_json_ws (hd r) \<or> hd r \<in> {CHR '','', CHR '']'', CHR ''}''}"

lemma nat_to_string_leading: "10 \<le> n \<Longrightarrow> hd (nat_to_string n) \<noteq> CHR ''0''"
proof (induction n rule: nat_to_string.induct)
  case (1 n)
  show ?case
  proof (cases "n div 10 < 10")
    case True
    from 1 have "n div 10 \<noteq> 0" by (simp add: div_eq_0_iff)
    moreover have "digit_char k \<noteq> CHR ''0''" if "0 < k" "k < 10" for k
    proof -
      have "code (digit_char k) = 48 + k" using that by (simp add: digit_char_def)
      then show ?thesis using that by auto
    qed
    ultimately have "digit_char (n div 10) \<noteq> CHR ''0''" using True by blast
    with 1 True show ?thesis by (subst nat_to_string.simps) (simp add: nat_to_string.simps [of "n div 10"])
  next
    case False
    with 1 show ?thesis by (subst nat_to_string.simps) (simp add: hd_append)
  qed
qed

lemma delimited_head:
  "delimited (c # r) \<Longrightarrow> \<not> is_digit c \<and> c \<noteq> CHR ''.'' \<and> c \<noteq> CHR ''e'' \<and> c \<noteq> CHR ''E''"
  by (auto simp: delimited_def is_json_ws_def is_digit_def)

lemma pint_nat:
  assumes "delimited r"
  shows "pint (nat_to_string n @ r) = Some (n, r)"
proof -
  have all: "\<forall>c \<in> set (nat_to_string n). is_digit c"
    using digits_only_to_string [of n] by (simp add: digits_only_def list_all_iff)
  have "takeWhile is_digit r = []" "dropWhile is_digit r = r"
    using assms by (cases r; simp add: delimited_head)+
  with all have t: "takeWhile is_digit (nat_to_string n @ r) = nat_to_string n"
      "dropWhile is_digit (nat_to_string n @ r) = r"
    by (simp_all add: takeWhile_append2 dropWhile_append2)
  have "\<not> (hd (nat_to_string n) = CHR ''0'' \<and> length (nat_to_string n) > 1)"
  proof (cases "n < 10")
    case True
    then show ?thesis by (simp add: nat_to_string.simps [of n])
  next
    case False
    then show ?thesis using nat_to_string_leading [of n] by simp
  qed
  with t show ?thesis by (simp add: pint_def Let_def)
qed

lemma pnumber_int:
  assumes "delimited r"
  shows "pnumber (num_to_string (of_int i) @ r) = Some (of_int i, r)"
proof -
  have rest: "pfrac r = Some (0, r)" "pexp r = Some (1, r)"
    using assms by (cases r; simp add: delimited_head pfrac_def pexp_def)+
  show ?thesis
  proof (cases "i < 0")
    case True
    then have "num_to_string (of_int i :: rat) = ''-'' @ nat_to_string (nat (- i))"
      by (simp add: num_to_string_def Let_def)
    with True show ?thesis by (simp add: pnumber_def Let_def pint_nat [OF assms] rest)
  next
    case False
    then have n: "num_to_string (of_int i :: rat) = nat_to_string (nat i)"
      by (simp add: num_to_string_def Let_def)
    have "\<not> starts_with (nat_to_string (nat i) @ r) ''-''"
    proof -
      have "is_digit (hd (nat_to_string (nat i)))"
        using digits_only_to_string [of "nat i"]
        by (cases "nat_to_string (nat i)") (auto simp: digits_only_def)
      moreover have "\<not> is_digit (CHR ''-'')" by code_simp
      ultimately show ?thesis by (cases "nat_to_string (nat i)") auto
    qed
    with False n show ?thesis by (simp add: pnumber_def Let_def pint_nat [OF assms] rest)
  qed
qed

lemma num_head:
  "\<exists>c t. num_to_string (of_int i) = c # t \<and> (is_digit c \<or> c = CHR ''-'')"
proof -
  have "is_digit (hd (nat_to_string n))" for n
    using digits_only_to_string [of n] by (cases "nat_to_string n") (auto simp: digits_only_def)
  then have "\<exists>c t. nat_to_string n = c # t \<and> is_digit c" for n
    by (cases "nat_to_string n") (auto, metis list.sel(1))
  from this [of "nat i"] show ?thesis by (cases "i < 0") (auto simp: num_to_string_def Let_def)
qed

section \<open>Values\<close>

lemma not_ws_id [simp]: "\<not> is_json_ws c \<Longrightarrow> skip_ws (c # r) = c # r"
  by (simp add: skip_ws_def)

lemma punctuation_not_ws [simp]:
  "\<not> is_json_ws (CHR '','')" "\<not> is_json_ws (CHR '']'')" "\<not> is_json_ws (CHR ''}'')" "\<not> is_json_ws (CHR '':'')"
  "\<not> is_json_ws (CHR ''['')" "\<not> is_json_ws (CHR ''{'')" "\<not> is_json_ws (CHR ''n'')" "\<not> is_json_ws (CHR ''t'')"
  "\<not> is_json_ws (CHR ''f'')" "\<not> is_json_ws (CHR ''-'')" "\<not> is_json_ws (char_of (34::nat))"
  by code_simp+

lemma digit_not_ws: "is_digit c \<Longrightarrow> \<not> is_json_ws c"
  by (auto simp: is_digit_def is_json_ws_def)

lemma plain_stringify: "json_plain v \<Longrightarrow> stringify v = Some (js_text v)"
  by (cases v) (auto simp: js_text_def coalesce_opt_def)

lemma js_text_simps:
  "js_text JNull = ''null''" "js_text (JBool b) = (if b then ''true'' else ''false'')"
  "js_text (JNum q) = num_to_string q" "js_text (JStr s) = quote_string s"
  "js_text (JArr xs) = ''['' @ join_with '','' (map js_text xs) @ '']''"
  "list_all (\<lambda>kv. json_plain (snd kv)) kvs \<Longrightarrow>
     js_text (JObj kvs) = ''{'' @ join_with '','' (map (\<lambda>(k, v). quote_string k @ '':'' @ js_text v) kvs) @ ''}''"
proof -
  show "js_text (JArr xs) = ''['' @ join_with '','' (map js_text xs) @ '']''"
    by (simp add: js_text_def [abs_def] coalesce_opt_def)
next
  assume p: "list_all (\<lambda>kv. json_plain (snd kv)) kvs"
  have "concat (map (\<lambda>(k, v). case stringify v of None \<Rightarrow> [] | Some t \<Rightarrow> [quote_string k @ '':'' @ t]) kvs) =
      map (\<lambda>(k, v). quote_string k @ '':'' @ js_text v) kvs"
    using p by (induction kvs) (auto simp: plain_stringify)
  then show "js_text (JObj kvs) = ''{'' @ join_with '','' (map (\<lambda>(k, v). quote_string k @ '':'' @ js_text v) kvs) @ ''}''"
    by (simp add: js_text_def coalesce_opt_def)
qed (simp_all add: js_text_def coalesce_opt_def)

text \<open>The first character of printed text tells the kind of the value.\<close>

lemma js_text_head:
  "json_plain v \<Longrightarrow> \<exists>c t. js_text v = c # t \<and> \<not> is_json_ws c \<and> c \<noteq> CHR '']'' \<and> c \<noteq> CHR ''}''"
proof (cases v)
  case (JNum q)
  assume "json_plain v"
  with JNum have "q = of_int \<lfloor>q\<rfloor>" by simp
  with num_head [of "\<lfloor>q\<rfloor>"] obtain c t where "num_to_string q = c # t" "is_digit c \<or> c = CHR ''-''"
    by metis
  moreover have "\<not> is_digit (CHR '']'')" "\<not> is_digit (CHR ''}'')" by code_simp+
  ultimately show ?thesis using JNum digit_not_ws by (auto simp: js_text_simps)
next
  case (JStr s)
  have "char_of (34::nat) \<noteq> CHR '']''" "char_of (34::nat) \<noteq> CHR ''}''" by code_simp+
  then show ?thesis by (simp add: JStr js_text_simps quote_string_def dquote_def)
next
  case (JObj kvs)
  assume "json_plain v"
  then show ?thesis by (simp add: JObj js_text_simps)
qed (auto simp: js_text_simps)

definition reads_back :: "jsvalue \<Rightarrow> bool" where
  "reads_back v \<longleftrightarrow> (\<forall>r n. delimited r \<longrightarrow> 2 * length (js_text v @ r) < n \<longrightarrow>
     pvalue n (js_text v @ r) = Some (v, r))"

lemma delimited_Cons [simp]:
  "delimited (CHR '','' # r)" "delimited (CHR '']'' # r)" "delimited (CHR ''}'' # r)"
  by (simp_all add: delimited_def)

lemma pelems_text:
  "xs \<noteq> [] \<Longrightarrow> \<forall>x \<in> set xs. reads_back x \<Longrightarrow>
     2 * length (join_with '','' (map js_text xs) @ CHR '']'' # r) + 1 < n \<Longrightarrow>
     pelems n (join_with '','' (map js_text xs) @ CHR '']'' # r) = Some (xs, r)"
proof (induction xs arbitrary: n rule: induct_list012)
  case (2 x)
  then obtain m where m: "n = Suc m" by (cases n) auto
  with 2 have "pvalue m (js_text x @ CHR '']'' # r) = Some (x, CHR '']'' # r)"
    by (simp add: reads_back_def)
  with m show ?case by simp
next
  case (3 x y zs)
  then obtain m where m: "n = Suc m" by (cases n) auto
  let ?s = "join_with '','' (map js_text (y # zs)) @ CHR '']'' # r"
  have s: "join_with '','' (map js_text (x # y # zs)) @ CHR '']'' # r = js_text x @ CHR '','' # ?s" by simp
  have "pvalue m (js_text x @ CHR '','' # ?s) = Some (x, CHR '','' # ?s)"
    using 3(4,5) unfolding s m by (simp add: reads_back_def)
  moreover have "pelems m ?s = Some (y # zs, r)"
    using 3(2) [of m] 3(4,5) unfolding s m by simp
  ultimately show ?case unfolding s m by (simp del: join_with.simps list.map)
qed simp

definition entry_text :: "string \<times> jsvalue \<Rightarrow> string" where
  "entry_text kv = quote_string (fst kv) @ '':'' @ js_text (snd kv)"

lemma pmembers_entry:
  assumes "reads_back v" and "delimited (d # r)" and "\<not> is_json_ws d"
    and "2 * length (entry_text (k, v) @ d # r) < n"
  shows "pmembers (Suc n) (entry_text (k, v) @ d # r) =
     (if d = CHR ''}'' then Some ([(k, v)], r)
      else if d = CHR '','' then map_option (\<lambda>(kvs, rest). ((k, v) # kvs, rest)) (pmembers n r)
      else None)"
proof -
  have t: "entry_text (k, v) @ d # r = char_of (34::nat) # (concat (map quote_char k) @ char_of (34::nat) #
      CHR '':'' # js_text v @ d # r)"
    by (simp add: entry_text_def quote_string_def dquote_def)
  have "pvalue n (js_text v @ d # r) = Some (v, d # r)"
    using assms(1,2,4) by (auto simp: reads_back_def entry_text_def)
  with assms(3) show ?thesis
    unfolding t by (simp add: pstring_quoted del: pstring.simps)
qed

lemma pmembers_text:
  "kvs \<noteq> [] \<Longrightarrow> \<forall>kv \<in> set kvs. reads_back (snd kv) \<Longrightarrow>
     2 * length (join_with '','' (map entry_text kvs) @ CHR ''}'' # r) + 1 < n \<Longrightarrow>
     pmembers n (join_with '','' (map entry_text kvs) @ CHR ''}'' # r) = Some (kvs, r)"
proof (induction kvs arbitrary: n rule: induct_list012)
  case (2 kv)
  then obtain m where m: "n = Suc m" by (cases n) auto
  obtain k v where kv: "kv = (k, v)" by (cases kv)
  from 2 m kv show ?case
    using pmembers_entry [of v "CHR ''}''" r k m] by (simp del: pmembers.simps)
next
  case (3 x y zs)
  then obtain m where m: "n = Suc m" by (cases n) auto
  obtain k v where kv: "x = (k, v)" by (cases x)
  let ?s = "join_with '','' (map entry_text (y # zs)) @ CHR ''}'' # r"
  have s: "join_with '','' (map entry_text (x # y # zs)) @ CHR ''}'' # r = entry_text (k, v) @ CHR '','' # ?s"
    by (simp add: kv)
  have "pmembers m ?s = Some (y # zs, r)"
    using 3(2) [of m] 3(4,5) unfolding s m by simp
  moreover have "2 * length (entry_text (k, v) @ CHR '','' # ?s) < m" using 3(5) unfolding s m by simp
  moreover have "reads_back v" using 3(4) kv by simp
  ultimately show ?case
    unfolding s m using pmembers_entry [of v "CHR '',''" ?s k m] kv
    by (simp del: join_with.simps list.map pmembers.simps)
qed simp

lemma make_object_distinct:
  assumes "distinct (map fst kvs)"
  shows "make_object kvs = JObj kvs"
proof -
  have "foldl (\<lambda>acc (k, v). AList.update k v acc) ps qs = ps @ qs" if "distinct (map fst (ps @ qs))"
    for ps qs :: "(string \<times> jsvalue) list"
    using that
  proof (induction qs arbitrary: ps)
    case (Cons q qs)
    have "AList.update k v ps = ps @ [(k, v)]" if "k \<notin> fst ` set ps" for k v and ps :: "(string \<times> jsvalue) list"
      using that by (induction ps) auto
    from this [of "fst q" ps "snd q"] Cons show ?case by (cases q) (auto simp: Cons.IH)
  qed simp
  from this [of "[]" kvs] assms show ?thesis by (simp add: make_object_def)
qed

lemma join_head:
  "xs \<noteq> [] \<Longrightarrow> hd xs = c # t \<Longrightarrow> \<exists>u. join_with sep xs = c # u"
  by (cases xs; cases "tl xs") auto

lemma reads_back_num:
  assumes q: "q = of_int \<lfloor>q\<rfloor>"
  shows "reads_back (JNum q)"
proof -
  show ?thesis unfolding reads_back_def
  proof (intro allI impI)
    fix r n
    assume r: "delimited r" and n: "2 * length (js_text (JNum q) @ r) < n"
    obtain m where m: "n = Suc m" using n by (cases n) auto
    obtain c t where h: "num_to_string (of_int \<lfloor>q\<rfloor>) = c # t" "is_digit c \<or> c = CHR ''-''"
      using num_head by blast
    have "\<not> is_json_ws c" using h(2) digit_not_ws by auto
    moreover have "code c \<noteq> 34 \<and> c \<notin> {CHR ''['', CHR ''{'', CHR ''n'', CHR ''t'', CHR ''f''}"
      using h(2) by (auto simp: is_digit_def)
    moreover have "pnumber (c # t @ r) = Some (of_int \<lfloor>q\<rfloor>, r)"
      using pnumber_int [OF r, of "\<lfloor>q\<rfloor>"] h(1) by simp
    ultimately have "pvalue n (num_to_string (of_int \<lfloor>q\<rfloor>) @ r) = Some (JNum (of_int \<lfloor>q\<rfloor>), r)"
      by (simp add: m h(1))
    with q show "pvalue n (js_text (JNum q) @ r) = Some (JNum q, r)" by (simp add: js_text_simps)
  qed
qed

lemma reads_back_arr:
  assumes "\<forall>x \<in> set xs. json_plain x" and "\<forall>x \<in> set xs. reads_back x"
  shows "reads_back (JArr xs)"
proof -
  show ?thesis unfolding reads_back_def
  proof (intro allI impI)
    fix r n
    assume r: "delimited r" and n: "2 * length (js_text (JArr xs) @ r) < n"
    obtain m where m: "n = Suc m" using n by (cases n) auto
    show "pvalue n (js_text (JArr xs) @ r) = Some (JArr xs, r)"
    proof (cases "xs = []")
      case False
      let ?s = "join_with '','' (map js_text xs) @ CHR '']'' # r"
      have "pelems m ?s = Some (xs, r)"
        by (rule pelems_text) (use assms False n m in \<open>auto simp: js_text_simps\<close>)
      moreover obtain c u where "?s = c # u" "\<not> is_json_ws c" "c \<noteq> CHR '']''"
        using js_text_head [of "hd xs"] assms(1) False join_head [of "map js_text xs"]
        by (auto simp: hd_map) (metis append_Cons)
      ultimately show ?thesis by (simp add: m js_text_simps)
    qed (simp add: m js_text_simps)
  qed
qed

lemma reads_back_obj:
  assumes "list_all (\<lambda>kv. json_plain (snd kv)) kvs" and "\<forall>kv \<in> set kvs. reads_back (snd kv)"
    and "distinct (map fst kvs)"
  shows "reads_back (JObj kvs)"
proof -
  have t: "js_text (JObj kvs) = ''{'' @ join_with '','' (map entry_text kvs) @ ''}''"
    using assms(1) by (simp add: js_text_simps entry_text_def [abs_def] case_prod_unfold)
  show ?thesis unfolding reads_back_def
  proof (intro allI impI)
    fix r n
    assume r: "delimited r" and n: "2 * length (js_text (JObj kvs) @ r) < n"
    obtain m where m: "n = Suc m" using n by (cases n) auto
    show "pvalue n (js_text (JObj kvs) @ r) = Some (JObj kvs, r)"
    proof (cases "kvs = []")
      case False
      let ?s = "join_with '','' (map entry_text kvs) @ CHR ''}'' # r"
      have "pmembers m ?s = Some (kvs, r)"
        by (rule pmembers_text) (use assms(2) False n m in \<open>auto simp: t list_all_iff\<close>)
      moreover obtain u where "?s = char_of (34::nat) # u"
      proof -
        obtain t where "hd (map entry_text kvs) = char_of (34::nat) # t"
          using False by (cases kvs) (auto simp: entry_text_def quote_string_def dquote_def)
        then obtain u where "join_with '','' (map entry_text kvs) = char_of (34::nat) # u"
          using join_head [of "map entry_text kvs"] False by blast
        then show ?thesis using that by simp
      qed
      moreover have "char_of (34::nat) \<noteq> CHR ''}''" by code_simp
      ultimately show ?thesis by (simp add: m t make_object_distinct [OF assms(3)])
    qed (simp add: m js_text_simps)
  qed
qed

lemma reads_back_str: "reads_back (JStr s)"
proof -
  show ?thesis unfolding reads_back_def
  proof (intro allI impI)
    fix r n
    assume "2 * length (js_text (JStr s) @ r) < n"
    then obtain m where "n = Suc m" by (cases n) auto
    then show "pvalue n (js_text (JStr s) @ r) = Some (JStr s, r)"
      by (simp add: js_text_simps quote_string_def dquote_def pstring_quoted del: pstring.simps)
  qed
qed

lemma reads_back_bool: "reads_back (JBool b)"
proof -
  show ?thesis unfolding reads_back_def
  proof (intro allI impI)
    fix r n
    assume "2 * length (js_text (JBool b) @ r) < n"
    then obtain m where "n = Suc m" by (cases n) auto
    then show "pvalue n (js_text (JBool b) @ r) = Some (JBool b, r)"
      by (simp add: js_text_simps pliteral_def)
  qed
qed

lemma reads_back_null: "reads_back JNull"
  by (auto simp: reads_back_def js_text_simps pliteral_def elim!: less_natE)

lemma pvalue_text: "json_plain v \<Longrightarrow> reads_back v"
proof (induction v rule: json_plain.induct)
  case (3 xs)
  then show ?case by (auto simp: list_all_iff intro!: reads_back_arr)
next
  case (4 kvs)
  then show ?case by (auto simp: list_all_iff intro!: reads_back_obj)
qed (auto intro: reads_back_num reads_back_str reads_back_bool reads_back_null)

text \<open>White space after the text is allowed.\<close>

theorem json_roundtrip_ws:
  assumes "json_plain v" and "list_all is_json_ws r"
  shows "json_parse (js_text v @ r) = Some v"
proof -
  have "delimited r" using assms(2) by (cases r) (simp_all add: delimited_def)
  then have "pvalue (2 * length (js_text v @ r) + 1) (js_text v @ r) = Some (v, r)"
    using pvalue_text [OF assms(1)] unfolding reads_back_def by (metis less_add_one)
  moreover have "skip_ws r = []" using assms(2) by (simp add: skip_ws_def list_all_iff dropWhile_eq_Nil_conv)
  ultimately show ?thesis by (simp add: json_parse_def)
qed

theorem json_roundtrip:
  assumes "json_plain v"
  shows "\<exists>t. stringify v = Some t \<and> json_parse t = Some v"
  using plain_stringify [OF assms] json_roundtrip_ws [OF assms, of "[]"] by simp

end
