(* ===== verification/Kanban.thy ===== *)
theory Kanban
  imports BoardSteps JsonText
begin

text \<open>
  The task board (\<^verbatim>\<open>components/organisms/TaskBoard.tsx\<close>) and its cards
  (\<^verbatim>\<open>components/molecules/TaskCard.tsx\<close>): the columns and the tasks in them, due dates, the
  review buckets, the state of a drag with the data that travels through the browser, and the
  animation of moved cards with its timers. The tasks are the normalised cards of the board
  page; the measured positions of the cards are an input.
\<close>

section \<open>Columns\<close>

record column =
  col_title :: string
  col_status :: task_status
  col_dot :: string
  col_accent :: string
  col_text :: string
  col_badge :: string

definition columns :: "column list" where
  "columns =
     [\<lparr>col_title = ''Inbox'', col_status = Inbox, col_dot = ''bg-slate-400'',
       col_accent = ''hover:border-slate-400 hover:bg-slate-50'',
       col_text = ''group-hover:text-slate-700 text-slate-500'', col_badge = ''bg-slate-100 text-slate-600''\<rparr>,
      \<lparr>col_title = ''In Progress'', col_status = In_progress, col_dot = ''bg-purple-500'',
       col_accent = ''hover:border-purple-400 hover:bg-purple-50'',
       col_text = ''group-hover:text-purple-600 text-slate-500'', col_badge = ''bg-purple-100 text-purple-700''\<rparr>,
      \<lparr>col_title = ''Review'', col_status = Review, col_dot = ''bg-indigo-500'',
       col_accent = ''hover:border-indigo-400 hover:bg-indigo-50'',
       col_text = ''group-hover:text-indigo-600 text-slate-500'', col_badge = ''bg-indigo-100 text-indigo-700''\<rparr>,
      \<lparr>col_title = ''Done'', col_status = Done, col_dot = ''bg-green-500'',
       col_accent = ''hover:border-green-400 hover:bg-green-50'',
       col_text = ''group-hover:text-green-600 text-slate-500'', col_badge = ''bg-emerald-100 text-emerald-700''\<rparr>]"

type_synonym buckets = "(task_status \<times> task_card_read list) list"

definition bucket_of :: "task_status \<Rightarrow> buckets \<Rightarrow> task_card_read list" where
  "bucket_of st b = coalesce_opt (map_of b st) []"

text \<open>\<^verbatim>\<open>(buckets[task.status] ?? buckets.inbox).push(task)\<close>.\<close>

definition push_task :: "buckets \<Rightarrow> task_card_read \<Rightarrow> buckets" where
  "push_task b t =
     (let st = (case tr_status t of
                  Some s \<Rightarrow> if map_of b s = None then Inbox else s
                | None \<Rightarrow> Inbox)
      in AList.update st (bucket_of st b @ [t]) b)"

definition grouped :: "task_card_read list \<Rightarrow> buckets" where
  "grouped tasks =
     foldl push_task
       (foldl (\<lambda>b c. AList.update (col_status c) [] b)
          [(Inbox, []), (In_progress, []), (Review, []), (Done, [])] columns) tasks"

section \<open>Due dates\<close>

definition resolve_due_state :: "(int \<Rightarrow> string) \<Rightarrow> int \<Rightarrow> task_card_read \<Rightarrow> string option \<times> bool" where
  "resolve_due_state fmt now t =
     (case parse_api_datetime (or_null (tr_due_at t)) of
        None \<Rightarrow> (None, False)
      | Some date \<Rightarrow>
          (let due_label = fmt date;
               is_overdue = (tr_status t \<noteq> Some Done \<and> date < now)
           in (Some (if is_overdue then ''Overdue '' @ middle_dot @ '' '' @ due_label else due_label),
               is_overdue)))"

section \<open>Review buckets\<close>

datatype review_bucket = All_tasks | Approval_needed | Waiting_lead | Blocked_tasks

record review_counts =
  rc_all :: nat
  rc_approval_needed :: nat
  rc_waiting_lead :: nat
  rc_blocked :: nat

definition pending_count :: "task_card_read \<Rightarrow> int" where
  "pending_count t = coalesce_opt (tr_approvals_pending_count t) 0"

definition is_blocked_task :: "task_card_read \<Rightarrow> bool" where
  "is_blocked_task t \<longleftrightarrow> tr_is_blocked t = Some True"

definition count_review :: "review_counts \<Rightarrow> task_card_read \<Rightarrow> review_counts" where
  "count_review acc t =
     (if is_blocked_task t then acc\<lparr>rc_blocked := rc_blocked acc + 1\<rparr>
      else if pending_count t > 0 then acc\<lparr>rc_approval_needed := rc_approval_needed acc + 1\<rparr>
      else acc\<lparr>rc_waiting_lead := rc_waiting_lead acc + 1\<rparr>)"

definition review_counts_of :: "task_card_read list \<Rightarrow> review_counts" where
  "review_counts_of column_tasks =
     foldl count_review
       \<lparr>rc_all = length column_tasks, rc_approval_needed = 0, rc_waiting_lead = 0, rc_blocked = 0\<rparr>
       column_tasks"

fun in_review_bucket :: "review_bucket \<Rightarrow> task_card_read \<Rightarrow> bool" where
  "in_review_bucket Blocked_tasks t = is_blocked_task t"
| "in_review_bucket Approval_needed t = (pending_count t > 0 \<and> \<not> is_blocked_task t)"
| "in_review_bucket Waiting_lead t = (\<not> is_blocked_task t \<and> pending_count t = 0)"
| "in_review_bucket All_tasks t = True"

definition filtered_tasks :: "task_status \<Rightarrow> review_bucket \<Rightarrow> task_card_read list \<Rightarrow> task_card_read list" where
  "filtered_tasks st bucket column_tasks =
     (if st = Review \<and> bucket \<noteq> All_tasks then filter (in_review_bucket bucket) column_tasks
      else column_tasks)"

section \<open>Dragging\<close>

text \<open>The state of the board, and the data transfer of the drag under way.\<close>

record drag_state =
  dragging_id :: "string option"
  active_column :: "task_status option"
  transfer :: "string option"

definition drag_payload :: "task_card_read \<Rightarrow> jsvalue" where
  "drag_payload t =
     JObj ((''taskId'', JStr (tr_id t)) #
       (case tr_status t of Some s \<Rightarrow> [(''status'', JStr (status_string s))] | None \<Rightarrow> []))"

text \<open>None when the drag is prevented.\<close>

definition handle_drag_start :: "bool \<Rightarrow> task_card_read \<Rightarrow> drag_state \<Rightarrow> drag_state option" where
  "handle_drag_start read_only t d =
     (if read_only then None
      else if is_blocked_task t then None
      else Some (d\<lparr>dragging_id := Some (tr_id t), transfer := stringify (drag_payload t)\<rparr>))"

definition handle_drag_end :: "drag_state \<Rightarrow> drag_state" where
  "handle_drag_end d = d\<lparr>dragging_id := None, active_column := None\<rparr>"

definition truthy_string :: "jsvalue option \<Rightarrow> string option" where
  "truthy_string v = (case v of Some (JStr s) \<Rightarrow> if s = [] then None else Some s | _ \<Rightarrow> None)"

text \<open>A drop on a column: the call of \<^verbatim>\<open>onTaskMove\<close>, if any. The payload's properties are read
  as the strings their type declares.\<close>

definition handle_drop :: "bool \<Rightarrow> task_status \<Rightarrow> drag_state \<Rightarrow> drag_state \<times> (string \<times> task_status) option" where
  "handle_drop read_only st d =
     (if read_only then (d, None)
      else let d1 = d\<lparr>active_column := None\<rparr> in
        case transfer d of
          None \<Rightarrow> (d1, None)
        | Some raw \<Rightarrow>
            (if raw = [] then (d1, None)
             else (case json_parse raw of
                     Some (JObj kvs) \<Rightarrow>
                       (case (truthy_string (map_of kvs ''taskId''), truthy_string (map_of kvs ''status'')) of
                          (Some task_id, Some status) \<Rightarrow>
                            (if status = status_string st then (d1, None) else (d1, Some (task_id, st)))
                        | _ \<Rightarrow> (d1, None))
                   | _ \<Rightarrow> (d1, None))))"

definition handle_drag_over :: "bool \<Rightarrow> task_status \<Rightarrow> drag_state \<Rightarrow> drag_state" where
  "handle_drag_over read_only st d =
     (if read_only then d
      else if active_column d \<noteq> Some st then d\<lparr>active_column := Some st\<rparr> else d)"

definition handle_drag_leave :: "bool \<Rightarrow> task_status \<Rightarrow> drag_state \<Rightarrow> drag_state" where
  "handle_drag_leave read_only st d =
     (if read_only then d
      else if active_column d = Some st then d\<lparr>active_column := None\<rparr> else d)"

section \<open>Animation\<close>

text \<open>Positions of the cards by task id, relative to the scrolled container;
  \<open>measure_positions\<close> takes the rectangles of the elements.\<close>

type_synonym positions = "(string \<times> rat \<times> rat) list"

definition measure_positions ::
  "(rat \<times> rat \<times> rat \<times> rat) option \<Rightarrow> (string \<times> rat \<times> rat) list \<Rightarrow> positions" where
  "measure_positions container rects =
     map (\<lambda>(i, l, t).
       case container of
         Some (cl, ct, scroll_left, scroll_top) \<Rightarrow> (i, l - cl + scroll_left, t - ct + scroll_top)
       | None \<Rightarrow> (i, l, t)) rects"

datatype transition = No_transition | Transform_now | Transform_eased

record card_style =
  cs_transform :: "(rat \<times> rat) option"
  cs_transition :: transition
  cs_will_change :: bool
  cs_relative :: bool
  cs_z_index :: bool

definition plain_style :: card_style where
  "plain_style = \<lparr>cs_transform = None, cs_transition = No_transition, cs_will_change = False,
     cs_relative = False, cs_z_index = False\<rparr>"

text \<open>The elements of the cards are numbered as they are created; \<open>fs_cards\<close> is the map from
  task ids to the elements now on the page.\<close>

record flip_state =
  fs_cards :: "(string \<times> nat) list"
  fs_next :: nat
  fs_styles :: "nat \<Rightarrow> card_style"
  fs_prev :: positions
  fs_raf :: "nat list option"
  fs_cleanup :: "nat list option"
  fs_animated :: "string list"

definition set_styles :: "(card_style \<Rightarrow> card_style) \<Rightarrow> nat list \<Rightarrow> (nat \<Rightarrow> card_style) \<Rightarrow> nat \<Rightarrow> card_style" where
  "set_styles f es styles = (\<lambda>e. if e \<in> set es then f (styles e) else styles e)"

text \<open>A render attaches and detaches cards (\<^verbatim>\<open>setCardRef\<close>): the ids now shown keep their elements
  or get new ones.\<close>

fun attach_cards :: "string list \<Rightarrow> (string \<times> nat) list \<Rightarrow> nat \<Rightarrow> (string \<times> nat) list \<times> nat" where
  "attach_cards [] old n = ([], n)"
| "attach_cards (i # ids) old n =
     (case map_of old i of
        Some e \<Rightarrow> (case attach_cards ids old n of (cs, m) \<Rightarrow> ((i, e) # cs, m))
      | None \<Rightarrow> (case attach_cards ids old (Suc n) of (cs, m) \<Rightarrow> ((i, n) # cs, m)))"

definition set_card_refs :: "string list \<Rightarrow> flip_state \<Rightarrow> flip_state" where
  "set_card_refs ids s =
     (case attach_cards ids (fs_cards s) (fs_next s) of
        (cards, n) \<Rightarrow> s\<lparr>fs_cards := cards, fs_next := n\<rparr>)"

text \<open>Stopping: the timers are cancelled and the animated cards that are still on the page get
  their plain style, at the start of the effect and in its clean-up.\<close>

definition stop_animation :: "flip_state \<Rightarrow> flip_state" where
  "stop_animation s =
     s\<lparr>fs_raf := None, fs_cleanup := None,
       fs_styles := set_styles (\<lambda>_. plain_style)
         (map snd (filter (\<lambda>ie. fst ie \<in> set (fs_animated s)) (fs_cards s))) (fs_styles s),
       fs_animated := []\<rparr>"

definition moved_cards :: "positions \<Rightarrow> positions \<Rightarrow> (string \<times> nat) list \<Rightarrow> (string \<times> nat \<times> rat \<times> rat) list" where
  "moved_cards prev nxt cards =
     concat (map (\<lambda>(i, l, t).
       case map_of prev i of
         None \<Rightarrow> []
       | Some (pl, pt) \<Rightarrow>
           (let dx = pl - l; dy = pt - t
            in if \<bar>dx\<bar> < 1 \<and> \<bar>dy\<bar> < 1 then []
               else (case map_of cards i of None \<Rightarrow> [] | Some e \<Rightarrow> [(i, e, dx, dy)]))) nxt)"

definition invert_style :: "rat \<Rightarrow> rat \<Rightarrow> card_style" where
  "invert_style dx dy =
     \<lparr>cs_transform = Some (dx, dy), cs_transition = Transform_now, cs_will_change = True,
      cs_relative = True, cs_z_index = True\<rparr>"

definition layout_effect :: "string option \<Rightarrow> bool \<Rightarrow> positions \<Rightarrow> flip_state \<Rightarrow> flip_state" where
  "layout_effect dragging prefers_reduced_motion next_positions s =
     (let s1 = stop_animation s;
          prev_positions = fs_prev s1;
          s2 = s1\<lparr>fs_prev := next_positions\<rparr>
      in if dragging \<noteq> None \<and> dragging \<noteq> Some [] then s2
         else if prefers_reduced_motion then s2
         else let moved = moved_cards prev_positions next_positions (fs_cards s2) in
           if moved = [] then s2
           else s2\<lparr>fs_animated := map fst moved,
                   fs_styles := foldl (\<lambda>st (i, e, dx, dy). st(e := invert_style dx dy)) (fs_styles s2) moved,
                   fs_raf := Some (map (\<lambda>(i, e, dx, dy). e) moved)\<rparr>)"

definition fire_raf :: "flip_state \<Rightarrow> flip_state" where
  "fire_raf s =
     (case fs_raf s of
        None \<Rightarrow> s
      | Some moved \<Rightarrow>
          s\<lparr>fs_styles := set_styles (\<lambda>st. st\<lparr>cs_transition := Transform_eased, cs_transform := None\<rparr>) moved (fs_styles s),
            fs_cleanup := Some moved, fs_raf := None\<rparr>)"

definition fire_cleanup :: "flip_state \<Rightarrow> flip_state" where
  "fire_cleanup s =
     (case fs_cleanup s of
        None \<Rightarrow> s
      | Some moved \<Rightarrow>
          s\<lparr>fs_styles := set_styles (\<lambda>st. st\<lparr>cs_transition := No_transition, cs_will_change := False,
                 cs_relative := False, cs_z_index := False\<rparr>) moved (fs_styles s),
            fs_animated := [], fs_cleanup := None\<rparr>)"

section \<open>Cards\<close>

definition left_bar_class_name :: "task_card_read \<Rightarrow> string option" where
  "left_bar_class_name t =
     (let has_pending_approval = pending_count t > 0;
          needs_lead_review = (tr_status t = Some Review \<and> \<not> is_blocked_task t \<and> \<not> has_pending_approval)
      in if is_blocked_task t then Some ''bg-rose-400''
         else if has_pending_approval then Some ''bg-amber-400''
         else if needs_lead_review then Some ''bg-indigo-400'' else None)"

definition priority_badge :: "string option \<Rightarrow> string option" where
  "priority_badge value =
     (case value of
        None \<Rightarrow> None
      | Some v \<Rightarrow>
          (if v = [] then None
           else if to_lower v = ''high'' then Some ''bg-rose-100 text-rose-700''
           else if to_lower v = ''medium'' then Some ''bg-amber-100 text-amber-700''
           else if to_lower v = ''low'' then Some ''bg-emerald-100 text-emerald-700''
           else Some ''bg-slate-100 text-slate-600''))"

definition priority_label :: "string option \<Rightarrow> string" where
  "priority_label value =
     (case value of Some v \<Rightarrow> if v = [] then ''MEDIUM'' else to_upper v | None \<Rightarrow> ''MEDIUM'')"

definition visible_tags :: "tag_ref list option \<Rightarrow> tag_ref list" where
  "visible_tags tags = take 3 (coalesce_opt tags [])"

section \<open>Facts about columns and reviews\<close>

lemma push_task_bucket:
  assumes "dom (map_of b) = UNIV"
  shows "bucket_of st (push_task b t) =
      bucket_of st b @ (if coalesce_opt (tr_status t) Inbox = st then [t] else [])"
    and "dom (map_of (push_task b t)) = UNIV"
proof -
  have n: "\<exists>y. map_of b s = Some y" for s using assms by auto
  have u: "push_task b t =
      AList.update (coalesce_opt (tr_status t) Inbox) (bucket_of (coalesce_opt (tr_status t) Inbox) b @ [t]) b"
  proof (cases "tr_status t")
    case (Some s)
    with n [of s] show ?thesis by (auto simp: push_task_def js_simps)
  qed (simp add: push_task_def js_simps)
  show "bucket_of st (push_task b t) =
      bucket_of st b @ (if coalesce_opt (tr_status t) Inbox = st then [t] else [])"
    unfolding u by (simp add: bucket_of_def update_conv js_simps)
  show "dom (map_of (push_task b t)) = UNIV"
    unfolding u update_conv' using assms by simp
qed

lemma fold_push_task:
  "dom (map_of b) = UNIV \<Longrightarrow>
     bucket_of st (foldl push_task b tasks) =
       bucket_of st b @ filter (\<lambda>t. coalesce_opt (tr_status t) Inbox = st) tasks"
  by (induction tasks arbitrary: b) (simp_all add: push_task_bucket)

lemma bucket_of_grouped:
  "bucket_of st (grouped tasks) = filter (\<lambda>t. coalesce_opt (tr_status t) Inbox = st) tasks"
proof -
  have e: "foldl (\<lambda>b c. AList.update (col_status c) [] b)
      [(Inbox, []), (In_progress, []), (Review, []), (Done, [])] columns =
      [(Inbox, []), (In_progress, []), (Review, []), (Done, [])]"
    by (simp add: columns_def)
  have "map_of [(Inbox, []), (In_progress, []), (Review, []), (Done, [])] s \<noteq> None" for s
    by (cases s) simp_all
  then have "dom (map_of [(Inbox, []), (In_progress, []), (Review, []), (Done, [])]) = UNIV" by blast
  from fold_push_task [OF this, of st tasks] show ?thesis
    unfolding grouped_def e by (cases st) (simp_all add: bucket_of_def js_simps)
qed

lemma fold_count_review:
  "rc_all (foldl count_review acc ts) = rc_all acc \<and>
   rc_blocked (foldl count_review acc ts) = rc_blocked acc + length (filter is_blocked_task ts) \<and>
   rc_approval_needed (foldl count_review acc ts) =
     rc_approval_needed acc + length (filter (\<lambda>t. pending_count t > 0 \<and> \<not> is_blocked_task t) ts) \<and>
   rc_waiting_lead (foldl count_review acc ts) =
     rc_waiting_lead acc + length (filter (\<lambda>t. \<not> is_blocked_task t \<and> \<not> pending_count t > 0) ts)"
  by (induction ts arbitrary: acc) (auto simp: count_review_def)

lemma length_three_way:
  "length (filter P ts) + length (filter (\<lambda>t. Q t \<and> \<not> P t) ts) + length (filter (\<lambda>t. \<not> P t \<and> \<not> Q t) ts) = length ts"
  by (induction ts) auto

section \<open>Facts about drags\<close>

lemma status_string_truthy [simp]: "status_string s \<noteq> []"
  by (cases s) simp_all

lemma status_string_inject [simp]: "status_string s = status_string t \<longleftrightarrow> s = t"
  by (cases s; cases t) simp_all

lemma drag_payload_plain: "json_plain (drag_payload t)"
  by (auto simp: drag_payload_def split: option.splits)

lemma drop_reads_payload:
  assumes "stringify (drag_payload t) = transfer d" and "tr_id t \<noteq> []" and "tr_status t = Some s"
  shows "handle_drop False st d = (d\<lparr>active_column := None\<rparr>, if s = st then None else Some (tr_id t, st))"
proof -
  obtain raw where raw: "stringify (drag_payload t) = Some raw" "json_parse raw = Some (drag_payload t)"
    using json_roundtrip [OF drag_payload_plain] by blast
  then have "raw \<noteq> []" by (auto simp: json_parse_def skip_ws_def)
  moreover have "transfer d = Some raw" using assms(1) raw(1) by simp
  ultimately show ?thesis using raw(2) assms(2,3)
    by (simp add: handle_drop_def Let_def drag_payload_def truthy_string_def)
qed

section \<open>Facts about the animation\<close>

text \<open>Only cards under animation have another style: while the frame is pending, all of it;
  while the clean-up is pending, the transform is already gone. Elements not created yet are
  plain.\<close>

definition flip_ok :: "flip_state \<Rightarrow> bool" where
  "flip_ok s \<longleftrightarrow>
     distinct (map fst (fs_cards s)) \<and> distinct (map snd (fs_cards s)) \<and>
     (\<forall>ie \<in> set (fs_cards s). snd ie < fs_next s) \<and>
     (\<forall>e \<ge> fs_next s. fs_styles s e = plain_style) \<and>
     (fs_raf s = None \<or> fs_cleanup s = None) \<and>
     (\<forall>i e. (i, e) \<in> set (fs_cards s) \<and> fs_styles s e \<noteq> plain_style \<longrightarrow>
        i \<in> set (fs_animated s) \<and>
        ((\<exists>m. fs_raf s = Some m \<and> e \<in> set m) \<or>
         (\<exists>m. fs_cleanup s = Some m \<and> e \<in> set m \<and> cs_transform (fs_styles s e) = None))) \<and>
     (\<forall>m. fs_raf s = Some m \<or> fs_cleanup s = Some m \<longrightarrow> (\<forall>e \<in> set m. e < fs_next s) \<and>
        (\<forall>i e. (i, e) \<in> set (fs_cards s) \<and> e \<in> set m \<longrightarrow> i \<in> set (fs_animated s)))"

lemma flip_okI:
  assumes "distinct (map fst (fs_cards s))" and "distinct (map snd (fs_cards s))"
    and "\<And>ie. ie \<in> set (fs_cards s) \<Longrightarrow> snd ie < fs_next s"
    and "\<And>e. fs_next s \<le> e \<Longrightarrow> fs_styles s e = plain_style"
    and "fs_raf s = None \<or> fs_cleanup s = None"
    and "\<And>i e. (i, e) \<in> set (fs_cards s) \<Longrightarrow> fs_styles s e \<noteq> plain_style \<Longrightarrow> i \<in> set (fs_animated s) \<and>
        ((\<exists>m. fs_raf s = Some m \<and> e \<in> set m) \<or>
         (\<exists>m. fs_cleanup s = Some m \<and> e \<in> set m \<and> cs_transform (fs_styles s e) = None))"
    and "\<And>m e. fs_raf s = Some m \<or> fs_cleanup s = Some m \<Longrightarrow> e \<in> set m \<Longrightarrow> e < fs_next s"
    and "\<And>m i e. fs_raf s = Some m \<or> fs_cleanup s = Some m \<Longrightarrow> (i, e) \<in> set (fs_cards s) \<Longrightarrow>
        e \<in> set m \<Longrightarrow> i \<in> set (fs_animated s)"
  shows "flip_ok s"
  using assms unfolding flip_ok_def by blast

datatype flip_event = Render "string list" | Layout "string option" bool positions | Frame | Clean_up | Stop

fun flip_step :: "flip_event \<Rightarrow> flip_state \<Rightarrow> flip_state" where
  "flip_step (Render ids) s = (if distinct ids then set_card_refs ids s else s)"
| "flip_step (Layout d r ps) s = layout_effect d r ps s"
| "flip_step Frame s = fire_raf s"
| "flip_step Clean_up s = fire_cleanup s"
| "flip_step Stop s = stop_animation s"

lemma distinct_snd_eq: "distinct (map snd xs) \<Longrightarrow> (i, e) \<in> set xs \<Longrightarrow> (j, e) \<in> set xs \<Longrightarrow> i = j"
  by (metis distinct_map inj_onD prod.inject snd_conv)

lemma flip_ok_prev [simp]: "flip_ok (s\<lparr>fs_prev := ps\<rparr>) = flip_ok s"
  unfolding flip_ok_def by simp

lemma attach_cards_props:
  "attach_cards ids old n = (cs, m) \<Longrightarrow> distinct ids \<Longrightarrow> distinct (map fst old) \<Longrightarrow>
     distinct (map snd old) \<Longrightarrow> \<forall>ie \<in> set old. snd ie < k \<Longrightarrow> k \<le> n \<Longrightarrow>
     n \<le> m \<and> map fst cs = ids \<and> distinct (map snd cs) \<and>
     (\<forall>ie \<in> set cs. ie \<in> set old \<or> n \<le> snd ie \<and> snd ie < m)"
proof (induction ids old n arbitrary: cs m rule: attach_cards.induct)
  case (2 i ids old n)
  show ?case
  proof (cases "map_of old i")
    case None
    obtain cs' where r: "attach_cards ids old (Suc n) = (cs', m)" "cs = (i, n) # cs'"
      using 2(3) None by (auto split: prod.splits)
    from 2(1) [OF None r(1)] 2(4-8) have ih: "Suc n \<le> m" "map fst cs' = ids" "distinct (map snd cs')"
      "\<forall>ie \<in> set cs'. ie \<in> set old \<or> Suc n \<le> snd ie \<and> snd ie < m" by auto
    have "n \<notin> snd ` set cs'" using ih(4) 2(7,8) by fastforce
    with ih r 2(4) show ?thesis by auto
  next
    case (Some e)
    obtain cs' where r: "attach_cards ids old n = (cs', m)" "cs = (i, e) # cs'"
      using 2(3) Some by (auto split: prod.splits)
    from 2(2) [OF Some r(1)] 2(4-8) have ih: "n \<le> m" "map fst cs' = ids" "distinct (map snd cs')"
      "\<forall>ie \<in> set cs'. ie \<in> set old \<or> n \<le> snd ie \<and> snd ie < m" by auto
    from Some have ie: "(i, e) \<in> set old" by (rule map_of_SomeD)
    have "e \<notin> snd ` set cs'"
    proof
      assume "e \<in> snd ` set cs'"
      then obtain j where j: "(j, e) \<in> set cs'" by auto
      with ih(2) 2(4) have "j \<noteq> i" by force
      moreover have "(j, e) \<in> set old" using ih(4) j ie 2(7,8) by fastforce
      ultimately show False using ie 2(6) distinct_snd_eq by metis
    qed
    with ih r ie show ?thesis by auto
  qed
qed simp

lemma flip_ok_render:
  assumes "flip_ok s" and "distinct ids"
  shows "flip_ok (set_card_refs ids s)"
proof -
  obtain cs m where a: "attach_cards ids (fs_cards s) (fs_next s) = (cs, m)" by fastforce
  have p: "fs_next s \<le> m" "map fst cs = ids" "distinct (map snd cs)"
      "\<forall>ie \<in> set cs. ie \<in> set (fs_cards s) \<or> fs_next s \<le> snd ie \<and> snd ie < m"
    using attach_cards_props [OF a assms(2), of "fs_next s"] assms(1) by (auto simp: flip_ok_def)
  have old: "(i, e) \<in> set (fs_cards s)" if "(i, e) \<in> set cs" "fs_styles s e \<noteq> plain_style \<or> e < fs_next s" for i e
    using p(4) that assms(1) by (fastforce simp: flip_ok_def)
  have lt: "\<forall>ie \<in> set cs. snd ie < m" using p(1,4) assms(1) by (fastforce simp: flip_ok_def)
  let ?s = "s\<lparr>fs_cards := cs, fs_next := m\<rparr>"
  have live: "i \<in> set (fs_animated s) \<and>
        ((\<exists>m. fs_raf s = Some m \<and> e \<in> set m) \<or>
         (\<exists>m. fs_cleanup s = Some m \<and> e \<in> set m \<and> cs_transform (fs_styles s e) = None))" if "(i, e) \<in> set cs" "fs_styles s e \<noteq> plain_style" for i e
  proof -
    have "(i, e) \<in> set (fs_cards s)" by (rule old) (use that in auto)
    with that(2) assms(1) show ?thesis unfolding flip_ok_def by blast
  qed
  have timers: "(\<forall>e \<in> set es. e < fs_next s) \<and>
      (\<forall>i e. (i, e) \<in> set (fs_cards s) \<and> e \<in> set es \<longrightarrow> i \<in> set (fs_animated s))"
    if "fs_raf s = Some es \<or> fs_cleanup s = Some es" for es
    using that assms(1) unfolding flip_ok_def by blast
  have timers1: "e < m" if "fs_raf s = Some es \<or> fs_cleanup s = Some es" "e \<in> set es" for es e
    using timers [OF that(1)] that(2) p(1) less_le_trans by blast
  have timers2: "i \<in> set (fs_animated s)"
    if "fs_raf s = Some es \<or> fs_cleanup s = Some es" "(i, e) \<in> set cs" "e \<in> set es" for es i e
    using timers [OF that(1)] old [OF that(2)] that(3) by blast
  have idle: "fs_raf s = None \<or> fs_cleanup s = None" using assms(1) unfolding flip_ok_def by simp
  have rest: "fs_styles s e = plain_style" if "m \<le> e" for e
    using assms(1) p(1) that unfolding flip_ok_def by (meson le_trans)
  have "flip_ok ?s"
    by (rule flip_okI) (use p(2,3) assms(2) lt live timers1 timers2 rest idle in simp_all)
  then show ?thesis by (simp add: set_card_refs_def a)
qed

lemma stop_animation_plain:
  assumes "flip_ok s"
  shows "flip_ok (stop_animation s) \<and>
    (\<forall>ie \<in> set (fs_cards s). fs_styles (stop_animation s) (snd ie) = plain_style)"
proof -
  have plain: "fs_styles (stop_animation s) e = plain_style" if "(i, e) \<in> set (fs_cards s)" for i e
  proof (cases "fs_styles s e = plain_style")
    case True
    then show ?thesis by (simp add: stop_animation_def set_styles_def)
  next
    case False
    with that assms have "i \<in> set (fs_animated s)" unfolding flip_ok_def by blast
    with that have "e \<in> set (map snd (filter (\<lambda>ie. fst ie \<in> set (fs_animated s)) (fs_cards s)))" by force
    then show ?thesis by (simp add: stop_animation_def set_styles_def)
  qed
  moreover have "\<forall>e \<ge> fs_next s. fs_styles (stop_animation s) e = plain_style"
    using assms by (simp add: flip_ok_def stop_animation_def set_styles_def)
  ultimately show ?thesis
    using assms by (fastforce simp: flip_ok_def stop_animation_def)
qed

lemma moved_cards_attached:
  "(i, e, d) \<in> set (moved_cards prev nxt cards) \<Longrightarrow> map_of cards i = Some e"
  by (auto simp: moved_cards_def Let_def split: option.splits if_splits)

lemma fold_invert:
  "foldl (\<lambda>st (i, e, dx, dy). st(e := invert_style dx dy)) st moved e =
     (if e \<in> (\<lambda>(i, e, dx, dy). e) ` set moved
      then foldl (\<lambda>st (i, e, dx, dy). st(e := invert_style dx dy)) st moved e else st e)"
  by (induction moved arbitrary: st) (auto split: if_splits)

lemma flip_ok_layout:
  assumes "flip_ok s"
  shows "flip_ok (layout_effect d r ps s)"
proof -
  let ?s1 = "stop_animation s"
  let ?moved = "moved_cards (fs_prev ?s1) ps (fs_cards ?s1)"
  have ok: "flip_ok ?s1" and plain: "\<forall>ie \<in> set (fs_cards s). fs_styles ?s1 (snd ie) = plain_style"
    using stop_animation_plain [OF assms] by auto
  have cards: "fs_cards ?s1 = fs_cards s" "fs_next ?s1 = fs_next s" by (simp_all add: stop_animation_def)
  have dist: "distinct (map fst (fs_cards s))" "distinct (map snd (fs_cards s))"
      and lt: "\<forall>ie \<in> set (fs_cards s). snd ie < fs_next s" using assms by (simp_all add: flip_ok_def)
  have att: "(i, e) \<in> set (fs_cards s)" if "(i, e, dd) \<in> set ?moved" for i e dd
    using moved_cards_attached [OF that] cards by (simp add: map_of_SomeD)
  have prev: "flip_ok (?s1\<lparr>fs_prev := ps\<rparr>)" using ok by simp
  show ?thesis
  proof (cases "d \<noteq> None \<and> d \<noteq> Some [] \<or> r \<or> ?moved = []")
    case True
    with prev show ?thesis by (auto simp: layout_effect_def Let_def)
  next
    case False
    let ?es = "map (\<lambda>(i, e, dx, dy). e) ?moved"
    let ?st = "foldl (\<lambda>st (i, e, dx, dy). st(e := invert_style dx dy)) (fs_styles ?s1) ?moved"
    have l: "layout_effect d r ps s = ?s1\<lparr>fs_prev := ps, fs_animated := map fst ?moved,
        fs_styles := ?st, fs_raf := Some ?es\<rparr>"
      using False by (cases d) (auto simp: layout_effect_def Let_def)
    have in_m: "i \<in> set (map fst ?moved)" if ie: "(i, e) \<in> set (fs_cards s)" and "e \<in> set ?es" for i e
    proof -
      from that obtain j dd where j: "(j, e, dd) \<in> set ?moved" by auto
      with att have "(j, e) \<in> set (fs_cards s)" by blast
      with ie dist(2) have "i = j" using distinct_snd_eq by metis
      with j show ?thesis by force
    qed
    have same: "?st e = fs_styles ?s1 e" if "e \<notin> set ?es" for e
      using that fold_invert [of "fs_styles ?s1" ?moved e] by auto
    have es_lt: "\<forall>e \<in> set ?es. e < fs_next s" using att lt by fastforce
    have "\<forall>e \<ge> fs_next s. fs_styles ?s1 e = plain_style"
      using ok cards(2) unfolding flip_ok_def by simp
    then have "\<forall>e \<ge> fs_next s. ?st e = plain_style"
      using same es_lt by (metis leD)
    moreover have "i \<in> set (map fst ?moved) \<and> e \<in> set ?es"
      if "(i, e) \<in> set (fs_cards s)" "?st e \<noteq> plain_style" for i e
    proof -
      have "fs_styles ?s1 e = plain_style" using plain that(1) by fastforce
      with same [of e] that(2) have "e \<in> set ?es" by argo
      with in_m [OF that(1)] show ?thesis by blast
    qed
    moreover have "fs_cleanup ?s1 = None" by (simp add: stop_animation_def)
    ultimately show ?thesis
      unfolding l by (intro flip_okI) (use dist lt es_lt in_m cards in simp_all)
  qed
qed

lemma flip_ok_frame: "flip_ok s \<Longrightarrow> flip_ok (fire_raf s)"
  unfolding flip_ok_def fire_raf_def set_styles_def
  by (cases "fs_raf s"; cases "fs_cleanup s") (auto simp: plain_style_def)

lemma flip_ok_cleanup: "flip_ok s \<Longrightarrow> flip_ok (fire_cleanup s)"
  unfolding flip_ok_def fire_cleanup_def set_styles_def
  by (cases "fs_raf s"; cases "fs_cleanup s") (fastforce simp: plain_style_def)+

lemma flip_ok_step: "flip_ok s \<Longrightarrow> flip_ok (flip_step ev s)"
  by (cases ev) (simp_all add: flip_ok_render flip_ok_layout flip_ok_frame flip_ok_cleanup stop_animation_plain)

lemma flip_ok_steps: "flip_ok s \<Longrightarrow> flip_ok (foldl (\<lambda>s ev. flip_step ev s) s evs)"
  by (induction evs arbitrary: s) (simp_all add: flip_ok_step)

section \<open>Concrete values for the witnesses\<close>

definition sample_card :: task_card_read where
  "sample_card = create_card [] sample_task"

lemma sample_card_fields [simp]:
  "tr_id sample_card = ''t1''" "tr_status sample_card = Some Review" "tr_is_blocked sample_card = None"
  "tr_approvals_pending_count sample_card = Some 0"
  by (simp_all add: sample_card_def create_card_def normalize_task_def as_card_def sample_task_def
      task_card_read.defs task_read.defs)

definition idle_drag :: drag_state where
  "idle_drag = \<lparr>dragging_id = None, active_column = None, transfer = None\<rparr>"

definition fresh_board :: flip_state where
  "fresh_board = \<lparr>fs_cards = [], fs_next = 0, fs_styles = (\<lambda>_. plain_style), fs_prev = [], fs_raf = None,
     fs_cleanup = None, fs_animated = []\<rparr>"

lemma fresh_board_ok: "flip_ok fresh_board"
  by (simp add: flip_ok_def fresh_board_def)

definition moved_events :: "flip_event list" where
  "moved_events = [Render [''t1''], Layout None False [(''t1'', 0, 0)], Layout None False [(''t1'', -300, 0)]]"

definition moved_board :: flip_state where
  "moved_board = foldl (\<lambda>s ev. flip_step ev s) fresh_board moved_events"

section \<open>Properties\<close>

text \<open>The columns partition the tasks: a column holds exactly the tasks of its status, in
  the order of the board (a task without one is in the inbox); and the review buckets partition
  the review column: each counter is the number of tasks its bucket shows, and they add up to
  the number of all.\<close>

lemma columns_partition:
  assumes "\<forall>t \<in> set tasks. 0 \<le> pending_count t"
  shows "bucket_of st (grouped tasks) = filter (\<lambda>t. coalesce_opt (tr_status t) Inbox = st) tasks \<and>
    (let col = bucket_of Review (grouped tasks); rc = review_counts_of col
     in rc_all rc = rc_blocked rc + rc_approval_needed rc + rc_waiting_lead rc \<and>
        rc_all rc = length (filtered_tasks Review All_tasks col) \<and>
        rc_blocked rc = length (filtered_tasks Review Blocked_tasks col) \<and>
        rc_approval_needed rc = length (filtered_tasks Review Approval_needed col) \<and>
        rc_waiting_lead rc = length (filtered_tasks Review Waiting_lead col))"
proof -
  let ?col = "bucket_of Review (grouped tasks)"
  have "set ?col \<subseteq> set tasks" by (auto simp: bucket_of_grouped)
  with assms have nn: "\<forall>t \<in> set ?col. 0 \<le> pending_count t" by blast
  have zero: "filter (\<lambda>t. \<not> is_blocked_task t \<and> pending_count t = 0) ts =
      filter (\<lambda>t. \<not> is_blocked_task t \<and> \<not> pending_count t > 0) ts" if "\<forall>t \<in> set ts. 0 \<le> pending_count t" for ts
    using that by (induction ts) auto
  have buckets_as_filters: "in_review_bucket Blocked_tasks = is_blocked_task"
      "in_review_bucket Approval_needed = (\<lambda>t. pending_count t > 0 \<and> \<not> is_blocked_task t)"
      "in_review_bucket Waiting_lead = (\<lambda>t. \<not> is_blocked_task t \<and> pending_count t = 0)" by auto
  note counts = fold_count_review [of "\<lparr>rc_all = length ?col, rc_approval_needed = 0, rc_waiting_lead = 0,
      rc_blocked = 0\<rparr>" ?col]
  show ?thesis
    using counts length_three_way [where P = is_blocked_task and Q = "\<lambda>t. pending_count t > 0" and ts = ?col]
    by (simp add: bucket_of_grouped [of st] review_counts_of_def filtered_tasks_def Let_def buckets_as_filters
        zero [OF nn])
qed

lemma columns_partition_witness:
  "map tr_id (bucket_of Review (grouped [sample_card, sample_card\<lparr>tr_status := Some Done\<rparr>])) = [''t1''] \<and>
   rc_all (review_counts_of (bucket_of Review (grouped [sample_card]))) =
     rc_blocked (review_counts_of (bucket_of Review (grouped [sample_card]))) +
     rc_approval_needed (review_counts_of (bucket_of Review (grouped [sample_card]))) +
     rc_waiting_lead (review_counts_of (bucket_of Review (grouped [sample_card])))"
proof -
  have p: "\<forall>t \<in> set [sample_card, sample_card\<lparr>tr_status := Some Done\<rparr>]. 0 \<le> pending_count t"
      "\<forall>t \<in> set [sample_card]. 0 \<le> pending_count t"
    by (simp_all add: pending_count_def js_simps)
  have "bucket_of Review (grouped [sample_card, sample_card\<lparr>tr_status := Some Done\<rparr>]) = [sample_card]"
    using columns_partition [OF p(1), of Review] by (simp add: js_simps)
  then show ?thesis
    using columns_partition [OF p(2), of Review] unfolding Let_def by (metis list.map sample_card_fields(1))
qed

text \<open>C15: dragging a card to a column: when the drag starts (the user may write and the card is
  not blocked), whatever columns it passes, dropping it on the column of another status asks the
  board page to move exactly that task there, and the page starts the move; dropping it on its
  own column asks for nothing. The id and the status travel through the browser as JSON text.\<close>

lemma drag_and_drop_moves:
  assumes "handle_drag_start read_only t d = Some d1" and "tr_status t = Some s" and "tr_id t \<noteq> []"
    and "transfer d2 = transfer d1"
    and "List.find (\<lambda>u. tr_id u = tr_id t) (lv_tasks_ref p) = Some t" and "can_call p"
  shows "snd (handle_drop False st (handle_drag_leave False b (handle_drag_over False a d2))) =
      (if s = st then None else Some (tr_id t, st)) \<and>
    (snd (begin_task_move (tr_id t) st p) \<noteq> None \<longleftrightarrow> s \<noteq> st) \<and>
    active_column (fst (handle_drop False st d2)) = None"
proof -
  have d1: "stringify (drag_payload t) = transfer d1" "\<not> is_blocked_task t"
    using assms(1) by (auto simp: handle_drag_start_def split: if_splits)
  have tr: "transfer (handle_drag_leave False b (handle_drag_over False a d2)) = transfer d1"
    using assms(4) by (simp add: handle_drag_leave_def handle_drag_over_def)
  have "snd (handle_drop False st (handle_drag_leave False b (handle_drag_over False a d2))) =
      (if s = st then None else Some (tr_id t, st))"
    using d1 tr assms(2,3) by (subst drop_reads_payload [of t _ s]) simp_all
  moreover have "snd (begin_task_move (tr_id t) st p) \<noteq> None \<longleftrightarrow> s \<noteq> st"
    using assms(2,5,6) d1(2) by (auto simp: begin_task_move_def is_blocked_task_def)
  moreover have "active_column (fst (handle_drop False st d2)) = None"
    using d1(1) assms(2-4) by (subst drop_reads_payload [of t _ s]) simp_all
  ultimately show ?thesis by blast
qed

lemma drag_and_drop_witness:
  "snd (handle_drop False Done (handle_drag_leave False Inbox (handle_drag_over False Inbox
     (idle_drag\<lparr>dragging_id := Some ''t1'', transfer := stringify (drag_payload sample_card)\<rparr>)))) =
     Some (''t1'', Done)"
proof -
  have "handle_drag_start False sample_card idle_drag =
      Some (idle_drag\<lparr>dragging_id := Some ''t1'', transfer := stringify (drag_payload sample_card)\<rparr>)"
    by (simp add: handle_drag_start_def is_blocked_task_def)
  from drag_and_drop_moves [OF this, of Review _ sample_page Done Inbox Inbox] show ?thesis
    by (simp add: sample_card_def [symmetric])
qed



end
