(* ===== verification/BoardView.thy ===== *)
theory BoardView
  imports BoardTasks
begin

text \<open>
  What the board page derives from its state for display: the options of its pickers, the
  order of the agents, the approvals of a task and their rows, dependencies, avatars, role
  labels and badges. Emoji glyphs are the parameter \<open>glyphs\<close> (the table of
  \<^verbatim>\<open>lib/agent-emoji.ts\<close> from short codes to characters outside the modelled range).
\<close>

section \<open>Options\<close>

record option_item =
  oi_value :: string
  oi_label :: string
  oi_disabled :: bool

definition status_words :: "task_status \<Rightarrow> string" where
  "status_words st = replace_chars (\<lambda>c. c = CHR ''_'') (CHR '' '') (status_string st)"

definition to_upper_text :: "string \<Rightarrow> string" where
  "to_upper_text s = map upper_char s"

definition tag_options :: "string list \<Rightarrow> tag_read list \<Rightarrow> option_item list" where
  "tag_options selected tags =
     map (\<lambda>t. \<lparr>oi_value = tag_id t,
        oi_label = tag_name t @ '' (#'' @ to_upper_text (normalize_tag_color (tag_color t)) @ '')'',
        oi_disabled = tag_id t \<in> set selected\<rparr>) tags"

definition create_tag_options :: "tag_read list \<Rightarrow> page \<Rightarrow> option_item list" where
  "create_tag_options tags p = tag_options (cf_tag_ids (pg_create p)) tags"

definition edit_tag_options :: "tag_read list \<Rightarrow> page \<Rightarrow> option_item list" where
  "edit_tag_options tags p = tag_options (ef_tag_ids (pg_edit p)) tags"

definition dependency_options :: "page \<Rightarrow> option_item list" where
  "dependency_options p =
     (case lv_selected p of
        None \<Rightarrow> []
      | Some sel \<Rightarrow>
          map (\<lambda>t. \<lparr>oi_value = tr_id t,
             oi_label = tr_title t @ '' ('' @ status_words (coalesce_opt (tr_status t) Inbox) @ '')'',
             oi_disabled = tr_id t \<in> set (ef_depends_on (pg_edit p))\<rparr>)
            (filter (\<lambda>t. tr_id t \<noteq> tr_id sel) (lv_tasks p)))"

definition assignable_agents :: "agent_read list \<Rightarrow> agent_read list" where
  "assignable_agents agents = filter (\<lambda>a. agent_is_board_lead a \<noteq> Some True) agents"

definition mention_suggestions :: "agent_read list \<Rightarrow> string list" where
  "mention_suggestions agents =
     dedup (''lead'' # filter (\<lambda>n. n \<noteq> []) (map agent_name agents))"

section \<open>Agents\<close>

definition working_agent_ids :: "task_card_read list \<Rightarrow> string list" where
  "working_agent_ids tasks =
     dedup (concat (map (\<lambda>t. case tr_assigned_agent_id t of
        Val a \<Rightarrow> if tr_status t = Some In_progress \<and> a \<noteq> [] then [a] else []
      | _ \<Rightarrow> []) tasks))"

definition agent_rank :: "string list \<Rightarrow> agent_read \<Rightarrow> int" where
  "agent_rank working a =
     (if agent_id a \<in> set working then 0
      else if agent_status a = Some ''online'' then 1
      else if agent_status a = Some ''provisioning'' then 2
      else 3)"

definition agent_cmp :: "(string \<Rightarrow> string \<Rightarrow> int) \<Rightarrow> string list \<Rightarrow> agent_read \<Rightarrow> agent_read \<Rightarrow> int" where
  "agent_cmp lc working a b =
     (let diff = agent_rank working a - agent_rank working b
      in if diff \<noteq> 0 then diff else lc (agent_name a) (agent_name b))"

definition sorted_agents ::
  "(string \<Rightarrow> string \<Rightarrow> int) \<Rightarrow> task_card_read list \<Rightarrow> agent_read list \<Rightarrow> agent_read list" where
  "sorted_agents lc tasks agents = js_sort (agent_cmp lc (working_agent_ids tasks)) agents"

definition board_lead :: "agent_read list \<Rightarrow> agent_read option" where
  "board_lead agents = List.find (\<lambda>a. agent_is_board_lead a = Some True) agents"

definition is_board_lead_provisioning :: "agent_read list \<Rightarrow> bool" where
  "is_board_lead_provisioning agents =
     (case board_lead agents of None \<Rightarrow> False | Some a \<Rightarrow> agent_status a = Some ''provisioning'')"

definition agent_initials :: "agent_read \<Rightarrow> string" where
  "agent_initials a =
     to_upper_text (map hd (take 2 (filter (\<lambda>w. w \<noteq> []) (split_on (CHR '' '') (agent_name a)))))"

definition resolve_emoji :: "(string \<times> string) list \<Rightarrow> string option \<Rightarrow> string option" where
  "resolve_emoji glyphs value =
     (case value of
        None \<Rightarrow> None
      | Some v \<Rightarrow>
          (let trimmed = trim v
           in if trimmed = [] then None
              else (case map_of glyphs trimmed of
                 Some g \<Rightarrow> Some g
               | None \<Rightarrow> if starts_with trimmed '':'' \<and> ends_with trimmed '':'' then None
                         else Some trimmed)))"

text \<open>A string property of the identity profile.\<close>

definition profile_string :: "agent_read \<Rightarrow> string \<Rightarrow> string option" where
  "profile_string a key =
     (case agent_identity_profile a of
        Some (JObj kvs) \<Rightarrow> (case map_of kvs key of Some (JStr s) \<Rightarrow> Some s | _ \<Rightarrow> None)
      | _ \<Rightarrow> None)"

definition agent_avatar_label :: "(string \<times> string) list \<Rightarrow> agent_read \<Rightarrow> string" where
  "agent_avatar_label glyphs a =
     (if agent_is_board_lead a = Some True then gear_emoji
      else coalesce_opt (resolve_emoji glyphs (profile_string a ''emoji'')) (agent_initials a))"

definition agent_role_label :: "agent_read \<Rightarrow> string" where
  "agent_role_label a =
     (let role = (case profile_string a ''role'' of None \<Rightarrow> [] | Some r \<Rightarrow> trim r)
      in if role \<noteq> [] then role
         else if agent_is_board_lead a = Some True then ''Board lead''
         else if agent_is_gateway_main a = Some True then ''Gateway main''
         else ''Agent'')"

section \<open>Dependencies\<close>

record dependency =
  dep_id :: string
  dep_title :: string
  dep_status :: string
  dep_blocking :: bool
  dep_done :: bool
  dep_disabled :: bool

definition selected_task_dependencies :: "page \<Rightarrow> dependency list" where
  "selected_task_dependencies p =
     (case lv_selected p of
        None \<Rightarrow> []
      | Some sel \<Rightarrow>
          map (\<lambda>i. let dep = map_of (task_by_id (lv_tasks p)) i in
             \<lparr>dep_id = i,
              dep_title = (case dep of None \<Rightarrow> i | Some t \<Rightarrow> tr_title t),
              dep_status = (case Option.bind dep tr_status of
                  None \<Rightarrow> ''unknown'' | Some st \<Rightarrow> status_words st),
              dep_blocking = i \<in> set (coalesce_opt (tr_blocked_by_task_ids sel) []),
              dep_done = (Option.bind dep tr_status = Some Done),
              dep_disabled = (dep = None)\<rparr>)
            (coalesce_opt (tr_depends_on_task_ids sel) []))"

definition selected_task_resolved_dependencies :: "page \<Rightarrow> dependency list" where
  "selected_task_resolved_dependencies p =
     (case lv_selected p of
        None \<Rightarrow> []
      | Some sel \<Rightarrow>
          map (\<lambda>t. \<lparr>dep_id = tr_id t, dep_title = tr_title t,
              dep_status = (case tr_status t of None \<Rightarrow> ''unknown'' | Some st \<Rightarrow> status_words st),
              dep_blocking = False, dep_done = (tr_status t = Some Done), dep_disabled = False\<rparr>)
            (filter (\<lambda>t. tr_id sel \<in> set (coalesce_opt (tr_depends_on_task_ids t) [])) (lv_tasks p)))"

section \<open>Approvals\<close>

definition pending_approvals :: "approval_read list \<Rightarrow> approval_read list" where
  "pending_approvals approvals = filter (\<lambda>a. approval_status a = Some ''pending'') approvals"

definition approval_payload_value :: "jsvalue \<Rightarrow> string \<Rightarrow> string option" where
  "approval_payload_value payload key =
     (case payload of
        JObj kvs \<Rightarrow>
          (case map_of kvs key of
             Some (JStr s) \<Rightarrow> Some s
           | Some (JNum q) \<Rightarrow> Some (num_to_string q)
           | _ \<Rightarrow> None)
      | _ \<Rightarrow> None)"

fun string_items :: "jsvalue list \<Rightarrow> string list" where
  "string_items [] = []"
| "string_items (JStr s # vs) = s # string_items vs"
| "string_items (v # vs) = string_items vs"

definition approval_payload_values :: "jsvalue \<Rightarrow> string \<Rightarrow> string list" where
  "approval_payload_values payload key =
     (case payload of
        JObj kvs \<Rightarrow> (case map_of kvs key of Some (JArr vs) \<Rightarrow> string_items vs | _ \<Rightarrow> [])
      | _ \<Rightarrow> [])"

text \<open>The operator \<^verbatim>\<open>??\<close> on two nullable values.\<close>

definition or_else :: "'a option \<Rightarrow> 'a option \<Rightarrow> 'a option" where
  [js_simps]: "or_else a b = (case a of None \<Rightarrow> b | Some v \<Rightarrow> Some v)"

definition payload_of :: "approval_read \<Rightarrow> jsvalue" where
  "payload_of a = coalesce_opt (approval_payload a) (JObj [])"

definition approval_task_ids_of :: "approval_read \<Rightarrow> string list" where
  "approval_task_ids_of a =
     (let payload = payload_of a;
          single = or_else (or_null (approval_task_id a))
                    (or_else (approval_payload_value payload ''task_id'')
                      (or_else (approval_payload_value payload ''taskId'')
                               (approval_payload_value payload ''taskID'')));
          many = approval_payload_values payload ''task_ids'' @
                 approval_payload_values payload ''taskIds'' @
                 approval_payload_values payload ''taskIDs'';
          merged = coalesce_opt (approval_task_ids a) [] @ many @
                   (case single of Some s \<Rightarrow> if s \<noteq> [] then [s] else [] | None \<Rightarrow> [])
      in dedup merged)"

definition task_approvals :: "page \<Rightarrow> approval_read list" where
  "task_approvals p =
     (case lv_selected p of
        None \<Rightarrow> []
      | Some t \<Rightarrow> filter (\<lambda>a. tr_id t \<in> set (approval_task_ids_of a)) (lv_approvals p))"

text \<open>\<^verbatim>\<open>part.replace(/\b\w/g, upper case)\<close>: the first word character of each run of them.\<close>

definition is_word :: "char \<Rightarrow> bool" where
  "is_word c \<longleftrightarrow> is_alnum c \<or> c = CHR ''_''"

fun capitalize_words :: "bool \<Rightarrow> string \<Rightarrow> string" where
  "capitalize_words inside [] = []"
| "capitalize_words inside (c # cs) =
     (if is_word c \<and> \<not> inside then upper_char c else c) # capitalize_words (is_word c) cs"

definition humanize_approval_action :: "string \<Rightarrow> string" where
  "humanize_approval_action value =
     join_with ('' '' @ middle_dot @ '' '')
       (map (\<lambda>part. capitalize_words False (replace_chars (\<lambda>c. c = CHR ''_'') (CHR '' '') part))
          (split_on (CHR ''.'') value))"

definition approval_rows :: "approval_read \<Rightarrow> (string \<times> string) list" where
  "approval_rows a =
     (let payload = payload_of a;
          task_ids = approval_task_ids_of a;
          assigned = or_else (approval_payload_value payload ''assigned_agent_id'')
                             (approval_payload_value payload ''assignedAgentId'');
          shown_if = (\<lambda>label v. case v of Some s \<Rightarrow> if s \<noteq> [] then [(label, s)] else [] | None \<Rightarrow> [])
      in (if length task_ids = 1 then [(''Task'', hd task_ids)] else []) @
         (if length task_ids > 1 then [(''Tasks'', join_with '', '' task_ids)] else []) @
         (if includes_str (approval_action_type a) ''assign''
          then [(''Assignee'', coalesce_opt assigned ''Unassigned'')] else []) @
         shown_if ''Title'' (approval_payload_value payload ''title'') @
         shown_if ''Role'' (approval_payload_value payload ''role''))"

definition approval_reason :: "approval_read \<Rightarrow> string option" where
  "approval_reason a = approval_payload_value (payload_of a) ''reason''"

section \<open>Badges and time stamps\<close>

definition format_task_timestamp :: "(int \<Rightarrow> string) \<Rightarrow> string option \<Rightarrow> string" where
  "format_task_timestamp fmt value =
     (case value of
        None \<Rightarrow> em_dash
      | Some v \<Rightarrow> if v = [] then em_dash
                  else (case parse_api_datetime (Some v) of None \<Rightarrow> em_dash | Some d \<Rightarrow> fmt d))"

definition format_approval_timestamp :: "(int \<Rightarrow> string) \<Rightarrow> string option \<Rightarrow> string" where
  "format_approval_timestamp fmt value =
     (case value of
        None \<Rightarrow> em_dash
      | Some v \<Rightarrow> if v = [] then em_dash
                  else (case parse_api_datetime (Some v) of None \<Rightarrow> v | Some d \<Rightarrow> fmt d))"

definition status_badge_class :: "task_status option \<Rightarrow> string" where
  "status_badge_class st =
     (if st = Some In_progress then ''bg-purple-100 text-purple-700''
      else if st = Some Review then ''bg-indigo-100 text-indigo-700''
      else if st = Some Done then ''bg-emerald-100 text-emerald-700''
      else ''bg-slate-100 text-slate-600'')"

definition priority_badge_class :: "string option \<Rightarrow> string" where
  "priority_badge_class value =
     (let v = (case value of None \<Rightarrow> [] | Some s \<Rightarrow> to_lower s)
      in if v = ''high'' then ''bg-rose-100 text-rose-700''
         else if v = ''medium'' then ''bg-amber-100 text-amber-700''
         else if v = ''low'' then ''bg-emerald-100 text-emerald-700''
         else ''bg-slate-100 text-slate-600'')"

section \<open>Facts\<close>

lemma agent_cmp_comparator: "comparator lc \<Longrightarrow> comparator (agent_cmp lc working)"
proof
  assume lc: "comparator lc"
  fix a b c
  show "0 < agent_cmp lc working a b \<Longrightarrow> agent_cmp lc working b a \<le> 0"
    using comparator.total [OF lc] by (auto simp: agent_cmp_def Let_def)
  show "agent_cmp lc working a b \<le> 0 \<Longrightarrow> agent_cmp lc working b c \<le> 0 \<Longrightarrow> agent_cmp lc working a c \<le> 0"
    using comparator.trans [OF lc] by (auto simp: agent_cmp_def Let_def split: if_splits)
qed

section \<open>Properties\<close>

text \<open>The list of agents shows every agent once, agents at work first, then those online,
  then those being provisioned, then the rest, each group by name.\<close>

lemma sorted_agents_correct:
  assumes "comparator lc"
  shows "set (sorted_agents lc tasks agents) = set agents \<and>
         length (sorted_agents lc tasks agents) = length agents \<and>
         sorted_wrt (\<lambda>a b. agent_rank (working_agent_ids tasks) a < agent_rank (working_agent_ids tasks) b \<or>
             agent_rank (working_agent_ids tasks) a = agent_rank (working_agent_ids tasks) b \<and>
             lc (agent_name a) (agent_name b) \<le> 0) (sorted_agents lc tasks agents)"
proof -
  have "sorted_wrt (\<lambda>a b. agent_cmp lc (working_agent_ids tasks) a b \<le> 0) (sorted_agents lc tasks agents)"
    unfolding sorted_agents_def by (rule comparator.sorted_sort [OF agent_cmp_comparator [OF assms]])
  then have "sorted_wrt (\<lambda>a b. agent_rank (working_agent_ids tasks) a < agent_rank (working_agent_ids tasks) b \<or>
      agent_rank (working_agent_ids tasks) a = agent_rank (working_agent_ids tasks) b \<and>
      lc (agent_name a) (agent_name b) \<le> 0) (sorted_agents lc tasks agents)"
    by (rule sorted_wrt_mono_rel [rotated]) (auto simp: agent_cmp_def Let_def split: if_splits)
  then show ?thesis by (simp add: sorted_agents_def)
qed

definition sample_agent :: "string \<Rightarrow> string \<Rightarrow> agent_read" where
  "sample_agent i status = \<lparr>agent_id = i, agent_name = i, agent_status = Some status,
     agent_board_id = Val ''b1'', agent_created_at = ''2026-01-01'', agent_updated_at = None,
     agent_last_seen_at = Missing, agent_is_board_lead = None, agent_is_gateway_main = None,
     agent_identity_profile = None\<rparr>"

lemma sorted_agents_witness:
  "map agent_id (sorted_agents str_cmp [] [sample_agent ''z'' ''offline'', sample_agent ''b'' ''online'',
     sample_agent ''a'' ''online'']) = [''a'', ''b'', ''z''] \<and>
   set (sorted_agents str_cmp [] [sample_agent ''z'' ''offline'', sample_agent ''a'' ''online'']) =
     set [sample_agent ''z'' ''offline'', sample_agent ''a'' ''online'']"
proof
  show "map agent_id (sorted_agents str_cmp [] [sample_agent ''z'' ''offline'', sample_agent ''b'' ''online'',
     sample_agent ''a'' ''online'']) = [''a'', ''b'', ''z'']" by code_simp
  show "set (sorted_agents str_cmp [] [sample_agent ''z'' ''offline'', sample_agent ''a'' ''online'']) =
     set [sample_agent ''z'' ''offline'', sample_agent ''a'' ''online'']"
    using sorted_agents_correct [OF str_cmp.comparator_axioms] by blast
qed

text \<open>The task ids of an approval have no duplicates and include the ids it is linked to
  and its single id; and the detail panel shows exactly the approvals that name its task.\<close>

lemma task_approvals_correct:
  "distinct (approval_task_ids_of a) \<and>
   (approval_task_id a = Val i \<and> i \<noteq> [] \<longrightarrow> i \<in> set (approval_task_ids_of a)) \<and>
   set (coalesce_opt (approval_task_ids a) []) \<subseteq> set (approval_task_ids_of a) \<and>
   (lv_selected p = Some t \<longrightarrow>
      set (task_approvals p) = {x \<in> set (lv_approvals p). tr_id t \<in> set (approval_task_ids_of x)})"
  by (auto simp: approval_task_ids_of_def task_approvals_def Let_def or_else_def)

definition sample_approval :: approval_read where
  "sample_approval = \<lparr>approval_id = ''p1'', approval_action_type = ''task.assign'',
     approval_status = Some ''pending'', approval_confidence = 80,
     approval_created_at = ''2026-01-01'', approval_resolved_at = Missing,
     approval_agent_id = Missing, approval_task_id = Val ''t1'', approval_task_ids = Some [''t2''],
     approval_task_titles = None, approval_payload = Some (JObj [(''taskIds'', JArr [JStr ''t1'', JNull])])\<rparr>"

lemma task_approvals_witness:
  "''t1'' \<in> set (approval_task_ids_of sample_approval) \<and>
   (\<forall>p t. set (task_approvals (p\<lparr>lv_selected := Some t, lv_approvals := [sample_approval]\<rparr>)) =
     {x \<in> {sample_approval}. tr_id t \<in> set (approval_task_ids_of x)})"
proof (intro conjI allI)
  fix p :: page and t
  note c = task_approvals_correct [of sample_approval "''t1''"
      "p\<lparr>lv_selected := Some t, lv_approvals := [sample_approval]\<rparr>" t]
  show "''t1'' \<in> set (approval_task_ids_of sample_approval)"
    using c by (simp add: sample_approval_def)
  show "set (task_approvals (p\<lparr>lv_selected := Some t, lv_approvals := [sample_approval]\<rparr>)) =
     {x \<in> {sample_approval}. tr_id t \<in> set (approval_task_ids_of x)}"
    using c by simp
qed

end
