(* ===== verification/BoardStore.thy ===== *)
theory BoardStore
  imports BoardStreams
begin

text \<open>
  The contract of the live data of the board page: a store with one map per kind of item,
  from ids to items. An event of a stream updates one entry of one map. The handlers of
  \<open>BoardStreams\<close>, which search and rebuild lists, refine the operations of the store, and so
  does a whole connection of each stream, through the stream loop. Order and the live feed are
  abstracted away.
\<close>

section \<open>The store\<close>

record board_store =
  st_tasks :: "string \<Rightarrow> task_card_read option"
  st_agents :: "string \<Rightarrow> agent_read option"
  st_approvals :: "string \<Rightarrow> approval_read option"
  st_chat :: "string \<Rightarrow> memory option"
  st_comments :: "string \<Rightarrow> comment option"
  st_selected :: "task_card_read option"
  st_selected_ref :: "string option"
  st_agents_ref :: "string \<Rightarrow> agent_read option"

definition by_id :: "('a \<Rightarrow> 'k) \<Rightarrow> 'a list \<Rightarrow> 'k \<Rightarrow> 'a option" where
  "by_id key xs = (\<lambda>k. List.find (\<lambda>x. key x = k) xs)"

definition store_of :: "'a live_scheme \<Rightarrow> board_store" where
  "store_of s =
     \<lparr>st_tasks = by_id tr_id (lv_tasks s), st_agents = by_id agent_id (lv_agents s),
      st_approvals = by_id approval_id (lv_approvals s), st_chat = by_id memory_id (lv_chat s),
      st_comments = by_id comment_id (lv_comments s), st_selected = lv_selected s,
      st_selected_ref = lv_selected_ref s, st_agents_ref = by_id agent_id (lv_agents_ref s)\<rparr>"

definition put_entry :: "('k \<Rightarrow> 'a option) \<Rightarrow> 'k \<Rightarrow> ('a \<Rightarrow> 'a) \<Rightarrow> 'a \<Rightarrow> 'k \<Rightarrow> 'a option" where
  "put_entry m k old new = m(k := Some (case m k of None \<Rightarrow> new | Some a \<Rightarrow> old a))"

section \<open>The operations of the store\<close>

definition store_chat ::
  "(string \<Rightarrow> memory option option) \<Rightarrow> string \<Rightarrow> string \<Rightarrow> board_store \<Rightarrow> board_store" where
  "store_chat parse ev data st =
     (if ev = ''memory'' \<and> data \<noteq> [] then
        (case parse data of
           Some (Some m) \<Rightarrow>
             (if is_chat m then st\<lparr>st_chat := put_entry (st_chat st) (memory_id m) (\<lambda>old. old) m\<rparr> else st)
         | _ \<Rightarrow> st)
      else st)"

definition store_approval ::
  "(string \<Rightarrow> approval_payload_event option) \<Rightarrow> string \<Rightarrow> string \<Rightarrow> board_store \<Rightarrow> board_store" where
  "store_approval parse ev data st =
     (if ev = ''approval'' \<and> data \<noteq> [] then
        (case parse data of
           None \<Rightarrow> st
         | Some payload \<Rightarrow>
             st\<lparr>st_approvals :=
                  (case ape_approval payload of
                     None \<Rightarrow> st_approvals st
                   | Some a \<Rightarrow> put_entry (st_approvals st) (approval_id a)
                       (\<lambda>old. spread_approval old (normalize_approval a)) (normalize_approval a)),
                st_tasks := map_option (apply_counts (ape_counts payload)) \<circ> st_tasks st\<rparr>)
      else st)"

definition store_assignee :: "board_store \<Rightarrow> task_read \<Rightarrow> string option" where
  "store_assignee st t =
     (case tr_assigned_agent_id t of
        Val a \<Rightarrow> if a = [] then None else map_option agent_name (st_agents_ref st a)
      | _ \<Rightarrow> None)"

definition put_task_entry :: "task_read \<Rightarrow> board_store \<Rightarrow> board_store" where
  "put_task_entry t st =
     st\<lparr>st_tasks := put_entry (st_tasks st) (tr_id t)
          (\<lambda>old. spread_card old (normalize_task ((spread_task old t)
             \<lparr>tr_assignee := of_nullable (store_assignee st t),
              tr_approvals_count := tr_approvals_count old,
              tr_approvals_pending_count := tr_approvals_pending_count old\<rparr>)))
          (normalize_task (as_card t (store_assignee st t) 0 0)),
        st_selected := (if st_selected_ref st = Some (tr_id t) then update_selected t (st_selected st)
                        else st_selected st)\<rparr>"

definition put_comment_entry :: "comment \<Rightarrow> board_store \<Rightarrow> board_store" where
  "put_comment_entry c st =
     (if st_selected_ref st \<noteq> comment_task_id c then st
      else st\<lparr>st_comments := put_entry (st_comments st) (comment_id c) (\<lambda>old. newer_comment old c) c\<rparr>)"

definition store_task ::
  "(string \<Rightarrow> task_event option) \<Rightarrow> string \<Rightarrow> string \<Rightarrow> board_store \<Rightarrow> board_store" where
  "store_task parse ev data st =
     (if ev = ''task'' \<and> data \<noteq> [] then
        (case parse data of
           None \<Rightarrow> st
         | Some payload \<Rightarrow>
             (let cmt = (case te_comment payload of
                      None \<Rightarrow> None
                    | Some c \<Rightarrow> if comment_task_id c \<notin> {None, Some []} then Some c else None)
              in if cmt \<noteq> None \<and> te_type payload = Some ''task.comment'' then put_comment_entry (the cmt) st
                 else (case te_task payload of None \<Rightarrow> st | Some t \<Rightarrow> put_task_entry t st)))
      else st)"

definition store_agent ::
  "(string \<Rightarrow> agent_read option option) \<Rightarrow> string \<Rightarrow> string \<Rightarrow> board_store \<Rightarrow> board_store" where
  "store_agent parse ev data st =
     (if ev = ''agent'' \<and> data \<noteq> [] then
        (case parse data of
           Some (Some a) \<Rightarrow>
             st\<lparr>st_agents := put_entry (st_agents st) (agent_id a)
                  (\<lambda>old. spread_agent old (normalize_agent a)) (normalize_agent a)\<rparr>
         | _ \<Rightarrow> st)
      else st)"

section \<open>Refinement through the stream loop\<close>

text \<open>A handler refines an operation on an abstract state, where the invariant holds.\<close>

locale stream_refinement = sse_client handle inv
  for handle :: "string \<Rightarrow> string \<Rightarrow> 's \<Rightarrow> 's" and inv :: "'s \<Rightarrow> bool" +
  fixes spec :: "string \<Rightarrow> string \<Rightarrow> 'a \<Rightarrow> 'a" and abs :: "'s \<Rightarrow> 'a"
  assumes handle_abs: "inv s \<Longrightarrow> abs (handle ev data s) = spec ev data (abs s)"
begin

lemma handle_blocks_abs: "inv s \<Longrightarrow> abs (handle_blocks handle raws s) = handle_blocks spec raws (abs s)"
  by (induction raws arbitrary: s) (auto simp: handle_blocks_def handle_inv handle_abs split: prod.splits)

lemma read_loop_abs:
  "inv s \<Longrightarrow> read_loop handle rs buffer s b = (t, b', c) \<Longrightarrow>
     read_loop spec rs buffer (abs s) b = (abs t, b', c)"
proof (induction rs arbitrary: buffer s b)
  case (Cons r rs)
  show ?case
  proof (cases r)
    case (Chunk n piece)
    obtain raws buffer' where f: "feed_chunk buffer piece = (raws, buffer')"
      by (cases "feed_chunk buffer piece") auto
    show ?thesis
      using Cons.IH [OF handle_blocks_inv [OF Cons.prems(1)]] Cons.prems(2)
      by (simp add: Chunk f handle_blocks_abs [OF Cons.prems(1), symmetric])
  qed (use Cons.prems in auto)
qed simp

lemma connect_abs:
  assumes "inv s" and "connect handle random conn s b = (t, b', d)"
  shows "connect spec random conn (abs s) b = (abs t, b', d)"
proof (cases conn)
  case (Streaming reads)
  obtain s1 b1 c where r: "read_loop handle reads [] s b = (s1, b1, c)" by (metis prod_cases3)
  show ?thesis
    using assms(2) r read_loop_abs [OF assms(1) r]
    by (auto simp: connect_def Streaming split: if_splits prod.splits)
qed (use assms(2) in \<open>auto simp: connect_def split: prod.splits\<close>)

end

section \<open>The lists refine the maps\<close>

lemma find_unique:
  assumes "distinct (map key xs)"
  shows "List.find (\<lambda>x. key x = k) xs = Some x \<longleftrightarrow> x \<in> set xs \<and> key x = k"
  using assms by (induction xs) (auto simp: image_iff)

lemma by_id_cong:
  assumes "distinct (map key xs)" and "distinct (map key ys)" and "set xs = set ys"
  shows "by_id key xs = by_id key ys"
proof
  fix k
  have "by_id key xs k = Some x \<longleftrightarrow> by_id key ys k = Some x" for x
    using find_unique [OF assms(1), of k x] find_unique [OF assms(2), of k x] assms(3)
    by (simp add: by_id_def)
  then show "by_id key xs k = by_id key ys k" by (metis not_None_eq)
qed

lemma by_id_None: "by_id key xs k = None \<longleftrightarrow> k \<notin> key ` set xs"
  by (induction xs) (auto simp: by_id_def)

lemma by_id_map_of: "map_of (map (\<lambda>x. (key x, x)) xs) k = by_id key xs k"
  by (induction xs) (auto simp: by_id_def)

lemma by_id_put_approval:
  "by_id approval_id (put_approval a xs) =
     put_entry (by_id approval_id xs) (approval_id a) (\<lambda>old. spread_approval old a) a"
proof
  fix k show "by_id approval_id (put_approval a xs) k =
      put_entry (by_id approval_id xs) (approval_id a) (\<lambda>old. spread_approval old a) a k"
    using approvals.find_put_other [of k a xs] approvals.find_put_same [of a xs]
    by (cases "k = approval_id a") (simp_all add: by_id_def put_entry_def put_approval_def)
qed

lemma by_id_put_agent:
  "by_id agent_id (put_agent a xs) =
     put_entry (by_id agent_id xs) (agent_id a) (\<lambda>old. spread_agent old a) a"
proof
  fix k show "by_id agent_id (put_agent a xs) k =
      put_entry (by_id agent_id xs) (agent_id a) (\<lambda>old. spread_agent old a) a k"
    using agents.find_put_other [of k a xs] agents.find_put_same [of a xs]
    by (cases "k = agent_id a") (simp_all add: by_id_def put_entry_def put_agent_def)
qed

lemma by_id_put_task:
  "by_id tr_id (put_task ags t xs) =
     put_entry (by_id tr_id xs) (tr_id t) (\<lambda>old. update_card ags old t) (create_card ags t)"
proof
  fix k show "by_id tr_id (put_task ags t xs) k =
      put_entry (by_id tr_id xs) (tr_id t) (\<lambda>old. update_card ags old t) (create_card ags t) k"
    using cards.find_put_other [of k t ags xs] cards.find_put_same [of t ags xs]
    by (cases "k = tr_id t") (simp_all add: by_id_def put_entry_def put_task_def)
qed

lemma by_id_map: "(\<And>x. key (f x) = key x) \<Longrightarrow> by_id key (map f xs) = map_option f \<circ> by_id key xs"
  by (induction xs) (auto simp: by_id_def fun_eq_iff)

lemma by_id_member: "by_id key xs k = Some x \<Longrightarrow> x \<in> set xs \<and> key x = k"
  by (auto simp: by_id_def find_Some_iff)

lemma by_id_add_chat:
  assumes "distinct (map memory_id ms)"
  shows "by_id memory_id (add_chat_message m ms) =
    put_entry (by_id memory_id ms) (memory_id m) (\<lambda>old. old) m"
proof (cases "memory_id m \<in> memory_id ` set ms")
  case True
  then have "add_chat_message m ms = ms" by (auto simp: add_chat_message_def list_ex_iff)
  moreover have "by_id memory_id ms (memory_id m) \<noteq> None"
    using True by (simp add: by_id_None)
  ultimately show ?thesis by (auto simp: put_entry_def)
next
  case False
  then have "\<not> list_ex (\<lambda>x. memory_id x = memory_id m) ms" by (auto simp: list_ex_iff image_iff)
  then have a: "add_chat_message m ms = js_sort (by_key memory_time) (ms @ [m])"
    by (simp add: add_chat_message_def)
  have "by_id memory_id (js_sort (by_key memory_time) (ms @ [m])) = by_id memory_id (m # ms)"
    using assms False distinct_add_chat [OF assms, of m] by (intro by_id_cong) (simp_all add: a)
  moreover have "by_id memory_id ms (memory_id m) = None"
    using False by (simp add: by_id_None)
  ultimately show ?thesis by (auto simp: a put_entry_def by_id_def)
qed

lemma by_id_merge_comments:
  assumes "distinct (map comment_id cs)"
  shows "by_id comment_id (merge_comments_by_id [cs, [c]]) =
    put_entry (by_id comment_id cs) (comment_id c) (\<lambda>old. newer_comment old c) c"
proof
  fix k
  let ?al = "map (\<lambda>c. (comment_id c, c)) cs"
  let ?m = "collect_comment ?al c"
  have col: "foldl collect_comment [] (cs @ [c]) = ?m"
    using collect_distinct [of cs "[]"] assms by simp
  have n: "newest_by_id (cs @ [c]) ?m" using collect_all [of "cs @ [c]"] by (simp only: col)
  then have dist: "distinct (map fst ?m)" by (simp add: newest_by_id_def)
  have keys: "map comment_id (map snd ?m) = map fst ?m" by (rule newest_by_id_ids [OF n])
  have "map (\<lambda>c. (comment_id c, c)) (map snd ?m) = ?m"
    using n by (intro nth_equalityI) (auto simp: newest_by_id_def prod_eq_iff dest!: nth_mem)
  then have "map_of ?m k = by_id comment_id (map snd ?m) k" using by_id_map_of [of comment_id "map snd ?m" k] by (simp only:)
  moreover have "by_id comment_id (merge_comments_by_id [cs, [c]]) = by_id comment_id (map snd ?m)"
    using merge_comments_distinct [of "[cs, [c]]"] keys dist
    by (intro by_id_cong) (simp_all add: merge_comments_by_id_def col [simplified])
  moreover have "map_of ?m k =
      put_entry (by_id comment_id cs) (comment_id c) (\<lambda>old. newer_comment old c) c k"
    by (auto simp: collect_comment_def put_entry_def update_conv by_id_map_of map_of_append map_add_def
        split: option.splits)
  ultimately show "by_id comment_id (merge_comments_by_id [cs, [c]]) k =
      put_entry (by_id comment_id cs) (comment_id c) (\<lambda>old. newer_comment old c) c k" by simp
qed

lemma store_of_fields:
  "st_tasks (store_of s) = by_id tr_id (lv_tasks s)" "st_selected (store_of s) = lv_selected s"
  "st_selected_ref (store_of s) = lv_selected_ref s"
  by (simp_all add: store_of_def)

lemma store_of_push [simp]: "store_of (push_feed i s) = store_of s"
  by (simp add: store_of_def push_feed_def)

lemma store_chat_refined:
  "live_ok s \<Longrightarrow> store_of (handle_chat parse ev data s) = store_chat parse ev data (store_of s)"
  by (auto simp: handle_chat_def store_chat_def receive_chat_def live_ok_def store_of_def push_feed_def
      by_id_add_chat split: option.splits)

lemma store_of_approval:
  "store_of (receive_approval a s) = (store_of s)\<lparr>st_approvals := put_entry (st_approvals (store_of s))
     (approval_id a) (\<lambda>old. spread_approval old (normalize_approval a)) (normalize_approval a)\<rparr>"
  using by_id_put_approval [of "normalize_approval a" "lv_approvals s"]
  by (simp add: receive_approval_def Let_def store_of_def push_feed_def normalize_approval_def)

lemma store_of_counts:
  "store_of (s\<lparr>lv_tasks := map (apply_counts rows) (lv_tasks s)\<rparr>) =
     (store_of s)\<lparr>st_tasks := map_option (apply_counts rows) \<circ> st_tasks (store_of s)\<rparr>"
  by (simp add: store_of_def by_id_map)

lemma apply_no_counts: "apply_counts [] = (\<lambda>t. t)"
  by (simp add: apply_counts_def fun_eq_iff)

lemma store_approval_refined:
  "store_of (handle_approval parse ev data s) = store_approval parse ev data (store_of s)"
proof -
  have none: "map_option (\<lambda>t. t) \<circ> f = f" for f :: "string \<Rightarrow> task_card_read option"
    by (simp add: fun_eq_iff option.map_ident)
  show ?thesis
    by (auto simp: handle_approval_def store_approval_def Let_def store_of_counts store_of_approval
        apply_no_counts none split: option.splits)
qed

lemma store_assignee_of: "store_assignee (store_of s) t = assignee_name (lv_agents_ref s) t"
  by (auto simp: store_assignee_def assignee_name_def store_of_def by_id_def split: optional.splits)

lemma store_of_task: "store_of (receive_task t s) = put_task_entry t (store_of s)"
proof -
  let ?ags = "lv_agents_ref s"
  have p: "put_task_entry t (store_of s) = (store_of s)
      \<lparr>st_tasks := put_entry (by_id tr_id (lv_tasks s)) (tr_id t) (\<lambda>old. update_card ?ags old t) (create_card ?ags t),
       st_selected := (if lv_selected_ref s = Some (tr_id t) then update_selected t (lv_selected s)
                       else lv_selected s)\<rparr>"
    unfolding put_task_entry_def store_assignee_of update_card_def create_card_def by (simp only: store_of_fields)
  show ?thesis
    unfolding p by_id_put_task [symmetric] by (simp add: receive_task_def Let_def store_of_def del: spread_opt_absorb)
qed

lemma store_of_comment:
  "live_ok s \<Longrightarrow> store_of (receive_comment c s) = put_comment_entry c (store_of s)"
  by (simp add: receive_comment_def put_comment_entry_def store_of_def live_ok_def by_id_merge_comments)

lemma store_task_refined:
  assumes "live_ok s"
  shows "store_of (handle_task parse ev data s) = store_task parse ev data (store_of s)"
proof -
  have split: "store_of (if b then u else v) = (if b then store_of u else store_of v)"
      "store_of (case o1 of None \<Rightarrow> u | Some y \<Rightarrow> w y) = (case o1 of None \<Rightarrow> store_of u | Some y \<Rightarrow> store_of (w y))"
    for b and u v :: "'a live_scheme" and o1 :: "'b option" and w by (simp_all split: option.split)
  have push: "live_ok (case i of None \<Rightarrow> s | Some item \<Rightarrow> push_feed item s)" for i
    using push_feed_ok [OF assms] assms by (simp split: option.split)
  have same: "(case i of None \<Rightarrow> u | Some y \<Rightarrow> u) = u" for i :: "feed_item option" and u :: board_store
    by (cases i) simp_all
  show ?thesis
    unfolding handle_task_def store_task_def Let_def split store_of_task store_of_comment [OF push(1)] store_of_push same
    by (rule refl)
qed

lemma store_agent_refined:
  "store_of (handle_agent parse ev data s) = store_agent parse ev data (store_of s)"
proof -
  have "store_of (receive_agent a s) = (store_of s)\<lparr>st_agents := put_entry (st_agents (store_of s))
      (agent_id a) (\<lambda>old. spread_agent old (normalize_agent a)) (normalize_agent a)\<rparr>" for a
    using by_id_put_agent [of "normalize_agent a" "lv_agents s"]
    by (simp add: receive_agent_def Let_def store_of_def push_feed_def normalize_agent_def split: option.splits)
  then show ?thesis
    by (auto simp: handle_agent_def store_agent_def split: option.splits)
qed

interpretation chat_store: stream_refinement "handle_chat parse" live_ok "store_chat parse" store_of for parse
  by unfold_locales (rule store_chat_refined)

interpretation approval_store: stream_refinement "handle_approval parse" live_ok "store_approval parse" store_of
  for parse
  by unfold_locales (rule store_approval_refined)

interpretation task_store: stream_refinement "handle_task parse" live_ok "store_task parse" store_of for parse
  by unfold_locales (rule store_task_refined)

interpretation agent_store: stream_refinement "handle_agent parse" live_ok "store_agent parse" store_of for parse
  by unfold_locales (rule store_agent_refined)

section \<open>Properties\<close>

text \<open>C2: the live data refines a store of maps from ids to items. From a state without
  duplicates, a whole connection of any of the four streams, however its text is chunked and
  however it ends, leads to the state whose store is what the same connection does to the store,
  where an event updates one entry; the backoff and the next delay are the same.\<close>

lemma live_data_refines_store:
  assumes "live_ok s"
  shows "(let (t, b', d) = connect (handle_chat chat) random conn s b
          in connect (store_chat chat) random conn (store_of s) b = (store_of t, b', d)) \<and>
         (let (t, b', d) = connect (handle_approval approval) random conn s b
          in connect (store_approval approval) random conn (store_of s) b = (store_of t, b', d)) \<and>
         (let (t, b', d) = connect (handle_task task) random conn s b
          in connect (store_task task) random conn (store_of s) b = (store_of t, b', d)) \<and>
         (let (t, b', d) = connect (handle_agent agent) random conn s b
          in connect (store_agent agent) random conn (store_of s) b = (store_of t, b', d))"
  using assms
  by (auto simp: Let_def intro: chat_store.connect_abs approval_store.connect_abs task_store.connect_abs
      agent_store.connect_abs split: prod.splits)

lemma live_data_refines_store_witness:
  "\<exists>t b' d. connect (handle_task parse_sample) 0 (Streaming (chunks [(23, task_stream_text)] @ [ReadDone]))
       empty_live (create_exponential_backoff sse_reconnect_backoff) = (t, b', d) \<and>
     map_option tr_title (st_tasks (store_of t) ''t1'') = Some ''Ship''"
proof -
  let ?b = "create_exponential_backoff sse_reconnect_backoff"
  let ?conn = "Streaming (chunks [(23, task_stream_text)] @ [ReadDone])"
  have ok: "live_ok empty_live" by (simp add: live_ok_def empty_live_def)
  obtain t b' d where c: "connect (handle_task parse_sample) 0 ?conn empty_live ?b = (t, b', d)"
    by (metis prod_cases3)
  have "connect (store_task parse_sample) 0 ?conn (store_of empty_live) ?b = (store_of t, b', d)"
    using live_data_refines_store [OF ok, where task = parse_sample and random = 0 and conn = ?conn and b = ?b] c
    by (auto simp: Let_def)
  then have t: "store_of t = fst (connect (store_task parse_sample) 0 ?conn (store_of empty_live) ?b)"
    by simp
  have blocks: "fst (feed_all [] (map snd [(23 :: nat, task_stream_text)])) =
      [''event: task'' @ newline # ''data: {}'']" by code_simp
  have block: "read_block (''event: task'' @ newline # ''data: {}'') = (''task'', ''{}'')" by code_simp
  have "store_of t = store_task parse_sample ''task'' ''{}'' (store_of empty_live)"
    unfolding t connect_chunks blocks handle_blocks_def by (simp only: foldl.simps block prod.case)
  then have "map_option tr_title (st_tasks (store_of t) ''t1'') = Some ''Ship''"
    by (simp add: store_task_def parse_sample_def put_task_entry_def put_entry_def store_of_def empty_live_def
        by_id_def sample_task_def normalize_task_def as_card_def task_read.defs task_card_read.defs)
  with c show ?thesis by blast
qed

end
