(* ===== verification/ActivityModel.thy ===== *)
theory ActivityModel
  imports BoardModel
begin

text \<open>
  The items of the activity page (\<^verbatim>\<open>app/activity/page.tsx\<close>): the links an item leads to, the
  labels, and the conversions that make an item of a task event, a comment, an approval, a
  chat message or an agent, with what the page knows of boards, tasks and agents (the maps
  it keeps in refs). The name of the signed-in user is the parameter \<open>user\<close>.
\<close>

section \<open>Data\<close>

record activity_event = activity +
  ae_board_id :: "string option"
  ae_route_name :: "string option"
  ae_route_params :: "(string \<times> jsvalue) list option"

record act_item =
  ai_id :: string
  ai_created_at :: string
  ai_event :: feed_event
  ai_message :: "string option"
  ai_source_event_id :: "string option"
  ai_agent_id :: "string option"
  ai_actor_name :: string
  ai_actor_role :: "string option"
  ai_board_id :: "string option"
  ai_board_name :: "string option"
  ai_board_href :: "string option"
  ai_task_id :: "string option"
  ai_task_title :: "string option"
  ai_title :: string
  ai_context_href :: "string option"

record task_meta =
  tm_title :: string
  tm_board_id :: "string option"

text \<open>The maps of the page: boards, task titles, agents and approvals by id.\<close>

record act_refs =
  ar_boards :: "(string \<times> board_read) list"
  ar_tasks :: "(string \<times> task_meta) list"
  ar_agents :: "(string \<times> agent_read) list"
  ar_approvals :: "(string \<times> approval_read) list"

definition no_refs :: act_refs where
  "no_refs = \<lparr>ar_boards = [], ar_tasks = [], ar_agents = [], ar_approvals = []\<rparr>"

definition truthy :: "string option \<Rightarrow> bool" where
  "truthy v \<longleftrightarrow> v \<noteq> None \<and> v \<noteq> Some []"

definition task_event_types :: "feed_event list" where
  "task_event_types = [Task_comment, Task_created, Task_updated, Task_status_changed]"

text \<open>The type guard, with the event type it narrows to.\<close>

definition is_task_event_type :: "string \<Rightarrow> feed_event option" where
  "is_task_event_type value = List.find (\<lambda>e. feed_event_string e = value) task_event_types"

section \<open>Links\<close>

definition normalize_route_params :: "(string \<times> jsvalue) list option \<Rightarrow> search_params" where
  "normalize_route_params params =
     (case params of
        None \<Rightarrow> []
      | Some kvs \<Rightarrow>
          foldl (\<lambda>acc (key, value).
            case value of
              JStr s \<Rightarrow> if length s > 0 then AList.update key s acc else acc
            | _ \<Rightarrow> acc) [] kvs)"

text \<open>\<^verbatim>\<open>encodeURIComponent\<close>.\<close>

definition uri_plain :: "char \<Rightarrow> bool" where
  "uri_plain c \<longleftrightarrow> is_alnum c \<or> c \<in> set ''-_.!~*()'' \<or> code c = 39"

definition encode_uri_component :: "string \<Rightarrow> string" where
  "encode_uri_component s =
     concat (map (\<lambda>c. if uri_plain c then [c] else concat (map percent (utf8 c))) s)"

record route_fallback =
  rf_event_id :: string
  rf_event_type :: string
  rf_created_at :: string
  rf_task_id :: "string option"

definition board_path :: "string \<Rightarrow> string" where
  "board_path i = ''/boards/'' @ encode_uri_component i"

definition activity_params :: "search_params \<Rightarrow> route_fallback \<Rightarrow> search_params" where
  "activity_params route_params fb =
     (let ps = (if length route_params > 0 then route_params
                else [(''eventId'', rf_event_id fb), (''eventType'', rf_event_type fb),
                      (''createdAt'', rf_created_at fb)])
      in if truthy (rf_task_id fb) \<and> params_get ''taskId'' ps = None
         then params_set ''taskId'' (the (rf_task_id fb)) ps else ps)"

definition board_query :: "search_params \<Rightarrow> search_params" where
  "board_query route_params =
     foldl (\<lambda>ps (key, value). if key \<noteq> ''boardId'' then params_set key value ps else ps) [] route_params"

definition build_route_href :: "string option \<Rightarrow> search_params \<Rightarrow> route_fallback \<Rightarrow> string" where
  "build_route_href route_name route_params fb =
     (let board = params_get ''boardId'' route_params
      in if route_name = Some ''board.approvals'' \<and> truthy board
         then board_path (the board) @ ''/approvals''
         else if route_name = Some ''board'' \<and> truthy board
         then (let query = params_to_string (board_query route_params)
               in if query \<noteq> [] then board_path (the board) @ ''?'' @ query else board_path (the board))
         else ''/activity?'' @ params_to_string (activity_params route_params fb))"

definition build_board_href :: "search_params \<Rightarrow> string option \<Rightarrow> string option" where
  "build_board_href route_params board =
     (let resolved = (case params_get ''boardId'' route_params of Some b \<Rightarrow> Some b | None \<Rightarrow> board)
      in if truthy resolved then Some (board_path (the resolved)) else None)"

definition feed_item_element_id :: "string \<Rightarrow> string" where
  "feed_item_element_id i =
     ''activity-item-'' @
       replace_chars (\<lambda>c. \<not> (is_alnum c \<or> c = CHR ''_'' \<or> c = CHR ''-'')) (CHR ''-'') i"

section \<open>Agents and approvals\<close>

definition act_normalize_agent :: "agent_read \<Rightarrow> agent_read" where
  "act_normalize_agent a =
     (let t = trim (coalesce_opt (agent_status a) ''offline'')
      in a\<lparr>agent_status := Some (if t = [] then ''offline'' else t)\<rparr>)"

definition normalize_status :: "string option \<Rightarrow> string" where
  "normalize_status value =
     (let status = to_lower (trim (coalesce_opt value []))
      in if status = [] then ''offline'' else status)"

definition act_humanize_approval_action :: "string \<Rightarrow> string" where
  "act_humanize_approval_action value =
     (let cleaned = trim (replace_runs (\<lambda>c. c \<in> {CHR ''.'', CHR ''_'', CHR ''-''}) (CHR '' '') value)
      in if cleaned = [] then ''Approval'' else capitalize cleaned)"

definition humanize_status :: "string \<Rightarrow> string" where
  "humanize_status value =
     (let t = trim (replace_chars (\<lambda>c. c = CHR ''_'') (CHR '' '') value)
      in if t = [] then ''offline'' else t)"

definition role_from_agent :: "agent_read option \<Rightarrow> string option" where
  "role_from_agent agent =
     (case agent of
        None \<Rightarrow> None
      | Some a \<Rightarrow>
          (case agent_identity_profile a of
             Some (JObj kvs) \<Rightarrow>
               (case map_of kvs ''role'' of
                  Some (JStr role) \<Rightarrow> (if trim role = [] then None else Some (trim role))
                | _ \<Rightarrow> None)
           | _ \<Rightarrow> None))"

section \<open>Labels\<close>

fun event_label :: "feed_event \<Rightarrow> string" where
  "event_label Task_comment = ''Comment''"
| "event_label Task_created = ''Created''"
| "event_label Task_status_changed = ''Status''"
| "event_label Board_chat = ''Chat''"
| "event_label Board_command = ''Command''"
| "event_label Agent_created = ''Agent''"
| "event_label Agent_online = ''Online''"
| "event_label Agent_offline = ''Offline''"
| "event_label Agent_updated = ''Agent update''"
| "event_label Approval_created = ''Approval''"
| "event_label Approval_updated = ''Approval update''"
| "event_label Approval_approved = ''Approved''"
| "event_label Approval_rejected = ''Rejected''"
| "event_label Task_updated = ''Updated''"

fun event_pill_class :: "feed_event \<Rightarrow> string" where
  "event_pill_class Task_comment = ''border-blue-200 bg-blue-50 text-blue-700''"
| "event_pill_class Task_created = ''border-emerald-200 bg-emerald-50 text-emerald-700''"
| "event_pill_class Task_status_changed = ''border-amber-200 bg-amber-50 text-amber-700''"
| "event_pill_class Board_chat = ''border-teal-200 bg-teal-50 text-teal-700''"
| "event_pill_class Board_command = ''border-fuchsia-200 bg-fuchsia-50 text-fuchsia-700''"
| "event_pill_class Agent_created = ''border-violet-200 bg-violet-50 text-violet-700''"
| "event_pill_class Agent_online = ''border-lime-200 bg-lime-50 text-lime-700''"
| "event_pill_class Agent_offline = ''border-slate-300 bg-slate-100 text-slate-700''"
| "event_pill_class Agent_updated = ''border-indigo-200 bg-indigo-50 text-indigo-700''"
| "event_pill_class Approval_created = ''border-cyan-200 bg-cyan-50 text-cyan-700''"
| "event_pill_class Approval_updated = ''border-sky-200 bg-sky-50 text-sky-700''"
| "event_pill_class Approval_approved = ''border-emerald-200 bg-emerald-50 text-emerald-700''"
| "event_pill_class Approval_rejected = ''border-rose-200 bg-rose-50 text-rose-700''"
| "event_pill_class Task_updated = ''border-slate-200 bg-slate-100 text-slate-700''"

definition act_format_short_timestamp :: "(int \<Rightarrow> string) \<Rightarrow> string \<Rightarrow> string" where
  "act_format_short_timestamp fmt value =
     (case parse_api_datetime (Some value) of None \<Rightarrow> em_dash | Some date \<Rightarrow> fmt date)"

text \<open>The card: its message and the letter of its avatar.\<close>

definition feed_card_message :: "act_item \<Rightarrow> string option" where
  "feed_card_message item = (let m = trim (coalesce_opt (ai_message item) []) in if m = [] then None else Some m)"

definition author_avatar :: "act_item \<Rightarrow> string" where
  "author_avatar item =
     to_upper (case ai_actor_name item of [] \<Rightarrow> ''A'' | c # cs \<Rightarrow> [c])"

section \<open>Authors and boards\<close>

definition resolve_author ::
  "act_refs \<Rightarrow> string option \<Rightarrow> string \<Rightarrow> string option \<times> string \<times> string option" where
  "resolve_author r agent fallback_name =
     (case (if truthy agent then map_of (ar_agents r) (the agent) else None) of
        Some a \<Rightarrow> (Some (agent_id a), agent_name a, role_from_agent (Some a))
      | None \<Rightarrow> (agent, fallback_name, None))"

definition board_name_for_id :: "act_refs \<Rightarrow> string option \<Rightarrow> string option" where
  "board_name_for_id r board =
     (if truthy board then map_option board_name (map_of (ar_boards r) (the board)) else None)"

definition update_task_meta :: "task_read \<Rightarrow> string \<Rightarrow> act_refs \<Rightarrow> act_refs" where
  "update_task_meta t fallback_board r =
     r\<lparr>ar_tasks := AList.update (tr_id t)
         \<lparr>tm_title = tr_title t, tm_board_id = Some (coalesce_opt (tr_board_id t) fallback_board)\<rparr> (ar_tasks r)\<rparr>"

text \<open>The route parameters built for a board and a task, where they are there.\<close>

definition task_route :: "string option \<Rightarrow> string option \<Rightarrow> search_params" where
  "task_route board task =
     (if truthy board then [(''boardId'', the board)] else []) @
     (if truthy task then [(''taskId'', the task)] else [])"

definition meta_of :: "act_refs \<Rightarrow> string option \<Rightarrow> task_meta option" where
  "meta_of r task = (if truthy task then map_of (ar_tasks r) (the task) else None)"

fun first_of :: "'a option list \<Rightarrow> 'a option" where
  "first_of [] = None"
| "first_of (Some v # vs) = Some v"
| "first_of (None # vs) = first_of vs"

definition task_item_title :: "task_meta option \<Rightarrow> string option \<Rightarrow> string" where
  "task_item_title meta task =
     (case meta of Some m \<Rightarrow> tm_title m
      | None \<Rightarrow> if truthy task then ''Unknown task'' else ''Task activity'')"

section \<open>Conversions\<close>

definition map_task_activity ::
  "string \<Rightarrow> act_refs \<Rightarrow> activity_event \<Rightarrow> string option \<Rightarrow> act_item option" where
  "map_task_activity user r ev fallback_board =
     (case is_task_event_type (activity_event_type ev) of
        None \<Rightarrow> None
      | Some kind \<Rightarrow>
          (let meta = meta_of r (activity_task_id ev);
               route_params = normalize_route_params (ae_route_params ev);
               task = first_of [activity_task_id ev, params_get ''taskId'' route_params];
               board = first_of [Option.bind meta tm_board_id, ae_board_id ev,
                                 params_get ''boardId'' route_params, fallback_board];
               effective_params = (if length route_params > 0 then route_params else task_route board task);
               effective_name = (case ae_route_name ev of
                   Some n \<Rightarrow> n | None \<Rightarrow> if truthy board then ''board'' else ''activity'');
               (author, author_name, author_role) = resolve_author r (activity_agent_id ev) user
           in Some \<lparr>ai_id = ''activity:'' @ activity_id ev, ai_created_at = activity_created_at ev,
             ai_event = kind, ai_message = activity_message ev, ai_source_event_id = Some (activity_id ev),
             ai_agent_id = author, ai_actor_name = author_name, ai_actor_role = author_role,
             ai_board_id = board, ai_board_name = board_name_for_id r board,
             ai_board_href = build_board_href effective_params board, ai_task_id = task,
             ai_task_title = map_option tm_title meta, ai_title = task_item_title meta task,
             ai_context_href = Some (build_route_href (Some effective_name) effective_params
               \<lparr>rf_event_id = activity_id ev, rf_event_type = activity_event_type ev,
                rf_created_at = activity_created_at ev, rf_task_id = task\<rparr>)\<rparr>))"

definition map_task_comment :: "string \<Rightarrow> act_refs \<Rightarrow> comment \<Rightarrow> string \<Rightarrow> act_item" where
  "map_task_comment user r c fallback_board =
     (let meta = meta_of r (comment_task_id c);
          board = coalesce_opt (Option.bind meta tm_board_id) fallback_board;
          task = comment_task_id c;
          route_params = task_route (Some board) task @ [(''commentId'', comment_id c)];
          (author, author_name, author_role) = resolve_author r (comment_agent_id c) user
      in \<lparr>ai_id = ''comment:'' @ comment_id c, ai_created_at = comment_created_at c,
          ai_event = Task_comment, ai_message = comment_message c, ai_source_event_id = None,
          ai_agent_id = author, ai_actor_name = author_name, ai_actor_role = author_role,
          ai_board_id = Some board, ai_board_name = board_name_for_id r (Some board),
          ai_board_href = build_board_href route_params (Some board), ai_task_id = task,
          ai_task_title = map_option tm_title meta, ai_title = task_item_title meta task,
          ai_context_href = Some (build_route_href (Some ''board'') route_params
            \<lparr>rf_event_id = comment_id c, rf_event_type = ''task.comment'',
             rf_created_at = comment_created_at c, rf_task_id = task\<rparr>)\<rparr>)"

definition approval_kind :: "approval_read \<Rightarrow> approval_read option \<Rightarrow> feed_event" where
  "approval_kind a previous =
     (let next_status = coalesce_opt (approval_status a) ''pending''
      in case Option.bind previous approval_status of
           None \<Rightarrow>
             (if next_status = ''approved'' then Approval_approved
              else if next_status = ''rejected'' then Approval_rejected else Approval_created)
         | Some previous_status \<Rightarrow>
             (if next_status \<noteq> previous_status then
                (if next_status = ''approved'' then Approval_approved
                 else if next_status = ''rejected'' then Approval_rejected else Approval_updated)
              else Approval_updated))"

definition map_approval_event ::
  "string \<Rightarrow> act_refs \<Rightarrow> approval_read \<Rightarrow> string \<Rightarrow> approval_read option \<Rightarrow> act_item" where
  "map_approval_event user r a board previous =
     (let next_status = coalesce_opt (approval_status a) ''pending'';
          kind = approval_kind a previous;
          stamp = (if kind = Approval_created then approval_created_at a
                   else coalesce (approval_resolved_at a) (approval_created_at a));
          action = act_humanize_approval_action (approval_action_type a);
          (author, author_name, author_role) = resolve_author r (or_null (approval_agent_id a)) user;
          status_text = (if next_status = ''approved'' then ''approved''
                         else if next_status = ''rejected'' then ''rejected'' else ''pending'');
          conf = num_to_string (approval_confidence a);
          message = (if kind = Approval_created then action @ '' requested ('' @ conf @ ''% confidence).''
            else if kind = Approval_approved then action @ '' approved ('' @ conf @ ''% confidence).''
            else if kind = Approval_rejected then action @ '' rejected ('' @ conf @ ''% confidence).''
            else action @ '' updated ('' @ status_text @ '', '' @ conf @ ''% confidence).'');
          meta = meta_of r (or_null (approval_task_id a));
          route_params = [(''boardId'', board)];
          task = or_null (approval_task_id a)
      in \<lparr>ai_id = ''approval:'' @ approval_id a @ '':'' @ feed_event_string kind @ '':'' @ stamp,
          ai_created_at = stamp, ai_event = kind, ai_message = Some message, ai_source_event_id = None,
          ai_agent_id = author, ai_actor_name = author_name, ai_actor_role = author_role,
          ai_board_id = Some board, ai_board_name = board_name_for_id r (Some board),
          ai_board_href = build_board_href route_params (Some board), ai_task_id = task,
          ai_task_title = map_option tm_title meta,
          ai_title = ''Approval '' @ middle_dot @ '' '' @ action,
          ai_context_href = Some (build_route_href (Some ''board.approvals'') route_params
            \<lparr>rf_event_id = approval_id a, rf_event_type = feed_event_string kind,
             rf_created_at = stamp, rf_task_id = task\<rparr>)\<rparr>)"

definition map_board_chat :: "string \<Rightarrow> act_refs \<Rightarrow> memory \<Rightarrow> string \<Rightarrow> act_item" where
  "map_board_chat user r m board =
     (let content = trim (coalesce_opt (memory_content m) []);
          actor = resolve_human_actor_name (or_null (memory_source m)) user;
          command = starts_with content ''/'';
          kind = (if command then Board_command else Board_chat);
          route_params = [(''boardId'', board), (''panel'', ''chat'')]
      in \<lparr>ai_id = ''chat:'' @ memory_id m, ai_created_at = memory_created_at m, ai_event = kind,
          ai_message = (if content = [] then None else Some content), ai_source_event_id = None,
          ai_agent_id = None, ai_actor_name = actor, ai_actor_role = None,
          ai_board_id = Some board, ai_board_name = board_name_for_id r (Some board),
          ai_board_href = build_board_href route_params (Some board), ai_task_id = None,
          ai_task_title = None, ai_title = (if command then ''Board command'' else ''Board chat''),
          ai_context_href = Some (build_route_href (Some ''board'') route_params
            \<lparr>rf_event_id = memory_id m, rf_event_type = feed_event_string kind,
             rf_created_at = memory_created_at m, rf_task_id = None\<rparr>)\<rparr>)"

text \<open>The kind of an agent event: None where nothing that is shown has changed.\<close>

definition agent_kind :: "agent_read \<Rightarrow> agent_read option \<Rightarrow> bool \<Rightarrow> feed_event option" where
  "agent_kind a previous is_snapshot =
     (let next_status = normalize_status (agent_status a);
          previous_status = map_option (\<lambda>p. normalize_status (agent_status p)) previous;
          status_changed = (previous_status \<noteq> None \<and> Some next_status \<noteq> previous_status);
          profile_changed = (case previous of
              None \<Rightarrow> False
            | Some p \<Rightarrow> agent_name p \<noteq> agent_name a \<or> agent_is_board_lead p \<noteq> agent_is_board_lead a \<or>
                        profile_text p \<noteq> profile_text a)
      in if is_snapshot then
           Some (if next_status = ''online'' then Agent_online
                 else if next_status = ''offline'' then Agent_offline else Agent_updated)
         else if previous = None then Some Agent_created
         else if status_changed \<and> next_status = ''online'' then Some Agent_online
         else if status_changed \<and> next_status = ''offline'' then Some Agent_offline
         else if status_changed \<or> profile_changed then Some Agent_updated
         else None)"

definition map_agent_event :: "act_refs \<Rightarrow> agent_read \<Rightarrow> agent_read option \<Rightarrow> bool \<Rightarrow> act_item option" where
  "map_agent_event r a previous is_snapshot =
     (case agent_kind a previous is_snapshot of
        None \<Rightarrow> None
      | Some kind \<Rightarrow>
          (let next_status = normalize_status (agent_status a);
               stamp = coalesce (agent_last_seen_at a) (coalesce_opt (agent_updated_at a) (agent_created_at a));
               message = (if kind = Agent_created then agent_name a @ '' joined this board.''
                 else if kind = Agent_online then agent_name a @ '' is online.''
                 else if kind = Agent_offline then agent_name a @ '' is offline.''
                 else agent_name a @ '' updated ('' @ humanize_status next_status @ '').'');
               board = or_null (agent_board_id a);
               route_params = (if truthy board then [(''boardId'', the board)] else [])
           in Some \<lparr>ai_id = ''agent:'' @ agent_id a @ '':'' @
               (if is_snapshot then ''snapshot'' else feed_event_string kind) @ '':'' @ stamp,
             ai_created_at = stamp, ai_event = kind, ai_message = Some message,
             ai_source_event_id = None, ai_agent_id = Some (agent_id a), ai_actor_name = agent_name a,
             ai_actor_role = role_from_agent (Some a), ai_board_id = board,
             ai_board_name = board_name_for_id r board,
             ai_board_href = build_board_href route_params board, ai_task_id = None,
             ai_task_title = None, ai_title = ''Agent '' @ middle_dot @ '' '' @ agent_name a,
             ai_context_href = (case board of
                 None \<Rightarrow> None
               | Some _ \<Rightarrow> Some (build_route_href (Some ''board'') route_params
                   \<lparr>rf_event_id = agent_id a, rf_event_type = feed_event_string kind,
                    rf_created_at = stamp, rf_task_id = None\<rparr>))\<rparr>))"

end
