(* ===== verification/ActivityPage.thy ===== *)
theory ActivityPage
  imports ActivityModel BoardSteps
begin

text \<open>
  The activity page (\<^verbatim>\<open>app/activity/page.tsx\<close>): its state, the initial load (pages of boards,
  snapshots, pages of the activity log), the handlers of its four kinds of event streams with
  their cursors, and what is shown and highlighted. The streams of a board run through the
  loop of \<open>SseStream\<close>. The load is one asynchronous function whose awaits let the streams run
  in between; the items it has gathered so far are \<open>ap_seed\<close>. The functions \<open>fetch\<close> give, for
  each offset, the outcome of the request, with the refs as the answer finds them.
\<close>

type_synonym act_collection = "act_item list \<times> string list"

record activity_page =
  ap_boards :: "board_read list"
  ap_feed :: "act_item list"
  ap_feed_ref :: "act_item list"
  ap_seen :: "string list"
  ap_refs :: act_refs
  ap_loading :: bool
  ap_error :: "string option"
  ap_highlighted :: "string option"
  ap_seed :: "act_collection option"

definition initial_activity :: activity_page where
  "initial_activity = \<lparr>ap_boards = [], ap_feed = [], ap_feed_ref = [], ap_seen = [], ap_refs = no_refs,
     ap_loading = False, ap_error = None, ap_highlighted = None, ap_seed = None\<rparr>"

definition max_feed_items :: nat where "max_feed_items = 300"
definition paged_limit :: nat where "paged_limit = 200"
definition paged_max :: nat where "paged_max = 1000"

definition push_feed_item :: "act_item \<Rightarrow> activity_page \<Rightarrow> activity_page" where
  "push_feed_item item s =
     (if ai_id item \<in> set (ap_seen s) then s
      else s\<lparr>ap_seen := ai_id item # ap_seen s, ap_feed := take max_feed_items (item # ap_feed s)\<rparr>)"

text \<open>The effect that copies the feed into its ref, and the one of a sign-out.\<close>

definition sync_activity :: "activity_page \<Rightarrow> activity_page" where
  "sync_activity s = s\<lparr>ap_feed_ref := ap_feed s\<rparr>"

definition signed_out :: "activity_page \<Rightarrow> activity_page" where
  "signed_out s =
     s\<lparr>ap_boards := [], ap_feed := [], ap_error := None, ap_loading := False, ap_seen := [],
       ap_refs := no_refs, ap_seed := None\<rparr>"

definition act_is_org_admin :: "member option \<Rightarrow> bool" where
  "act_is_org_admin m = (case m of None \<Rightarrow> False | Some mb \<Rightarrow> member_role mb \<in> {''owner'', ''admin''})"

section \<open>The initial load\<close>

datatype 'i act_page = Act_page "'i list" | Act_status int | Act_failed js_error | Act_cancelled

datatype 'a load = Got 'a | Lost string | Gone

text \<open>The loop over the pages of the boards.\<close>

function fetch_boards :: "(nat \<Rightarrow> board_read act_page) \<Rightarrow> nat \<Rightarrow> board_read list \<Rightarrow> board_read list load" where
  "fetch_boards fetch offset boards =
     (if \<not> offset < paged_max then Got boards
      else (case fetch offset of
          Act_cancelled \<Rightarrow> Gone
        | Act_failed e \<Rightarrow> Lost (error_message e ''Unable to load activity feed.'')
        | Act_status st \<Rightarrow> Lost ''Unable to load boards.''
        | Act_page items \<Rightarrow>
            (if length items < paged_limit then Got (boards @ items)
             else fetch_boards fetch (offset + paged_limit) (boards @ items))))"
  by pat_completeness auto
termination
  by (relation "measure (\<lambda>(_, offset, _). paged_max - offset)") (auto simp: paged_limit_def paged_max_def)

declare fetch_boards.simps [simp del]

definition begin_activity_load :: "activity_page \<Rightarrow> activity_page" where
  "begin_activity_load s = s\<lparr>ap_loading := True, ap_error := None, ap_seed := None\<rparr>"

definition boards_loaded :: "board_read list \<Rightarrow> activity_page \<Rightarrow> activity_page" where
  "boards_loaded boards s =
     s\<lparr>ap_boards := boards,
       ap_refs := (ap_refs s)\<lparr>ar_boards := foldl (\<lambda>m b. AList.update (board_id b) b m) [] boards\<rparr>,
       ap_seed := Some ([], [])\<rparr>"

definition seed_item :: "act_item \<Rightarrow> act_collection \<Rightarrow> act_collection" where
  "seed_item item c = (if ai_id item \<in> set (snd c) then c else (fst c @ [item], ai_id item # snd c))"

text \<open>The steps of one snapshot: tasks, agents, approvals, chat messages of a board.\<close>

definition seed_task :: "string \<Rightarrow> act_refs \<times> act_collection \<Rightarrow> task_card_read \<Rightarrow> act_refs \<times> act_collection" where
  "seed_task board st t =
     ((fst st)\<lparr>ar_tasks := AList.update (tr_id t) \<lparr>tm_title = tr_title t, tm_board_id = Some board\<rparr>
        (ar_tasks (fst st))\<rparr>, snd st)"

definition seed_agent :: "act_refs \<times> act_collection \<Rightarrow> agent_read \<Rightarrow> act_refs \<times> act_collection" where
  "seed_agent st a =
     (let normalized = act_normalize_agent a;
          r = (fst st)\<lparr>ar_agents := AList.update (agent_id normalized) normalized (ar_agents (fst st))\<rparr>
      in (r, case map_agent_event r normalized None True of
               None \<Rightarrow> snd st | Some item \<Rightarrow> seed_item item (snd st)))"

definition seed_approval ::
  "string \<Rightarrow> string \<Rightarrow> act_refs \<times> act_collection \<Rightarrow> approval_read \<Rightarrow> act_refs \<times> act_collection" where
  "seed_approval user board st a =
     (let r = (fst st)\<lparr>ar_approvals := AList.update (approval_id a) a (ar_approvals (fst st))\<rparr>
      in (r, seed_item (map_approval_event user r a board None) (snd st)))"

definition seed_chat ::
  "string \<Rightarrow> string \<Rightarrow> act_refs \<times> act_collection \<Rightarrow> memory \<Rightarrow> act_refs \<times> act_collection" where
  "seed_chat user board st m = (fst st, seed_item (map_board_chat user (fst st) m board) (snd st))"

definition seed_snapshot ::
  "string \<Rightarrow> act_refs \<times> act_collection \<Rightarrow> board_read \<times> snapshot option \<Rightarrow> act_refs \<times> act_collection" where
  "seed_snapshot user st result =
     (case result of
        (board, None) \<Rightarrow> st
      | (board, Some sn) \<Rightarrow>
          (let st1 = foldl (seed_task (board_id board)) st (coalesce_opt (sn_tasks sn) []);
               st2 = foldl seed_agent st1 (coalesce_opt (sn_agents sn) []);
               st3 = foldl (seed_approval user (board_id board)) st2 (coalesce_opt (sn_approvals sn) [])
           in foldl (seed_chat user (board_id board)) st3 (coalesce_opt (sn_chat sn) [])))"

text \<open>The results of the snapshots, None for a request that failed or was refused.\<close>

definition seed_snapshots :: "string \<Rightarrow> snapshot option list \<Rightarrow> activity_page \<Rightarrow> activity_page" where
  "seed_snapshots user results s =
     (case ap_seed s of
        None \<Rightarrow> s
      | Some c \<Rightarrow>
          (case foldl (seed_snapshot user) (ap_refs s, c) (zip (ap_boards s) results) of
             (r, c') \<Rightarrow> s\<lparr>ap_refs := r, ap_seed := Some c'\<rparr>))"

definition seed_events :: "string \<Rightarrow> act_refs \<Rightarrow> activity_event list \<Rightarrow> act_collection \<Rightarrow> act_collection" where
  "seed_events user r events c =
     foldl (\<lambda>c ev. case map_task_activity user r ev None of None \<Rightarrow> c | Some item \<Rightarrow> seed_item item c) c events"

text \<open>The loop over the pages of the activity log.\<close>

function fetch_activity ::
  "string \<Rightarrow> (nat \<Rightarrow> act_refs \<times> activity_event act_page) \<Rightarrow> nat \<Rightarrow> act_collection \<Rightarrow> act_collection load" where
  "fetch_activity user fetch offset c =
     (if \<not> offset < paged_max then Got c
      else (case fetch offset of
          (r, Act_cancelled) \<Rightarrow> Gone
        | (r, Act_failed e) \<Rightarrow> Lost (error_message e ''Unable to load activity feed.'')
        | (r, Act_status st) \<Rightarrow> Lost ''Unable to load activity feed.''
        | (r, Act_page events) \<Rightarrow>
            (if length events < paged_limit then Got (seed_events user r events c)
             else fetch_activity user fetch (offset + paged_limit) (seed_events user r events c))))"
  by pat_completeness auto
termination
  by (relation "measure (\<lambda>(_, _, offset, _). paged_max - offset)") (auto simp: paged_limit_def paged_max_def)

declare fetch_activity.simps [simp del]

definition act_time :: "act_item \<Rightarrow> int" where
  "act_time item = time_or_zero (ai_created_at item)"

definition finish_activity_load :: "act_item list \<Rightarrow> activity_page \<Rightarrow> activity_page" where
  "finish_activity_load seeded s =
     (let nxt = take max_feed_items (js_sort (by_key_desc act_time) seeded)
      in s\<lparr>ap_feed := nxt, ap_seen := map ai_id nxt, ap_loading := False, ap_seed := None\<rparr>)"

definition fail_activity_load :: "string \<Rightarrow> activity_page \<Rightarrow> activity_page" where
  "fail_activity_load message s = s\<lparr>ap_error := Some message, ap_loading := False, ap_seed := None\<rparr>"

text \<open>What the load does with the outcome of a loop; a cancelled load leaves the page as it is.\<close>

fun resume_load :: "('a \<Rightarrow> activity_page \<Rightarrow> activity_page) \<Rightarrow> 'a load \<Rightarrow> activity_page \<Rightarrow> activity_page" where
  "resume_load continue (Got x) s = continue x s"
| "resume_load continue (Lost m) s = fail_activity_load m s"
| "resume_load continue Gone s = s"

section \<open>Streams\<close>

text \<open>The time from which a stream asks for events.\<close>

definition latest_timestamp :: "(act_item \<Rightarrow> bool) \<Rightarrow> activity_page \<Rightarrow> string option" where
  "latest_timestamp predicate s =
     (let latest = foldl (\<lambda>latest item. if \<not> predicate item then latest
                            else if act_time item > latest then act_time item else latest) 0 (ap_feed_ref s)
      in if latest \<noteq> 0 then Some (to_iso latest) else None)"

definition task_since :: "string \<Rightarrow> activity_page \<Rightarrow> string option" where
  "task_since board s = latest_timestamp (\<lambda>i. ai_board_id i = Some board \<and>
     is_task_event_type (feed_event_string (ai_event i)) \<noteq> None) s"

definition approval_since :: "string \<Rightarrow> activity_page \<Rightarrow> string option" where
  "approval_since board s = latest_timestamp (\<lambda>i. ai_board_id i = Some board \<and>
     starts_with (feed_event_string (ai_event i)) ''approval.'') s"

definition chat_since :: "string \<Rightarrow> activity_page \<Rightarrow> string option" where
  "chat_since board s = latest_timestamp (\<lambda>i. ai_board_id i = Some board \<and>
     (ai_event i = Board_chat \<or> ai_event i = Board_command)) s"

definition agent_since :: "activity_page \<Rightarrow> string option" where
  "agent_since s = latest_timestamp (\<lambda>i. starts_with (feed_event_string (ai_event i)) ''agent.'') s"

text \<open>The boards whose streams the effects start, each after its delay in milliseconds; the
  stream of the agents is one for all boards and for administrators only.\<close>

definition board_streams :: "bool \<Rightarrow> bool \<Rightarrow> activity_page \<Rightarrow> (string \<times> nat) list" where
  "board_streams page_active signed_in s =
     (if \<not> page_active \<or> \<not> signed_in then []
      else map (\<lambda>(i, n). (i, n * 120)) (zip (map board_id (ap_boards s)) [0..<length (ap_boards s)]))"

definition agent_stream_runs :: "bool \<Rightarrow> bool \<Rightarrow> member option \<Rightarrow> bool" where
  "agent_stream_runs page_active signed_in m = (page_active \<and> signed_in \<and> act_is_org_admin m)"

record activity_task_event =
  ate_type :: "string option"
  ate_activity :: "activity_event option"
  ate_task :: "task_read option"
  ate_comment :: "comment option"

text \<open>The title of the task in the event stands in for an unknown one.\<close>

definition retitle :: "task_read option \<Rightarrow> act_item \<Rightarrow> act_item" where
  "retitle task item =
     (case task of
        None \<Rightarrow> item
      | Some t \<Rightarrow> if \<not> truthy (ai_task_title item) \<and> tr_title t \<noteq> []
          then item\<lparr>ai_task_title := Some (tr_title t), ai_title := tr_title t\<rparr> else item)"

definition receive_act_task :: "string \<Rightarrow> string \<Rightarrow> activity_task_event \<Rightarrow> activity_page \<Rightarrow> activity_page" where
  "receive_act_task user board payload s =
     (let s1 = (case ate_task payload of
                  None \<Rightarrow> s | Some t \<Rightarrow> s\<lparr>ap_refs := update_task_meta t board (ap_refs s)\<rparr>)
      in case ate_activity payload of
           Some a \<Rightarrow>
             (case map_task_activity user (ap_refs s1) a (Some board) of
                None \<Rightarrow> s1
              | Some item \<Rightarrow> push_feed_item (retitle (ate_task payload) item) s1)
         | None \<Rightarrow>
             (case ate_comment payload of
                Some c \<Rightarrow> if ate_type payload = Some ''task.comment''
                   then push_feed_item (map_task_comment user (ap_refs s1) c board) s1 else s1
              | None \<Rightarrow> s1))"

definition handle_act_task ::
  "string \<Rightarrow> (string \<Rightarrow> activity_task_event option) \<Rightarrow> string \<Rightarrow> string \<Rightarrow> string \<Rightarrow> activity_page \<Rightarrow> activity_page" where
  "handle_act_task user parse board ev data s =
     (if ev = ''task'' \<and> data \<noteq> [] then
        (case parse data of None \<Rightarrow> s | Some payload \<Rightarrow> receive_act_task user board payload s)
      else s)"

definition receive_act_approval :: "string \<Rightarrow> string \<Rightarrow> approval_read \<Rightarrow> activity_page \<Rightarrow> activity_page" where
  "receive_act_approval user board a s =
     (let previous = map_of (ar_approvals (ap_refs s)) (approval_id a);
          r = (ap_refs s)\<lparr>ar_approvals := AList.update (approval_id a) a (ar_approvals (ap_refs s))\<rparr>
      in push_feed_item (map_approval_event user r a board previous) (s\<lparr>ap_refs := r\<rparr>))"

definition handle_act_approval ::
  "string \<Rightarrow> (string \<Rightarrow> approval_read option option) \<Rightarrow> string \<Rightarrow> string \<Rightarrow> string \<Rightarrow> activity_page \<Rightarrow> activity_page" where
  "handle_act_approval user parse board ev data s =
     (if ev = ''approval'' \<and> data \<noteq> [] then
        (case parse data of Some (Some a) \<Rightarrow> receive_act_approval user board a s | _ \<Rightarrow> s)
      else s)"

definition handle_act_chat ::
  "string \<Rightarrow> (string \<Rightarrow> memory option option) \<Rightarrow> string \<Rightarrow> string \<Rightarrow> string \<Rightarrow> activity_page \<Rightarrow> activity_page" where
  "handle_act_chat user parse board ev data s =
     (if ev = ''memory'' \<and> data \<noteq> [] then
        (case parse data of
           Some (Some m) \<Rightarrow>
             (if (case memory_tags m of Val tags \<Rightarrow> ''chat'' \<in> set tags | _ \<Rightarrow> False)
              then push_feed_item (map_board_chat user (ap_refs s) m board) s else s)
         | _ \<Rightarrow> s)
      else s)"

definition receive_act_agent :: "agent_read \<Rightarrow> activity_page \<Rightarrow> activity_page" where
  "receive_act_agent a s =
     (let normalized = act_normalize_agent a;
          previous = map_of (ar_agents (ap_refs s)) (agent_id normalized);
          r = (ap_refs s)\<lparr>ar_agents := AList.update (agent_id normalized) normalized (ar_agents (ap_refs s))\<rparr>;
          s1 = s\<lparr>ap_refs := r\<rparr>
      in case map_agent_event r normalized previous False of
           None \<Rightarrow> s1 | Some item \<Rightarrow> push_feed_item item s1)"

definition handle_act_agent ::
  "(string \<Rightarrow> agent_read option option) \<Rightarrow> string \<Rightarrow> string \<Rightarrow> activity_page \<Rightarrow> activity_page" where
  "handle_act_agent parse ev data s =
     (if ev = ''agent'' \<and> data \<noteq> [] then
        (case parse data of Some (Some a) \<Rightarrow> receive_act_agent a s | _ \<Rightarrow> s)
      else s)"

text \<open>The four connections: the loop of \<open>SseStream\<close> with each handler.\<close>

definition connect_act_tasks ::
  "string \<Rightarrow> (string \<Rightarrow> activity_task_event option) \<Rightarrow> string \<Rightarrow> rat \<Rightarrow> connection \<Rightarrow> activity_page \<Rightarrow> backoff \<Rightarrow>
     activity_page \<times> backoff \<times> jsnum option" where
  "connect_act_tasks user parse board random conn s b = connect (handle_act_task user parse board) random conn s b"

definition connect_act_approvals ::
  "string \<Rightarrow> (string \<Rightarrow> approval_read option option) \<Rightarrow> string \<Rightarrow> rat \<Rightarrow> connection \<Rightarrow> activity_page \<Rightarrow> backoff \<Rightarrow>
     activity_page \<times> backoff \<times> jsnum option" where
  "connect_act_approvals user parse board random conn s b =
     connect (handle_act_approval user parse board) random conn s b"

definition connect_act_chat ::
  "string \<Rightarrow> (string \<Rightarrow> memory option option) \<Rightarrow> string \<Rightarrow> rat \<Rightarrow> connection \<Rightarrow> activity_page \<Rightarrow> backoff \<Rightarrow>
     activity_page \<times> backoff \<times> jsnum option" where
  "connect_act_chat user parse board random conn s b = connect (handle_act_chat user parse board) random conn s b"

definition connect_act_agents ::
  "(string \<Rightarrow> agent_read option option) \<Rightarrow> rat \<Rightarrow> connection \<Rightarrow> activity_page \<Rightarrow> backoff \<Rightarrow>
     activity_page \<times> backoff \<times> jsnum option" where
  "connect_act_agents parse random conn s b = connect (handle_act_agent parse) random conn s b"

section \<open>What is shown\<close>

definition ordered_feed :: "activity_page \<Rightarrow> act_item list" where
  "ordered_feed s = js_sort (by_key_desc act_time) (ap_feed s)"

definition selected_event_id :: "search_params \<Rightarrow> string option" where
  "selected_event_id q =
     (case params_get ''eventId'' q of
        None \<Rightarrow> None
      | Some value \<Rightarrow> if value = [] then None
          else (let trimmed = trim value in if length trimmed > 0 then Some trimmed else None))"

definition selected_feed_item_id :: "search_params \<Rightarrow> activity_page \<Rightarrow> string option" where
  "selected_feed_item_id q s =
     (case selected_event_id q of
        None \<Rightarrow> None
      | Some ev \<Rightarrow>
          (case List.find (\<lambda>i. ai_source_event_id i = Some ev) (ordered_feed s) of
             Some item \<Rightarrow> Some (ai_id item)
           | None \<Rightarrow> map_option ai_id
               (List.find (\<lambda>i. ai_id i = ev \<or> ai_id i = ''activity:'' @ ev) (ordered_feed s))))"

text \<open>The effect on a new selection, and its timer of four seconds.\<close>

definition highlight_selection :: "string option \<Rightarrow> activity_page \<Rightarrow> activity_page" where
  "highlight_selection sel s =
     (if truthy sel then s\<lparr>ap_highlighted := sel\<rparr> else s\<lparr>ap_highlighted := None\<rparr>)"

definition end_highlight :: "string \<Rightarrow> activity_page \<Rightarrow> activity_page" where
  "end_highlight sel s = (if ap_highlighted s = Some sel then s\<lparr>ap_highlighted := None\<rparr> else s)"

definition has_unresolved_deep_link :: "search_params \<Rightarrow> activity_page \<Rightarrow> bool" where
  "has_unresolved_deep_link q s \<longleftrightarrow>
     truthy (selected_event_id q) \<and> \<not> truthy (selected_feed_item_id q s) \<and> \<not> ap_loading s \<and>
     \<not> truthy (ap_error s)"

text \<open>\<^verbatim>\<open>components/activity/ActivityFeed.tsx\<close>.\<close>

datatype 'i feed_view = Feed_loading | Feed_error string | Feed_waiting | Feed_items "'i list"

definition activity_feed :: "bool \<Rightarrow> string option \<Rightarrow> 'i list \<Rightarrow> 'i feed_view" where
  "activity_feed is_loading error items =
     (if is_loading \<and> length items = 0 then Feed_loading
      else (case error of
          Some m \<Rightarrow> Feed_error (if m = [] then ''Unable to load feed.'' else m)
        | None \<Rightarrow> if length items = 0 then Feed_waiting else Feed_items items))"

section \<open>Invariant\<close>

text \<open>The feed and the items gathered by a load in progress: no id twice, at most 300 items shown,
  and every shown id recorded as seen.\<close>

definition seed_ok :: "act_collection \<Rightarrow> bool" where
  "seed_ok c \<longleftrightarrow> distinct (map ai_id (fst c)) \<and> ai_id ` set (fst c) \<subseteq> set (snd c)"

definition activity_ok :: "activity_page \<Rightarrow> bool" where
  "activity_ok s \<longleftrightarrow>
     distinct (map ai_id (ap_feed s)) \<and> length (ap_feed s) \<le> 300 \<and>
     ai_id ` set (ap_feed s) \<subseteq> set (ap_seen s) \<and> (ap_seed s = None \<or> seed_ok (the (ap_seed s)))"

lemma initial_activity_ok [simp]: "activity_ok initial_activity"
  by (simp add: activity_ok_def initial_activity_def)

lemma activity_ok_refs [simp]: "activity_ok (s\<lparr>ap_refs := r\<rparr>) = activity_ok s"
  by (simp add: activity_ok_def)

lemma push_feed_item_ok: "activity_ok s \<Longrightarrow> activity_ok (push_feed_item item s)"
proof -
  assume s: "activity_ok s"
  have "distinct (map ai_id (take max_feed_items (item # ap_feed s)))" if "ai_id item \<notin> set (ap_seen s)"
    using s that by (intro distinct_map_take) (auto simp: activity_ok_def)
  moreover have "ai_id ` set (take max_feed_items (item # ap_feed s)) \<subseteq> set (ai_id item # ap_seen s)"
    using s set_take_subset [of max_feed_items "item # ap_feed s"] by (fastforce simp: activity_ok_def)
  moreover have "length (take max_feed_items (item # ap_feed s)) \<le> 300" by (simp add: max_feed_items_def)
  ultimately show ?thesis
    using s by (simp add: push_feed_item_def activity_ok_def)
qed

lemma receive_act_task_ok: "activity_ok s \<Longrightarrow> activity_ok (receive_act_task user board payload s)"
  by (auto simp: receive_act_task_def Let_def push_feed_item_ok split: option.splits)

lemma handle_act_task_ok: "activity_ok s \<Longrightarrow> activity_ok (handle_act_task user parse board ev data s)"
  by (auto simp: handle_act_task_def receive_act_task_ok split: option.splits)

lemma handle_act_approval_ok: "activity_ok s \<Longrightarrow> activity_ok (handle_act_approval user parse board ev data s)"
  by (auto simp: handle_act_approval_def receive_act_approval_def Let_def push_feed_item_ok split: option.splits)

lemma handle_act_chat_ok: "activity_ok s \<Longrightarrow> activity_ok (handle_act_chat user parse board ev data s)"
  by (auto simp: handle_act_chat_def push_feed_item_ok split: option.splits)

lemma handle_act_agent_ok: "activity_ok s \<Longrightarrow> activity_ok (handle_act_agent parse ev data s)"
  by (auto simp: handle_act_agent_def receive_act_agent_def Let_def push_feed_item_ok split: option.splits)

interpretation act_task_stream: sse_client "handle_act_task user parse board" activity_ok for user parse board
  by unfold_locales (rule handle_act_task_ok)

interpretation act_approval_stream: sse_client "handle_act_approval user parse board" activity_ok
  for user parse board
  by unfold_locales (rule handle_act_approval_ok)

interpretation act_chat_stream: sse_client "handle_act_chat user parse board" activity_ok for user parse board
  by unfold_locales (rule handle_act_chat_ok)

interpretation act_agent_stream: sse_client "handle_act_agent parse" activity_ok for parse
  by unfold_locales (rule handle_act_agent_ok)

lemma seed_item_ok: "seed_ok c \<Longrightarrow> seed_ok (seed_item item c)"
  by (auto simp: seed_ok_def seed_item_def)

lemma fold_keeps: "P st \<Longrightarrow> (\<And>st x. P st \<Longrightarrow> P (f st x)) \<Longrightarrow> P (foldl f st xs)"
  by (induction xs arbitrary: st) auto

lemma seed_steps_ok:
  assumes "seed_ok (snd st)"
  shows "seed_ok (snd (seed_task board st t))" and "seed_ok (snd (seed_agent st a))"
    and "seed_ok (snd (seed_approval user board st p))" and "seed_ok (snd (seed_chat user board st m))"
  using assms
  by (auto simp: seed_task_def seed_agent_def seed_approval_def seed_chat_def Let_def seed_item_ok
      split: option.split)

lemma seed_snapshot_ok: "seed_ok (snd st) \<Longrightarrow> seed_ok (snd (seed_snapshot user st result))"
  unfolding seed_snapshot_def Let_def
  by (auto intro!: fold_keeps [where P = "\<lambda>st. seed_ok (snd st)"] seed_steps_ok split: prod.splits option.splits)

lemma seed_snapshots_ok: "activity_ok s \<Longrightarrow> activity_ok (seed_snapshots user results s)"
proof (cases "ap_seed s")
  case (Some c)
  assume s: "activity_ok s"
  let ?st = "foldl (seed_snapshot user) (ap_refs s, c) (zip (ap_boards s) results)"
  have "seed_ok (snd ?st)"
    by (rule fold_keeps [where P = "\<lambda>st. seed_ok (snd st)"])
      (use s Some in \<open>auto simp: activity_ok_def seed_snapshot_ok\<close>)
  with s Some show ?thesis by (auto simp: seed_snapshots_def activity_ok_def split: prod.splits)
qed (simp add: seed_snapshots_def)

lemma seed_events_ok: "seed_ok c \<Longrightarrow> seed_ok (seed_events user r events c)"
  unfolding seed_events_def
  by (rule fold_keeps [where P = seed_ok]) (auto simp: seed_item_ok split: option.splits)

lemma fetch_activity_ok: "seed_ok c \<Longrightarrow> fetch_activity user fetch offset c = Got c' \<Longrightarrow> seed_ok c'"
proof (induction user fetch offset c rule: fetch_activity.induct)
  case (1 user fetch offset c)
  from "1.prems" show ?case
    by (subst (asm) fetch_activity.simps)
      (auto simp: seed_events_ok intro: "1.IH" split: if_splits prod.splits act_page.splits)
qed

lemma finish_activity_load_ok:
  "activity_ok s \<Longrightarrow> distinct (map ai_id seeded) \<Longrightarrow> activity_ok (finish_activity_load seeded s)"
  by (auto simp: activity_ok_def finish_activity_load_def Let_def max_feed_items_def
      intro: distinct_map_take)

text \<open>What can happen to the page: a connection of a stream, a render, the steps of a load (which
  may fail at any of them), the highlight and a sign-out.\<close>

inductive act_step :: "activity_page \<Rightarrow> activity_page \<Rightarrow> bool" where
  as_tasks: "wf_backoff b \<Longrightarrow> connect_act_tasks user parse board random conn s b = (t, b', d) \<Longrightarrow> act_step s t"
| as_approvals: "wf_backoff b \<Longrightarrow> connect_act_approvals user parse board random conn s b = (t, b', d) \<Longrightarrow> act_step s t"
| as_chat: "wf_backoff b \<Longrightarrow> connect_act_chat user parse board random conn s b = (t, b', d) \<Longrightarrow> act_step s t"
| as_agents: "wf_backoff b \<Longrightarrow> connect_act_agents parse random conn s b = (t, b', d) \<Longrightarrow> act_step s t"
| as_commit: "act_step s (sync_activity s)"
| as_begin: "act_step s (begin_activity_load s)"
| as_boards: "act_step s (resume_load boards_loaded (fetch_boards fetch 0 []) s)"
| as_snapshots: "act_step s (seed_snapshots user results s)"
| as_log: "ap_seed s = Some c \<Longrightarrow>
    act_step s (resume_load (\<lambda>c' s. s\<lparr>ap_seed := Some c'\<rparr>) (fetch_activity user fetch 0 c) s)"
| as_finish: "ap_seed s = Some c \<Longrightarrow> act_step s (finish_activity_load (fst c) s)"
| as_select: "act_step s (highlight_selection sel s)"
| as_timer: "act_step s (end_highlight i s)"
| as_sign_out: "act_step s (signed_out s)"

lemma act_step_ok: "act_step s t \<Longrightarrow> activity_ok s \<Longrightarrow> activity_ok t"
proof (induction rule: act_step.induct)
  case (as_tasks b user parse board random conn s t b' d)
  then show ?case using act_task_stream.connect_inv unfolding connect_act_tasks_def by blast
next
  case (as_approvals b user parse board random conn s t b' d)
  then show ?case using act_approval_stream.connect_inv unfolding connect_act_approvals_def by blast
next
  case (as_chat b user parse board random conn s t b' d)
  then show ?case using act_chat_stream.connect_inv unfolding connect_act_chat_def by blast
next
  case (as_agents b parse random conn s t b' d)
  then show ?case using act_agent_stream.connect_inv unfolding connect_act_agents_def by blast
next
  case (as_boards s fetch)
  then show ?case
    by (cases "fetch_boards fetch 0 []")
      (auto simp: activity_ok_def boards_loaded_def fail_activity_load_def seed_ok_def)
next
  case (as_log s c user fetch)
  then have c: "seed_ok c" by (simp add: activity_ok_def)
  show ?case
  proof (cases "fetch_activity user fetch 0 c")
    case (Got c')
    with fetch_activity_ok [OF c] as_log show ?thesis by (simp add: activity_ok_def)
  qed (use as_log in \<open>auto simp: activity_ok_def fail_activity_load_def\<close>)
next
  case (as_finish s c)
  then show ?case by (intro finish_activity_load_ok) (auto simp: activity_ok_def seed_ok_def)
next
  case (as_snapshots s user results)
  then show ?case by (rule seed_snapshots_ok)
qed (auto simp: activity_ok_def sync_activity_def begin_activity_load_def
    highlight_selection_def end_highlight_def signed_out_def)

section \<open>Facts about loads and links\<close>

lemma seen_stays_out:
  "ai_id x \<in> set (ap_seen s) \<Longrightarrow> push_feed_item x s = s"
  by (simp add: push_feed_item_def)

lemma get_board_query_from:
  "params_get k (foldl (\<lambda>ps (key, value). if key \<noteq> ''boardId'' then params_set key value ps else ps) acc ps) =
     (if k = ''boardId'' \<or> map_of (rev ps) k = None then params_get k acc else map_of (rev ps) k)"
  by (induction ps arbitrary: acc) (auto simp: map_add_def split: option.splits if_splits)

lemma get_board_query:
  "params_get k (board_query ps) = (if k = ''boardId'' then None else map_of (rev ps) k)"
  using get_board_query_from [of k "[]" ps]
  by (auto simp: board_query_def params_get_def simp del: map_of_eq_None_iff)

lemma no_question_in_path: "CHR ''?'' \<notin> set (board_path i)"
proof -
  have "CHR ''?'' \<notin> set (if uri_plain c then [c] else concat (map percent (utf8 c)))" for c
  proof -
    have "code d \<noteq> 63" if "b < 256" "d \<in> set (percent b)" for b d
      using that by (auto simp: percent_def code_upper_hex less_mult_imp_div_less split: if_splits)
    then have "CHR ''?'' \<notin> set (percent b)" if "b < 256" for b using that by fastforce
    with utf8_bytes [of c] show ?thesis by (auto simp: uri_plain_def is_alnum_def is_digit_def is_upper_def is_lower_def)
  qed
  then have "CHR ''?'' \<notin> set (encode_uri_component i)"
    unfolding encode_uri_component_def by (induction i) (simp_all split del: if_split)
  then show ?thesis by (simp add: board_path_def)
qed

lemma board_link_query:
  assumes "truthy (params_get ''boardId'' ps)" and "href = build_route_href (Some ''board'') ps fb"
    and "params_to_string (board_query ps) \<noteq> []"
  shows "takeWhile (\<lambda>c. c \<noteq> CHR ''?'') href = board_path (the (params_get ''boardId'' ps)) \<and>
         parse_query (tl (dropWhile (\<lambda>c. c \<noteq> CHR ''?'') href)) = board_query ps"
proof -
  have h: "href = board_path (the (params_get ''boardId'' ps)) @ ''?'' @ params_to_string (board_query ps)"
    using assms by (simp add: build_route_href_def Let_def)
  have "\<forall>c \<in> set (board_path (the (params_get ''boardId'' ps))). c \<noteq> CHR ''?''"
    using no_question_in_path by metis
  then show ?thesis
    unfolding h by (simp add: takeWhile_append2 dropWhile_append2 parse_query_to_string)
qed

section \<open>Properties\<close>

text \<open>C14: whatever the streams deliver, however the loads go, whenever the user signs in and out:
  the activity feed never shows an id twice and never more than 300 items, every id it shows is
  remembered as seen, and what is displayed is the feed ordered from the newest.\<close>

lemma activity_feed_invariant:
  assumes "act_step\<^sup>*\<^sup>* initial_activity s"
  shows "activity_ok s \<and> set (ordered_feed s) = set (ap_feed s) \<and>
         length (ordered_feed s) = length (ap_feed s) \<and>
         sorted_wrt (\<lambda>a b. act_time b \<le> act_time a) (ordered_feed s)"
proof -
  have "activity_ok s"
    using assms by (induction rule: rtranclp_induct) (auto intro: act_step_ok)
  then show ?thesis
    using by_key_desc.sorted_sort [of act_time "ap_feed s"] by (simp add: ordered_feed_def by_key_desc_def)
qed

definition sample_memory :: memory where
  "sample_memory = \<lparr>memory_id = ''m1'', memory_content = Some ''/pause'',
     memory_created_at = ''2026-01-02T00:00:00'', memory_source = Missing, memory_tags = Val [''chat'']\<rparr>"

definition seeded_activity :: activity_page where
  "seeded_activity = initial_activity\<lparr>ap_seed := Some ([map_board_chat ''Ada'' no_refs sample_memory ''b1''],
     [''chat:m1''])\<rparr>"

lemma activity_feed_witness:
  "\<exists>s. act_step\<^sup>*\<^sup>* initial_activity s \<and> activity_ok s \<and>
     s = highlight_selection (Some ''chat:m1'') (signed_out (begin_activity_load initial_activity))"
proof -
  let ?s = "highlight_selection (Some ''chat:m1'') (signed_out (begin_activity_load initial_activity))"
  have "act_step\<^sup>*\<^sup>* initial_activity ?s"
    by (meson as_begin as_select as_sign_out converse_rtranclp_into_rtranclp rtranclp.rtrancl_refl)
  then show ?thesis using activity_feed_invariant [of ?s] by blast
qed

lemma finish_activity_load_feed:
  fixes seeded :: "act_item list" and s :: activity_page
  defines "shown_items \<equiv> ap_feed (finish_activity_load seeded s)"
  shows "set shown_items \<subseteq> set seeded \<and> length shown_items = min 300 (length seeded) \<and>
         sorted_wrt (\<lambda>a b. act_time b \<le> act_time a) shown_items \<and>
         (\<forall>a b. a \<in> set seeded \<and> a \<notin> set shown_items \<and> b \<in> set shown_items \<longrightarrow> act_time a \<le> act_time b)"
proof -
  let ?l = "js_sort (by_key_desc act_time) seeded"
  let ?n = "take 300 ?l"
  have f: "shown_items = ?n"
    by (simp add: shown_items_def finish_activity_load_def Let_def max_feed_items_def)
  have sorted: "sorted_wrt (\<lambda>a b. act_time b \<le> act_time a) (?n @ drop 300 ?l)"
    using by_key_desc.sorted_sort [of act_time seeded] by (simp add: by_key_desc_def)
  have all: "set seeded = set ?n \<union> set (drop 300 ?l)"
    by (metis append_take_drop_id set_append set_js_sort)
  show ?thesis
    unfolding f using sorted all unfolding sorted_wrt_append by auto
qed

lemma pushed_out_stays_out:
  assumes "activity_ok s" and "length (ap_feed s) = 300" and "ai_id x \<notin> set (ap_seen s)"
  shows "x \<in> set (ap_feed (push_feed_item x s)) \<and> last (ap_feed s) \<notin> set (ap_feed (push_feed_item x s)) \<and>
         push_feed_item (last (ap_feed s)) (push_feed_item x s) = push_feed_item x s"
proof -
  obtain ys y where feed: "ap_feed s = ys @ [y]" using assms(2) by (cases "ap_feed s" rule: rev_cases) auto
  have d: "distinct (map ai_id (ap_feed s))" and seen: "ai_id ` set (ap_feed s) \<subseteq> set (ap_seen s)"
    using assms(1) by (simp_all add: activity_ok_def)
  have t: "ap_feed (push_feed_item x s) = x # ys" "ap_seen (push_feed_item x s) = ai_id x # ap_seen s"
    using assms(2,3) by (simp_all add: push_feed_item_def max_feed_items_def feed)
  have "y \<notin> set (x # ys)" using d seen assms(3) feed by auto
  moreover have "ai_id y \<in> set (ap_seen (push_feed_item x s))" using seen feed t by auto
  ultimately show ?thesis
    using seen_stays_out [of y "push_feed_item x s"] t feed by simp
qed

text \<open>The end of a load shows the newest 300 of the items it gathered, newest first, and
  nothing else: an item that a stream delivered during the load and that the load did not gather
  is dropped. And an item that a new one pushes out of a full feed stays out when a stream
  delivers it again.\<close>

lemma load_replaces_feed:
  assumes "activity_ok s" and "length (ap_feed s) = 300" and "ai_id x \<notin> set (ap_seen s)"
    and "x \<notin> set seeded"
  shows "(let nxt = ap_feed (finish_activity_load seeded (push_feed_item x s))
          in x \<notin> set nxt \<and> set nxt \<subseteq> set seeded \<and> length nxt = min 300 (length seeded) \<and>
             sorted_wrt (\<lambda>a b. act_time b \<le> act_time a) nxt \<and>
             (\<forall>a b. a \<in> set seeded \<and> a \<notin> set nxt \<and> b \<in> set nxt \<longrightarrow> act_time a \<le> act_time b)) \<and>
         (let y = last (ap_feed s); t = push_feed_item x s
          in x \<in> set (ap_feed t) \<and> y \<notin> set (ap_feed t) \<and> push_feed_item y t = t)"
  using finish_activity_load_feed [where seeded = seeded and s = "push_feed_item x s"]
    pushed_out_stays_out [OF assms(1-3)] assms(4)
  by (simp add: Let_def) blast

definition numbered_item :: "nat \<Rightarrow> act_item" where
  "numbered_item n = (map_board_chat ''Ada'' no_refs sample_memory ''b1'')\<lparr>ai_id := replicate n CHR ''x''\<rparr>"

definition full_activity :: activity_page where
  "full_activity = initial_activity\<lparr>ap_feed := map numbered_item [0..<300],
     ap_seen := map ai_id (map numbered_item [0..<300])\<rparr>"

lemma load_replaces_feed_witness:
  "numbered_item 300 \<in> set (ap_feed (push_feed_item (numbered_item 300) full_activity)) \<and>
   ap_feed (finish_activity_load [numbered_item 1] (push_feed_item (numbered_item 300) full_activity)) =
     [numbered_item 1] \<and>
   push_feed_item (last (ap_feed full_activity)) (push_feed_item (numbered_item 300) full_activity) =
     push_feed_item (numbered_item 300) full_activity"
proof -
  have id: "ai_id (numbered_item n) = replicate n CHR ''x''" for n by (simp add: numbered_item_def)
  have ids: "map ai_id (map numbered_item [0..<300]) = map (\<lambda>n. replicate n CHR ''x'') [0..<300]"
    by (simp only: map_map comp_def id)
  have inj: "inj (\<lambda>n. replicate n CHR ''x'')" by (rule injI) simp
  have "distinct (map (\<lambda>n. replicate n CHR ''x'') [0..<300])"
    unfolding distinct_map using inj by (simp add: inj_on_def)
  then have ok: "activity_ok full_activity"
    unfolding activity_ok_def full_activity_def
    by (simp only: activity_page.simps ids initial_activity_def length_map length_upt) (auto simp: id)
  have len: "length (ap_feed full_activity) = 300"
    by (simp only: full_activity_def activity_page.simps length_map length_upt) simp
  have "replicate 300 CHR ''x'' \<notin> (\<lambda>n. replicate n CHR ''x'') ` {0..<300}"
    by (metis (no_types, lifting) atLeastLessThan_iff imageE length_replicate less_irrefl)
  then have new: "ai_id (numbered_item 300) \<notin> set (ap_seen full_activity)"
    by (simp only: full_activity_def activity_page.simps ids id set_map set_upt) simp
  have "ai_id (numbered_item 300) \<noteq> ai_id (numbered_item 1)"
    unfolding id using injD [OF inj, of 300 1] by fastforce
  then have "numbered_item 300 \<notin> set [numbered_item 1]" by auto
  note r = load_replaces_feed [OF ok len new this]
  have "ap_feed (finish_activity_load [numbered_item 1] (push_feed_item (numbered_item 300) full_activity)) =
      [numbered_item 1]"
    by (simp add: finish_activity_load_def Let_def max_feed_items_def)
  with r show ?thesis unfolding Let_def by blast
qed

text \<open>The activity page and the live feed of the board page agree: for the same approval,
  agent update or chat message (of a user without a display name of its own on the activity
  page) both make an item with the same id, time, kind and message, and both ignore the same
  agent updates.\<close>

lemma feeds_agree:
  "(let i = map_approval_event user r a board previous; j = to_live_feed_from_approval a previous
    in ai_id i = lf_id j \<and> ai_created_at i = lf_created_at j \<and> ai_event i = lf_event j \<and>
       ai_message i = lf_message j \<and> ai_task_id i = lf_task_id j) \<and>
   map_option (\<lambda>i. (ai_id i, ai_created_at i, ai_event i, ai_message i)) (map_agent_event r g old False) =
     map_option (\<lambda>j. (lf_id j, lf_created_at j, lf_event j, lf_message j)) (to_live_feed_from_agent_update g old) \<and>
   (let i = map_board_chat default_human_label r m board; j = to_live_feed_from_board_chat m
    in ai_id i = lf_id j \<and> ai_created_at i = lf_created_at j \<and> ai_event i = lf_event j \<and>
       ai_message i = lf_message j \<and> Val (ai_actor_name i) = lf_actor_name j \<and> Val (ai_title i) = lf_title j)"
proof -
  have kind: "approval_kind a previous = approval_event a previous"
    by (auto simp: approval_kind_def approval_event_def Let_def split: option.splits)
  have agent: "agent_kind g old False = agent_event g old"
    by (auto simp: agent_kind_def agent_event_def normalize_status_def normalize_agent_status_def Let_def
        split: option.splits)
  have approvals: "let i = map_approval_event user r a board previous; j = to_live_feed_from_approval a previous
    in ai_id i = lf_id j \<and> ai_created_at i = lf_created_at j \<and> ai_event i = lf_event j \<and>
       ai_message i = lf_message j \<and> ai_task_id i = lf_task_id j"
    by (simp add: map_approval_event_def to_live_feed_from_approval_def Let_def kind
        act_humanize_approval_action_def humanize_live_feed_approval_action_def split: prod.split)
  have agents: "map_option (\<lambda>i. (ai_id i, ai_created_at i, ai_event i, ai_message i)) (map_agent_event r g old False) =
     map_option (\<lambda>j. (lf_id j, lf_created_at j, lf_event j, lf_message j)) (to_live_feed_from_agent_update g old)"
    by (simp add: map_agent_event_def to_live_feed_from_agent_update_def Let_def agent agent_stamp_def
        normalize_status_def normalize_agent_status_def humanize_status_def humanize_agent_status_def
        split: option.split)
  show ?thesis
    using approvals agents by (simp add: map_board_chat_def to_live_feed_from_board_chat_def Let_def)
qed

lemma comment_link_query:
  assumes "board = coalesce_opt (Option.bind (meta_of r (comment_task_id c)) tm_board_id) fallback"
    and "board \<noteq> []" and "comment_task_id c = Some t" and "t \<noteq> []"
    and "ai_context_href (map_task_comment user r c fallback) = Some href"
  shows "takeWhile (\<lambda>c. c \<noteq> CHR ''?'') href = board_path board \<and>
         parse_query (tl (dropWhile (\<lambda>c. c \<noteq> CHR ''?'') href)) = [(''taskId'', t), (''commentId'', comment_id c)]"
proof -
  let ?ps = "[(''boardId'', board), (''taskId'', t), (''commentId'', comment_id c)]"
  have q: "board_query ?ps = [(''taskId'', t), (''commentId'', comment_id c)]"
    by (simp add: board_query_def params_delete_def)
  have b: "params_get ''boardId'' ?ps = Some board" by (simp add: params_get_def)
  have "\<exists>fb. href = build_route_href (Some ''board'') ?ps fb"
    using assms by (auto simp: map_task_comment_def task_route_def truthy_def Let_def split: prod.splits)
  then obtain fb where h: "href = build_route_href (Some ''board'') ?ps fb" by blast
  have "params_to_string (board_query ?ps) \<noteq> []" by (simp add: q params_to_string_def)
  from board_link_query [OF _ h this] b assms(2) q show ?thesis by (simp add: truthy_def)
qed

lemma chat_link_query:
  assumes "board \<noteq> []" and "ai_context_href (map_board_chat user r m board) = Some href"
  shows "takeWhile (\<lambda>c. c \<noteq> CHR ''?'') href = board_path board \<and>
         parse_query (tl (dropWhile (\<lambda>c. c \<noteq> CHR ''?'') href)) = [(''panel'', ''chat'')]"
proof -
  let ?ps = "[(''boardId'', board), (''panel'', ''chat'')]"
  have q: "board_query ?ps = [(''panel'', ''chat'')]" by (simp add: board_query_def params_delete_def)
  have b: "params_get ''boardId'' ?ps = Some board" by (simp add: params_get_def)
  have "\<exists>fb. href = build_route_href (Some ''board'') ?ps fb"
    using assms by (auto simp: map_board_chat_def Let_def)
  then obtain fb where h: "href = build_route_href (Some ''board'') ?ps fb" by blast
  have "params_to_string (board_query ?ps) \<noteq> []" by (simp add: q params_to_string_def)
  from board_link_query [OF _ h this] b assms(1) q show ?thesis by (simp add: truthy_def)
qed

lemma find_by_id: "i \<in> f ` set xs \<Longrightarrow> \<exists>x. List.find (\<lambda>x. f x = i) xs = Some x \<and> f x = i"
  by (induction xs) auto

lemma task_url_opens:
  assumes "rq_loaded (pg_req p)" and "can_call p" and "query_of p = [(''taskId'', t), (''commentId'', cid)]"
    and "t \<noteq> []" and "cid \<noteq> []" and "pn_opened_task (pg_panels p) \<noteq> Some t"
    and "lv_tasks_ref p = lv_tasks p" and "t \<in> tr_id ` set (lv_tasks p)"
  shows "let p' = fst (task_url_effect p)
         in pn_detail (pg_panels p') \<and> lv_selected_ref p' = Some t \<and> snd (task_url_effect p) = Some t \<and>
            query_of p' = query_of p"
proof -
  obtain u where u: "List.find (\<lambda>x. tr_id x = t) (lv_tasks p) = Some u" "tr_id u = t"
    using find_by_id [OF assms(8)] by blast
  have "list_ex (\<lambda>x. tr_id x = t) (lv_tasks p)" using assms(8) by (auto simp: list_ex_iff)
  with assms u show ?thesis
    by (simp add: task_url_effect_def open_comments_def params_get_def query_of_def with_panels_def with_req_def
        begin_load_comments_def can_call_def Let_def)
qed

text \<open>The links of the activity page lead where they say. Following the link of a comment
  goes to the board of the comment, and there, once the board is loaded and has the task, the
  page opens the task's details, keeps the comment in its query and highlights it as soon as
  it is loaded. Following the link of a chat message opens the board's chat.\<close>

lemma links_open_panels:
  assumes "board \<noteq> []" and "comment_task_id c = Some t" and "t \<noteq> []" and "comment_id c \<noteq> []"
    and "coalesce_opt (Option.bind (meta_of r (comment_task_id c)) tm_board_id) fallback = board"
    and "ai_context_href (map_task_comment user r c fallback) = Some href"
    and "ai_context_href (map_board_chat user r m board) = Some href'"
    and "rq_loaded (pg_req p)" and "can_call p" and "lv_tasks_ref p = lv_tasks p" and "t \<in> tr_id ` set (lv_tasks p)"
    and "query_of p = parse_query (tl (dropWhile (\<lambda>c. c \<noteq> CHR ''?'') href))"
    and "pn_opened_task (pg_panels p) \<noteq> Some t"
    and "rq_loaded (pg_req q)" and "query_of q = parse_query (tl (dropWhile (\<lambda>c. c \<noteq> CHR ''?'') href'))"
    and "\<not> pn_opened_panel (pg_panels q)"
  shows "takeWhile (\<lambda>c. c \<noteq> CHR ''?'') href = board_path board \<and>
         takeWhile (\<lambda>c. c \<noteq> CHR ''?'') href' = board_path board \<and>
         (let p' = fst (task_url_effect p)
          in pn_detail (pg_panels p') \<and> lv_selected_ref p' = Some t \<and> snd (task_url_effect p) = Some t \<and>
             pn_highlighted (pg_panels (highlight_effect (p'\<lparr>lv_comments := c # cs\<rparr>))) = Some (comment_id c)) \<and>
         pn_chat (pg_panels (panel_url_effect q))"
proof -
  note cq = comment_link_query [OF assms(5) [symmetric] assms(1-3,6)]
  note mq = chat_link_query [OF assms(1,7)]
  have qp: "query_of p = [(''taskId'', t), (''commentId'', comment_id c)]" using assms(12) cq by simp
  have qq: "query_of q = [(''panel'', ''chat'')]" using assms(15) mq by simp
  let ?p = "fst (task_url_effect p)"
  have p: "pn_detail (pg_panels ?p)" "lv_selected_ref ?p = Some t" "snd (task_url_effect p) = Some t"
      "query_of ?p = query_of p"
    using task_url_opens [OF assms(8,9) qp assms(3,4,13,10,11)] by (simp_all add: Let_def)
  have "pn_highlighted (pg_panels (highlight_effect (?p\<lparr>lv_comments := c # cs\<rparr>))) = Some (comment_id c)"
    using p(1,4) qp assms(4) by (simp add: highlight_effect_def query_of_def params_get_def with_panels_def)
  moreover have "pn_chat (pg_panels (panel_url_effect q))"
    using assms(14,16) qq by (simp add: panel_url_effect_def params_get_def with_panels_def clear_selection_def with_req_def)
  ultimately show ?thesis using cq mq p by (simp add: Let_def)
qed

definition link_comment :: comment where
  "link_comment = \<lparr>comment_id = ''c1'', comment_created_at = ''2026-01-02T00:00:00'',
     comment_message = Some ''Done'', comment_agent_id = None, comment_task_id = Some ''t1''\<rparr>"

definition comment_href :: string where
  "comment_href = the (ai_context_href (map_task_comment ''Ada'' no_refs link_comment ''b1''))"

definition chat_href :: string where
  "chat_href = the (ai_context_href (map_board_chat ''Ada'' no_refs sample_memory ''b1''))"

definition page_at :: "string \<Rightarrow> page" where
  "page_at href = with_req (\<lambda>r. r\<lparr>rq_loaded := True\<rparr>)
     (with_panels (\<lambda>n. n\<lparr>pn_query := parse_query (tl (dropWhile (\<lambda>c. c \<noteq> CHR ''?'') href))\<rparr>) sample_page)"

lemma links_open_panels_witness:
  "takeWhile (\<lambda>c. c \<noteq> CHR ''?'') comment_href = ''/boards/b1'' \<and>
   pn_highlighted (pg_panels (highlight_effect ((fst (task_url_effect (page_at comment_href)))
     \<lparr>lv_comments := [link_comment]\<rparr>))) = Some ''c1'' \<and>
   pn_chat (pg_panels (panel_url_effect (page_at chat_href)))"
proof -
  have path: "board_path ''b1'' = ''/boards/b1''" by code_simp
  have t: "tr_id sample_task = ''t1''" by (simp add: sample_task_def)
  have h: "ai_context_href (map_task_comment ''Ada'' no_refs link_comment ''b1'') = Some comment_href"
      "ai_context_href (map_board_chat ''Ada'' no_refs sample_memory ''b1'') = Some chat_href"
    by (simp_all add: comment_href_def chat_href_def map_task_comment_def map_board_chat_def Let_def split: prod.split)
  have "can_call (page_at href)" "lv_tasks_ref (page_at href) = lv_tasks (page_at href)"
      "''t1'' \<in> tr_id ` set (lv_tasks (page_at href))" "rq_loaded (pg_req (page_at href))"
      "query_of (page_at href) = parse_query (tl (dropWhile (\<lambda>c. c \<noteq> CHR ''?'') href))"
      "pn_opened_task (pg_panels (page_at href)) \<noteq> Some ''t1''" "\<not> pn_opened_panel (pg_panels (page_at href))"
    for href
    by (simp_all add: page_at_def with_req_def with_panels_def can_call_def query_of_def t closed_panels_def
        sample_page_fields [unfolded can_call_def])
  note p = this
  have b: "coalesce_opt (Option.bind (meta_of no_refs (comment_task_id link_comment)) tm_board_id) ''b1'' = ''b1''"
    by (simp add: meta_of_def no_refs_def js_simps)
  have c: "comment_task_id link_comment = Some ''t1''" "comment_id link_comment = ''c1''"
    by (simp_all add: link_comment_def)
  show ?thesis
    using links_open_panels [OF _ c(1) _ _ b h p(4) p(1-3) p(5,6) p(4,5,7), of "[]"]
    by (simp add: c(2) path Let_def)
qed

end
