(* ===== verification/Approvals.thy ===== *)
theory Approvals
  imports ActivityModel BoardView
begin

text \<open>
  The approvals panel (\<^verbatim>\<open>components/BoardApprovalsPanel.tsx\<close>): the reading of an approval's
  payload, whose shape varies with its producer (the tasks it refers to, their titles, the
  summary, the rubric scores), the order of the list, the selection, and a decision with the
  update of the cached list. Payloads are arbitrary JSON values.
\<close>

record panel_approval = approval_read +
  pa_board_id :: string
  pa_rubric_scores :: "jsvalue option"

section \<open>Normal form and labels\<close>

definition normalize_score :: "jsvalue \<Rightarrow> rat" where
  "normalize_score value = (case value of JNum q \<Rightarrow> q | _ \<Rightarrow> 0)"

definition panel_normalize_approval :: "panel_approval \<Rightarrow> panel_approval" where
  "panel_normalize_approval a =
     a\<lparr>approval_status := Some (coalesce_opt (approval_status a) ''pending''),
       approval_confidence := normalize_score (JNum (approval_confidence a))\<rparr>"

definition panel_format_timestamp :: "(int \<Rightarrow> string) \<Rightarrow> string option \<Rightarrow> string" where
  "panel_format_timestamp fmt value =
     (case value of
        None \<Rightarrow> em_dash
      | Some v \<Rightarrow> if v = [] then em_dash
                  else (case parse_api_datetime (Some v) of None \<Rightarrow> v | Some d \<Rightarrow> fmt d))"

definition panel_status_badge_class :: "string \<Rightarrow> string" where
  "panel_status_badge_class st =
     (if st = ''approved'' then ''bg-emerald-50 text-emerald-700''
      else if st = ''rejected'' then ''bg-rose-50 text-rose-700'' else ''bg-amber-100 text-amber-700'')"

definition confidence_badge_class :: "rat \<Rightarrow> string" where
  "confidence_badge_class confidence =
     (if confidence \<ge> 90 then ''bg-emerald-50 text-emerald-700''
      else if confidence \<ge> 80 then ''bg-amber-100 text-amber-700'' else ''bg-orange-100 text-orange-700'')"

definition words_of :: "string \<Rightarrow> string" where
  "words_of value = capitalize_words False (replace_chars (\<lambda>c. c = CHR ''_'') (CHR '' '') value)"

definition humanize_action :: "string \<Rightarrow> string" where
  "humanize_action value = join_with ('' '' @ middle_dot @ '' '') (map words_of (split_on (CHR ''.'') value))"

definition format_status_label :: "string \<Rightarrow> string" where
  "format_status_label st = words_of st"

definition rubric_colors :: "string list" where
  "rubric_colors = [''#0f172a'', ''#1d4ed8'', ''#10b981'', ''#f59e0b'', ''#ef4444'', ''#8b5cf6'']"

section \<open>Reading a payload\<close>

fun is_record :: "jsvalue \<Rightarrow> bool" where
  "is_record (JObj kvs) = True"
| "is_record _ = False"

fun walk_path :: "jsvalue \<Rightarrow> string list \<Rightarrow> jsvalue" where
  "walk_path current [] = (if nullish current then JNull else current)"
| "walk_path current (key # path) =
     (if \<not> is_record current then JNull else walk_path (member_at current key) path)"

definition payload_at_path :: "jsvalue \<Rightarrow> string list \<Rightarrow> jsvalue" where
  "payload_at_path payload path = walk_path payload path"

definition scalar_text :: "jsvalue \<Rightarrow> string option" where
  "scalar_text v = (case v of JStr s \<Rightarrow> Some s | JNum q \<Rightarrow> Some (num_to_string q) | _ \<Rightarrow> None)"

definition string_entries :: "jsvalue \<Rightarrow> string list" where
  "string_entries v = (case v of JArr vs \<Rightarrow> string_items vs | _ \<Rightarrow> [])"

definition payload_value :: "jsvalue \<Rightarrow> string \<Rightarrow> string option" where
  "payload_value payload key = scalar_text (payload_at_path payload [key])"

definition payload_values :: "jsvalue \<Rightarrow> string \<Rightarrow> string list" where
  "payload_values payload key = string_entries (payload_at_path payload [key])"

definition payload_nested_value :: "jsvalue \<Rightarrow> string list \<Rightarrow> string option" where
  "payload_nested_value payload path = scalar_text (payload_at_path payload path)"

definition payload_nested_values :: "jsvalue \<Rightarrow> string list \<Rightarrow> string list" where
  "payload_nested_values payload path = string_entries (payload_at_path payload path)"

fun first_text :: "string \<Rightarrow> jsvalue list \<Rightarrow> string option" where
  "first_text key [] = None"
| "first_text key (task # tasks) =
     (if \<not> is_record task then first_text key tasks
      else (case member_at task key of
              JStr s \<Rightarrow> if trim s \<noteq> [] then Some s else first_text key tasks
            | _ \<Rightarrow> first_text key tasks))"

definition payload_first_linked_task_value :: "jsvalue \<Rightarrow> string \<Rightarrow> string option" where
  "payload_first_linked_task_value payload key =
     (case payload_at_path payload [''linked_request'', ''tasks''] of
        JArr tasks \<Rightarrow> first_text key tasks | _ \<Rightarrow> None)"

section \<open>The tasks of an approval\<close>

definition panel_payload :: "panel_approval \<Rightarrow> jsvalue" where
  "panel_payload a = (case approval_payload a of
     None \<Rightarrow> JObj [] | Some v \<Rightarrow> if nullish v then JObj [] else v)"

definition approval_task_ids_in :: "panel_approval \<Rightarrow> string list" where
  "approval_task_ids_in a =
     (let payload = panel_payload a;
          single_task_id = first_of [or_null (approval_task_id a), payload_value payload ''task_id'',
            payload_value payload ''taskId'', payload_value payload ''taskID''];
          merged = coalesce_opt (approval_task_ids a) [] @
            payload_values payload ''task_ids'' @ payload_values payload ''taskIds'' @
            payload_values payload ''taskIDs'' @
            payload_nested_values payload [''linked_request'', ''task_ids''] @
            payload_nested_values payload [''linked_request'', ''taskIds''] @
            payload_nested_values payload [''linkedRequest'', ''task_ids''] @
            payload_nested_values payload [''linkedRequest'', ''taskIds''] @
            (if truthy single_task_id then [the single_task_id] else [])
      in dedup merged)"

text \<open>\<^verbatim>\<open>collectTaskTitles\<close>: the titles by task id and in order.\<close>

type_synonym titles = "(string \<times> string) list \<times> string list"

definition collect_title :: "titles \<Rightarrow> jsvalue \<Rightarrow> titles" where
  "collect_title c task =
     (if \<not> is_record task then c
      else let title = (case string_member task ''title'' of Some s \<Rightarrow> trim s | None \<Rightarrow> [])
        in if title = [] then c
           else let task_id = first_of [string_member task ''task_id'', string_member task ''taskId'',
                                          string_member task ''id'']
             in (if truthy task_id \<and> trim (the task_id) \<noteq> []
                 then AList.update (the task_id) title (fst c) else fst c, snd c @ [title]))"

definition collect_task_titles :: "jsvalue \<Rightarrow> string list \<Rightarrow> titles \<Rightarrow> titles" where
  "collect_task_titles payload path c =
     (case payload_at_path payload path of JArr tasks \<Rightarrow> foldl collect_title c tasks | _ \<Rightarrow> c)"

definition single_title_of :: "jsvalue \<Rightarrow> string option" where
  "single_title_of payload = first_of [payload_value payload ''title'',
     payload_nested_value payload [''task'', ''title''], payload_first_linked_task_value payload ''title'']"

definition indexed_titles_of :: "panel_approval \<Rightarrow> string list \<Rightarrow> string list" where
  "indexed_titles_of a ordered_titles =
     (let payload = panel_payload a
      in filter (\<lambda>s. length s > 0) (map trim
           (coalesce_opt (approval_task_titles a) [] @ ordered_titles @
            payload_values payload ''task_titles'' @ payload_values payload ''taskTitles'' @
            payload_nested_values payload [''linked_request'', ''task_titles''] @
            payload_nested_values payload [''linked_request'', ''taskTitles''] @
            payload_nested_values payload [''linkedRequest'', ''task_titles''] @
            payload_nested_values payload [''linkedRequest'', ''taskTitles''])))"

definition approval_related_tasks :: "panel_approval \<Rightarrow> (string \<times> string) list" where
  "approval_related_tasks a =
     (let payload = panel_payload a;
          task_ids = approval_task_ids_in a
      in if length task_ids = 0 then []
         else let (title_by_task_id, ordered_titles) =
                (collect_task_titles payload [''linkedRequest'', ''tasks'']
                  (collect_task_titles payload [''linked_request'', ''tasks''] ([], [])));
              indexed_titles = indexed_titles_of a ordered_titles;
              single_title = single_title_of payload
           in map (\<lambda>(task_id, index).
                (task_id, coalesce_opt (first_of [map_of title_by_task_id task_id,
                    if index < length indexed_titles then Some (indexed_titles ! index) else None,
                    if length task_ids = 1 then single_title else None]) ''Untitled task''))
              (zip task_ids [0..<length task_ids]))"

definition task_href :: "string \<Rightarrow> string \<Rightarrow> string" where
  "task_href board task = ''/boards/'' @ encode_uri_component board @ ''?taskId='' @ encode_uri_component task"

section \<open>Summaries\<close>

record approval_summary =
  sm_task_id :: "string option"
  sm_reason :: "string option"
  sm_rows :: "(string \<times> string) list"
  sm_description :: "string option"

definition summary_of :: "panel_approval \<Rightarrow> string option \<Rightarrow> approval_summary" where
  "summary_of a board_label =
     (let payload = panel_payload a;
          task_ids = approval_task_ids_in a;
          assigned = first_of [payload_value payload ''assigned_agent_id'',
            payload_value payload ''assignedAgentId'',
            payload_nested_value payload [''assignment'', ''agent_id''],
            payload_nested_value payload [''assignment'', ''agentId'']];
          reason = first_of [payload_value payload ''reason'',
            payload_nested_value payload [''decision'', ''reason'']];
          title = single_title_of payload;
          description = first_of [payload_value payload ''description'',
            payload_nested_value payload [''task'', ''description''],
            payload_first_linked_task_value payload ''description''];
          role = payload_value payload ''role'';
          row_if = (\<lambda>label v. if truthy v then [(label, the v)] else [])
      in \<lparr>sm_task_id = (case task_ids of [] \<Rightarrow> None | t # ts \<Rightarrow> Some t), sm_reason = reason,
          sm_rows = row_if ''Board'' board_label @
            (if length task_ids = 1 then [(''Task'', hd task_ids)] else []) @
            (if length task_ids > 1 then [(''Tasks'', join_with '', '' task_ids)] else []) @
            (if includes_str (approval_action_type a) ''assign''
             then [(''Assignee'', coalesce_opt assigned ''Unassigned'')] else []) @
            row_if ''Title'' title @ row_if ''Role'' role,
          sm_description = description\<rparr>)"

text \<open>What a card of the list shows.\<close>

definition row_value :: "(string \<Rightarrow> bool) \<Rightarrow> approval_summary \<Rightarrow> string option" where
  "row_value p summary = map_option snd (List.find (\<lambda>row. p (to_lower (fst row))) (sm_rows summary))"

definition primary_label :: "approval_summary \<Rightarrow> string" where
  "primary_label summary =
     coalesce_opt (first_of [row_value (\<lambda>l. l = ''title'') summary,
       row_value (\<lambda>l. l \<noteq> ''title'' \<and> l \<noteq> ''board'') summary]) ''Untitled''"

definition board_text :: "approval_summary \<Rightarrow> string option" where
  "board_text summary =
     (case row_value (\<lambda>l. l = ''board'') summary of
        None \<Rightarrow> None
      | Some b \<Rightarrow> if b \<noteq> primary_label summary then Some b else None)"

definition extra_rows :: "approval_summary \<Rightarrow> (string \<times> string) list" where
  "extra_rows summary =
     filter (\<lambda>row. to_lower (fst row) \<notin> {''title'', ''task'', ''tasks'', ''assignee''}) (sm_rows summary)"

section \<open>Rubric scores\<close>

text \<open>\<^verbatim>\<open>Number(text)\<close>: None for a text that is no finite number. A blank text is zero.\<close>

definition text_to_number :: "string \<Rightarrow> rat option" where
  "text_to_number s = (if trim s = [] then Some 0 else js_number (trim s))"

definition normalize_rubric_scores :: "jsvalue \<Rightarrow> (string \<times> rat) list" where
  "normalize_rubric_scores raw =
     (case raw of
        JObj kvs \<Rightarrow>
          foldl (\<lambda>acc (key, q). AList.update key q acc) [] (concat (map (\<lambda>(key, value).
            case (case value of JNum q \<Rightarrow> Some q | JStr s \<Rightarrow> text_to_number s | _ \<Rightarrow> None) of
              None \<Rightarrow> [] | Some q \<Rightarrow> [(key, q)]) kvs))
      | _ \<Rightarrow> [])"

definition payload_rubric_scores :: "jsvalue \<Rightarrow> (string \<times> rat) list" where
  "payload_rubric_scores payload =
     normalize_rubric_scores (payload_at_path payload [''analytics'', ''rubric_scores''])"

definition rubric_score_source :: "panel_approval \<Rightarrow> (string \<times> rat) list" where
  "rubric_score_source a =
     (let own = normalize_rubric_scores (coalesce_opt (pa_rubric_scores a) JUndef)
      in if length own > 0 then own else payload_rubric_scores (coalesce_opt (approval_payload a) JUndef))"

definition rubric_total :: "(string \<times> rat) list \<Rightarrow> rat" where
  "rubric_total entries = foldl (\<lambda>total e. total + snd e) 0 entries"

definition has_rubric :: "(string \<times> rat) list \<Rightarrow> bool" where
  "has_rubric entries \<longleftrightarrow> length entries > 0 \<and> rubric_total entries > 0"

record rubric_slice =
  rs_key :: string
  rs_name :: string
  rs_value :: rat
  rs_percent :: rat
  rs_fill :: string

definition rubric_chart_data :: "(string \<times> rat) list \<Rightarrow> rubric_slice list" where
  "rubric_chart_data entries =
     map (\<lambda>((key, value), index).
       \<lparr>rs_key = replace_runs (\<lambda>c. \<not> (is_digit c \<or> is_lower c)) (CHR ''_'') (to_lower (words_of key)),
        rs_name = words_of key, rs_value = value,
        rs_percent = (if rubric_total entries > 0 then value / rubric_total entries * 100 else 0),
        rs_fill = rubric_colors ! (index mod length rubric_colors)\<rparr>)
     (zip entries [0..<length entries])"

section \<open>The panel\<close>

text \<open>The approvals come from the parent or from the panel's own query, whose answer is a status
  and a list (None while there is none).\<close>

record approvals_panel =
  pl_external :: "panel_approval list option"
  pl_query :: "(int \<times> panel_approval list) option"
  pl_error :: "string option"
  pl_updating :: "string option"
  pl_selected :: "string option"

definition panel_approvals :: "approvals_panel \<Rightarrow> panel_approval list" where
  "panel_approvals p =
     map panel_normalize_approval
       (case pl_external p of
          Some items \<Rightarrow> items
        | None \<Rightarrow> (case pl_query p of Some (st, items) \<Rightarrow> if st = 200 then items else [] | None \<Rightarrow> []))"

definition approval_time :: "panel_approval \<Rightarrow> int" where
  "approval_time a = time_or_zero (approval_created_at a)"

definition is_pending :: "panel_approval \<Rightarrow> bool" where
  "is_pending a \<longleftrightarrow> approval_status a = Some ''pending''"

definition sorted_approvals :: "panel_approval list \<Rightarrow> panel_approval list \<times> panel_approval list" where
  "sorted_approvals approvals =
     (js_sort (by_key_desc approval_time) (filter is_pending approvals),
      js_sort (by_key_desc approval_time) (filter (\<lambda>a. \<not> is_pending a) approvals))"

definition ordered_approvals :: "panel_approval list \<Rightarrow> panel_approval list" where
  "ordered_approvals approvals = fst (sorted_approvals approvals) @ snd (sorted_approvals approvals)"

definition effective_selected_id :: "approvals_panel \<Rightarrow> string option" where
  "effective_selected_id p =
     (case ordered_approvals (panel_approvals p) of
        [] \<Rightarrow> None
      | first # rest \<Rightarrow>
          (if truthy (pl_selected p) \<and>
              list_ex (\<lambda>a. approval_id a = the (pl_selected p)) (ordered_approvals (panel_approvals p))
           then pl_selected p else Some (approval_id first)))"

definition selected_approval :: "approvals_panel \<Rightarrow> panel_approval option" where
  "selected_approval p =
     (if truthy (effective_selected_id p)
      then List.find (\<lambda>a. approval_id a = the (effective_selected_id p)) (ordered_approvals (panel_approvals p))
      else None)"

definition select_approval :: "string \<Rightarrow> approvals_panel \<Rightarrow> approvals_panel" where
  "select_approval i p = p\<lparr>pl_selected := Some i\<rparr>"

definition pending_next :: "string \<Rightarrow> panel_approval list \<Rightarrow> string option" where
  "pending_next i approvals =
     (case js_sort (by_key_desc approval_time) (filter is_pending (filter (\<lambda>a. approval_id a \<noteq> i) approvals)) of
        [] \<Rightarrow> None | a # as \<Rightarrow> Some (approval_id a))"

text \<open>What a decision starts: the parent's callback, the panel's own request, or nothing.\<close>

datatype decision = To_parent string string | Patch_approval string string string | No_request

definition handle_decision ::
  "bool \<Rightarrow> bool \<Rightarrow> string \<Rightarrow> string \<Rightarrow> string \<Rightarrow> approvals_panel \<Rightarrow> approvals_panel \<times> decision" where
  "handle_decision has_callback signed_in board i st p =
     (let nxt = pending_next i (panel_approvals p);
          p1 = (if truthy nxt then p\<lparr>pl_selected := nxt\<rparr> else p)
      in if has_callback then (p1, To_parent i st)
         else if pl_external p \<noteq> None then (p1, No_request)
         else if \<not> signed_in \<or> board = [] then (p1, No_request)
         else (p1\<lparr>pl_updating := Some i, pl_error := None\<rparr>, Patch_approval board i st))"

text \<open>The end of the request: success with a status and an approval, or an error; then the query
  is invalidated.\<close>

definition decision_succeeded :: "string \<Rightarrow> int \<times> panel_approval \<Rightarrow> approvals_panel \<Rightarrow> approvals_panel" where
  "decision_succeeded i result p =
     (if fst result \<noteq> 200 then p
      else p\<lparr>pl_query := (case pl_query p of
               None \<Rightarrow> None
             | Some (st, items) \<Rightarrow>
                 if st \<noteq> 200 then Some (st, items)
                 else Some (st, map (\<lambda>a. if approval_id a = i then snd result else a) items))\<rparr>)"

definition decision_failed :: "string \<Rightarrow> approvals_panel \<Rightarrow> approvals_panel" where
  "decision_failed message p =
     p\<lparr>pl_error := Some (if message = [] then ''Unable to update approval.'' else message)\<rparr>"

definition decision_settled :: "approvals_panel \<Rightarrow> approvals_panel" where
  "decision_settled p = p\<lparr>pl_updating := None\<rparr>"

definition panel_error :: "string option \<Rightarrow> string option \<Rightarrow> approvals_panel \<Rightarrow> string option" where
  "panel_error external_error query_error p =
     (if pl_external p \<noteq> None then external_error else first_of [pl_error p, query_error])"

section \<open>Facts\<close>

lemma set_ordered [simp]: "set (ordered_approvals as) = set as"
  by (auto simp: ordered_approvals_def sorted_approvals_def)

lemma normalized_status [simp]: "\<exists>st. approval_status (panel_normalize_approval a) = Some st"
  by (simp add: panel_normalize_approval_def)

lemma panel_normalize_id [simp]: "approval_id (panel_normalize_approval a) = approval_id a"
  by (simp add: panel_normalize_approval_def)

lemma pending_next_newest:
  assumes "pending_next i as = Some j"
  obtains a where "a \<in> set as" "approval_id a = j" "is_pending a" "j \<noteq> i"
    "\<And>b. b \<in> set as \<Longrightarrow> is_pending b \<Longrightarrow> approval_id b \<noteq> i \<Longrightarrow> approval_time b \<le> approval_time a"
proof -
  let ?xs = "js_sort (by_key_desc approval_time) (filter is_pending (filter (\<lambda>a. approval_id a \<noteq> i) as))"
  obtain a rest where xs: "?xs = a # rest" and j: "approval_id a = j"
    using assms by (auto simp: pending_next_def split: list.splits)
  have s: "sorted_wrt (\<lambda>a b. approval_time b \<le> approval_time a) ?xs"
    using by_key_desc.sorted_sort [of approval_time "filter is_pending (filter (\<lambda>a. approval_id a \<noteq> i) as)"]
    by (simp add: by_key_desc_def)
  have mem: "b \<in> set ?xs \<longleftrightarrow> b \<in> set as \<and> is_pending b \<and> approval_id b \<noteq> i" for b by auto
  have "a \<in> set ?xs" using xs by simp
  then have "a \<in> set as" "is_pending a" "approval_id a \<noteq> i" using mem by blast+
  moreover have "approval_time b \<le> approval_time a"
    if "b \<in> set as" "is_pending b" "approval_id b \<noteq> i" for b
  proof -
    have "b \<in> set (a # rest)" using mem [of b] that unfolding xs by blast
    with s show ?thesis unfolding xs by auto
  qed
  ultimately show ?thesis using j by (intro that [of a]) auto
qed

lemma pending_next_None:
  "pending_next i as = None \<Longrightarrow> a \<in> set as \<Longrightarrow> is_pending a \<Longrightarrow> approval_id a = i"
proof -
  assume n: "pending_next i as = None" and a: "a \<in> set as" "is_pending a"
  let ?xs = "js_sort (by_key_desc approval_time) (filter is_pending (filter (\<lambda>a. approval_id a \<noteq> i) as))"
  have "?xs = []" using n by (auto simp: pending_next_def split: list.splits)
  then have "filter is_pending (filter (\<lambda>a. approval_id a \<noteq> i) as) = []"
    by (metis length_0_conv length_js_sort)
  with a show ?thesis by (auto simp: filter_empty_conv)
qed

lemma find_in_distinct:
  assumes "distinct (map approval_id as)" and "x \<in> set as" and "set bs = set as"
  shows "List.find (\<lambda>a. approval_id a = approval_id x) bs = Some x"
proof (cases "List.find (\<lambda>a. approval_id a = approval_id x) bs")
  case None
  then show ?thesis using assms(2,3) by (auto simp: find_None_iff)
next
  case (Some y)
  then have "y \<in> set as" "approval_id y = approval_id x" using assms(3) by (auto simp: find_Some_iff)
  with assms(1,2) Some show ?thesis by (simp add: distinct_map inj_on_def)
qed

lemma selected_is:
  assumes "pl_selected p = Some (approval_id x)" and "approval_id x \<noteq> []" and "x \<in> set (panel_approvals p)"
    and "distinct (map approval_id (panel_approvals p))"
  shows "selected_approval p = Some x"
proof -
  have "x \<in> set (ordered_approvals (panel_approvals p))" using assms(3) by simp
  then have "effective_selected_id p = Some (approval_id x)"
    using assms(1,2) by (cases "ordered_approvals (panel_approvals p)")
      (auto simp: effective_selected_id_def truthy_def list_ex_iff)
  then show ?thesis
    using find_in_distinct [OF assms(4,3), of "ordered_approvals (panel_approvals p)"] assms(2)
    by (simp add: selected_approval_def truthy_def)
qed

text \<open>The list after the answer to a decision.\<close>

lemma panel_after_success:
  assumes "pl_external p = None" and "pl_query p = Some (200, items)"
  shows "panel_approvals (decision_settled (decision_succeeded i (200, r) p)) =
    map (\<lambda>a. if approval_id a = i then panel_normalize_approval r else a) (panel_approvals p)"
  using assms by (auto simp: panel_approvals_def decision_settled_def decision_succeeded_def)

lemma count_replace:
  assumes "distinct (map approval_id as)" and "x \<in> set as" and "\<not> is_pending y"
  shows "length (filter is_pending (map (\<lambda>a. if approval_id a = approval_id x then y else a) as)) +
      (if is_pending x then 1 else 0) = length (filter is_pending as)"
  using assms
proof (induction as)
  case (Cons a as)
  show ?case
  proof (cases "approval_id a = approval_id x")
    case True
    then have "approval_id x \<notin> approval_id ` set as" using Cons.prems(1) by simp
    then have other: "approval_id b \<noteq> approval_id x" if "b \<in> set as" for b using that by (metis imageI)
    then have "map (\<lambda>a. if approval_id a = approval_id x then y else a) as = as"
      by (intro map_idI) simp
    moreover have "x = a" using other [of x] Cons.prems(2) by auto
    ultimately show ?thesis using Cons.prems(3) by simp
  next
    case False
    with Cons show ?thesis by auto
  qed
qed simp

lemma collect_title_nonempty:
  assumes "\<And>k v. map_of (fst c) k = Some v \<Longrightarrow> v \<noteq> []" and "map_of (fst (collect_title c task)) k = Some v"
  shows "v \<noteq> []"
  using assms(2) by (auto simp: collect_title_def Let_def update_conv split: if_splits dest: assms(1))

lemma collect_titles_nonempty:
  assumes "\<And>k v. map_of (fst c) k = Some v \<Longrightarrow> v \<noteq> []"
    and "map_of (fst (foldl collect_title c tasks)) k = Some v"
  shows "v \<noteq> []"
  using assms
proof (induction tasks arbitrary: c)
  case (Cons t tasks)
  show ?case
    by (rule Cons.IH [of "collect_title c t"]) (use Cons.prems collect_title_nonempty [of c] in auto)
qed auto

lemma titles_nonempty:
  assumes "\<And>k v. map_of (fst c) k = Some v \<Longrightarrow> v \<noteq> []"
    and "map_of (fst (collect_task_titles payload path c)) k = Some v"
  shows "v \<noteq> []"
  using assms collect_titles_nonempty [OF assms(1)]
  by (cases "payload_at_path payload path") (simp_all add: collect_task_titles_def)

lemma member_at_path:
  "is_record payload \<Longrightarrow> payload_at_path payload [key] =
     (if nullish (member_at payload key) then JNull else member_at payload key)"
  by (simp add: payload_at_path_def)

lemma first_of_Cons: "first_of (v # vs) = (case v of None \<Rightarrow> first_of vs | Some x \<Rightarrow> Some x)"
  by (cases v) simp_all

text \<open>On a payload that is an object, the panel reads what the board page reads.\<close>

lemma payload_readers_agree:
  assumes "is_record payload"
  shows "payload_value payload key = approval_payload_value payload key"
    and "payload_values payload key = approval_payload_values payload key"
proof -
  obtain kvs where p: "payload = JObj kvs" using assms by (cases payload) auto
  show "payload_value payload key = approval_payload_value payload key"
    by (cases "map_of kvs key"; auto simp: p payload_value_def payload_at_path_def member_at_def scalar_text_def
        approval_payload_value_def nullish_def js_simps split: jsvalue.split)
  show "payload_values payload key = approval_payload_values payload key"
    by (cases "map_of kvs key"; auto simp: p payload_values_def payload_at_path_def member_at_def
        string_entries_def approval_payload_values_def nullish_def js_simps split: jsvalue.split)
qed

section \<open>Properties\<close>

text \<open>C20: decisions work through the pending approvals. A decision sends one request for the
  approval it is about; when the server has answered with the decided approval, the list holds
  that answer in its place, the number of pending approvals has gone down by one if it was
  pending, and the panel shows the newest of the approvals that are still pending, if any.\<close>

lemma decisions_work_off:
  assumes "pl_external p = None" and "pl_query p = Some (200, items)" and "distinct (map approval_id items)"
    and "[] \<notin> approval_id ` set items" and "x \<in> set (panel_approvals p)" and "board \<noteq> []"
    and "approval_id r = approval_id x" and "\<not> is_pending (panel_normalize_approval r)"
    and "handle_decision False True board (approval_id x) st p = (p1, d)"
    and "p2 = decision_settled (decision_succeeded (approval_id x) (200, r) p1)"
  shows "d = Patch_approval board (approval_id x) st \<and> pl_updating p1 = Some (approval_id x) \<and>
         pl_updating p2 = None \<and>
         panel_approvals p2 = map (\<lambda>a. if approval_id a = approval_id x then panel_normalize_approval r else a)
           (panel_approvals p) \<and>
         length (filter is_pending (panel_approvals p2)) + (if is_pending x then 1 else 0) =
           length (filter is_pending (panel_approvals p)) \<and>
         (filter is_pending (panel_approvals p2) = [] \<or>
          (\<exists>a. selected_approval p2 = Some a \<and> is_pending a \<and>
             (\<forall>b. b \<in> set (filter is_pending (panel_approvals p2)) \<longrightarrow> approval_time b \<le> approval_time a)))"
proof -
  let ?i = "approval_id x" and ?A = "panel_approvals p"
  have ids: "map approval_id ?A = map approval_id items"
    using assms(1,2) by (simp add: panel_approvals_def comp_def)
  have p1: "p1 = p\<lparr>pl_selected := (if truthy (pending_next ?i ?A) then pending_next ?i ?A else pl_selected p),
      pl_updating := Some ?i, pl_error := None\<rparr>" and d: "d = Patch_approval board ?i st"
    using assms(1,6,9) by (auto simp: handle_decision_def Let_def split: if_splits)
  have same: "panel_approvals p1 = ?A" using assms(1,2) by (simp add: p1 panel_approvals_def)
  have A2: "panel_approvals p2 = map (\<lambda>a. if approval_id a = ?i then panel_normalize_approval r else a) ?A"
    using panel_after_success [of p1 items ?i r] assms(1,2) same by (simp add: assms(10) p1)
  have dist: "distinct (map approval_id ?A)" using ids assms(3) by simp
  have ids2: "map approval_id (panel_approvals p2) = map approval_id ?A"
    unfolding A2 using assms(7) by (simp add: comp_def)
  have mem: "b \<in> set ?A \<and> approval_id b \<noteq> ?i" if "b \<in> set (panel_approvals p2)" "is_pending b" for b
    using that assms(8) unfolding A2 by (auto split: if_splits)
  have count: "length (filter is_pending (panel_approvals p2)) + (if is_pending x then 1 else 0) =
      length (filter is_pending ?A)"
    unfolding A2 by (rule count_replace [OF dist assms(5,8)])
  have "filter is_pending (panel_approvals p2) = [] \<or>
      (\<exists>a. selected_approval p2 = Some a \<and> is_pending a \<and>
         (\<forall>b. b \<in> set (filter is_pending (panel_approvals p2)) \<longrightarrow> approval_time b \<le> approval_time a))"
  proof (cases "pending_next ?i ?A")
    case None
    then have "\<not> is_pending b" if "b \<in> set (panel_approvals p2)" for b
      using pending_next_None [OF None] mem [OF that] by blast
    then show ?thesis by simp
  next
    case (Some j)
    then obtain a where a: "a \<in> set ?A" "approval_id a = j" "is_pending a" "j \<noteq> ?i"
      "\<And>b. b \<in> set ?A \<Longrightarrow> is_pending b \<Longrightarrow> approval_id b \<noteq> ?i \<Longrightarrow> approval_time b \<le> approval_time a"
      by (rule pending_next_newest) blast
    have "approval_id a \<in> approval_id ` set items"
      using a(1) ids by (metis image_eqI set_map)
    with assms(4) have ne: "approval_id a \<noteq> []" by metis
    have in2: "a \<in> set (panel_approvals p2)" unfolding A2 using a by force
    have "pl_selected p2 = Some (approval_id a)"
      using Some a(2) ne by (simp add: assms(10) p1 decision_settled_def decision_succeeded_def truthy_def)
    from selected_is [OF this ne in2] dist ids2 have "selected_approval p2 = Some a" by simp
    with a(3,5) mem show ?thesis by auto
  qed
  moreover have "pl_updating p1 = Some ?i" "pl_updating p2 = None"
    by (simp_all add: p1 assms(10) decision_settled_def)
  ultimately show ?thesis using d A2 count by blast
qed

definition panel_item :: "string \<Rightarrow> string \<Rightarrow> string \<Rightarrow> jsvalue option \<Rightarrow> panel_approval" where
  "panel_item i st created payload =
     \<lparr>approval_id = i, approval_action_type = ''task.assign'', approval_status = Some st,
      approval_confidence = 80, approval_created_at = created, approval_resolved_at = Missing,
      approval_agent_id = Missing, approval_task_id = Val ''t1'', approval_task_ids = None,
      approval_task_titles = None, approval_payload = payload, pa_board_id = ''b1'', pa_rubric_scores = None\<rparr>"

definition sample_panel :: approvals_panel where
  "sample_panel = \<lparr>pl_external = None,
     pl_query = Some (200, [panel_item ''a1'' ''pending'' ''2026-01-01T00:00:00'' None,
                            panel_item ''a2'' ''pending'' ''2026-01-02T00:00:00'' None]),
     pl_error = None, pl_updating = None, pl_selected = None\<rparr>"

lemma decisions_work_off_witness:
  "snd (handle_decision False True ''b1'' ''a2'' ''approved'' sample_panel) = Patch_approval ''b1'' ''a2'' ''approved'' \<and>
   length (filter is_pending (panel_approvals (decision_settled (decision_succeeded ''a2''
     (200, panel_item ''a2'' ''approved'' ''2026-01-02T00:00:00'' None)
     (fst (handle_decision False True ''b1'' ''a2'' ''approved'' sample_panel)))))) = 1"
proof -
  let ?items = "[panel_item ''a1'' ''pending'' ''2026-01-01T00:00:00'' None,
     panel_item ''a2'' ''pending'' ''2026-01-02T00:00:00'' None]"
  let ?x = "panel_normalize_approval (panel_item ''a2'' ''pending'' ''2026-01-02T00:00:00'' None)"
  let ?r = "panel_item ''a2'' ''approved'' ''2026-01-02T00:00:00'' None"
  have x: "?x \<in> set (panel_approvals sample_panel)" "approval_id ?x = ''a2''"
    by (simp_all add: panel_approvals_def sample_panel_def) (simp add: panel_item_def)
  have pend: "filter is_pending (panel_approvals sample_panel) = panel_approvals sample_panel" "is_pending ?x"
      "\<not> is_pending (panel_normalize_approval ?r)" "length (panel_approvals sample_panel) = 2"
    by (simp_all add: panel_approvals_def sample_panel_def is_pending_def panel_normalize_approval_def
        panel_item_def js_simps)
  obtain p1 d where h: "handle_decision False True ''b1'' (approval_id ?x) ''approved'' sample_panel = (p1, d)"
    by fastforce
  have base: "pl_external sample_panel = None" "pl_query sample_panel = Some (200, ?items)"
      "distinct (map approval_id ?items)" "[] \<notin> approval_id ` set ?items" "''b1'' \<noteq> []" "approval_id ?r = approval_id ?x"
    by (simp_all add: sample_panel_def panel_item_def)
  note r = decisions_work_off [OF base(1-4) x(1) base(5,6) pend(3) h refl]
  have "d = Patch_approval ''b1'' ''a2'' ''approved''" using r x(2) by simp
  moreover have "length (filter is_pending (panel_approvals (decision_settled (decision_succeeded (approval_id ?x) (200, ?r) p1)))) = 1"
    using conjunct1 [OF conjunct2 [OF conjunct2 [OF conjunct2 [OF conjunct2 [OF r]]]]] pend by simp
  ultimately show ?thesis using h by (simp only: x(2) fst_conv snd_conv)
qed

text \<open>An approval's payload is read the same way whatever its shape: the tasks it refers to
  have no duplicates, every one of them is shown once, in that order, with a title (a blank one
  only where the payload of a single task has a blank title); and what the board page reads of
  an approval the panel reads too.\<close>

lemma approval_tasks_listed:
  "distinct (approval_task_ids_in a) \<and> map fst (approval_related_tasks a) = approval_task_ids_in a \<and>
   (\<forall>t. (t, []) \<in> set (approval_related_tasks a) \<longrightarrow>
      approval_task_ids_in a = [t] \<and> single_title_of (panel_payload a) = Some []) \<and>
   (is_record (panel_payload a) \<longrightarrow>
      set (approval_task_ids_of (approval_read.truncate a)) \<subseteq> set (approval_task_ids_in a))"
proof -
  let ?ids = "approval_task_ids_in a" and ?payload = "panel_payload a"
  have dist: "distinct ?ids" by (simp add: approval_task_ids_in_def Let_def)
  obtain by_task ordered where c: "collect_task_titles ?payload [''linkedRequest'', ''tasks'']
      (collect_task_titles ?payload [''linked_request'', ''tasks''] ([], [])) = (by_task, ordered)" by fastforce
  let ?idx = "indexed_titles_of a ordered"
  let ?title = "\<lambda>t n. coalesce_opt (first_of [map_of by_task t, if n < length ?idx then Some (?idx ! n) else None,
      if length ?ids = 1 then single_title_of ?payload else None]) ''Untitled task''"
  have rel: "approval_related_tasks a = map (\<lambda>(t, n). (t, ?title t n)) (zip ?ids [0..<length ?ids])"
    by (simp add: approval_related_tasks_def Let_def c)
  have "map fst (approval_related_tasks a) = map fst (zip ?ids [0..<length ?ids])"
    unfolding rel by (simp add: comp_def split_def)
  then have fsts: "map fst (approval_related_tasks a) = ?ids" by simp
  have map_ne: "map_of by_task t \<noteq> Some []" for t
    using titles_nonempty [of "collect_task_titles ?payload [''linked_request'', ''tasks''] ([], [])"
        ?payload "[''linkedRequest'', ''tasks'']" t "[]"]
      titles_nonempty [of "([], [])" ?payload "[''linked_request'', ''tasks'']"] c by auto
  have idx_ne: "?idx ! n \<noteq> []" if "n < length ?idx" for n
    using nth_mem [OF that] by (auto simp: indexed_titles_of_def Let_def)
  have blank: "length ?ids = 1 \<and> single_title_of ?payload = Some []" if "?title t n = []" for t n
    using that map_ne [of t] idx_ne [of n]
    by (cases "map_of by_task t"; cases "single_title_of ?payload")
      (auto simp: coalesce_opt_def split: if_splits)
  have "?ids = [t] \<and> single_title_of ?payload = Some []" if t: "(t, []) \<in> set (approval_related_tasks a)" for t
  proof -
    from t have "(t, []) \<in> (\<lambda>(t, n). (t, ?title t n)) ` set (zip ?ids [0..<length ?ids])"
      unfolding rel set_map .
    then obtain q where q: "q \<in> set (zip ?ids [0..<length ?ids])" "(t, []) = (\<lambda>(t, n). (t, ?title t n)) q"
      by (rule imageE)
    obtain n where n: "q = (t, n)" "?title t n = []"
      using q(2) by (metis (no_types, lifting) case_prod_conv prod.exhaust prod.inject)
    have "t \<in> set ?ids" using q(1) unfolding n(1) by (rule set_zip_leftD)
    moreover note blank [OF n(2)]
    ultimately have "length ?ids = 1" "single_title_of ?payload = Some []" "t \<in> set ?ids" by blast+
    then show ?thesis by (cases ?ids) auto
  qed
  moreover have "set (approval_task_ids_of (approval_read.truncate a)) \<subseteq> set ?ids" if "is_record ?payload"
  proof -
    have fields: "approval_task_id (approval_read.truncate a) = approval_task_id a"
        "approval_task_ids (approval_read.truncate a) = approval_task_ids a"
        "approval_payload (approval_read.truncate a) = approval_payload a"
      by (simp_all add: approval_read.truncate_def)
    have "approval_payload_value (payload_of (approval_read.truncate a)) key = payload_value ?payload key \<and>
        approval_payload_values (payload_of (approval_read.truncate a)) key = payload_values ?payload key" for key
      using payload_readers_agree [OF that, of key]
      by (auto simp: payload_of_def panel_payload_def fields js_simps nullish_def approval_payload_value_def
          approval_payload_values_def split: option.splits)
    then show ?thesis
      by (auto simp: approval_task_ids_of_def approval_task_ids_in_def Let_def fields js_simps truthy_def
          first_of_Cons split: option.splits)
  qed
  ultimately show ?thesis using dist fsts by blast
qed

lemma approval_tasks_listed_witness:
  "approval_task_ids_in (panel_item ''a1'' ''pending'' [] (Some (JObj [(''title'', JStr [])]))) = [''t1''] \<and>
   single_title_of (panel_payload (panel_item ''a1'' ''pending'' [] (Some (JObj [(''title'', JStr [])])))) = Some []"
proof -
  have "approval_related_tasks (panel_item ''a1'' ''pending'' [] (Some (JObj [(''title'', JStr [])]))) = [(''t1'', [])]"
    by code_simp
  then have "(''t1'', []) \<in> set (approval_related_tasks
      (panel_item ''a1'' ''pending'' [] (Some (JObj [(''title'', JStr [])]))))" by simp
  then show ?thesis
    using approval_tasks_listed [of "panel_item ''a1'' ''pending'' [] (Some (JObj [(''title'', JStr [])]))"] by blast
qed

end
