(* ===== verification/ChatComposer.thy ===== *)
theory ChatComposer
  imports BoardView BoardSteps
begin

text \<open>
  The message box of the chats (\<^verbatim>\<open>components/BoardChatComposer.tsx\<close>): which word at the caret
  is a mention, the menu of agents to complete it, the keys, and sending. The caret is an
  argument of the events, as the text area holds it; the timer that closes the menu after the
  focus is lost is pending (\<open>mc_close_timer\<close>) until it fires.
\<close>

section \<open>Mentions\<close>

definition mention_max_options :: nat where "mention_max_options = 8"

record mention_target =
  mt_start :: nat
  mt_end :: nat
  mt_query :: string

definition is_handle_char :: "char \<Rightarrow> bool" where
  "is_handle_char c \<longleftrightarrow> is_alnum c \<or> c = CHR ''_'' \<or> c = CHR ''-''"

definition is_letter :: "char \<Rightarrow> bool" where
  "is_letter c \<longleftrightarrow> is_upper c \<or> is_lower c"

definition normalize_mention_handle :: "string \<Rightarrow> string option" where
  "normalize_mention_handle raw =
     (let trimmed = dropWhile (\<lambda>c. c = CHR ''@'') (trim raw)
      in if trimmed = [] then None
         else let token = filter is_handle_char (takeWhile (\<lambda>c. \<not> is_ws c) trimmed)
           in if token = [] then None
              else if \<not> is_letter (hd token) then None
              else Some (to_lower (take 32 token)))"

text \<open>The match of \<^verbatim>\<open>MENTION_PATTERN\<close> on the text before the caret. The characters after the
  at sign are all those up to the caret that may be in a handle, since none of them is an at
  sign or white space.\<close>

definition match_mention :: "string \<Rightarrow> string option" where
  "match_mention prefix =
     (let q = rev (takeWhile is_handle_char (rev prefix))
      in case dropWhile is_handle_char (rev prefix) of
           [] \<Rightarrow> None
         | c # before \<Rightarrow>
             (if c = CHR ''@'' \<and> (before = [] \<or> is_ws (hd before)) \<and> length q \<le> 31 then Some q else None))"

definition find_mention_target :: "string \<Rightarrow> int \<Rightarrow> mention_target option" where
  "find_mention_target s caret =
     (if caret < 0 \<or> caret > int (length s) then None
      else case match_mention (take (nat caret) s) of
        None \<Rightarrow> None
      | Some q \<Rightarrow>
          (let query = to_lower q
           in Some \<lparr>mt_start = nat caret - length query - 1, mt_end = nat caret, mt_query = query\<rparr>))"

definition mention_options :: "string list \<Rightarrow> string list" where
  "mention_options suggestions = dedup (''lead'' # List.map_filter normalize_mention_handle suggestions)"

section \<open>The state and its events\<close>

record composer =
  mc_value :: string
  mc_target :: "mention_target option"
  mc_index :: nat
  mc_close_timer :: bool
  mc_refocus :: bool

definition initial_composer :: composer where
  "initial_composer = \<lparr>mc_value = [], mc_target = None, mc_index = 0, mc_close_timer = False, mc_refocus = False\<rparr>"

definition filtered_mention_options :: "string list \<Rightarrow> composer \<Rightarrow> string list" where
  "filtered_mention_options suggestions s =
     (case mc_target s of
        None \<Rightarrow> []
      | Some t \<Rightarrow> take mention_max_options
          (filter (\<lambda>h. starts_with h (mt_query t)) (mention_options suggestions)))"

definition active_index :: "string list \<Rightarrow> composer \<Rightarrow> nat" where
  "active_index suggestions s =
     (let n = length (filtered_mention_options suggestions s)
      in if n > 0 then min (mc_index s) (n - 1) else 0)"

definition refresh_mention_target :: "string \<Rightarrow> int \<Rightarrow> composer \<Rightarrow> composer" where
  "refresh_mention_target next_value caret s = s\<lparr>mc_target := find_mention_target next_value caret\<rparr>"

definition close_menu :: "composer \<Rightarrow> composer" where
  "close_menu s = s\<lparr>mc_target := None, mc_index := 0\<rparr>"

text \<open>A selection also tells where the next animation frame puts the caret.\<close>

definition apply_mention_selection :: "string \<Rightarrow> composer \<Rightarrow> composer \<times> nat option" where
  "apply_mention_selection handle s =
     (case mc_target s of
        None \<Rightarrow> (s, None)
      | Some t \<Rightarrow>
          (let replacement = ''@'' @ handle @ '' ''
           in (close_menu (s\<lparr>mc_value := take (mt_start t) (mc_value s) @ replacement @ drop (mt_end t) (mc_value s)\<rparr>),
               Some (mt_start t + length replacement))))"

definition begin_send :: "bool \<Rightarrow> bool \<Rightarrow> composer \<Rightarrow> string option" where
  "begin_send sending disabled s =
     (if sending \<or> disabled then None
      else let trimmed = trim (mc_value s) in if trimmed = [] then None else Some trimmed)"

definition finish_send :: "bool \<Rightarrow> composer \<Rightarrow> composer" where
  "finish_send sent s =
     (let s1 = s\<lparr>mc_refocus := True\<rparr>
      in if sent then close_menu (s1\<lparr>mc_value := []\<rparr>) else s1)"

definition sending_effect :: "bool \<Rightarrow> composer \<Rightarrow> composer \<times> bool" where
  "sending_effect sending s =
     (if sending \<or> \<not> mc_refocus s then (s, False) else (s\<lparr>mc_refocus := False\<rparr>, True))"

definition on_change :: "string \<Rightarrow> int \<Rightarrow> composer \<Rightarrow> composer" where
  "on_change next_value caret s = refresh_mention_target next_value caret (s\<lparr>mc_value := next_value\<rparr>)"

text \<open>A click, a released key and the focus look at the caret again.\<close>

definition on_caret :: "int \<Rightarrow> composer \<Rightarrow> composer" where
  "on_caret caret s = refresh_mention_target (mc_value s) caret s"

definition on_blur :: "composer \<Rightarrow> composer" where
  "on_blur s = s\<lparr>mc_close_timer := True\<rparr>"

definition fire_close_timer :: "composer \<Rightarrow> composer" where
  "fire_close_timer s = (if mc_close_timer s then close_menu (s\<lparr>mc_close_timer := False\<rparr>) else s)"

datatype key = Arrow_down | Arrow_up | Enter | Tab | Escape | Other_key

datatype key_result = Default_action | Prevented | Place_caret nat | Send string

definition on_key_down ::
  "string list \<Rightarrow> bool \<Rightarrow> bool \<Rightarrow> key \<Rightarrow> bool \<Rightarrow> bool \<Rightarrow> composer \<Rightarrow> composer \<times> key_result" where
  "on_key_down suggestions sending disabled k composing shift s =
     (let options = filtered_mention_options suggestions s; n = length options;
          otherwise =
            (if k \<noteq> Enter \<or> composing \<or> shift then (s, Default_action)
             else (s, case begin_send sending disabled s of None \<Rightarrow> Prevented | Some content \<Rightarrow> Send content))
      in if n > 0 \<and> mc_target s \<noteq> None then
           (case k of
              Arrow_down \<Rightarrow> (s\<lparr>mc_index := (mc_index s + 1) mod n\<rparr>, Prevented)
            | Arrow_up \<Rightarrow> (s\<lparr>mc_index := (mc_index s + n - 1) mod n\<rparr>, Prevented)
            | Escape \<Rightarrow> (close_menu s, Prevented)
            | Other_key \<Rightarrow> otherwise
            | _ \<Rightarrow> (case apply_mention_selection (options ! active_index suggestions s) s of
                     (s', Some caret) \<Rightarrow> (s', Place_caret caret)
                   | (s', None) \<Rightarrow> (s', Prevented)))
         else otherwise)"

text \<open>Everything that may happen to the box. The answer to a message is an event of its own.\<close>

datatype composer_event =
    Change string int
  | Caret int
  | Key_down key bool bool
  | Pick string
  | Blur
  | Close_timer
  | Sent bool

fun composer_step :: "string list \<Rightarrow> bool \<Rightarrow> composer_event \<Rightarrow> composer \<Rightarrow> composer" where
  "composer_step sg sending (Change v c) s = on_change v c s"
| "composer_step sg sending (Caret c) s = on_caret c s"
| "composer_step sg sending (Key_down k composing shift) s = fst (on_key_down sg sending False k composing shift s)"
| "composer_step sg sending (Pick h) s =
     (if h \<in> set (filtered_mention_options sg s) then fst (apply_mention_selection h s) else s)"
| "composer_step sg sending Blur s = on_blur s"
| "composer_step sg sending Close_timer s = fire_close_timer s"
| "composer_step sg sending (Sent sent) s = finish_send sent s"

section \<open>What a mention is\<close>

lemma not_handle_char: "is_ws c \<or> c = CHR ''@'' \<Longrightarrow> \<not> is_handle_char c"
  by (auto simp: is_handle_char_def is_alnum_def is_digit_def is_upper_def is_lower_def is_ws_def)

lemma length_to_lower [simp]: "length (to_lower s) = length s"
  by (simp add: to_lower_def)

lemma match_mention_Some:
  "match_mention p = Some q \<longleftrightarrow>
     (\<exists>a. p = a @ CHR ''@'' # q \<and> (a = [] \<or> is_ws (last a)) \<and> list_all is_handle_char q \<and> length q \<le> 31)"
proof
  assume m: "match_mention p = Some q"
  then obtain c b where d: "dropWhile is_handle_char (rev p) = c # b"
    by (auto simp: match_mention_def Let_def split: list.splits)
  with m have q: "q = rev (takeWhile is_handle_char (rev p))" and c: "c = CHR ''@''"
    and b: "b = [] \<or> is_ws (hd b)" and n: "length q \<le> 31"
    by (auto simp: match_mention_def Let_def split: if_splits)
  have "rev p = rev q @ c # b" using q d takeWhile_dropWhile_id [of is_handle_char "rev p"] by simp
  then have "p = rev b @ CHR ''@'' # q" using c by (metis append.assoc append_Cons append_Nil rev.simps(2) rev_append rev_rev_ident)
  moreover have "list_all is_handle_char q" unfolding q list_all_iff
    using set_takeWhileD by fastforce
  ultimately show "\<exists>a. p = a @ CHR ''@'' # q \<and> (a = [] \<or> is_ws (last a)) \<and> list_all is_handle_char q \<and> length q \<le> 31"
    using b n by (intro exI [of _ "rev b"]) (auto simp: last_rev)
next
  assume "\<exists>a. p = a @ CHR ''@'' # q \<and> (a = [] \<or> is_ws (last a)) \<and> list_all is_handle_char q \<and> length q \<le> 31"
  then obtain a where p: "p = a @ CHR ''@'' # q" and a: "a = [] \<or> is_ws (last a)"
    and q: "list_all is_handle_char q" "length q \<le> 31" by blast
  have at: "\<not> is_handle_char (CHR ''@'')" by (simp add: not_handle_char)
  have "takeWhile is_handle_char (rev q @ CHR ''@'' # rev a) = rev q"
    "dropWhile is_handle_char (rev q @ CHR ''@'' # rev a) = CHR ''@'' # rev a"
    using q(1) at by (simp_all add: list_all_iff takeWhile_append dropWhile_append)
  then show "match_mention p = Some q" using a q(2) by (auto simp: p match_mention_def hd_rev)
qed

text \<open>The words that open the menu, and what the target says of them.\<close>

lemma find_mention_target_iff:
  "find_mention_target s caret = Some t \<longleftrightarrow>
     (\<exists>a q b. s = a @ CHR ''@'' # q @ b \<and> caret = int (length a + 1 + length q) \<and>
        (a = [] \<or> is_ws (last a)) \<and> list_all is_handle_char q \<and> length q \<le> 31 \<and>
        t = \<lparr>mt_start = length a, mt_end = length a + 1 + length q, mt_query = to_lower q\<rparr>)"
  (is "?L \<longleftrightarrow> (\<exists>a q b. ?R a q b)")
proof
  assume L: ?L
  then have c: "0 \<le> caret" "nat caret \<le> length s"
    by (auto simp: find_mention_target_def split: if_splits)
  with L obtain q where m: "match_mention (take (nat caret) s) = Some q"
    and t: "t = \<lparr>mt_start = nat caret - length q - 1, mt_end = nat caret, mt_query = to_lower q\<rparr>"
    by (auto simp: find_mention_target_def Let_def split: if_splits option.splits)
  from m obtain a where a: "take (nat caret) s = a @ CHR ''@'' # q" "a = [] \<or> is_ws (last a)"
    "list_all is_handle_char q" "length q \<le> 31"
    unfolding match_mention_Some by blast
  have n: "nat caret = length a + 1 + length q" using arg_cong [OF a(1), of length] c(2) by simp
  have "s = a @ CHR ''@'' # q @ drop (nat caret) s"
    using a(1) append_take_drop_id [of "nat caret" s] by (metis append.assoc append_Cons)
  then show "\<exists>a q b. ?R a q b"
    using a n c(1) t by (intro exI [of _ a] exI [of _ q] exI [of _ "drop (nat caret) s"]) auto
next
  assume "\<exists>a q b. ?R a q b"
  then obtain a q b where r: "?R a q b" by blast
  then have "nat caret = length a + Suc (length q)" and "s = a @ (CHR ''@'' # q) @ b" by simp_all
  then have "take (nat caret) s = a @ CHR ''@'' # q" by simp
  then have "match_mention (take (nat caret) s) = Some q" using r match_mention_Some by blast
  with r show ?L by (auto simp: find_mention_target_def Let_def)
qed

lemma handle_char_lower: "is_handle_char c \<Longrightarrow> is_handle_char (lower_char c)"
  by (cases "is_upper c")
    (auto simp: lower_char_def is_handle_char_def is_alnum_def is_lower_def is_upper_def)

lemma mention_handle_chars:
  assumes "normalize_mention_handle raw = Some h"
  shows "h \<noteq> [] \<and> list_all is_handle_char h"
proof -
  from assms obtain t where "filter is_handle_char t \<noteq> []" "h = to_lower (take 32 (filter is_handle_char t))"
    by (auto simp: normalize_mention_handle_def Let_def split: if_splits)
  then show ?thesis
    by (auto simp: list_all_iff to_lower_def dest!: in_set_takeD intro!: handle_char_lower)
qed

lemma mention_option_chars: "h \<in> set (mention_options sg) \<Longrightarrow> h \<noteq> [] \<and> list_all is_handle_char h"
proof -
  assume "h \<in> set (mention_options sg)"
  then consider "h = ''lead''" | x where "normalize_mention_handle x = Some h"
    by (auto simp: mention_options_def List.map_filter_def)
  then show ?thesis
  proof cases
    case 1
    moreover have "list_all is_handle_char ''lead''" by code_simp
    ultimately show ?thesis by simp
  qed (use mention_handle_chars in blast)
qed

section \<open>Properties\<close>

definition composer_ok :: "composer \<Rightarrow> bool" where
  "composer_ok s \<longleftrightarrow> (\<forall>t. mc_target s = Some t \<longrightarrow> (\<exists>c. find_mention_target (mc_value s) c = Some t))"

lemma close_menu_ok [simp]: "composer_ok (close_menu s)" "mc_value (close_menu s) = mc_value s"
  by (simp_all add: composer_ok_def close_menu_def)

lemma refresh_ok: "composer_ok (s\<lparr>mc_value := v, mc_target := find_mention_target v c\<rparr>)"
  by (auto simp: composer_ok_def)

lemma apply_ok: "composer_ok s \<Longrightarrow> composer_ok (fst (apply_mention_selection h s))"
  by (auto simp: apply_mention_selection_def split: option.split)

lemma apply_ok_pair: "composer_ok s \<Longrightarrow> apply_mention_selection h s = (s', r) \<Longrightarrow> composer_ok s'"
  using apply_ok [of s h] by simp

lemma on_key_down_ok:
  assumes "composer_ok s"
  shows "composer_ok (fst (on_key_down sg sending disabled k composing shift s))"
proof -
  have "composer_ok (s\<lparr>mc_index := i\<rparr>)" for i using assms by (simp add: composer_ok_def)
  then show ?thesis
    using assms by (cases k) (auto simp: on_key_down_def Let_def split: prod.split option.split elim: apply_ok_pair)
qed

lemma composer_step_ok: "composer_ok s \<Longrightarrow> composer_ok (composer_step sg sending ev s)"
proof (cases ev)
  case (Key_down k composing shift)
  then show "composer_ok s \<Longrightarrow> ?thesis" by (simp add: on_key_down_ok)
next
  case (Pick h)
  then show "composer_ok s \<Longrightarrow> ?thesis" by (simp add: apply_ok)
qed (auto simp: composer_ok_def on_change_def on_caret_def refresh_mention_target_def on_blur_def
    fire_close_timer_def finish_send_def close_menu_def Let_def)

definition composer_run :: "(string list \<times> bool \<times> composer_event) list \<Rightarrow> composer" where
  "composer_run evs = foldl (\<lambda>s (sg, sending, ev). composer_step sg sending ev s) initial_composer evs"

lemma composer_run_ok: "composer_ok (composer_run evs)"
proof (induction evs rule: rev_induct)
  case Nil
  show ?case by (simp add: composer_run_def composer_ok_def initial_composer_def)
next
  case (snoc e evs)
  then show ?case by (cases e) (simp add: composer_run_def composer_step_ok)
qed

text \<open>After a completed mention there is a blank before the caret, and no mention.\<close>

lemma completed_no_target: "find_mention_target (a @ CHR ''@'' # h @ '' '' @ b) (int (length a + 2 + length h)) = None"
proof (rule ccontr)
  let ?s = "a @ CHR ''@'' # h @ '' '' @ b" let ?c = "int (length a + 2 + length h)"
  assume "find_mention_target ?s ?c \<noteq> None"
  then obtain t where "find_mention_target ?s ?c = Some t" by blast
  then obtain a' q b' where e: "?s = a' @ CHR ''@'' # q @ b'" "?c = int (length a' + 1 + length q)"
    "list_all is_handle_char q"
    unfolding find_mention_target_iff by blast
  have len: "length a' + 1 + length q = Suc (length a + 1 + length h)" using e(2) by simp
  have "?s ! (length a + 1 + length h) = CHR '' ''" by (simp add: nth_append)
  then have "(a' @ CHR ''@'' # q @ b') ! (length a' + length q) = CHR '' ''" using e(1) len by simp
  moreover have "(a' @ CHR ''@'' # q @ b') ! (length a' + length q) = (if q = [] then CHR ''@'' else last q)"
    by (cases q rule: rev_cases) (simp_all add: nth_append)
  ultimately have "q \<noteq> [] \<and> last q = CHR '' ''" by (auto split: if_splits)
  then have "is_handle_char (CHR '' '')" using e(3) by (metis last_in_set list_all_iff)
  moreover have "\<not> is_handle_char (CHR '' '')" by code_simp
  ultimately show False by simp
qed

text \<open>C19: completing a mention: whatever was typed, clicked and answered before, when the menu
  is open, Enter and Tab send nothing but replace the word at the caret by one of the handles
  that start with it; the text before and after it is kept, the caret comes to stand behind
  the handle, and looking at that caret again does not reopen the menu.\<close>

lemma mention_completes:
  assumes "s = composer_run evs" and "filtered_mention_options sg s \<noteq> []" and "k = Enter \<or> k = Tab"
    and "on_key_down sg sending disabled k composing shift s = (s', r)"
  shows "\<exists>a q b h. mc_value s = a @ CHR ''@'' # q @ b \<and> h \<in> set (mention_options sg) \<and>
     starts_with h (to_lower q) \<and> mc_value s' = a @ CHR ''@'' # h @ '' '' @ b \<and>
     r = Place_caret (length a + 2 + length h) \<and>
     mc_target (on_caret (int (length a + 2 + length h)) s') = None"
proof -
  obtain t where t: "mc_target s = Some t"
    using assms(2) by (auto simp: filtered_mention_options_def split: option.splits)
  obtain c where "find_mention_target (mc_value s) c = Some t"
    using composer_run_ok [of evs] t assms(1) by (auto simp: composer_ok_def)
  then obtain a q b where v: "mc_value s = a @ (CHR ''@'' # q) @ b"
    and te: "t = \<lparr>mt_start = length a, mt_end = length a + 1 + length q, mt_query = to_lower q\<rparr>"
    unfolding find_mention_target_iff by auto
  define h where "h = filtered_mention_options sg s ! active_index sg s"
  have "active_index sg s < length (filtered_mention_options sg s)"
    using assms(2) by (simp add: active_index_def Let_def min_less_iff_disj)
  then have "h \<in> set (filtered_mention_options sg s)" by (simp add: h_def)
  then have h: "h \<in> set (mention_options sg)" "starts_with h (to_lower q)"
    by (auto simp: filtered_mention_options_def t te dest: in_set_takeD)
  have "on_key_down sg sending disabled k composing shift s =
      (case apply_mention_selection h s of (s', Some caret) \<Rightarrow> (s', Place_caret caret) | (s', None) \<Rightarrow> (s', Prevented))"
    using assms(2,3) t by (auto simp: on_key_down_def Let_def h_def)
  then have "s' = close_menu (s\<lparr>mc_value := a @ (CHR ''@'' # h @ '' '') @ b\<rparr>)"
    and r: "r = Place_caret (length a + 2 + length h)"
    using assms(4) by (auto simp: apply_mention_selection_def t te v)
  then have "mc_value s' = a @ CHR ''@'' # h @ '' '' @ b" by simp
  moreover from this have "mc_target (on_caret (int (length a + 2 + length h)) s') = None"
    using completed_no_target [of a h b] by (simp add: on_caret_def refresh_mention_target_def)
  ultimately show ?thesis using v h r by (intro exI [of _ a] exI [of _ q] exI [of _ b] exI [of _ h]) simp
qed

lemma mention_completes_witness:
  "\<exists>a q b h. ''hi @al!'' = a @ CHR ''@'' # q @ b \<and> h \<in> set (mention_options [''Alice B'']) \<and>
     starts_with h (to_lower q) \<and> ''hi @alice !'' = a @ CHR ''@'' # h @ '' '' @ b"
proof -
  let ?evs = "[([''Alice B''], False, Change ''hi @al!'' 6)]"
  let ?o = "on_key_down [''Alice B''] False False Enter False False (composer_run ?evs)"
  have 1: "filtered_mention_options [''Alice B''] (composer_run ?evs) \<noteq> []" by code_simp
  have 2: "mc_value (composer_run ?evs) = ''hi @al!''" and 3: "mc_value (fst ?o) = ''hi @alice !''"
    by code_simp+
  show ?thesis
    using mention_completes [OF refl 1, of Enter False False False False "fst ?o" "snd ?o"] 2 3
    by (metis prod.collapse)
qed

text \<open>The Escape key closes the menu only until it is released: the release looks at the caret
  again and finds the same mention.\<close>

lemma escape_reopens:
  assumes "find_mention_target (mc_value s) c = mc_target s" and "filtered_mention_options sg s \<noteq> []"
  shows "let s' = fst (on_key_down sg sending disabled Escape composing shift s)
         in filtered_mention_options sg s' = [] \<and>
            filtered_mention_options sg (on_caret c s') = filtered_mention_options sg s"
proof -
  have "mc_target s \<noteq> None" using assms(2) by (cases "mc_target s") (auto simp: filtered_mention_options_def)
  then have "fst (on_key_down sg sending disabled Escape composing shift s) = close_menu s"
    using assms(2) by (simp add: on_key_down_def)
  then show ?thesis
    using assms(1) by (simp add: filtered_mention_options_def close_menu_def on_caret_def refresh_mention_target_def)
qed

text \<open>Sending a message: Enter with no menu open hands the trimmed text to the board page,
  which posts just that; once the server has stored it, it is in the chat and the box is
  empty; when that fails, the text stays in the box, the chat is as it was, and the error is
  shown.\<close>

lemma sent_or_kept:
  assumes "filtered_mention_options sg s = []" and "trim (mc_value s) \<noteq> []" and "can_call p" and "is_chat m"
  shows "on_key_down sg False False Enter False False s = (s, Send (trim (mc_value s))) \<and>
    map_sum id cm_content (begin_post_chat (trim (mc_value s)) p) = Inr (trim (mc_value s)) \<and>
    (case finish_post_chat (Ok m) p of (p1, posted) \<Rightarrow> case finish_send_chat posted p1 of (p2, sent) \<Rightarrow>
       memory_id m \<in> memory_id ` set (lv_chat p2) \<and> mc_value (finish_send sent s) = []) \<and>
    (case finish_post_chat (Threw e) p of (p1, posted) \<Rightarrow> case finish_send_chat posted p1 of (p2, sent) \<Rightarrow>
       lv_chat p2 = lv_chat p \<and> mc_value (finish_send sent s) = mc_value s \<and>
       rq_chat_error (pg_req p2) = Some (format_action_error e ''Unable to send message.''))"
proof -
  have key: "on_key_down sg False False Enter False False s = (s, Send (trim (mc_value s)))"
    using assms(1,2) by (simp add: on_key_down_def begin_send_def)
  have chat: "memory_id m \<in> memory_id ` set (add_chat_message m xs)" for xs
    by (auto simp: add_chat_message_def Let_def list_ex_iff image_iff) metis
  have shown: "format_action_error e ''Unable to send message.'' \<noteq> []"
    by (auto simp: format_action_error_def split: js_error.split)
  show ?thesis
    using assms(2-4) key chat shown
    by (simp add: begin_post_chat_def finish_post_chat_def finish_send_chat_def finish_send_def
        receive_chat_def with_req_def push_toast_def close_menu_def)
qed

definition sample_message :: memory where
  "sample_message = \<lparr>memory_id = ''m1'', memory_content = Some ''Hello'',
     memory_created_at = ''2026-01-02T00:00:00'', memory_source = Missing, memory_tags = Val [''chat'']\<rparr>"

lemma sent_or_kept_witness:
  "let s = on_change ''Hello '' 6 initial_composer
   in on_key_down [] False False Enter False False s = (s, Send ''Hello'') \<and>
      map_sum id cm_content (begin_post_chat ''Hello'' sample_page) = Inr ''Hello''"
proof -
  let ?s = "on_change ''Hello '' 6 initial_composer"
  have "filtered_mention_options [] ?s = []" "trim (mc_value ?s) = ''Hello''" by code_simp+
  moreover have "is_chat sample_message" by (simp add: is_chat_def sample_message_def)
  ultimately show ?thesis
    using sent_or_kept [of "[]" ?s sample_page sample_message] by (simp add: Let_def)
qed

end
