(* ===== verification/Onboarding.thy ===== *)
theory Onboarding
  imports BoardPage JsonText
begin

text \<open>
  The onboarding of a board by a conversation with its lead agent
  (\<^verbatim>\<open>components/BoardOnboardingChat.tsx\<close>): reading the messages, which the server keeps as
  untyped JSON, and the question in the last of them; the selection of answers; the requests
  that start the session, answer, add context and confirm; the polling for the agent's next
  message. The effects of a render are \<open>render_effects\<close>; requests in flight are a list, which
  \<open>onboarding_step\<close> lets finish in any order.
\<close>

section \<open>Messages and questions\<close>

record normalized_message =
  nm_role :: string
  nm_content :: string

definition normalize_message :: "jsvalue \<Rightarrow> normalized_message option" where
  "normalize_message raw =
     (case (string_member raw ''role'', string_member raw ''content'') of
        (Some role, Some content) \<Rightarrow>
          (if role = [] \<or> content = [] then None else Some \<lparr>nm_role = role, nm_content = content\<rparr>)
      | _ \<Rightarrow> None)"

definition normalize_messages :: "jsvalue \<Rightarrow> normalized_message list option" where
  "normalize_messages value =
     (case value of
        JArr entries \<Rightarrow>
          (let items = List.map_filter normalize_message entries in if items = [] then None else Some items)
      | _ \<Rightarrow> None)"

text \<open>In the expression for options with free text, the doubled backslash asks for a backslash
  and any number of the letter s, not for white space.\<close>

fun matches_free_text :: "string \<Rightarrow> bool" where
  "matches_free_text [] = False"
| "matches_free_text (c # cs) =
     (starts_with (c # cs) (''free'' @ [char_of (92::nat)]) \<and>
        starts_with (dropWhile (\<lambda>x. x = CHR ''s'') (drop 5 (c # cs))) ''text''
      \<or> matches_free_text cs)"

definition is_free_text_option :: "string \<Rightarrow> bool" where
  "is_free_text_option label =
     (let s = to_lower label
      in list_ex (includes_str s) [''i'' @ [char_of (39::nat)] @ ''ll type'', ''ill type'', ''i will type'',
           ''type it'', ''type my'', ''other'', ''custom''] \<or> matches_free_text s)"

record question_option =
  qo_id :: string
  qo_label :: string

record question =
  qu_question :: string
  qu_options :: "question_option list"

definition normalize_option :: "nat \<Rightarrow> jsvalue \<Rightarrow> question_option option" where
  "normalize_option i v =
     (case v of
        JStr s \<Rightarrow> Some \<lparr>qo_id = nat_to_string (i + 1), qo_label = s\<rparr>
      | _ \<Rightarrow>
          (let label = (case string_member v ''label'' of Some s \<Rightarrow> Some s | None \<Rightarrow> string_member v ''id'')
           in case label of
                None \<Rightarrow> None
              | Some l \<Rightarrow>
                  (if l = [] then None
                   else Some \<lparr>qo_id = coalesce_opt (string_member v ''id'') (nat_to_string (i + 1)), qo_label = l\<rparr>)))"

definition normalize_question :: "jsvalue \<Rightarrow> question option" where
  "normalize_question value =
     (case (string_member value ''question'', member_at value ''options'') of
        (Some q, JArr raw) \<Rightarrow>
          (let options = List.map_filter (\<lambda>(i, v). normalize_option i v) (List.enumerate 0 raw)
           in if options = [] then None else Some \<lparr>qu_question = q, qu_options = options\<rparr>)
      | _ \<Rightarrow> None)"

text \<open>The first group of the expression for a fenced block.\<close>

definition fenced_block :: "string \<Rightarrow> string option" where
  "fenced_block s =
     (case index_of s ''```'' of
        None \<Rightarrow> None
      | Some i \<Rightarrow>
          (let r = drop (i + 3) s;
               body = dropWhile is_ws (if starts_with r ''json'' then drop 4 r else r)
           in map_option (\<lambda>n. take n body) (index_of body ''```'')))"

definition parse_question :: "normalized_message list option \<Rightarrow> question option" where
  "parse_question messages =
     (case messages of
        None \<Rightarrow> None
      | Some ms \<Rightarrow>
          (case List.find (\<lambda>m. nm_role m = ''assistant'') (rev ms) of
             None \<Rightarrow> None
           | Some m \<Rightarrow>
               (if nm_content m = [] then None
                else case json_parse (nm_content m) of
                  Some v \<Rightarrow> normalize_question v
                | None \<Rightarrow>
                    (case fenced_block (nm_content m) of
                       None \<Rightarrow> None
                     | Some body \<Rightarrow>
                         (case json_parse body of None \<Rightarrow> None | Some v \<Rightarrow> normalize_question v)))))"

section \<open>The state\<close>

record goal_draft =
  gd_board_type :: string
  gd_objective :: "string optional"
  gd_success_metrics :: "jsvalue optional"
  gd_target_date :: "string optional"

record session =
  se_messages :: jsvalue
  se_draft :: "goal_draft optional"

datatype awaiting_kind = For_answer | For_extra_context

record onboarding =
  on_session :: "session option"
  on_loading :: bool
  on_awaiting :: "string option"
  on_awaiting_kind :: "awaiting_kind option"
  on_last_submitted :: "string option"
  on_other_text :: string
  on_extra_context :: string
  on_extra_open :: bool
  on_error :: "string option"
  on_selected :: "string list"
  on_seen_question :: "string option"
  on_seen_wants :: bool
  on_polling :: bool

definition initial_onboarding :: onboarding where
  "initial_onboarding = \<lparr>on_session = None, on_loading = False, on_awaiting = None, on_awaiting_kind = None,
     on_last_submitted = None, on_other_text = [], on_extra_context = [], on_extra_open = False,
     on_error = None, on_selected = [], on_seen_question = None, on_seen_wants = False, on_polling = False\<rparr>"

definition session_fingerprint :: "session option \<Rightarrow> string" where
  "session_fingerprint session =
     (case map_option se_messages session of
        Some (JArr entries) \<Rightarrow>
          (case List.find (\<lambda>e. member_at e ''role'' = JStr ''assistant'') (rev entries) of
             None \<Rightarrow> []
           | Some raw \<Rightarrow> coalesce_opt (string_member raw ''timestamp'') [] @ ''|'' @
               coalesce_opt (string_member raw ''content'') [])
      | _ \<Rightarrow> [])"

definition last_assistant_fingerprint :: "onboarding \<Rightarrow> string" where
  "last_assistant_fingerprint s = session_fingerprint (on_session s)"

definition session_question :: "session option \<Rightarrow> question option" where
  "session_question session = parse_question (Option.bind session (\<lambda>x. normalize_messages (se_messages x)))"

definition current_question :: "onboarding \<Rightarrow> question option" where
  "current_question s = session_question (on_session s)"

definition current_draft :: "onboarding \<Rightarrow> goal_draft option" where
  "current_draft s = Option.bind (on_session s) (\<lambda>x. or_null (se_draft x))"

definition is_awaiting_agent :: "onboarding \<Rightarrow> bool" where
  "is_awaiting_agent s =
     (case on_awaiting s of
        None \<Rightarrow> False
      | Some f \<Rightarrow> f \<noteq> [] \<and> last_assistant_fingerprint s = f)"

definition wants_free_text :: "onboarding \<Rightarrow> bool" where
  "wants_free_text s = list_ex is_free_text_option (on_selected s)"

definition should_poll_session :: "bool \<Rightarrow> onboarding \<Rightarrow> bool" where
  "should_poll_session page_active s =
     (page_active \<and> (on_loading s \<or> is_awaiting_agent s \<or> (current_question s = None \<and> current_draft s = None)))"

text \<open>The effects after a render, with what they saw at the last one. The result tells whether
  polling starts, which sends a request at once.\<close>

definition clear_awaiting :: "onboarding \<Rightarrow> onboarding" where
  "clear_awaiting s = s\<lparr>on_awaiting := None, on_awaiting_kind := None, on_last_submitted := None\<rparr>"

definition render_effects :: "bool \<Rightarrow> onboarding \<Rightarrow> onboarding \<times> bool" where
  "render_effects page_active s =
     (let q = map_option qu_question (current_question s);
          s1 = (if q \<noteq> on_seen_question s
                then s\<lparr>on_selected := [], on_other_text := [], on_seen_question := q\<rparr> else s);
          s2 = (if wants_free_text s \<noteq> on_seen_wants s
                then s1\<lparr>on_other_text := (if wants_free_text s then on_other_text s1 else []),
                        on_seen_wants := wants_free_text s\<rparr> else s1);
          polls = should_poll_session page_active s;
          s3 = s2\<lparr>on_polling := polls\<rparr>;
          s4 = (case on_awaiting s of
                  None \<Rightarrow> s3
                | Some f \<Rightarrow> if f \<noteq> [] \<and> last_assistant_fingerprint s \<noteq> f then clear_awaiting s3 else s3)
      in (s4, polls \<and> \<not> on_polling s))"

section \<open>Requests\<close>

definition start_session :: "onboarding \<Rightarrow> onboarding" where
  "start_session s = s\<lparr>on_loading := True, on_error := None\<rparr>"

definition session_started :: "session response \<Rightarrow> onboarding \<Rightarrow> onboarding" where
  "session_started result s =
     (case result of
        Ok x \<Rightarrow> s\<lparr>on_session := Some x\<rparr>
      | Status st \<Rightarrow> s\<lparr>on_error := Some ''Unable to start onboarding.''\<rparr>
      | Threw e \<Rightarrow> s\<lparr>on_error := Some (error_message e ''Failed to start onboarding.'')\<rparr>)\<lparr>on_loading := False\<rparr>"

definition session_refreshed :: "session response \<Rightarrow> onboarding \<Rightarrow> onboarding" where
  "session_refreshed result s = (case result of Ok x \<Rightarrow> s\<lparr>on_session := Some x\<rparr> | _ \<Rightarrow> s)"

definition submitting :: "onboarding \<Rightarrow> onboarding" where
  "submitting s = clear_awaiting (s\<lparr>on_loading := True, on_error := None\<rparr>)"

definition awaiting_since :: "string \<Rightarrow> awaiting_kind \<Rightarrow> string \<Rightarrow> onboarding \<Rightarrow> onboarding" where
  "awaiting_since fingerprint kind submitted s =
     s\<lparr>on_awaiting := Some fingerprint, on_awaiting_kind := Some kind, on_last_submitted := Some submitted\<rparr>"

definition answer_submitted ::
  "string \<Rightarrow> string \<Rightarrow> string option \<Rightarrow> session response \<Rightarrow> onboarding \<Rightarrow> onboarding" where
  "answer_submitted fingerprint value free_text result s =
     (case result of
        Ok x \<Rightarrow> awaiting_since fingerprint For_answer
          (case free_text of Some f \<Rightarrow> if f = [] then value else value @ '': '' @ f | None \<Rightarrow> value)
          (s\<lparr>on_session := Some x, on_other_text := [], on_selected := []\<rparr>)
      | Status st \<Rightarrow> s\<lparr>on_error := Some ''Unable to submit answer.''\<rparr>
      | Threw e \<Rightarrow> s\<lparr>on_error := Some (error_message e ''Failed to submit answer.'')\<rparr>)\<lparr>on_loading := False\<rparr>"

definition toggle_option :: "string \<Rightarrow> onboarding \<Rightarrow> onboarding" where
  "toggle_option label s =
     s\<lparr>on_selected := (if label \<in> set (on_selected s) then filter (\<lambda>x. x \<noteq> label) (on_selected s)
                       else on_selected s @ [label])\<rparr>"

text \<open>What \<^verbatim>\<open>submitAnswer\<close> sends, if anything: the answer and the other text.\<close>

definition submit_answer :: "onboarding \<Rightarrow> (string \<times> string option) option" where
  "submit_answer s =
     (let trimmed_other = trim (on_other_text s)
      in if on_selected s = [] then None
         else if wants_free_text s \<and> trimmed_other = [] then None
         else Some (join_with '', '' (on_selected s), if wants_free_text s then Some trimmed_other else None))"

definition submit_extra_context :: "onboarding \<Rightarrow> string option" where
  "submit_extra_context s =
     (let trimmed = trim (on_extra_context s) in if trimmed = [] then None else Some trimmed)"

definition extra_context_submitted :: "string \<Rightarrow> session response \<Rightarrow> onboarding \<Rightarrow> onboarding" where
  "extra_context_submitted fingerprint result s =
     (case result of
        Ok x \<Rightarrow> awaiting_since fingerprint For_extra_context ''Additional context''
          (s\<lparr>on_session := Some x, on_extra_context := [], on_extra_open := False\<rparr>)
      | Status st \<Rightarrow> s\<lparr>on_error := Some ''Unable to submit extra context.''\<rparr>
      | Threw e \<Rightarrow> s\<lparr>on_error := Some (error_message e ''Failed to submit extra context.'')\<rparr>)\<lparr>on_loading := False\<rparr>"

record confirm_request =
  cr_board_type :: string
  cr_objective :: "string option"
  cr_success_metrics :: "jsvalue option"
  cr_target_date :: "string option"

definition confirm_goal :: "onboarding \<Rightarrow> confirm_request option" where
  "confirm_goal s =
     map_option (\<lambda>d. \<lparr>cr_board_type = gd_board_type d, cr_objective = or_null (gd_objective d),
       cr_success_metrics = or_null (gd_success_metrics d), cr_target_date = or_null (gd_target_date d)\<rparr>)
       (current_draft s)"

definition goal_confirmed :: "'b response \<Rightarrow> onboarding \<Rightarrow> onboarding \<times> 'b option" where
  "goal_confirmed result s =
     (case result of
        Ok board \<Rightarrow> (s\<lparr>on_loading := False\<rparr>, Some board)
      | Status st \<Rightarrow> (s\<lparr>on_error := Some ''Unable to confirm board goal.'', on_loading := False\<rparr>, None)
      | Threw e \<Rightarrow> (s\<lparr>on_error := Some (error_message e ''Failed to confirm board goal.''), on_loading := False\<rparr>, None))"

section \<open>Events\<close>

text \<open>A request in flight carries what its closure kept. The controls are those of the draft or
  of the question, and disabled while a request runs or the agent is awaited.\<close>

datatype operation = Starting | Answering string string "string option" | Adding_context string | Confirming

datatype onboarding_event =
    Toggle string
  | Other_text string
  | Extra_text string
  | Toggle_extra
  | Submit
  | Submit_extra
  | Confirm_goal
  | Answered nat "session response"
  | Confirmed nat "unit response"
  | Polled "session response"
  | Rendered bool

definition controls_disabled :: "onboarding \<Rightarrow> bool" where
  "controls_disabled s \<longleftrightarrow> on_loading s \<or> is_awaiting_agent s"

definition question_shown :: "onboarding \<Rightarrow> bool" where
  "question_shown s \<longleftrightarrow> current_draft s = None \<and> current_question s \<noteq> None"

definition draft_shown :: "onboarding \<Rightarrow> bool" where
  "draft_shown s \<longleftrightarrow> current_draft s \<noteq> None"

definition drop_nth :: "nat \<Rightarrow> 'a list \<Rightarrow> 'a list" where
  "drop_nth i xs = take i xs @ drop (Suc i) xs"

fun finish_operation :: "operation \<Rightarrow> session response \<Rightarrow> onboarding \<Rightarrow> onboarding" where
  "finish_operation Starting r s = session_started r s"
| "finish_operation (Answering f v t) r s = answer_submitted f v t r s"
| "finish_operation (Adding_context f) r s = extra_context_submitted f r s"
| "finish_operation Confirming r s = s"

fun onboarding_step :: "onboarding_event \<Rightarrow> onboarding \<times> operation list \<Rightarrow> onboarding \<times> operation list" where
  "onboarding_step (Toggle l) (s, ops) =
     (if question_shown s \<and> \<not> controls_disabled s then (toggle_option l s, ops) else (s, ops))"
| "onboarding_step (Other_text t) (s, ops) =
     (if question_shown s \<and> \<not> controls_disabled s then (s\<lparr>on_other_text := t\<rparr>, ops) else (s, ops))"
| "onboarding_step (Extra_text t) (s, ops) =
     (if draft_shown s \<and> \<not> controls_disabled s then (s\<lparr>on_extra_context := t\<rparr>, ops) else (s, ops))"
| "onboarding_step Toggle_extra (s, ops) =
     (if draft_shown s \<and> \<not> controls_disabled s then (s\<lparr>on_extra_open := \<not> on_extra_open s\<rparr>, ops) else (s, ops))"
| "onboarding_step Submit (s, ops) =
     (if \<not> question_shown s \<or> controls_disabled s then (s, ops)
      else case submit_answer s of
        None \<Rightarrow> (s, ops)
      | Some (v, t) \<Rightarrow> (submitting s, ops @ [Answering (last_assistant_fingerprint s) v t]))"
| "onboarding_step Submit_extra (s, ops) =
     (if \<not> draft_shown s \<or> controls_disabled s then (s, ops)
      else case submit_extra_context s of
        None \<Rightarrow> (s, ops)
      | Some t \<Rightarrow> (submitting s, ops @ [Adding_context (last_assistant_fingerprint s)]))"
| "onboarding_step Confirm_goal (s, ops) =
     (if controls_disabled s then (s, ops)
      else case confirm_goal s of
        None \<Rightarrow> (s, ops)
      | Some r \<Rightarrow> (s\<lparr>on_loading := True, on_error := None\<rparr>, ops @ [Confirming]))"
| "onboarding_step (Answered i r) (s, ops) =
     (if i < length ops \<and> ops ! i \<noteq> Confirming then (finish_operation (ops ! i) r s, drop_nth i ops) else (s, ops))"
| "onboarding_step (Confirmed i r) (s, ops) =
     (if i < length ops \<and> ops ! i = Confirming then (fst (goal_confirmed r s), drop_nth i ops) else (s, ops))"
| "onboarding_step (Polled r) (s, ops) = (session_refreshed r s, ops)"
| "onboarding_step (Rendered active) (s, ops) = (fst (render_effects active s), ops)"

definition onboarding_run :: "onboarding_event list \<Rightarrow> onboarding \<times> operation list \<Rightarrow> onboarding \<times> operation list" where
  "onboarding_run evs so = foldl (\<lambda>so ev. onboarding_step ev so) so evs"

definition opened_onboarding :: "onboarding \<times> operation list" where
  "opened_onboarding = (start_session initial_onboarding, [Starting])"

lemma onboarding_run_simps [simp]:
  "onboarding_run [] so = so"
  "onboarding_run (ev # evs) so = onboarding_run evs (onboarding_step ev so)"
  "onboarding_run (evs @ evs') so = onboarding_run evs' (onboarding_run evs so)"
  by (simp_all add: onboarding_run_def)

section \<open>Taking turns\<close>

definition one_request :: "onboarding \<times> operation list \<Rightarrow> bool" where
  "one_request so \<longleftrightarrow> length (snd so) \<le> 1 \<and> (on_loading (fst so) \<longleftrightarrow> snd so \<noteq> [])"

lemma loading_simps [simp]:
  "\<not> on_loading (session_started r s)" "\<not> on_loading (answer_submitted f v t r s)"
  "\<not> on_loading (extra_context_submitted f r s)" "\<not> on_loading (fst (goal_confirmed c s))"
  "on_loading (session_refreshed r s) = on_loading s" "on_loading (submitting s)"
  "on_loading (fst (render_effects a s)) = on_loading s" "on_loading (toggle_option l s) = on_loading s"
  by (simp_all add: session_started_def answer_submitted_def extra_context_submitted_def goal_confirmed_def
      session_refreshed_def submitting_def clear_awaiting_def render_effects_def Let_def toggle_option_def
      split: response.split option.split)

lemma finish_not_loading: "op \<noteq> Confirming \<Longrightarrow> \<not> on_loading (finish_operation op r s)"
  by (cases op) simp_all

lemma one_request_step: "one_request so \<Longrightarrow> one_request (onboarding_step ev so)"
proof (cases so)
  case (Pair s ops)
  assume a: "one_request so"
  then consider "ops = []" "\<not> on_loading s" | op where "ops = [op]" "on_loading s"
    by (auto simp: one_request_def Pair le_Suc_eq length_Suc_conv)
  then show ?thesis
    by cases (cases ev; auto simp: Pair one_request_def controls_disabled_def drop_nth_def finish_not_loading
        split: option.split)+
qed

lemma one_request_run: "one_request so \<Longrightarrow> one_request (onboarding_run evs so)"
  by (induction evs arbitrary: so) (simp_all add: one_request_step)

lemma find_SomeD: "List.find P xs = Some x \<Longrightarrow> P x \<and> x \<in> set xs"
  by (induction xs) (auto split: if_splits)

lemma question_has_fingerprint:
  assumes "current_question s \<noteq> None"
  shows "last_assistant_fingerprint s \<noteq> []"
proof -
  obtain x ms m where x: "on_session s = Some x" and ms: "normalize_messages (se_messages x) = Some ms"
    and m: "List.find (\<lambda>m. nm_role m = ''assistant'') (rev ms) = Some m"
    using assms by (auto simp: current_question_def session_question_def parse_question_def Option.bind_eq_Some_conv
        split: option.splits Option.bind_splits)
  obtain entries where e: "se_messages x = JArr entries" "ms = List.map_filter normalize_message entries"
    using ms by (auto simp: normalize_messages_def Let_def split: jsvalue.splits if_splits)
  have "nm_role m = ''assistant''" "m \<in> set ms" using find_SomeD [OF m] by simp_all
  then obtain raw where raw: "raw \<in> set entries" "normalize_message raw = Some m"
    unfolding e(2) by (auto simp: List.map_filter_def)
  then have "member_at raw ''role'' = JStr ''assistant''"
    using \<open>nm_role m = ''assistant''\<close>
    by (auto simp: normalize_message_def string_member_def split: option.splits jsvalue.splits if_splits)
  with raw(1) have "List.find (\<lambda>e. member_at e ''role'' = JStr ''assistant'') (rev entries) \<noteq> None"
    by (auto simp: find_None_iff)
  then show ?thesis by (auto simp: last_assistant_fingerprint_def session_fingerprint_def x e(1))
qed

definition delivers :: "string \<Rightarrow> onboarding_event \<Rightarrow> bool" where
  "delivers f ev =
     (case ev of Polled (Ok x) \<Rightarrow> session_fingerprint (Some x) = f | Answered i (Ok x) \<Rightarrow> session_fingerprint (Some x) = f
      | _ \<Rightarrow> True)"

text \<open>While the agent has not said anything else, nothing can be sent.\<close>

lemma render_keeps_session [simp]: "on_session (fst (render_effects active s)) = on_session s"
  by (simp add: render_effects_def clear_awaiting_def Let_def split: option.split)

lemma render_keeps_awaiting:
  "is_awaiting_agent s \<Longrightarrow> on_awaiting (fst (render_effects active s)) = on_awaiting s"
  by (simp add: render_effects_def is_awaiting_agent_def Let_def split: option.splits)

lemma awaiting_iff:
  "is_awaiting_agent s \<and> on_awaiting s = Some f \<longleftrightarrow>
     on_awaiting s = Some f \<and> f \<noteq> [] \<and> session_fingerprint (on_session s) = f"
  by (auto simp: is_awaiting_agent_def last_assistant_fingerprint_def)

lemma awaiting_step:
  assumes "is_awaiting_agent s" and "on_awaiting s = Some f" and "delivers f ev"
    and "onboarding_step ev (s, []) = (s', ops)"
  shows "ops = [] \<and> is_awaiting_agent s' \<and> on_awaiting s' = Some f"
proof -
  have d: "controls_disabled s" using assms(1) by (simp add: controls_disabled_def)
  show ?thesis
  proof (cases ev)
    case (Polled r)
    then show ?thesis using assms
      by (cases r) (auto simp: session_refreshed_def delivers_def is_awaiting_agent_def last_assistant_fingerprint_def)
  next
    case (Rendered active)
    then have "s' = fst (render_effects active s)" "ops = []" using assms(4) by simp_all
    moreover have "on_awaiting s' = Some f" "on_session s' = on_session s"
      using calculation(1) assms(2) render_keeps_awaiting [OF assms(1), of active] by simp_all
    moreover have "f \<noteq> [] \<and> session_fingerprint (on_session s) = f" using assms(1,2) awaiting_iff by blast
    ultimately show ?thesis using awaiting_iff [of s' f] by simp
  qed (use assms d in simp_all)
qed

lemma awaiting_run:
  "is_awaiting_agent s \<Longrightarrow> on_awaiting s = Some f \<Longrightarrow> list_all (delivers f) evs \<Longrightarrow>
     onboarding_run evs (s, []) = (s', ops) \<Longrightarrow> ops = [] \<and> is_awaiting_agent s' \<and> on_awaiting s' = Some f"
proof (induction evs arbitrary: s)
  case (Cons ev evs)
  obtain t ops' where t: "onboarding_step ev (s, []) = (t, ops')" by fastforce
  with Cons.prems awaiting_step [of s f ev t ops'] have "ops' = []" "is_awaiting_agent t" "on_awaiting t = Some f"
    by simp_all
  with Cons t show ?case by simp
qed simp


section \<open>Reading the question\<close>

lemma starts_with_sep: "d \<notin> set p \<Longrightarrow> starts_with (u @ d # r) p = starts_with u p"
  by (induction u p rule: starts_with.induct) (auto elim: starts_with.elims)

lemma index_of_sep:
  "index_of u p = None \<Longrightarrow> d \<notin> set p \<Longrightarrow> p \<noteq> [] \<Longrightarrow> index_of (u @ d # p @ r) p = Some (length u + 1)"
proof (induction u)
  case Nil
  then have "\<not> starts_with (d # p @ r) p" by (cases p) auto
  moreover have "index_of (p @ r) p = Some 0" using Nil(3) by (cases p) (auto simp: starts_with_iff)
  ultimately show ?case by simp
next
  case (Cons c u)
  then have "index_of u p = None" "\<not> starts_with (c # u) p" by (auto split: if_splits)
  with Cons starts_with_sep [of d p "c # u" "p @ r"] show ?case by simp
qed

lemma index_of_first: "d \<notin> set u \<Longrightarrow> index_of (u @ d # p @ r) (d # p) = Some (length u)"
  by (induction u) auto

lemma fenced_block_json:
  assumes "CHR ''`'' \<notin> set pre" and "index_of t ''```'' = None" and "t \<noteq> []" and "\<not> is_ws (hd t)"
    and "tag = [] \<or> tag = ''json''"
  shows "fenced_block (pre @ ''```'' @ tag @ [newline] @ t @ [newline] @ ''```'') = Some (t @ [newline])"
proof -
  define r where "r = tag @ newline # t @ newline # ''```''"
  have n: "is_ws newline" "newline \<noteq> CHR ''`''" "newline \<notin> set ''```''" "newline \<noteq> CHR ''j''" by code_simp+
  have "index_of (pre @ CHR ''`'' # ''``'' @ r) (CHR ''`'' # ''``'') = Some (length pre)"
    by (rule index_of_first) fact
  moreover have "dropWhile is_ws (if starts_with r ''json'' then drop 4 r else r) = t @ newline # ''```''"
    using assms(3-5) n unfolding r_def by (cases t) auto
  moreover have "index_of (t @ newline # ''```'' @ []) ''```'' = Some (length t + 1)"
    by (rule index_of_sep) (use assms(2) n in auto)
  ultimately have "fenced_block (pre @ ''```'' @ r) = Some (t @ [newline])"
    by (simp add: fenced_block_def Let_def)
  then show ?thesis by (simp add: r_def)
qed

lemma find_append_none: "list_all (\<lambda>x. \<not> P x) ys \<Longrightarrow> List.find P (ys @ xs) = List.find P xs"
  by (induction ys) auto

lemma question_has_options: "normalize_question v = Some q \<Longrightarrow> qu_options q \<noteq> []"
  by (auto simp: normalize_question_def Let_def split: option.splits jsvalue.splits if_splits)

text \<open>The question of the agent: whether its message is the JSON of an object or carries it in
  a fenced block, with or without a tag and after some words, the same question is read; what
  the user wrote after it does not matter; and a question that is read has an option.\<close>

lemma question_read:
  assumes "v = JObj kvs" and "json_plain v" and "stringify v = Some t" and "index_of t ''```'' = None"
    and "list_all (\<lambda>m. nm_role m \<noteq> ''assistant'') later" and "tag = [] \<or> tag = ''json''"
    and "CHR ''`'' \<notin> set pre"
    and "fenced = pre @ ''```'' @ tag @ [newline] @ t @ [newline] @ ''```''" and "json_parse fenced = None"
  shows "parse_question (Some (ms @ \<lparr>nm_role = ''assistant'', nm_content = t\<rparr> # later)) = normalize_question v \<and>
    parse_question (Some (ms @ \<lparr>nm_role = ''assistant'', nm_content = fenced\<rparr> # later)) = normalize_question v \<and>
    (case normalize_question v of Some q \<Rightarrow> qu_options q \<noteq> [] | None \<Rightarrow> True)"
proof -
  have t: "t = js_text v" using plain_stringify [OF assms(2)] assms(3) by simp
  obtain u where u: "t = CHR ''{'' # u" using assms(1,2) by (simp add: t js_text_simps)
  have ws: "\<not> is_ws (CHR ''{'')" "list_all is_json_ws [newline]" by code_simp+
  have raw: "json_parse t = Some v" and nl: "json_parse (t @ [newline]) = Some v"
    using json_roundtrip_ws [OF assms(2), of "[]"] json_roundtrip_ws [OF assms(2) ws(2)] t by simp_all
  have "fenced_block fenced = Some (t @ [newline])"
    unfolding assms(8) by (rule fenced_block_json) (use assms(4,6,7) u ws in auto)
  moreover have "List.find (\<lambda>m. nm_role m = ''assistant'') (rev (ms @ \<lparr>nm_role = ''assistant'', nm_content = c\<rparr> # later)) =
      Some \<lparr>nm_role = ''assistant'', nm_content = c\<rparr>" for c
    using find_append_none [of "\<lambda>m. nm_role m = ''assistant''" "rev later"] assms(5) by (simp add: list_all_iff)
  moreover have "fenced \<noteq> []" by (simp add: assms(8))
  ultimately have "parse_question (Some (ms @ \<lparr>nm_role = ''assistant'', nm_content = t\<rparr> # later)) = normalize_question v"
    "parse_question (Some (ms @ \<lparr>nm_role = ''assistant'', nm_content = fenced\<rparr> # later)) = normalize_question v"
    using raw nl u assms(9) by (simp_all add: parse_question_def)
  then show ?thesis using question_has_options by (simp split: option.split)
qed

text \<open>The expression for options with free text misses ``Free text'' and finds ``custom'' in an
  option about customers.\<close>

lemma free_text_misread:
  "\<not> is_free_text_option ''Free text'' \<and> is_free_text_option ''Customer support''"
  by code_simp

section \<open>Witnesses\<close>

definition sample_question :: jsvalue where
  "sample_question = JObj [(''question'', JStr ''Why?''), (''options'', JArr [JStr ''Fun'', JStr ''Work''])]"

definition sample_text :: string where
  "sample_text = coalesce_opt (stringify sample_question) []"

lemma question_read_witness:
  "parse_question (Some [\<lparr>nm_role = ''assistant'', nm_content = ''Sure: '' @ ''```'' @ ''json'' @ [newline] @
      sample_text @ [newline] @ ''```''\<rparr>, \<lparr>nm_role = ''user'', nm_content = ''Fun''\<rparr>]) =
     Some \<lparr>qu_question = ''Why?'', qu_options = [\<lparr>qo_id = ''1'', qo_label = ''Fun''\<rparr>, \<lparr>qo_id = ''2'', qo_label = ''Work''\<rparr>]\<rparr>"
proof -
  let ?f = "''Sure: '' @ ''```'' @ ''json'' @ [newline] @ sample_text @ [newline] @ ''```''"
  have p: "json_plain sample_question" "stringify sample_question = Some sample_text" "index_of sample_text ''```'' = None"
    "json_parse ?f = None" "CHR ''`'' \<notin> set ''Sure: ''"
    by code_simp+
  have q: "normalize_question sample_question =
      Some \<lparr>qu_question = ''Why?'', qu_options = [\<lparr>qo_id = ''1'', qo_label = ''Fun''\<rparr>, \<lparr>qo_id = ''2'', qo_label = ''Work''\<rparr>]\<rparr>"
    by code_simp
  have l: "list_all (\<lambda>m. nm_role m \<noteq> ''assistant'') [\<lparr>nm_role = ''user'', nm_content = ''Fun''\<rparr>]" by code_simp
  show ?thesis
    using question_read [OF sample_question_def p(1-3) l _ p(5) refl, of "''json''" "[]"] p(4) q by simp
qed

definition sample_session :: "string \<Rightarrow> session" where
  "sample_session ts = \<lparr>se_messages = JArr [JObj [(''role'', JStr ''assistant''), (''content'', JStr sample_text),
     (''timestamp'', JStr ts)], JObj [(''role'', JStr ''user''), (''content'', JStr ''Hi'')]], se_draft = Missing\<rparr>"

definition sample_turn :: "onboarding \<times> operation list" where
  "sample_turn = onboarding_run [Answered 0 (Ok (sample_session ''1'')), Rendered True, Toggle ''Fun''] opened_onboarding"

definition sample_wait :: "onboarding \<times> operation list" where
  "sample_wait = onboarding_run [Answered 0 (Ok (sample_session ''1'')), Polled (Status 500), Toggle ''Work'', Submit]
     (onboarding_step Submit sample_turn)"


end
