(* ===== verification/BoardGroup.thy ===== *)
theory BoardGroup
  imports BoardPage "HOL-Library.AList"
begin

text \<open>
  The page of a board group (\<^verbatim>\<open>app/board-groups/[groupId]/page.tsx\<close>): the chat and the notes
  that its boards share, the pace of its agents, and who may write. The code of the chat is
  written twice, once with \<^verbatim>\<open>is_chat\<close> true and once false; here it is written once for a
  \<open>memory_kind\<close>. Both streams run through the reading loop of \<open>SseStream\<close>, but what follows it
  differs from the board page: a stream that ends is not opened again.
\<close>

section \<open>Labels and rights\<close>

definition status_label :: "string option \<Rightarrow> string" where
  "status_label value =
     (case value of
        None \<Rightarrow> em_dash
      | Some v \<Rightarrow>
          (if v = ''inbox'' then ''Inbox'' else if v = ''in_progress'' then ''In progress''
           else if v = ''review'' then ''Review'' else if v = ''done'' then ''Done''
           else if v = [] then em_dash else v))"

definition status_tone :: "string option \<Rightarrow> string" where
  "status_tone value =
     (if value = Some ''in_progress'' then ''bg-emerald-50 text-emerald-700 border-emerald-200''
      else if value = Some ''review'' then ''bg-amber-50 text-amber-800 border-amber-200''
      else if value = Some ''done'' then ''bg-slate-50 text-slate-600 border-slate-200''
      else ''bg-blue-50 text-blue-700 border-blue-200'')"

definition priority_tone :: "string option \<Rightarrow> string" where
  "priority_tone value =
     (if value = Some ''high'' then ''bg-rose-50 text-rose-700 border-rose-200''
      else if value = Some ''low'' then ''bg-slate-50 text-slate-600 border-slate-200''
      else ''bg-indigo-50 text-indigo-700 border-indigo-200'')"

record group_board =
  gb_board_id :: string
  gb_task_counts :: "(string \<times> int) list option"
  gb_assignees :: "string optional list option"

definition safe_count :: "group_board \<Rightarrow> string \<Rightarrow> int" where
  "safe_count snapshot key =
     coalesce_opt (Option.bind (gb_task_counts snapshot) (\<lambda>counts. map_of counts key)) 0"

definition can_write_group_boards :: "member option \<Rightarrow> string list \<Rightarrow> bool" where
  "can_write_group_boards m board_ids =
     (case m of
        None \<Rightarrow> False
      | Some mb \<Rightarrow>
          (if member_all_boards_write mb then True
           else case member_board_access mb of
             None \<Rightarrow> False
           | Some accesses \<Rightarrow>
               (if board_ids = [] then False
                else list_ex (\<lambda>a. access_can_write a \<and> access_board_id a \<in> set board_ids) accesses)))"

text \<open>The test for a mention of everybody: at the start or after white space, and no word
  character behind it.\<close>

definition is_word_char :: "char \<Rightarrow> bool" where
  "is_word_char c \<longleftrightarrow> is_alnum c \<or> c = CHR ''_''"

fun all_mention_from :: "bool \<Rightarrow> string \<Rightarrow> bool" where
  "all_mention_from start [] = False"
| "all_mention_from start (c # cs) =
     ((start \<and> starts_with (to_lower (c # cs)) ''@all'' \<and>
        (case drop 4 (c # cs) of [] \<Rightarrow> True | d # _ \<Rightarrow> \<not> is_word_char d))
      \<or> all_mention_from (is_ws c) cs)"

definition has_all_mention :: "string \<Rightarrow> bool" where
  "has_all_mention s = all_mention_from True s"

section \<open>Chat and notes\<close>

record group_memory =
  gm_id :: string
  gm_content :: string
  gm_created_at :: string
  gm_source :: "string optional"
  gm_tags :: "string list optional"
  gm_is_chat :: "bool option"

datatype memory_kind = Group_chat | Group_notes

definition keeps :: "memory_kind \<Rightarrow> group_memory \<Rightarrow> bool" where
  "keeps kind m = ((gm_is_chat m = Some True) = (kind = Group_chat))"

definition gm_time :: "group_memory \<Rightarrow> int" where
  "gm_time m = time_or_zero (gm_created_at m)"

text \<open>\<^verbatim>\<open>mergeChatMessages\<close> and \<^verbatim>\<open>mergeNotesMessages\<close>; a \<^verbatim>\<open>Map\<close> keeps the place of a key that is set
  again.\<close>

definition map_set :: "(string \<times> group_memory) list \<Rightarrow> group_memory \<Rightarrow> (string \<times> group_memory) list" where
  "map_set m item = AList.update (gm_id item) item m"

definition merge_memories :: "memory_kind \<Rightarrow> group_memory list \<Rightarrow> group_memory list \<Rightarrow> group_memory list" where
  "merge_memories kind prev next_items =
     (let by_id = foldl map_set [] prev;
          by_id' = foldl (\<lambda>m item. if keeps kind item then map_set m item else m) by_id next_items
      in js_sort (by_key gm_time) (map snd by_id'))"

definition merge_chat_messages :: "group_memory list \<Rightarrow> group_memory list \<Rightarrow> group_memory list" where
  "merge_chat_messages = merge_memories Group_chat"

definition merge_notes_messages :: "group_memory list \<Rightarrow> group_memory list \<Rightarrow> group_memory list" where
  "merge_notes_messages = merge_memories Group_notes"

definition latest_memory_timestamp :: "group_memory list \<Rightarrow> string option" where
  "latest_memory_timestamp items =
     (if items = [] then None
      else let latest = foldl (\<lambda>mx item. case api_datetime_to_ms (Some (gm_created_at item)) of
                                None \<Rightarrow> mx | Some ts \<Rightarrow> max mx ts) 0 items
        in if latest = 0 then None else Some (to_iso latest))"

section \<open>The state\<close>

record group_panel =
  gl_open :: bool
  gl_items :: "group_memory list"
  gl_ref :: "group_memory list"
  gl_sending :: bool
  gl_error :: "string option"
  gl_broadcast :: bool

datatype heartbeat_unit = Seconds | Minutes | Hours | Days

fun unit_string :: "heartbeat_unit \<Rightarrow> string" where
  "unit_string Seconds = ''s''" | "unit_string Minutes = ''m''"
| "unit_string Hours = ''h''" | "unit_string Days = ''d''"

record heartbeat_result =
  hb_failed :: "string list"
  hb_updated :: "string list"

record group_page =
  gg_signed_in :: bool
  gg_group_id :: "string option"
  gg_member :: "member option"
  gg_boards :: "group_board list"
  gg_chat :: group_panel
  gg_notes :: group_panel
  gg_amount :: string
  gg_unit :: heartbeat_unit
  gg_include_leads :: bool
  gg_applying :: bool
  gg_apply_error :: "string option"
  gg_apply_result :: "heartbeat_result option"

definition empty_panel :: group_panel where
  "empty_panel = \<lparr>gl_open = False, gl_items = [], gl_ref = [], gl_sending = False, gl_error = None, gl_broadcast = True\<rparr>"

definition initial_group :: "bool \<Rightarrow> string option \<Rightarrow> group_page" where
  "initial_group signed_in g =
     \<lparr>gg_signed_in = signed_in, gg_group_id = g, gg_member = None, gg_boards = [], gg_chat = empty_panel,
      gg_notes = empty_panel, gg_amount = ''10'', gg_unit = Minutes, gg_include_leads = False,
      gg_applying = False, gg_apply_error = None, gg_apply_result = None\<rparr>"

fun panel_of :: "memory_kind \<Rightarrow> group_page \<Rightarrow> group_panel" where
  "panel_of Group_chat s = gg_chat s"
| "panel_of Group_notes s = gg_notes s"

fun with_panel :: "memory_kind \<Rightarrow> (group_panel \<Rightarrow> group_panel) \<Rightarrow> group_page \<Rightarrow> group_page" where
  "with_panel Group_chat f s = s\<lparr>gg_chat := f (gg_chat s)\<rparr>"
| "with_panel Group_notes f s = s\<lparr>gg_notes := f (gg_notes s)\<rparr>"

definition can_use :: "group_page \<Rightarrow> bool" where
  "can_use s \<longleftrightarrow> gg_signed_in s \<and> gg_group_id s \<noteq> None \<and> gg_group_id s \<noteq> Some []"

definition board_id_set :: "group_page \<Rightarrow> string list" where
  "board_id_set s = filter (\<lambda>i. i \<noteq> []) (map gb_board_id (gg_boards s))"

definition group_mention_suggestions :: "group_page \<Rightarrow> string list" where
  "group_mention_suggestions s =
     dedup ([''lead'', ''all''] @ concat (map (\<lambda>b. List.map_filter
       (\<lambda>a. case a of Val n \<Rightarrow> if n = [] then None else Some n | _ \<Rightarrow> None) (coalesce_opt (gb_assignees b) []))
       (gg_boards s)))"

definition can_write_group :: "group_page \<Rightarrow> bool" where
  "can_write_group s = can_write_group_boards (gg_member s) (board_id_set s)"

definition can_manage_heartbeat :: "group_page \<Rightarrow> bool" where
  "can_manage_heartbeat s \<longleftrightarrow>
     (case gg_member s of Some m \<Rightarrow> member_role m = ''admin'' \<or> member_role m = ''owner'' | None \<Rightarrow> False) \<and>
     can_write_group s"

section \<open>Panels, history and streams\<close>

definition open_group_chat :: "group_page \<Rightarrow> group_page" where
  "open_group_chat s =
     with_panel Group_chat (\<lambda>p. p\<lparr>gl_error := None, gl_open := True\<rparr>)
       (with_panel Group_notes (\<lambda>p. p\<lparr>gl_open := False, gl_error := None\<rparr>) s)"

definition open_group_notes :: "group_page \<Rightarrow> group_page" where
  "open_group_notes s =
     with_panel Group_notes (\<lambda>p. p\<lparr>gl_error := None, gl_open := True\<rparr>)
       (with_panel Group_chat (\<lambda>p. p\<lparr>gl_open := False, gl_error := None\<rparr>) s)"

definition close_panel :: "memory_kind \<Rightarrow> group_page \<Rightarrow> group_page" where
  "close_panel kind s = with_panel kind (\<lambda>p. p\<lparr>gl_open := False, gl_error := None\<rparr>) s"

definition close_panels :: "group_page \<Rightarrow> group_page" where
  "close_panels s = close_panel Group_notes (close_panel Group_chat s)"

definition add_memories :: "memory_kind \<Rightarrow> group_memory list \<Rightarrow> group_page \<Rightarrow> group_page" where
  "add_memories kind items s = with_panel kind (\<lambda>p. p\<lparr>gl_items := merge_memories kind (gl_items p) items\<rparr>) s"

text \<open>The history query is enabled while the panel is open; its items are merged after each
  render in which it has a new result.\<close>

definition history_loaded :: "memory_kind \<Rightarrow> group_memory list response \<Rightarrow> group_page \<Rightarrow> group_page" where
  "history_loaded kind result s =
     (if \<not> gl_open (panel_of kind s) then s
      else case result of Ok items \<Rightarrow> add_memories kind items s | _ \<Rightarrow> s)"

definition commit_panel :: "memory_kind \<Rightarrow> group_page \<Rightarrow> group_page" where
  "commit_panel kind s = with_panel kind (\<lambda>p. p\<lparr>gl_ref := gl_items p\<rparr>) s"

text \<open>The stream of a panel runs for an active page with the panel open; the result is the
  \<^verbatim>\<open>since\<close> of the request.\<close>

definition group_stream_request :: "memory_kind \<Rightarrow> bool \<Rightarrow> group_page \<Rightarrow> string option option" where
  "group_stream_request kind active s =
     (if \<not> active \<or> \<not> can_use s \<or> \<not> gl_open (panel_of kind s) then None
      else Some (latest_memory_timestamp (gl_ref (panel_of kind s))))"

definition handle_memory ::
  "memory_kind \<Rightarrow> (string \<Rightarrow> group_memory option option) \<Rightarrow> string \<Rightarrow> string \<Rightarrow> group_page \<Rightarrow> group_page" where
  "handle_memory kind parse ev data s =
     (if ev = ''memory'' \<and> data \<noteq> [] then
        (case parse data of
           Some (Some m) \<Rightarrow> if keeps kind m then add_memories kind [m] s else s
         | _ \<Rightarrow> s)
      else s)"

text \<open>Whether the reads end with the end of the stream rather than with an error.\<close>

fun ends_cleanly :: "read list \<Rightarrow> bool" where
  "ends_cleanly (Chunk n s # rs) = ends_cleanly rs"
| "ends_cleanly (ReadDone # rs) = True"
| "ends_cleanly _ = False"

text \<open>The delay is only taken in the \<^verbatim>\<open>catch\<close>, which the end of a stream does not reach.\<close>

definition group_connect ::
  "(string \<Rightarrow> string \<Rightarrow> 's \<Rightarrow> 's) \<Rightarrow> rat \<Rightarrow> connection \<Rightarrow> 's \<Rightarrow> backoff \<Rightarrow> 's \<times> backoff \<times> jsnum option" where
  "group_connect handle random conn s b =
     (let (s', b', finished) =
        (case conn of
           Refused \<Rightarrow> (s, b, False)
         | Torn \<Rightarrow> (s, b, True)
         | Streaming reads \<Rightarrow>
             (case read_loop handle reads [] s b of
                (s', b', cancelled) \<Rightarrow> (s', b', cancelled \<or> ends_cleanly reads)))
      in if finished then (s', b', None)
         else (case next_delay_ms random b' of (delay, b'') \<Rightarrow> (s', b'', Some delay)))"

definition connect_group_chat ::
  "(string \<Rightarrow> group_memory option option) \<Rightarrow> rat \<Rightarrow> connection \<Rightarrow> group_page \<Rightarrow> backoff \<Rightarrow>
     group_page \<times> backoff \<times> jsnum option" where
  "connect_group_chat parse = group_connect (handle_memory Group_chat parse)"

definition connect_group_notes ::
  "(string \<Rightarrow> group_memory option option) \<Rightarrow> rat \<Rightarrow> connection \<Rightarrow> group_page \<Rightarrow> backoff \<Rightarrow>
     group_page \<times> backoff \<times> jsnum option" where
  "connect_group_notes parse = group_connect (handle_memory Group_notes parse)"

section \<open>Posting and the pace of the agents\<close>

record memory_request =
  mr_content :: string
  mr_tags :: "string list"

fun kind_tag :: "memory_kind \<Rightarrow> string" where
  "kind_tag Group_chat = ''chat''" | "kind_tag Group_notes = ''note''"

fun signed_out_text :: "memory_kind \<Rightarrow> string" where
  "signed_out_text Group_chat = ''Sign in to send messages.''"
| "signed_out_text Group_notes = ''Sign in to post.''"

fun read_only_text :: "memory_kind \<Rightarrow> string" where
  "read_only_text Group_chat = ''Read-only access. You cannot post group messages.''"
| "read_only_text Group_notes = ''Read-only access. You cannot post notes.''"

fun send_failed_text :: "memory_kind \<Rightarrow> string" where
  "send_failed_text Group_chat = ''Unable to send message.''"
| "send_failed_text Group_notes = ''Unable to post.''"

definition begin_post :: "memory_kind \<Rightarrow> string \<Rightarrow> group_page \<Rightarrow> group_page \<times> memory_request option" where
  "begin_post kind content s =
     (if \<not> can_use s then (with_panel kind (\<lambda>p. p\<lparr>gl_error := Some (signed_out_text kind)\<rparr>) s, None)
      else if \<not> can_write_group s then (with_panel kind (\<lambda>p. p\<lparr>gl_error := Some (read_only_text kind)\<rparr>) s, None)
      else let trimmed = trim content
        in if trimmed = [] then (s, None)
           else let broadcast = gl_broadcast (panel_of kind s) \<or> has_all_mention trimmed
             in (with_panel kind (\<lambda>p. p\<lparr>gl_sending := True, gl_error := None\<rparr>) s,
                 Some \<lparr>mr_content = trimmed, mr_tags = kind_tag kind # (if broadcast then [''broadcast''] else [])\<rparr>))"

definition finish_post :: "memory_kind \<Rightarrow> group_memory response \<Rightarrow> group_page \<Rightarrow> group_page \<times> bool" where
  "finish_post kind result s =
     (let settled = with_panel kind (\<lambda>p. p\<lparr>gl_sending := False\<rparr>);
          failed = (\<lambda>msg. settled (with_panel kind (\<lambda>p. p\<lparr>gl_error := Some msg\<rparr>) s))
      in case result of
           Ok created \<Rightarrow> (settled (if keeps kind created then add_memories kind [created] s else s), True)
         | Status st \<Rightarrow> (failed (send_failed_text kind), False)
         | Threw e \<Rightarrow> (failed (error_message e (send_failed_text kind)), False))"

definition send_group_chat :: "string \<Rightarrow> group_page \<Rightarrow> group_page \<times> memory_request option" where
  "send_group_chat = begin_post Group_chat"

definition send_group_note :: "string \<Rightarrow> group_page \<Rightarrow> group_page \<times> memory_request option" where
  "send_group_note = begin_post Group_notes"

definition heartbeat_every :: "group_page \<Rightarrow> string" where
  "heartbeat_every s =
     (case parse_int_prefix (gg_amount s) of
        None \<Rightarrow> []
      | Some n \<Rightarrow> if n \<le> 0 then [] else int_to_string n @ unit_string (gg_unit s))"

definition heartbeat_presets :: "(string \<times> nat \<times> heartbeat_unit) list" where
  "heartbeat_presets =
     [(''30s'', 30, Seconds), (''1m'', 1, Minutes), (''2m'', 2, Minutes), (''5m'', 5, Minutes),
      (''10m'', 10, Minutes), (''15m'', 15, Minutes), (''30m'', 30, Minutes), (''1h'', 1, Hours)]"

definition choose_preset :: "nat \<Rightarrow> heartbeat_unit \<Rightarrow> group_page \<Rightarrow> group_page" where
  "choose_preset amount u s =
     (if can_manage_heartbeat s then s\<lparr>gg_amount := nat_to_string amount, gg_unit := u\<rparr> else s)"

definition preset_active :: "nat \<Rightarrow> heartbeat_unit \<Rightarrow> group_page \<Rightarrow> bool" where
  "preset_active amount u s = (heartbeat_every s = nat_to_string amount @ unit_string u)"

definition begin_apply_heartbeat :: "group_page \<Rightarrow> group_page \<times> (string \<times> bool) option" where
  "begin_apply_heartbeat s =
     (if \<not> can_use s then (s\<lparr>gg_apply_error := Some ''Sign in to apply.''\<rparr>, None)
      else if \<not> can_manage_heartbeat s then
        (s\<lparr>gg_apply_error := Some ''Read-only access. You cannot change agent pace.''\<rparr>, None)
      else let trimmed = trim (heartbeat_every s)
        in if trimmed = [] then (s\<lparr>gg_apply_error := Some ''Heartbeat cadence is required.''\<rparr>, None)
           else (s\<lparr>gg_applying := True, gg_apply_error := None\<rparr>, Some (trimmed, gg_include_leads s)))"

definition finish_apply_heartbeat :: "heartbeat_result response \<Rightarrow> group_page \<Rightarrow> group_page" where
  "finish_apply_heartbeat result s =
     (case result of
        Ok r \<Rightarrow> s\<lparr>gg_apply_result := Some r\<rparr>
      | Status st \<Rightarrow> s\<lparr>gg_apply_error := Some ''Unable to apply heartbeat.''\<rparr>
      | Threw e \<Rightarrow> s\<lparr>gg_apply_error := Some (error_message e ''Unable to apply heartbeat.'')\<rparr>)\<lparr>gg_applying := False\<rparr>"

section \<open>Merging\<close>

definition keyed :: "(string \<times> group_memory) list \<Rightarrow> bool" where
  "keyed m \<longleftrightarrow> distinct (map fst m) \<and> (\<forall>kv \<in> set m. fst kv = gm_id (snd kv))"

lemma keyed_ids: "keyed m \<Longrightarrow> map gm_id (map snd m) = map fst m"
  by (auto simp: keyed_def)

lemma set_update_items: "set (map snd (AList.update k v m)) \<subseteq> insert v (set (map snd m))"
  by (induction m) auto

lemma keyed_set: "keyed m \<Longrightarrow> keyed (map_set m x)"
  unfolding keyed_def map_set_def by (auto simp: distinct_update dest!: alist_update_in)

lemma keyed_fold: "keyed m \<Longrightarrow> keyed (foldl map_set m xs)"
  by (induction xs arbitrary: m) (simp_all add: keyed_set)

lemma keyed_fold_if: "keyed m \<Longrightarrow> keyed (foldl (\<lambda>m x. if P x then map_set m x else m) m xs)"
  by (induction xs arbitrary: m) (simp_all add: keyed_set)

lemma items_fold: "set (map snd (foldl map_set m xs)) \<subseteq> set (map snd m) \<union> set xs"
proof (induction xs arbitrary: m)
  case (Cons x xs)
  show ?case using Cons [of "map_set m x"] set_update_items [of "gm_id x" x m] by (auto simp: map_set_def)
qed simp

lemma items_fold_if:
  "set (map snd (foldl (\<lambda>m x. if P x then map_set m x else m) m xs)) \<subseteq> set (map snd m) \<union> {x \<in> set xs. P x}"
proof (induction xs arbitrary: m)
  case (Cons x xs)
  show ?case
  proof (cases "P x")
    case True
    have "set (map snd (map_set m x)) \<subseteq> insert x (set (map snd m))"
      unfolding map_set_def by (rule set_update_items)
    then have "set (map snd (map_set m x)) \<union> {y \<in> set xs. P y} \<subseteq> set (map snd m) \<union> {y \<in> set (x # xs). P y}"
      using True by auto
    with Cons [of "map_set m x"] True show ?thesis by (simp only: foldl.simps if_True subset_trans)
  next
    case False
    then show ?thesis using Cons [of m] by auto
  qed
qed simp

text \<open>Of each id, the last item that was set is kept.\<close>

lemma map_of_fold_if:
  "map_of (foldl (\<lambda>m x. if P x then map_set m x else m) m xs) i =
     (case List.find (\<lambda>x. P x \<and> gm_id x = i) (rev xs) of None \<Rightarrow> map_of m i | Some x \<Rightarrow> Some x)"
proof (induction xs arbitrary: m rule: rev_induct)
  case (snoc x xs)
  then show ?case by (simp add: map_set_def AList.update_conv')
qed simp

definition merged :: "memory_kind \<Rightarrow> group_memory list \<Rightarrow> group_memory list \<Rightarrow> (string \<times> group_memory) list" where
  "merged kind prev xs = foldl (\<lambda>m x. if keeps kind x then map_set m x else m) (foldl map_set [] prev) xs"

lemma merge_memories_merged: "merge_memories kind prev xs = js_sort (by_key gm_time) (map snd (merged kind prev xs))"
  by (simp add: merge_memories_def merged_def)

lemma keyed_merged: "keyed (merged kind prev xs)"
proof -
  have "keyed ([] :: (string \<times> group_memory) list)" by (simp add: keyed_def)
  then show ?thesis by (simp add: merged_def keyed_fold keyed_fold_if)
qed

definition memories_ok :: "memory_kind \<Rightarrow> group_memory list \<Rightarrow> bool" where
  "memories_ok kind items \<longleftrightarrow> distinct (map gm_id items) \<and> list_all (keeps kind) items \<and>
     sorted_wrt (\<lambda>a b. gm_time a \<le> gm_time b) items"

lemma sorted_memories: "sorted_wrt (\<lambda>a b. gm_time a \<le> gm_time b) (js_sort (by_key gm_time) xs)"
  using by_key.sorted_sort [of gm_time xs] by (simp add: by_key_def)

lemma merge_ok:
  assumes "list_all (keeps kind) prev"
  shows "memories_ok kind (merge_memories kind prev xs)"
proof -
  have "set (map snd (merged kind prev xs)) \<subseteq> set prev \<union> {x \<in> set xs. keeps kind x}"
    using items_fold_if [of "keeps kind" "foldl map_set [] prev" xs] items_fold [of "[]" prev]
    by (auto simp: merged_def)
  moreover have "distinct (map gm_id (map snd (merged kind prev xs)))"
    using keyed_merged [of kind prev xs] by (simp only: keyed_ids) (simp add: keyed_def)
  ultimately show ?thesis
    using assms by (auto simp: memories_ok_def merge_memories_merged sorted_memories list_all_iff)
qed

lemma fold_distinct:
  "distinct (map gm_id xs) \<Longrightarrow> foldl map_set [] xs = map (\<lambda>x. (gm_id x, x)) xs"
  by (induction xs rule: rev_induct) (auto simp: map_set_def alist_update_new image_image)

lemma map_of_items: "distinct (map gm_id xs) \<Longrightarrow> x \<in> set xs \<Longrightarrow> map_of (map (\<lambda>x. (gm_id x, x)) xs) (gm_id x) = Some x"
  by (intro map_of_is_SomeI) (auto simp: comp_def)

text \<open>Merging what is already there changes nothing: a replayed event, a history loaded again.\<close>

lemma merge_known:
  assumes "memories_ok kind items" and "\<forall>x \<in> set xs. keeps kind x \<longrightarrow> x \<in> set items"
  shows "merge_memories kind items xs = items"
proof -
  let ?m = "map (\<lambda>x. (gm_id x, x)) items"
  have d: "distinct (map gm_id items)" using assms(1) by (simp add: memories_ok_def)
  have "foldl (\<lambda>m x. if keeps kind x then map_set m x else m) ?m xs = ?m"
    using assms(2)
    by (induction xs) (auto simp: map_set_def alist_update_same map_of_items [OF d])
  then have "merge_memories kind items xs = js_sort (by_key gm_time) items"
    by (simp add: merge_memories_merged merged_def fold_distinct [OF d] comp_def)
  moreover have "sorted_wrt (\<lambda>a b. by_key gm_time a b \<le> 0) items"
    using assms(1) by (simp add: memories_ok_def by_key_def)
  ultimately show ?thesis using by_key.sort_sorted by metis
qed

text \<open>Which item is shown for an id: the last one received.\<close>

lemma merge_lookup:
  "x \<in> set (merge_memories kind prev xs) \<longleftrightarrow>
     (case List.find (\<lambda>y. keeps kind y \<and> gm_id y = gm_id x) (rev xs) of
        None \<Rightarrow> List.find (\<lambda>y. gm_id y = gm_id x) (rev prev) = Some x
      | Some y \<Rightarrow> x = y)"
proof -
  have k: "keyed (merged kind prev xs)" by (rule keyed_merged)
  have "x \<in> set (merge_memories kind prev xs) \<longleftrightarrow> map_of (merged kind prev xs) (gm_id x) = Some x"
  proof
    assume "x \<in> set (merge_memories kind prev xs)"
    then obtain i where "(i, x) \<in> set (merged kind prev xs)" by (auto simp: merge_memories_merged)
    moreover from this k have "i = gm_id x" by (auto simp: keyed_def)
    ultimately show "map_of (merged kind prev xs) (gm_id x) = Some x" using k by (simp add: keyed_def)
  next
    assume "map_of (merged kind prev xs) (gm_id x) = Some x"
    then have "(gm_id x, x) \<in> set (merged kind prev xs)" by (rule map_of_SomeD)
    then show "x \<in> set (merge_memories kind prev xs)" by (force simp: merge_memories_merged)
  qed
  moreover have "map_of (foldl map_set [] prev) i = List.find (\<lambda>y. gm_id y = i) (rev prev)" for i
    using map_of_fold_if [of "\<lambda>_. True" "[]" prev i] by (simp split: option.splits)
  ultimately show ?thesis by (auto simp: merged_def map_of_fold_if split: option.split)
qed

section \<open>The page as a state machine\<close>

text \<open>Whatever can happen to the page of a group, with the readers of the two streams as parameters.
  The router mounts a new page for another group, so the group of a page stays.\<close>

inductive group_step :: "group_page \<Rightarrow> group_page \<Rightarrow> bool" where
  open_chat: "group_step s (open_group_chat s)"
| open_notes: "group_step s (open_group_notes s)"
| close: "group_step s (close_panel kind s)"
| close_both: "group_step s (close_panels s)"
| commit: "group_step s (commit_panel kind s)"
| history: "group_step s (history_loaded kind result s)"
| chat_stream: "wf_backoff b \<Longrightarrow> connect_group_chat parse random conn s b = (s', b', d) \<Longrightarrow> group_step s s'"
| notes_stream: "wf_backoff b \<Longrightarrow> connect_group_notes parse random conn s b = (s', b', d) \<Longrightarrow> group_step s s'"
| post: "begin_post kind content s = (s', request) \<Longrightarrow> group_step s s'"
| posted: "finish_post kind answer s = (s', ok) \<Longrightarrow> group_step s s'"
| broadcast: "group_step s (with_panel kind (\<lambda>p. p\<lparr>gl_broadcast := value\<rparr>) s)"
| preset: "group_step s (choose_preset amount u s)"
| apply_pace: "begin_apply_heartbeat s = (s', request') \<Longrightarrow> group_step s s'"
| applied_pace: "group_step s (finish_apply_heartbeat outcome s)"
| loaded: "group_step s (s\<lparr>gg_member := m, gg_boards := bs\<rparr>)"

definition group_ok :: "group_page \<Rightarrow> bool" where
  "group_ok s \<longleftrightarrow> memories_ok Group_chat (gl_items (gg_chat s)) \<and> memories_ok Group_notes (gl_items (gg_notes s)) \<and>
     \<not> (gl_open (gg_chat s) \<and> gl_open (gg_notes s))"

lemma panel_simps [simp]:
  "gg_notes (with_panel Group_chat f s) = gg_notes s" "gg_chat (with_panel Group_notes f s) = gg_chat s"
  "panel_of kind (with_panel kind f s) = f (panel_of kind s)"
  by (cases kind; simp)+

lemma add_memories_ok: "group_ok s \<Longrightarrow> group_ok (add_memories kind items s)"
  by (cases kind) (auto simp: group_ok_def add_memories_def memories_ok_def dest: merge_ok [THEN iffD1 [OF memories_ok_def]])

lemma with_panel_ok:
  "group_ok s \<Longrightarrow> (\<And>p. gl_items (f p) = gl_items p \<and> (gl_open (f p) \<longrightarrow> gl_open p)) \<Longrightarrow> group_ok (with_panel kind f s)"
  by (cases kind) (auto simp: group_ok_def)

lemma handle_memory_ok: "group_ok s \<Longrightarrow> group_ok (handle_memory kind parse ev data s)"
  by (auto simp: handle_memory_def add_memories_ok split: option.split)

interpretation group_stream: sse_client "handle_memory kind parse" group_ok for kind parse
  by unfold_locales (rule handle_memory_ok)

text \<open>The loop after its last read: a stream that ended is not opened again, anything else is
  as on the board page.\<close>

lemma group_connect_eq:
  "group_connect handle random conn s b =
     (case conn of
        Streaming reads \<Rightarrow>
          (if ends_cleanly reads
           then (case read_loop handle reads [] s b of (s', b', c) \<Rightarrow> (s', b', None))
           else connect handle random conn s b)
      | _ \<Rightarrow> connect handle random conn s b)"
  by (auto simp: group_connect_def connect_def Let_def split: connection.split prod.split)

lemma group_connect_ok:
  assumes "group_ok s" and "wf_backoff b"
    and "group_connect (handle_memory kind parse) random conn s b = (s', b', d)"
  shows "group_ok s'"
proof (cases "\<exists>reads. conn = Streaming reads \<and> ends_cleanly reads")
  case True
  then show ?thesis using assms(3) group_stream.read_loop_inv [OF assms(1,2)]
    by (auto simp: group_connect_eq split: prod.splits)
next
  case False
  then have "connect (handle_memory kind parse) random conn s b = (s', b', d)"
    using assms(3) by (auto simp: group_connect_eq split: connection.splits if_splits)
  then show ?thesis using group_stream.connect_inv [OF assms(1,2)] by blast
qed

lemma group_step_ok: "group_step s s' \<Longrightarrow> group_ok s \<Longrightarrow> group_ok s'"
proof (induction rule: group_step.induct)
  case (close s kind)
  then show ?case unfolding close_panel_def by (rule with_panel_ok) simp
next
  case (close_both s)
  then show ?case unfolding close_panels_def close_panel_def by (intro with_panel_ok) simp_all
next
  case (commit s kind)
  then show ?case unfolding commit_panel_def by (rule with_panel_ok) simp
next
  case (history s kind result)
  then show ?case by (auto simp: history_loaded_def add_memories_ok split: response.split)
next
  case (chat_stream b parse random conn s s' b' d)
  then show ?case unfolding connect_group_chat_def by (blast intro: group_connect_ok)
next
  case (notes_stream b parse random conn s s' b' d)
  then show ?case unfolding connect_group_notes_def by (blast intro: group_connect_ok)
next
  case (post kind content s s' request)
  then show ?case by (auto simp: begin_post_def Let_def split: if_splits intro!: with_panel_ok)
next
  case (posted kind answer s s' ok)
  then show ?case
    by (auto simp: finish_post_def Let_def split: response.splits if_splits intro!: with_panel_ok add_memories_ok)
next
  case (broadcast s kind v)
  then show ?case by (rule with_panel_ok) simp
qed (auto simp: group_ok_def open_group_chat_def open_group_notes_def choose_preset_def begin_apply_heartbeat_def
    finish_apply_heartbeat_def Let_def split: if_splits response.splits)

lemma initial_group_ok: "group_ok (initial_group signed_in g)"
  by (simp add: group_ok_def initial_group_def empty_panel_def memories_ok_def)

lemma group_reachable_ok: "group_step\<^sup>*\<^sup>* (initial_group signed_in g) s \<Longrightarrow> group_ok s"
  by (induction rule: rtranclp_induct) (auto simp: initial_group_ok group_step_ok)

section \<open>Properties\<close>

text \<open>C18: whatever the user, the streams, the history loads and the answers to posts do, in any
  order: the chat shows chat messages only and the notes the others, each id once, oldest
  first; at most one of the two panels is open; and a message that is already shown changes
  nothing when a stream or a history delivers it again.\<close>

lemma group_memories_invariant:
  assumes "group_step\<^sup>*\<^sup>* (initial_group signed_in g) s"
  shows "memories_ok kind (gl_items (panel_of kind s)) \<and> \<not> (gl_open (gg_chat s) \<and> gl_open (gg_notes s)) \<and>
    (\<forall>m. m \<in> set (gl_items (panel_of kind s)) \<longrightarrow> add_memories kind [m] s = s)"
proof -
  have ok: "group_ok s" using assms by (rule group_reachable_ok)
  then have m: "memories_ok kind (gl_items (panel_of kind s))" by (cases kind) (simp_all add: group_ok_def)
  moreover have "add_memories kind [x] s = s" if "x \<in> set (gl_items (panel_of kind s))" for x
    using merge_known [OF m, of "[x]"] that by (cases kind) (simp_all add: add_memories_def)
  ultimately show ?thesis using ok by (simp add: group_ok_def)
qed

lemma clean_not_cancelled: "ends_cleanly reads \<Longrightarrow> \<not> snd (snd (read_loop handle reads buffer s b))"
  by (induction handle reads buffer s b rule: read_loop.induct) (auto split: prod.splits)

lemma chunks_end_cleanly: "ends_cleanly (chunks cs @ [ReadDone])"
  by (induction cs) (auto simp: chunks_def)

text \<open>A group's stream against the board's: with the same reads both leave the same page
  and, unless the stream comes to its end, the same backoff and delay. But when the server or a
  proxy ends the stream, the board page connects again and the page of the group never does.\<close>

lemma ended_group_stream_stays_closed:
  "group_connect handle random conn s b =
     (case connect handle random conn s b of
        (s', b', d) \<Rightarrow>
          (case conn of
             Streaming reads \<Rightarrow>
               if ends_cleanly reads then (s', fst (snd (read_loop handle reads [] s b)), None) else (s', b', d)
           | _ \<Rightarrow> (s', b', d))) \<and>
   (snd (snd (connect handle random (Streaming (chunks cs @ [ReadDone])) s b)) \<noteq> None) \<and>
   snd (snd (group_connect handle random (Streaming (chunks cs @ [ReadDone])) s b)) = None"
proof -
  have c: "\<not> snd (snd (read_loop handle reads [] s b))" if "ends_cleanly reads" for reads
    using that by (rule clean_not_cancelled)
  have "fst (connect handle random (Streaming reads) s b) = fst (read_loop handle reads [] s b)" for reads
    by (auto simp: connect_def Let_def split: prod.splits)
  moreover have "snd (snd (connect handle random (Streaming reads) s b)) \<noteq> None" if "ends_cleanly reads" for reads
    using c [OF that] by (auto simp: connect_def Let_def split: prod.splits)
  ultimately show ?thesis
    using chunks_end_cleanly [of cs]
    by (auto simp: group_connect_eq split: connection.split prod.splits) (metis fst_conv)+
qed

text \<open>Everybody is mentioned by a word that starts with ``@all'' and goes on, if at all, with a
  character that is not a word character: also by the handle ``@all-hands''.\<close>

lemma ex_empty_or: "(\<exists>a. Q a) \<longleftrightarrow> Q [] \<or> (\<exists>a. a \<noteq> [] \<and> Q a)"
  by metis

lemma all_mention_from_iff:
  "all_mention_from start s \<longleftrightarrow>
     (\<exists>a m b. s = a @ m @ b \<and> to_lower m = ''@all'' \<and> (if a = [] then start else is_ws (last a)) \<and>
        (b = [] \<or> \<not> is_word_char (hd b)))"
  (is "_ \<longleftrightarrow> (\<exists>a m b. ?R start s a m b)")
proof (induction start s rule: all_mention_from.induct)
  case (1 start)
  show ?case by (auto simp: to_lower_def)
next
  case (2 start c cs)
  have here: "(\<exists>m b. ?R start (c # cs) [] m b) \<longleftrightarrow>
      start \<and> starts_with (to_lower (c # cs)) ''@all'' \<and>
        (case drop 4 (c # cs) of [] \<Rightarrow> True | d # _ \<Rightarrow> \<not> is_word_char d)"
  proof
    assume "\<exists>m b. ?R start (c # cs) [] m b"
    then obtain m b where e: "c # cs = m @ b" "to_lower m = ''@all''" "start" "b = [] \<or> \<not> is_word_char (hd b)" by auto
    have "length m = 4" using arg_cong [OF e(2), of length] by (simp add: to_lower_def)
    then have "drop 4 (c # cs) = b" using e(1) by simp
    moreover have "starts_with (to_lower (c # cs)) ''@all''" unfolding e(1) using e(2)
      by (simp only: to_lower_def map_append starts_with_append)
    ultimately show "start \<and> starts_with (to_lower (c # cs)) ''@all'' \<and>
        (case drop 4 (c # cs) of [] \<Rightarrow> True | d # _ \<Rightarrow> \<not> is_word_char d)"
      using e(3,4) by (cases b) auto
  next
    assume r: "start \<and> starts_with (to_lower (c # cs)) ''@all'' \<and>
        (case drop 4 (c # cs) of [] \<Rightarrow> True | d # _ \<Rightarrow> \<not> is_word_char d)"
    then obtain t where "to_lower (c # cs) = ''@all'' @ t" by (auto simp: starts_with_iff)
    then have "take 4 (to_lower (c # cs)) = ''@all''" by simp
    then have "to_lower (take 4 (c # cs)) = ''@all''" by (simp only: to_lower_def take_map)
    then have "?R start (c # cs) [] (take 4 (c # cs)) (drop 4 (c # cs))"
      using r by (auto split: list.splits)
    then show "\<exists>m b. ?R start (c # cs) [] m b" by blast
  qed
  have "(\<exists>a m b. a \<noteq> [] \<and> ?R start (c # cs) a m b) \<longleftrightarrow> (\<exists>a m b. ?R (is_ws c) cs a m b)"
  proof
    assume "\<exists>a m b. a \<noteq> [] \<and> ?R start (c # cs) a m b"
    then obtain a m b where r: "a \<noteq> []" "?R start (c # cs) a m b" by blast
    then obtain a' where "a = c # a'" by (cases a) auto
    with r have "?R (is_ws c) cs a' m b" by (cases a') auto
    then show "\<exists>a m b. ?R (is_ws c) cs a m b" by blast
  next
    assume "\<exists>a m b. ?R (is_ws c) cs a m b"
    then obtain a m b where "?R (is_ws c) cs a m b" by blast
    then have "?R start (c # cs) (c # a) m b" by (cases a) auto
    then show "\<exists>a m b. a \<noteq> [] \<and> ?R start (c # cs) a m b" by blast
  qed
  moreover have "(\<exists>a m b. ?R start (c # cs) a m b) \<longleftrightarrow>
      (\<exists>m b. ?R start (c # cs) [] m b) \<or> (\<exists>a m b. a \<noteq> [] \<and> ?R start (c # cs) a m b)"
    using ex_empty_or [of "\<lambda>a. \<exists>m b. ?R start (c # cs) a m b"] by simp
  ultimately show ?case using here 2 by simp
qed

text \<open>A post is sent exactly for a signed-in user who may write to a board of the group (or
  to all) and only for a text that is not blank; it carries the trimmed text, and it is a broadcast
  exactly if the user chose so or mentions everybody; a stored one is shown in its panel, a failed
  one leaves the messages alone and shows why.\<close>

lemma group_posts:
  "(\<exists>request. snd (begin_post kind content s) = Some request) =
     (can_use s \<and> can_write_group s \<and> trim content \<noteq> []) \<and>
   (\<forall>request. snd (begin_post kind content s) = Some request \<longrightarrow>
      mr_content request = trim content \<and> hd (mr_tags request) = kind_tag kind \<and>
      (''broadcast'' \<in> set (mr_tags request) \<longleftrightarrow> gl_broadcast (panel_of kind s) \<or>
         (\<exists>a m b. trim content = a @ m @ b \<and> to_lower m = ''@all'' \<and> (a = [] \<or> is_ws (last a)) \<and>
            (b = [] \<or> \<not> is_word_char (hd b))))) \<and>
   (keeps kind created \<longrightarrow> created \<in> set (gl_items (panel_of kind (fst (finish_post kind (Ok created) s))))) \<and>
   gl_items (panel_of kind (fst (finish_post kind (Threw e) s))) = gl_items (panel_of kind s) \<and>
   gl_error (panel_of kind (fst (finish_post kind (Threw e) s))) = Some (error_message e (send_failed_text kind))"
proof -
  have all: "has_all_mention t \<longleftrightarrow> (\<exists>a m b. t = a @ m @ b \<and> to_lower m = ''@all'' \<and> (a = [] \<or> is_ws (last a)) \<and>
      (b = [] \<or> \<not> is_word_char (hd b)))" for t
    unfolding has_all_mention_def all_mention_from_iff by (metis (full_types))
  have "created \<in> set (merge_memories kind xs [created])" if "keeps kind created" for xs
    using that by (simp add: merge_lookup)
  moreover have "kind_tag kind \<noteq> ''broadcast''" by (cases kind) simp_all
  ultimately show ?thesis
    by (simp add: begin_post_def finish_post_def add_memories_def Let_def all)
qed

lemma group_posts_witness:
  "let s = (initial_group True (Some ''g''))\<lparr>gg_member := Some \<lparr>member_role = ''member'', member_all_boards_read = True,
        member_all_boards_write = True, member_board_access = None, member_user = Missing\<rparr>\<rparr>;
      m = \<lparr>gm_id = ''1'', gm_content = ''Hi'', gm_created_at = ''2026-01-02T00:00:00'', gm_source = Missing,
        gm_tags = Missing, gm_is_chat = Some True\<rparr>
   in (\<exists>request. snd (begin_post Group_chat '' Hi '' s) = Some request) \<and>
      m \<in> set (gl_items (panel_of Group_chat (fst (finish_post Group_chat (Ok m) s))))"
proof -
  let ?m = "\<lparr>gm_id = ''1'', gm_content = ''Hi'', gm_created_at = ''2026-01-02T00:00:00'', gm_source = Missing,
        gm_tags = Missing, gm_is_chat = Some True\<rparr>"
  let ?s = "(initial_group True (Some ''g''))\<lparr>gg_member := Some \<lparr>member_role = ''member'', member_all_boards_read = True,
        member_all_boards_write = True, member_board_access = None, member_user = Missing\<rparr>\<rparr>"
  have "can_use ?s" "can_write_group ?s" "trim '' Hi '' \<noteq> []" "keeps Group_chat ?m"
    by (code_simp | simp add: can_use_def can_write_group_def can_write_group_boards_def initial_group_def keeps_def)+
  then show ?thesis
    unfolding Let_def using group_posts [of Group_chat "'' Hi ''" ?s ?m Other_error] by blast
qed

definition sample_group :: group_page where
  "sample_group = add_memories Group_chat [\<lparr>gm_id = ''1'', gm_content = ''Hi'',
     gm_created_at = ''2026-01-02T00:00:00'', gm_source = Missing, gm_tags = Missing, gm_is_chat = Some True\<rparr>]
     (open_group_chat (initial_group True (Some ''g'')))"

lemma group_memories_witness:
  "length (gl_items (gg_chat sample_group)) = 1 \<and> memories_ok Group_chat (gl_items (gg_chat sample_group))"
proof -
  let ?s = "open_group_chat (initial_group True (Some ''g''))"
  let ?m = "\<lparr>gm_id = ''1'', gm_content = ''Hi'', gm_created_at = ''2026-01-02T00:00:00'', gm_source = Missing,
     gm_tags = Missing, gm_is_chat = Some True\<rparr>"
  have "group_step (initial_group True (Some ''g'')) ?s" by (rule open_chat)
  moreover have "history_loaded Group_chat (Ok [?m]) ?s = sample_group"
    by (simp add: history_loaded_def sample_group_def open_group_chat_def)
  then have "group_step ?s sample_group" by (metis history)
  ultimately have r: "group_step\<^sup>*\<^sup>* (initial_group True (Some ''g'')) sample_group" by auto
  have "length (gl_items (gg_chat sample_group)) = 1" by code_simp
  then show ?thesis using group_memories_invariant [OF r, of Group_chat] by simp
qed

end
