(* ===== verification/Organization.thy ===== *)
theory Organization
  imports BoardPage "HOL-Library.AList"
begin

text \<open>
  The organization page (\<^verbatim>\<open>app/organization/page.tsx\<close>): the editor of board access, which the
  dialog for an invite and the one for a member share, the checks before a request, and what
  its outcome does. An object from board ids to rights is an association list; a spread with a
  computed key is \<open>AList.update\<close>.
\<close>

section \<open>Board access\<close>

datatype access_scope = All_boards | Custom_boards

record access_entry =
  ae_read :: bool
  ae_write :: bool

type_synonym board_access_state = "(string \<times> access_entry) list"

definition build_access_list :: "board_access_state \<Rightarrow> board_access list" where
  "build_access_list access =
     map (\<lambda>(board, entry). \<lparr>access_board_id = board, access_can_read = ae_read entry \<or> ae_write entry,
            access_can_write = ae_write entry\<rparr>)
       (filter (\<lambda>(board, entry). ae_read entry \<or> ae_write entry) access)"

text \<open>What the editor shows and changes; the dialogs hold it in separate states.\<close>

record access_form =
  af_scope :: access_scope
  af_all_read :: bool
  af_all_write :: bool
  af_access :: board_access_state

definition handle_all_read_toggle :: "bool \<Rightarrow> access_form \<Rightarrow> access_form" where
  "handle_all_read_toggle disabled f =
     (if disabled then f
      else let next_read = \<not> af_all_read f
        in f\<lparr>af_all_read := next_read,
             af_all_write := (if \<not> next_read \<and> af_all_write f then False else af_all_write f)\<rparr>)"

definition handle_all_write_toggle :: "bool \<Rightarrow> access_form \<Rightarrow> access_form" where
  "handle_all_write_toggle disabled f =
     (if disabled then f
      else let next_write = \<not> af_all_write f
        in f\<lparr>af_all_write := next_write,
             af_all_read := (if next_write \<and> \<not> af_all_read f then True else af_all_read f)\<rparr>)"

definition update_board_access :: "string \<Rightarrow> access_entry \<Rightarrow> access_form \<Rightarrow> access_form" where
  "update_board_access board entry f =
     f\<lparr>af_access := AList.update board
         \<lparr>ae_read = ae_read entry \<or> ae_write entry, ae_write = ae_write entry\<rparr> (af_access f)\<rparr>"

definition access_of :: "string \<Rightarrow> access_form \<Rightarrow> access_entry" where
  "access_of board f = coalesce_opt (map_of (af_access f) board) \<lparr>ae_read = False, ae_write = False\<rparr>"

definition handle_board_read_toggle :: "bool \<Rightarrow> string \<Rightarrow> access_form \<Rightarrow> access_form" where
  "handle_board_read_toggle disabled board f =
     (if disabled then f
      else let current = access_of board f; next_read = \<not> ae_read current
        in update_board_access board
             \<lparr>ae_read = next_read, ae_write = (if next_read then ae_write current else False)\<rparr> f)"

definition handle_board_write_toggle :: "bool \<Rightarrow> string \<Rightarrow> access_form \<Rightarrow> access_form" where
  "handle_board_write_toggle disabled board f =
     (if disabled then f
      else let current = access_of board f; next_write = \<not> ae_write current
        in update_board_access board
             \<lparr>ae_read = (if next_write then True else ae_read current), ae_write = next_write\<rparr> f)"

datatype editor_event = Set_scope access_scope | All_read | All_write | Board_read string | Board_write string

fun editor_step :: "bool \<Rightarrow> editor_event \<Rightarrow> access_form \<Rightarrow> access_form" where
  "editor_step disabled (Set_scope sc) f = (if disabled then f else f\<lparr>af_scope := sc\<rparr>)"
| "editor_step disabled All_read f = handle_all_read_toggle disabled f"
| "editor_step disabled All_write f = handle_all_write_toggle disabled f"
| "editor_step disabled (Board_read b) f = handle_board_read_toggle disabled b f"
| "editor_step disabled (Board_write b) f = handle_board_write_toggle disabled b f"

text \<open>The check that both dialogs make, and the rights that both requests carry.\<close>

record access_request =
  ac_all_read :: bool
  ac_all_write :: bool
  ac_boards :: "board_access list"

definition access_request_of :: "access_form \<Rightarrow> access_request option" where
  "access_request_of f =
     (let has_all_access = (af_scope f = All_boards \<and> (af_all_read f \<or> af_all_write f));
          access_list = build_access_list (af_access f);
          has_custom_access = (af_scope f = Custom_boards \<and> access_list \<noteq> [])
      in if \<not> has_all_access \<and> \<not> has_custom_access then None
         else Some \<lparr>ac_all_read = (if af_scope f = All_boards then af_all_read f else False),
                    ac_all_write = (if af_scope f = All_boards then af_all_write f else False),
                    ac_boards = (if af_scope f = Custom_boards then access_list else [])\<rparr>)"

section \<open>Inviting\<close>

record invite_dialog =
  iv_open :: bool
  iv_email :: string
  iv_role :: string
  iv_form :: access_form
  iv_error :: "string option"

definition default_invite_form :: access_form where
  "default_invite_form = \<lparr>af_scope = All_boards, af_all_read = True, af_all_write = False, af_access = []\<rparr>"

definition initial_invite :: invite_dialog where
  "initial_invite = \<lparr>iv_open = False, iv_email = [], iv_role = ''member'', iv_form = default_invite_form, iv_error = None\<rparr>"

record invite_request =
  ir_email :: string
  ir_role :: string
  ir_access :: access_request

definition is_admin_role :: "string option \<Rightarrow> bool" where
  "is_admin_role r = (r = Some ''admin'' \<or> r = Some ''owner'')"

definition handle_invite_submit :: "bool \<Rightarrow> string option \<Rightarrow> invite_dialog \<Rightarrow> invite_dialog \<times> invite_request option" where
  "handle_invite_submit signed_in my_role d =
     (if \<not> signed_in \<or> \<not> is_admin_role my_role then (d, None)
      else let email = to_lower (trim (iv_email d))
        in if email = [] \<or> \<not> includes_str email ''@''
           then (d\<lparr>iv_error := Some ''Enter a valid email address.''\<rparr>, None)
           else case access_request_of (iv_form d) of
             None \<Rightarrow> (d\<lparr>iv_error := Some ''Select read or write access for at least one board.''\<rparr>, None)
           | Some rq \<Rightarrow> (d\<lparr>iv_error := None\<rparr>, Some \<lparr>ir_email = email, ir_role = iv_role d, ir_access = rq\<rparr>))"

definition invite_answered :: "int \<Rightarrow> invite_dialog \<Rightarrow> invite_dialog" where
  "invite_answered status d =
     (if status = 200
      then d\<lparr>iv_email := [], iv_role := ''member'', iv_form := default_invite_form, iv_error := None, iv_open := False\<rparr>
      else d)"

definition invite_failed :: "string \<Rightarrow> invite_dialog \<Rightarrow> invite_dialog" where
  "invite_failed message d = d\<lparr>iv_error := Some (if message = [] then ''Unable to create invite.'' else message)\<rparr>"

definition handle_invite_dialog_change :: "bool \<Rightarrow> invite_dialog \<Rightarrow> invite_dialog" where
  "handle_invite_dialog_change op d =
     (let d1 = d\<lparr>iv_open := op\<rparr> in if \<not> op then d1\<lparr>iv_error := None\<rparr> else d1)"

definition invite_url :: "string \<Rightarrow> string \<Rightarrow> string" where
  "invite_url base_url token = (if base_url \<noteq> [] then base_url @ ''/invite?token='' @ token else token)"

section \<open>The rights of a member\<close>

record member_details =
  md_id :: string
  md_user_id :: string
  md_role :: string
  md_all_read :: bool
  md_all_write :: bool
  md_board_access :: "board_access list option"

record access_dialog =
  ad_open :: bool
  ad_member :: "string option"
  ad_role :: "string option"
  ad_scope :: "access_scope option"
  ad_all_read :: "bool option"
  ad_all_write :: "bool option"
  ad_access :: "board_access_state option"
  ad_error :: "string option"
  ad_remove_open :: bool

definition closed_access_dialog :: access_dialog where
  "closed_access_dialog = \<lparr>ad_open = False, ad_member = None, ad_role = None, ad_scope = None, ad_all_read = None,
     ad_all_write = None, ad_access = None, ad_error = None, ad_remove_open = False\<rparr>"

definition default_access :: "member_details option \<Rightarrow> string \<times> access_form" where
  "default_access details =
     (case details of
        None \<Rightarrow> (''member'', \<lparr>af_scope = All_boards, af_all_read = False, af_all_write = False, af_access = []\<rparr>)
      | Some m \<Rightarrow>
          (md_role m,
           \<lparr>af_scope = (if md_all_read m \<or> md_all_write m then All_boards else Custom_boards),
            af_all_read = md_all_read m, af_all_write = md_all_write m,
            af_access = foldl (\<lambda>acc e. AList.update (access_board_id e)
                \<lparr>ae_read = access_can_read e \<or> access_can_write e, ae_write = access_can_write e\<rparr> acc)
              [] (coalesce_opt (md_board_access m) [])\<rparr>))"

definition resolved_role :: "member_details option \<Rightarrow> access_dialog \<Rightarrow> string" where
  "resolved_role details d = coalesce_opt (ad_role d) (fst (default_access details))"

definition resolved_access :: "member_details option \<Rightarrow> access_dialog \<Rightarrow> access_form" where
  "resolved_access details d =
     (let def = snd (default_access details)
      in \<lparr>af_scope = coalesce_opt (ad_scope d) (af_scope def), af_all_read = coalesce_opt (ad_all_read d) (af_all_read def),
          af_all_write = coalesce_opt (ad_all_write d) (af_all_write def),
          af_access = coalesce_opt (ad_access d) (af_access def)\<rparr>)"

definition reset_access_state :: "access_dialog \<Rightarrow> access_dialog" where
  "reset_access_state d = d\<lparr>ad_role := None, ad_scope := None, ad_all_read := None, ad_all_write := None,
     ad_access := None, ad_error := None\<rparr>"

definition handle_access_dialog_change :: "bool \<Rightarrow> access_dialog \<Rightarrow> access_dialog" where
  "handle_access_dialog_change op d =
     (let d1 = d\<lparr>ad_open := op\<rparr>
      in if \<not> op then d1\<lparr>ad_member := None, ad_error := None\<rparr> else reset_access_state d1)"

definition open_access_dialog :: "string \<Rightarrow> access_dialog \<Rightarrow> access_dialog" where
  "open_access_dialog member_id d = reset_access_state (d\<lparr>ad_member := Some member_id, ad_open := True\<rparr>)"

text \<open>An event of the editor in the dialog writes the states whose setters it calls.\<close>

definition edit_access :: "member_details option \<Rightarrow> editor_event \<Rightarrow> access_dialog \<Rightarrow> access_dialog" where
  "edit_access details ev d =
     (let f = resolved_access details d; f' = editor_step False ev f
      in case ev of
           Set_scope sc \<Rightarrow> d\<lparr>ad_scope := Some sc\<rparr>
         | All_read \<Rightarrow> d\<lparr>ad_all_read := Some (af_all_read f'),
             ad_all_write := (if af_all_write f' = af_all_write f then ad_all_write d else Some (af_all_write f'))\<rparr>
         | All_write \<Rightarrow> d\<lparr>ad_all_write := Some (af_all_write f'),
             ad_all_read := (if af_all_read f' = af_all_read f then ad_all_read d else Some (af_all_read f'))\<rparr>
         | _ \<Rightarrow> d\<lparr>ad_access := Some (af_access f')\<rparr>)"

text \<open>The requests of \<^verbatim>\<open>handleSaveAccess\<close>, in order: the role, if it is known and changed, then the
  rights. Each waits for the one before.\<close>

datatype save_request = Update_role string string | Update_access string access_request

definition handle_save_access ::
  "string option \<Rightarrow> member_details option \<Rightarrow> access_dialog \<Rightarrow> access_dialog \<times> save_request list" where
  "handle_save_access my_role details d =
     (case ad_member d of
        None \<Rightarrow> (d, [])
      | Some mid \<Rightarrow>
          (if mid = [] \<or> \<not> is_admin_role my_role then (d, [])
           else case access_request_of (resolved_access details d) of
             None \<Rightarrow> (d\<lparr>ad_error := Some ''Select read or write access for at least one board.''\<rparr>, [])
           | Some rq \<Rightarrow>
               (d\<lparr>ad_error := None\<rparr>,
                (case details of
                   Some m \<Rightarrow> if md_role m \<noteq> resolved_role details d then [Update_role (md_id m) (resolved_role details d)] else []
                 | None \<Rightarrow> [])
                @ [Update_access mid rq])))"

text \<open>The outcomes of the requests sent so far: the first failure ends the saving.\<close>

fun access_saved :: "save_request list \<Rightarrow> js_error option list \<Rightarrow> access_dialog \<Rightarrow> access_dialog \<times> save_request list" where
  "access_saved [] outcomes d = (d\<lparr>ad_open := False\<rparr>, [])"
| "access_saved (rq # rqs) [] d = (d, [])"
| "access_saved (rq # rqs) (Some e # outcomes) d =
     (d\<lparr>ad_error := Some (error_message e ''Unable to update member access.'')\<rparr>, [])"
| "access_saved (rq # rqs) (None # outcomes) d =
     (case access_saved rqs outcomes d of (d', stored) \<Rightarrow> (d', rq # stored))"

definition active_member_can_be_removed :: "string option \<Rightarrow> string option \<Rightarrow> member_details option \<Rightarrow> bool" where
  "active_member_can_be_removed my_role my_user_id details \<longleftrightarrow>
     is_admin_role my_role \<and>
     (case details of
        None \<Rightarrow> False
      | Some m \<Rightarrow> Some (md_user_id m) \<noteq> my_user_id \<and> (my_role = Some ''owner'' \<or> md_role m \<noteq> ''owner''))"

definition handle_remove_member :: "string option \<Rightarrow> string option \<Rightarrow> member_details option \<Rightarrow> access_dialog \<Rightarrow> string option" where
  "handle_remove_member my_role my_user_id details d =
     (case ad_member d of
        None \<Rightarrow> None
      | Some mid \<Rightarrow>
          if mid = [] \<or> \<not> active_member_can_be_removed my_role my_user_id details then None else Some mid)"

definition member_removed :: "access_dialog \<Rightarrow> access_dialog" where
  "member_removed d = d\<lparr>ad_remove_open := False, ad_open := False, ad_member := None\<rparr>"

section \<open>Writing needs reading\<close>

definition form_ok :: "access_form \<Rightarrow> bool" where
  "form_ok f \<longleftrightarrow> (af_all_write f \<longrightarrow> af_all_read f) \<and> distinct (map fst (af_access f)) \<and>
     (\<forall>be \<in> set (af_access f). ae_write (snd be) \<longrightarrow> ae_read (snd be))"

lemma update_board_ok: "form_ok f \<Longrightarrow> form_ok (update_board_access b e f)"
  by (auto simp: form_ok_def update_board_access_def distinct_update dest!: alist_update_in)

lemma editor_step_ok: "form_ok f \<Longrightarrow> form_ok (editor_step disabled ev f)"
proof (cases ev)
  case (Board_read b)
  then show "form_ok f \<Longrightarrow> ?thesis" by (simp add: handle_board_read_toggle_def Let_def update_board_ok)
next
  case (Board_write b)
  then show "form_ok f \<Longrightarrow> ?thesis" by (simp add: handle_board_write_toggle_def Let_def update_board_ok)
qed (auto simp: form_ok_def handle_all_read_toggle_def handle_all_write_toggle_def Let_def)

text \<open>The dialog resolves to the form that the same events make of the default.\<close>

lemma resolved_edit: "resolved_access details (edit_access details ev d) = editor_step False ev (resolved_access details d)"
  by (cases ev) (simp_all add: edit_access_def resolved_access_def Let_def handle_all_read_toggle_def
      handle_all_write_toggle_def handle_board_read_toggle_def handle_board_write_toggle_def update_board_access_def
      coalesce_opt_def access_of_def)

lemma fold_access:
  "distinct (map access_board_id es) \<Longrightarrow>
     foldl (\<lambda>acc e. AList.update (access_board_id e) (g e) acc) [] es = map (\<lambda>e. (access_board_id e, g e)) es"
  by (induction es rule: rev_induct) (auto simp: alist_update_new image_image)

definition rights_ok :: "access_request \<Rightarrow> bool" where
  "rights_ok rq \<longleftrightarrow> (ac_all_write rq \<longrightarrow> ac_all_read rq) \<and>
     (\<forall>a \<in> set (ac_boards rq). access_can_read a) \<and> distinct (map access_board_id (ac_boards rq)) \<and>
     (ac_all_read rq \<or> ac_boards rq \<noteq> []) \<and> (ac_boards rq = [] \<or> \<not> ac_all_read rq \<and> \<not> ac_all_write rq)"

lemma build_ids: "map access_board_id (build_access_list m) = map fst (filter (\<lambda>(b, e). ae_read e \<or> ae_write e) m)"
  by (simp add: build_access_list_def comp_def case_prod_unfold)

lemma build_distinct: "distinct (map fst m) \<Longrightarrow> distinct (map access_board_id (build_access_list m))"
  by (simp only: build_ids distinct_map_filter)

lemma build_reads: "a \<in> set (build_access_list m) \<Longrightarrow> access_can_read a"
  by (auto simp: build_access_list_def)

lemma request_rights_ok: "form_ok f \<Longrightarrow> access_request_of f = Some rq \<Longrightarrow> rights_ok rq"
  by (auto simp: access_request_of_def Let_def rights_ok_def form_ok_def build_distinct build_reads split: if_splits)

definition edited :: "editor_event list \<Rightarrow> access_form \<Rightarrow> access_form" where
  "edited evs f = foldl (\<lambda>f ev. editor_step False ev f) f evs"

lemma edited_ok: "form_ok f \<Longrightarrow> form_ok (edited evs f)"
  by (induction evs arbitrary: f) (simp_all add: edited_def editor_step_ok)

lemma resolved_edited:
  "resolved_access details (foldl (\<lambda>d ev. edit_access details ev d) d evs) = edited evs (resolved_access details d)"
  by (induction evs arbitrary: d) (simp_all add: edited_def resolved_edit)

lemma default_form_ok: "form_ok default_invite_form"
  by (simp add: form_ok_def default_invite_form_def)

lemma default_access_ok:
  assumes "md_all_write m \<longrightarrow> md_all_read m" and "distinct (map access_board_id (coalesce_opt (md_board_access m) []))"
  shows "form_ok (snd (default_access (Some m)))"
  using assms by (auto simp: form_ok_def default_access_def fold_access comp_def)

lemma resolved_untouched: "resolved_access details (open_access_dialog mid d) = snd (default_access details)"
  "resolved_role details (open_access_dialog mid d) = fst (default_access details)"
  by (simp_all add: resolved_access_def resolved_role_def open_access_dialog_def reset_access_state_def Let_def coalesce_opt_def)

section \<open>Properties\<close>


text \<open>Opening the rights of a member and saving them untouched sends what the member has:
  the same rights for all boards, or else the same boards with the same rights, and no change of
  the role.\<close>

lemma untouched_rights_roundtrip:
  assumes "details = Some m" and "mid \<noteq> []" and "is_admin_role my_role"
    and "distinct (map access_board_id (coalesce_opt (md_board_access m) []))"
    and "list_all (\<lambda>a. access_can_read a) (coalesce_opt (md_board_access m) [])"
    and "md_all_read m \<or> md_all_write m \<or> coalesce_opt (md_board_access m) [] \<noteq> []"
  shows "snd (handle_save_access my_role details (open_access_dialog mid d)) =
     [Update_access mid \<lparr>ac_all_read = md_all_read m, ac_all_write = md_all_write m,
        ac_boards = (if md_all_read m \<or> md_all_write m then [] else coalesce_opt (md_board_access m) [])\<rparr>]"
proof -
  let ?es = "coalesce_opt (md_board_access m) []"
  have "build_access_list (map (\<lambda>e. (access_board_id e,
      \<lparr>ae_read = access_can_read e \<or> access_can_write e, ae_write = access_can_write e\<rparr>)) ?es) = ?es"
    using assms(5) by (induction ?es arbitrary: m) (auto simp: build_access_list_def list_all_iff filter_map comp_def map_idI)
  then have "access_request_of (snd (default_access details)) =
      Some \<lparr>ac_all_read = md_all_read m, ac_all_write = md_all_write m,
        ac_boards = (if md_all_read m \<or> md_all_write m then [] else ?es)\<rparr>"
    using assms(1,4,6) by (auto simp: access_request_of_def default_access_def fold_access Let_def)
  moreover have "ad_member (open_access_dialog mid d) = Some mid"
    by (simp add: open_access_dialog_def reset_access_state_def)
  ultimately show ?thesis
    using assms(1-3) by (simp add: handle_save_access_def resolved_untouched default_access_def)
qed

text \<open>The two requests are not one: when the rights cannot be stored, the role is changed
  already, and the dialog shows the error.\<close>

lemma role_is_stored_before_failure:
  "access_saved [Update_role i r, Update_access j rq] [None, Some e] d =
     (d\<lparr>ad_error := Some (error_message e ''Unable to update member access.'')\<rparr>, [Update_role i r])"
  by simp

definition sample_member :: member_details where
  "sample_member = \<lparr>md_id = ''m'', md_user_id = ''u'', md_role = ''member'', md_all_read = False, md_all_write = False,
     md_board_access = Some [\<lparr>access_board_id = ''b1'', access_can_read = True, access_can_write = False\<rparr>]\<rparr>"

lemma untouched_rights_witness:
  "snd (handle_save_access (Some ''owner'') (Some sample_member) (open_access_dialog ''m'' closed_access_dialog)) =
     [Update_access ''m'' \<lparr>ac_all_read = False, ac_all_write = False,
        ac_boards = [\<lparr>access_board_id = ''b1'', access_can_read = True, access_can_write = False\<rparr>]\<rparr>]"
  using untouched_rights_roundtrip [OF refl, of "''m''" "Some ''owner''" sample_member closed_access_dialog]
  by (simp add: sample_member_def is_admin_role_def coalesce_opt_def)


end
