(* ===== verification/Marketplace.thy ===== *)
theory Marketplace
  imports BoardModel CustomFields ListTools "HOL-Library.AList"
begin

text \<open>
  The skills marketplace (\<^verbatim>\<open>app/skills/marketplace/page.tsx\<close>): the filters and the page that the
  query string carries, the requests built from them, the pagination with and without a known
  total, the effects that run after a render, and the two places that show on which gateways a
  skill is installed: the badges of the table and the buttons of the dialog. The answer of a
  query is an option, None until it has arrived; a JavaScript object that serves as a
  dictionary is an association list. Numbers are exact: the total of the header is a rational.
\<close>

section \<open>Labels\<close>

definition marketplace_default_page_size :: int where
  "marketplace_default_page_size = 25"

definition marketplace_page_size_options :: "int list" where
  "marketplace_page_size_options = [25, 50, 100, 200]"

definition marketplace_sortable_columns :: "string list" where
  "marketplace_sortable_columns = [''name'', ''category'', ''risk'', ''source'', ''updated_at'']"

definition marketplace_sorting :: sorting_options where
  "marketplace_sorting = \<lparr>so_allowed = marketplace_sortable_columns,
     so_default = [\<lparr>sort_id = ''name'', sort_desc = False\<rparr>], so_prefix = Some ''skills_marketplace''\<rparr>"

definition risk_sort_order :: "(string \<times> int) list" where
  "risk_sort_order =
     [(''safe'', 10), (''low'', 20), (''minimal'', 30), (''medium'', 40), (''moderate'', 50), (''elevated'', 60),
      (''high'', 70), (''critical'', 80), (''none'', 90), (''unknown'', 100)]"

text \<open>\<^verbatim>\<open>split(/[\s_-]+/).filter(Boolean)\<close> with a capital letter for each word.\<close>

definition label_separator :: "char \<Rightarrow> bool" where
  "label_separator c \<longleftrightarrow> is_ws c \<or> c = CHR ''_'' \<or> c = CHR ''-''"

definition label_words :: "string \<Rightarrow> string" where
  "label_words s = join_with '' ''
     (map capitalize (filter (\<lambda>w. w \<noteq> []) (split_on (CHR '' '') (replace_runs label_separator (CHR '' '') s))))"

definition format_risk_label :: "string \<Rightarrow> string" where
  "format_risk_label risk =
     (let normalized = to_lower (trim risk) in
      if normalized = [] then ''Unknown''
      else case map_of [(''safe'', ''Safe''), (''low'', ''Low''), (''minimal'', ''Minimal''), (''medium'', ''Medium''),
             (''moderate'', ''Moderate''), (''elevated'', ''Elevated''), (''high'', ''High''),
             (''critical'', ''Critical''), (''none'', ''None''), (''unknown'', ''Unknown'')] normalized of
          Some l \<Rightarrow> l
        | None \<Rightarrow> label_words normalized)"

definition format_category_label :: "string \<Rightarrow> string" where
  "format_category_label category =
     (let normalized = trim category in if normalized = [] then ''Uncategorized'' else label_words normalized)"

text \<open>The badge of a risk in the table (\<^verbatim>\<open>MarketplaceSkillsTable.tsx\<close>).\<close>

definition table_risk :: "string option \<Rightarrow> string" where
  "table_risk risk = to_lower (trim (case risk of None \<Rightarrow> ''unknown'' | Some r \<Rightarrow> if r = [] then ''unknown'' else r))"

definition risk_badge_variant :: "string option \<Rightarrow> string" where
  "risk_badge_variant risk =
     (let r = table_risk risk in
      if r \<in> {''safe'', ''low''} then ''success''
      else if r \<in> {''minimal'', ''medium'', ''moderate''} then ''outline''
      else if r \<in> {''high'', ''critical''} then ''danger''
      else if r = ''elevated'' then ''warning''
      else if r = ''unknown'' then ''outline''
      else ''accent'')"

definition risk_badge_label :: "string option \<Rightarrow> string" where
  "risk_badge_label risk =
     (let l = trim (case risk of None \<Rightarrow> ''unknown'' | Some r \<Rightarrow> if r = [] then ''unknown'' else r)
      in if l = [] then ''unknown'' else l)"

section \<open>Parameters of the query string\<close>

definition parse_positive_int_param :: "string option \<Rightarrow> int \<Rightarrow> int" where
  "parse_positive_int_param v fallback =
     (case v of
        None \<Rightarrow> fallback
      | Some s \<Rightarrow>
          if s = [] then fallback
          else case parse_int_prefix s of
            None \<Rightarrow> fallback
          | Some parsed \<Rightarrow> if parsed < 1 then fallback else parsed)"

definition parse_page_size_param :: "string option \<Rightarrow> int" where
  "parse_page_size_param v =
     (let parsed = parse_positive_int_param v marketplace_default_page_size
      in if parsed \<in> set marketplace_page_size_options then parsed else marketplace_default_page_size)"

record market_view =
  mv_search :: string
  mv_category :: string
  mv_risk :: string
  mv_page :: int
  mv_size :: int

definition or_default :: "string \<Rightarrow> string \<Rightarrow> string" where
  "or_default d s = (if s = [] then d else s)"

definition initial_view :: "search_params \<Rightarrow> market_view" where
  "initial_view ps =
     \<lparr>mv_search = coalesce_opt (params_get ''search'' ps) [],
      mv_category = or_default ''all'' (to_lower (trim (coalesce_opt (params_get ''category'' ps) ''all''))),
      mv_risk = or_default ''safe'' (to_lower (trim (coalesce_opt (params_get ''risk'' ps) ''safe''))),
      mv_page = parse_positive_int_param (params_get ''page'' ps) 1,
      mv_size = parse_page_size_param (params_get ''limit'' ps)\<rparr>"

section \<open>What the queries answer\<close>

record market_gateway =
  mg_id :: string
  mg_name :: string

record market_skill =
  ms_id :: string
  ms_name :: string
  ms_category :: "string option"
  ms_risk :: "string option"
  ms_installed :: bool

record market_answer =
  ma_status :: int
  ma_skills :: "market_skill list"
  ma_total :: "string option"

record market_env =
  me_params :: search_params
  me_gateways :: "market_gateway list"
  me_answer :: "market_answer option"
  me_options :: "market_answer option"
  me_loading :: bool

definition answered_skills :: "market_answer option \<Rightarrow> market_skill list" where
  "answered_skills a =
     (case a of None \<Rightarrow> [] | Some r \<Rightarrow> if ma_status r = 200 then ma_skills r else [])"

definition resolved_gateway_id :: "market_env \<Rightarrow> string" where
  "resolved_gateway_id env = (case me_gateways env of [] \<Rightarrow> [] | g # _ \<Rightarrow> mg_id g)"

definition normalized_category :: "market_view \<Rightarrow> string" where
  "normalized_category v = or_default ''all'' (to_lower (trim (mv_category v)))"

definition normalized_risk :: "market_view \<Rightarrow> string" where
  "normalized_risk v = or_default ''safe'' (to_lower (trim (mv_risk v)))"

definition normalized_search :: "market_view \<Rightarrow> string" where
  "normalized_search v = trim (mv_search v)"

definition selected_pack_id :: "market_env \<Rightarrow> string option" where
  "selected_pack_id env = params_get ''packId'' (me_params env)"

record market_request =
  mq_gateway :: string
  mq_search :: "string option"
  mq_category :: "string option"
  mq_risk :: "string option"
  mq_pack :: "string option"
  mq_limit :: "int option"
  mq_offset :: "int option"

definition some_text :: "string option \<Rightarrow> string option" where
  "some_text v = (case v of None \<Rightarrow> None | Some s \<Rightarrow> if s = [] then None else Some s)"

definition market_skills_params :: "market_env \<Rightarrow> market_view \<Rightarrow> market_request" where
  "market_skills_params env v =
     \<lparr>mq_gateway = resolved_gateway_id env,
      mq_search = some_text (Some (normalized_search v)),
      mq_category = (if normalized_category v \<noteq> ''all'' then Some (normalized_category v) else None),
      mq_risk = (if normalized_risk v \<noteq> [] \<and> normalized_risk v \<noteq> ''all'' then Some (normalized_risk v) else None),
      mq_pack = some_text (selected_pack_id env),
      mq_limit = Some (mv_size v),
      mq_offset = Some ((mv_page v - 1) * mv_size v)\<rparr>"

definition filter_options_params :: "market_env \<Rightarrow> market_view \<Rightarrow> market_request" where
  "filter_options_params env v =
     \<lparr>mq_gateway = resolved_gateway_id env, mq_search = some_text (Some (normalized_search v)),
      mq_category = None, mq_risk = None, mq_pack = some_text (selected_pack_id env),
      mq_limit = None, mq_offset = None\<rparr>"

section \<open>Pagination\<close>

text \<open>The total of the header when there is one, and whether it is known.\<close>

definition total_count_info :: "market_env \<Rightarrow> bool \<times> rat" where
  "total_count_info env =
     (let unknown = (False, of_nat (length (answered_skills (me_answer env)))) in
      case me_answer env of
        None \<Rightarrow> unknown
      | Some r \<Rightarrow>
          if ma_status r \<noteq> 200 then unknown
          else case ma_total r of
            None \<Rightarrow> unknown
          | Some h \<Rightarrow>
              if trim h = [] then unknown
              else case js_number (trim h) of
                None \<Rightarrow> unknown
              | Some parsed \<Rightarrow> if 0 \<le> parsed then (True, parsed) else unknown)"

definition skill_count :: "market_env \<Rightarrow> int" where
  "skill_count env = int (length (answered_skills (me_answer env)))"

definition total_skills :: "market_env \<Rightarrow> market_view \<Rightarrow> rat" where
  "total_skills env v =
     (case total_count_info env of (known, count) \<Rightarrow>
        if known then count else of_int ((mv_page v - 1) * mv_size v + skill_count env))"

definition total_pages :: "market_env \<Rightarrow> market_view \<Rightarrow> int" where
  "total_pages env v = max 1 \<lceil>total_skills env v / of_int (mv_size v)\<rceil>"

definition has_next_page :: "market_env \<Rightarrow> market_view \<Rightarrow> bool" where
  "has_next_page env v =
     (if fst (total_count_info env) then mv_page v < total_pages env v else skill_count env = mv_size v)"

definition range_start :: "market_env \<Rightarrow> market_view \<Rightarrow> int" where
  "range_start env v = (if total_skills env v = 0 then 0 else (mv_page v - 1) * mv_size v + 1)"

definition range_end :: "market_env \<Rightarrow> market_view \<Rightarrow> int" where
  "range_end env v = (if total_skills env v = 0 then 0 else (mv_page v - 1) * mv_size v + skill_count env)"

section \<open>Filter options\<close>

text \<open>The entries of a \<^verbatim>\<open>Map\<close> in insertion order; the first label of a value stays.\<close>

fun category_entries :: "market_skill list \<Rightarrow> (string \<times> string) list \<Rightarrow> (string \<times> string) list" where
  "category_entries [] by_value = by_value"
| "category_entries (skill # skills) by_value =
     (let raw = trim (case some_text (ms_category skill) of Some c \<Rightarrow> c | None \<Rightarrow> ''Uncategorized'');
          label = (if raw \<noteq> [] then raw else ''Uncategorized'');
          v = to_lower (trim label)
      in if v = [] \<or> v = ''all'' \<or> v \<in> fst ` set by_value then category_entries skills by_value
         else category_entries skills (by_value @ [(v, label)]))"

definition category_filter_options ::
  "(string \<Rightarrow> string \<Rightarrow> int) \<Rightarrow> market_env \<Rightarrow> market_view \<Rightarrow> (string \<times> string) list" where
  "category_filter_options lc env v =
     (let by_value = category_entries (answered_skills (me_options env)) [];
          chosen = normalized_category v;
          entries = (if chosen \<noteq> ''all'' \<and> chosen \<notin> fst ` set by_value
                     then by_value @ [(chosen, format_category_label chosen)] else by_value)
      in js_sort (\<lambda>a b. lc (snd a) (snd b)) entries)"

definition risk_value :: "market_skill \<Rightarrow> string" where
  "risk_value skill =
     or_default ''unknown'' (to_lower (trim (case some_text (ms_risk skill) of Some r \<Rightarrow> r | None \<Rightarrow> ''unknown'')))"

definition risk_cmp :: "(string \<Rightarrow> string \<Rightarrow> int) \<Rightarrow> string \<Rightarrow> string \<Rightarrow> int" where
  "risk_cmp lc a b =
     (let rank_a = coalesce_opt (map_of risk_sort_order a) 1000;
          rank_b = coalesce_opt (map_of risk_sort_order b) 1000
      in if rank_a \<noteq> rank_b then rank_a - rank_b else lc a b)"

definition risk_filter_options :: "(string \<Rightarrow> string \<Rightarrow> int) \<Rightarrow> market_env \<Rightarrow> market_view \<Rightarrow> string list" where
  "risk_filter_options lc env v =
     (let offered = filter (\<lambda>r. r \<noteq> ''all'') (map risk_value (answered_skills (me_options env)));
          chosen = (if normalized_risk v \<noteq> ''all'' then [normalized_risk v] else [])
      in js_sort (risk_cmp lc) (dedup (offered @ chosen)))"

section \<open>Effects after a render\<close>

type_synonym page_deps = "string \<times> string \<times> string \<times> int \<times> string \<times> string option"

definition reset_deps :: "market_env \<Rightarrow> market_view \<Rightarrow> page_deps" where
  "reset_deps env v = (normalized_category v, normalized_risk v, normalized_search v, mv_size v,
     resolved_gateway_id env, selected_pack_id env)"

definition category_effect :: "(string \<Rightarrow> string \<Rightarrow> int) \<Rightarrow> market_env \<Rightarrow> market_view \<Rightarrow> bool" where
  "category_effect lc env v \<longleftrightarrow> mv_category v \<noteq> ''all'' \<and>
     \<not> list_ex (\<lambda>c. fst c = to_lower (trim (mv_category v))) (category_filter_options lc env v)"

definition risk_effect :: "(string \<Rightarrow> string \<Rightarrow> int) \<Rightarrow> market_env \<Rightarrow> market_view \<Rightarrow> bool" where
  "risk_effect lc env v \<longleftrightarrow> mv_risk v \<noteq> ''all'' \<and>
     \<not> List.member (risk_filter_options lc env v) (to_lower (trim (mv_risk v)))"

text \<open>
  One commit of React: the four effects that set state run in order and read the view they were
  rendered with; their updates are applied together. The page is reset when one of the
  dependencies differs from the last commit, and in the first one.
\<close>

definition commit_view ::
  "(string \<Rightarrow> string \<Rightarrow> int) \<Rightarrow> market_env \<Rightarrow> page_deps option \<Rightarrow> market_view \<Rightarrow> market_view" where
  "commit_view lc env deps v =
     (let v1 = (if category_effect lc env v then v\<lparr>mv_category := ''all''\<rparr> else v);
          v2 = (if risk_effect lc env v then v1\<lparr>mv_risk := ''safe''\<rparr> else v1);
          v3 = (if deps \<noteq> Some (reset_deps env v) then v2\<lparr>mv_page := 1\<rparr> else v2)
      in if fst (total_count_info env) \<and> total_pages env v < mv_page v
         then v3\<lparr>mv_page := total_pages env v\<rparr> else v3)"

text \<open>The fifth effect mirrors the view into the URL.\<close>

definition set_param_if :: "bool \<Rightarrow> string \<Rightarrow> string \<Rightarrow> search_params \<Rightarrow> search_params" where
  "set_param_if b k x ps = (if b then params_set k x ps else params_delete k ps)"

definition mirror_params :: "market_view \<Rightarrow> search_params \<Rightarrow> search_params" where
  "mirror_params v ps =
     set_param_if (1 < mv_page v) ''page'' (int_to_string (mv_page v))
      (set_param_if (mv_size v \<noteq> marketplace_default_page_size) ''limit'' (int_to_string (mv_size v))
        (set_param_if (mv_risk v \<noteq> ''safe'') ''risk'' (mv_risk v)
          (set_param_if (mv_category v \<noteq> ''all'') ''category'' (mv_category v)
            (set_param_if (trim (mv_search v) \<noteq> []) ''search'' (trim (mv_search v)) ps))))"

definition mirror_url :: "string \<Rightarrow> market_env \<Rightarrow> market_view \<Rightarrow> string option" where
  "mirror_url pathname env v =
     (let current_query = params_to_string (me_params env);
          next_query = params_to_string (mirror_params v (me_params env))
      in if next_query \<noteq> current_query
         then Some (if next_query \<noteq> [] then pathname @ ''?'' @ next_query else pathname) else None)"

section \<open>The page as a whole\<close>

record market =
  mk_view :: market_view
  mk_deps :: "page_deps option"
  mk_env :: market_env

definition open_market :: "market_env \<Rightarrow> market" where
  "open_market env = \<lparr>mk_view = initial_view (me_params env), mk_deps = None, mk_env = env\<rparr>"

definition commit_market :: "(string \<Rightarrow> string \<Rightarrow> int) \<Rightarrow> market \<Rightarrow> market" where
  "commit_market lc m =
     m\<lparr>mk_view := commit_view lc (mk_env m) (mk_deps m) (mk_view m),
       mk_deps := Some (reset_deps (mk_env m) (mk_view m))\<rparr>"

definition choose_page_size :: "string \<Rightarrow> market_view \<Rightarrow> market_view" where
  "choose_page_size s v =
     (case parse_int_prefix s of
        None \<Rightarrow> v
      | Some n \<Rightarrow> if n \<in> set marketplace_page_size_options then v\<lparr>mv_size := n\<rparr> else v)"

definition previous_page :: "market_env \<Rightarrow> market_view \<Rightarrow> market_view" where
  "previous_page env v =
     (if mv_page v \<le> 1 \<or> me_loading env then v else v\<lparr>mv_page := max 1 (mv_page v - 1)\<rparr>)"

definition next_page :: "market_env \<Rightarrow> market_view \<Rightarrow> market_view" where
  "next_page env v =
     (if \<not> has_next_page env v \<or> me_loading env then v
      else v\<lparr>mv_page := (if fst (total_count_info env) then min (total_pages env v) (mv_page v + 1)
                         else mv_page v + 1)\<rparr>)"

text \<open>The selects offer their options only: \<open>Choose_category\<close> and \<open>Choose_risk\<close> carry an index, with
  0 for \<^verbatim>\<open>all\<close>. \<open>Receive\<close> is a new answer of a query or a new URL.\<close>

datatype market_event = Type_search string | Choose_category nat | Choose_risk nat | Choose_size string
  | Previous | Next | Receive market_env | Commit

fun market_step :: "(string \<Rightarrow> string \<Rightarrow> int) \<Rightarrow> market_event \<Rightarrow> market \<Rightarrow> market" where
  "market_step lc (Type_search s) m = m\<lparr>mk_view := (mk_view m)\<lparr>mv_search := s\<rparr>\<rparr>"
| "market_step lc (Choose_category i) m =
     (let offered = ''all'' # map fst (category_filter_options lc (mk_env m) (mk_view m))
      in if i < length offered then m\<lparr>mk_view := (mk_view m)\<lparr>mv_category := offered ! i\<rparr>\<rparr> else m)"
| "market_step lc (Choose_risk i) m =
     (let offered = ''all'' # risk_filter_options lc (mk_env m) (mk_view m)
      in if i < length offered then m\<lparr>mk_view := (mk_view m)\<lparr>mv_risk := offered ! i\<rparr>\<rparr> else m)"
| "market_step lc (Choose_size s) m = m\<lparr>mk_view := choose_page_size s (mk_view m)\<rparr>"
| "market_step lc Previous m = m\<lparr>mk_view := previous_page (mk_env m) (mk_view m)\<rparr>"
| "market_step lc Next m = m\<lparr>mk_view := next_page (mk_env m) (mk_view m)\<rparr>"
| "market_step lc (Receive env) m = m\<lparr>mk_env := env\<rparr>"
| "market_step lc Commit m = commit_market lc m"

inductive market_reachable :: "(string \<Rightarrow> string \<Rightarrow> int) \<Rightarrow> market \<Rightarrow> bool" for lc where
  opened: "market_reachable lc (open_market env)"
| stepped: "market_reachable lc m \<Longrightarrow> market_reachable lc (market_step lc ev m)"

section \<open>Where a skill is installed\<close>

type_synonym installed_names = "(string \<times> (string \<times> string) list) list"
type_synonym gateway_rows = "(market_gateway \<times> market_skill list) list"

definition update_installed_gateway_names ::
  "string \<Rightarrow> string \<Rightarrow> string \<Rightarrow> bool \<Rightarrow> installed_names \<Rightarrow> installed_names" where
  "update_installed_gateway_names skill_id gateway_id gateway_name installed previous =
     (let installed_on = coalesce_opt (map_of previous skill_id) []
      in if installed
         then (if list_ex (\<lambda>g. fst g = gateway_id) installed_on then previous
               else AList.update skill_id (installed_on @ [(gateway_id, gateway_name)]) previous)
         else AList.update skill_id (filter (\<lambda>g. fst g \<noteq> gateway_id) installed_on) previous)"

definition push_installed :: "market_gateway \<Rightarrow> installed_names \<Rightarrow> market_skill \<Rightarrow> installed_names" where
  "push_installed g names skill =
     (if \<not> ms_installed skill then names
      else case map_of names (ms_id skill) of
        None \<Rightarrow> names
      | Some l \<Rightarrow> AList.update (ms_id skill) (l @ [(mg_id g, mg_name g)]) names)"

definition names_of_rows :: "market_skill list \<Rightarrow> gateway_rows \<Rightarrow> installed_names" where
  "names_of_rows skills rows =
     foldl (\<lambda>names (g, gateway_skills). foldl (push_installed g) names gateway_skills)
       (foldl (\<lambda>names skill. AList.update (ms_id skill) [] names) [] skills) rows"

text \<open>The effect that loads the badges: nothing to load, or the answers of all gateways, or None
  when one of the requests failed. A run that a newer one cancelled changes nothing.\<close>

definition badges_loaded ::
  "bool \<Rightarrow> market_gateway list \<Rightarrow> market_skill list \<Rightarrow> bool \<Rightarrow> gateway_rows option \<Rightarrow> installed_names \<Rightarrow> installed_names" where
  "badges_loaded may_load gateways skills cancelled outcome names =
     (if \<not> may_load \<or> gateways = [] \<or> skills = [] then []
      else if cancelled then names
      else case outcome of None \<Rightarrow> [] | Some rows \<Rightarrow> names_of_rows skills rows)"

record install_dialog =
  sd_skill :: "string option"
  sd_installed :: "(string \<times> bool) list"
  sd_loading :: bool
  sd_error :: "string option"
  sd_installing :: "string option"

definition initial_install_dialog :: install_dialog where
  "initial_install_dialog = \<lparr>sd_skill = None, sd_installed = [], sd_loading = False, sd_error = None, sd_installing = None\<rparr>"

definition status_of_rows :: "string \<Rightarrow> gateway_rows \<Rightarrow> (string \<times> bool) list" where
  "status_of_rows skill_id rows =
     foldl (\<lambda>m (g, gateway_skills). AList.update (mg_id g)
         (case List.find (\<lambda>s. ms_id s = skill_id) gateway_skills of None \<Rightarrow> False | Some s \<Rightarrow> ms_installed s) m)
       [] rows"

definition begin_gateway_status :: "market_gateway list \<Rightarrow> install_dialog \<Rightarrow> install_dialog" where
  "begin_gateway_status gateways d =
     (if sd_skill d = None \<or> gateways = []
      then d\<lparr>sd_installed := [], sd_error := None, sd_loading := False\<rparr>
      else d\<lparr>sd_loading := True, sd_error := None\<rparr>)"

definition finish_gateway_status :: "bool \<Rightarrow> js_error + gateway_rows \<Rightarrow> install_dialog \<Rightarrow> install_dialog" where
  "finish_gateway_status cancelled outcome d =
     (if cancelled then d
      else (case outcome of
              Inr rows \<Rightarrow> d\<lparr>sd_installed := status_of_rows (coalesce_opt (sd_skill d) []) rows\<rparr>
            | Inl e \<Rightarrow> d\<lparr>sd_error := Some (error_message e ''Unable to load gateway status.'')\<rparr>)\<lparr>sd_loading := False\<rparr>)"

text \<open>A click on the button of a gateway, the success of its request, and its end.\<close>

datatype install_request = Install string string | Uninstall string string

definition gateway_install_action :: "string \<Rightarrow> bool \<Rightarrow> install_dialog \<Rightarrow> install_dialog \<times> install_request option" where
  "gateway_install_action gateway_id installed d =
     (case sd_skill d of
        None \<Rightarrow> (d, None)
      | Some skill_id \<Rightarrow>
          (d\<lparr>sd_installing := Some gateway_id\<rparr>,
           Some (if installed then Uninstall skill_id gateway_id else Install skill_id gateway_id)))"

definition mutation_succeeded ::
  "market_gateway list \<Rightarrow> bool \<Rightarrow> string \<Rightarrow> string \<Rightarrow> install_dialog \<times> installed_names \<Rightarrow> install_dialog \<times> installed_names" where
  "mutation_succeeded gateways installed skill_id gateway_id = (\<lambda>(d, names).
     (d\<lparr>sd_installed := AList.update gateway_id installed (sd_installed d)\<rparr>,
      case map_option mg_name (List.find (\<lambda>g. mg_id g = gateway_id) gateways) of
        None \<Rightarrow> names
      | Some name \<Rightarrow> if name = [] then names
                     else update_installed_gateway_names skill_id gateway_id name installed names))"

definition mutation_settled :: "install_dialog \<Rightarrow> install_dialog" where
  "mutation_settled d = d\<lparr>sd_installing := None\<rparr>"

definition button_installed :: "install_dialog \<Rightarrow> string \<Rightarrow> bool" where
  "button_installed d gateway_id = (map_of (sd_installed d) gateway_id = Some True)"

definition badges_of :: "installed_names \<Rightarrow> string \<Rightarrow> (string \<times> string) list" where
  "badges_of names skill_id = coalesce_opt (map_of names skill_id) []"

section \<open>Filters and pages\<close>

abbreviation normal :: "string \<Rightarrow> bool" where
  "normal s \<equiv> s \<noteq> [] \<and> to_lower (trim s) = s"

lemma normal_or_default: "normal d \<Longrightarrow> normal (or_default d (to_lower (trim s)))"
  by (auto simp: or_default_def trim_to_lower)

definition view_ok :: "market_view \<Rightarrow> bool" where
  "view_ok v \<longleftrightarrow> normal (mv_category v) \<and> normal (mv_risk v) \<and> 1 \<le> mv_page v \<and>
     mv_size v \<in> set marketplace_page_size_options"

lemma all_safe_normal: "normal ''all''" "normal ''safe''" "normal ''unknown''"
  by code_simp+

lemma view_ok_normalized:
  assumes "view_ok v"
  shows "normalized_category v = mv_category v" and "normalized_risk v = mv_risk v"
  using assms by (simp_all add: view_ok_def normalized_category_def normalized_risk_def or_default_def)

lemma category_entries_normal:
  "\<forall>e \<in> set acc. normal (fst e) \<Longrightarrow> \<forall>e \<in> set (category_entries skills acc). normal (fst e)"
proof (induction skills acc rule: category_entries.induct)
  case (2 skill skills acc)
  then show ?case by (simp add: Let_def trim_to_lower)
qed simp

lemma category_options_normal:
  "e \<in> set (category_filter_options lc env v) \<Longrightarrow> normal (fst e)"
  using category_entries_normal [of "[]" "answered_skills (me_options env)"]
    normal_or_default [OF all_safe_normal(1), of "mv_category v"]
  by (auto simp: category_filter_options_def Let_def normalized_category_def split: if_splits)

lemma risk_options_normal: "r \<in> set (risk_filter_options lc env v) \<Longrightarrow> normal r"
  using normal_or_default [OF all_safe_normal(3)] normal_or_default [OF all_safe_normal(2), of "mv_risk v"]
  by (auto simp: risk_filter_options_def Let_def normalized_risk_def risk_value_def split: if_splits)

lemma chosen_category_offered:
  "normalized_category v \<noteq> ''all'' \<Longrightarrow>
     list_ex (\<lambda>c. fst c = normalized_category v) (category_filter_options lc env v)"
  by (force simp: category_filter_options_def Let_def list_ex_iff)

lemma chosen_risk_offered: "normalized_risk v \<noteq> ''all'' \<Longrightarrow> normalized_risk v \<in> set (risk_filter_options lc env v)"
  by (simp add: risk_filter_options_def Let_def)

lemma option_effects_idle:
  assumes "view_ok v"
  shows "\<not> category_effect lc env v" and "\<not> risk_effect lc env v"
  using assms view_ok_normalized [OF assms] chosen_category_offered [of v lc env] chosen_risk_offered [of v lc env]
  by (auto simp: category_effect_def risk_effect_def view_ok_def)

lemma total_pages_pos: "1 \<le> total_pages env v"
  by (simp add: total_pages_def)

lemma parse_positive_pos: "1 \<le> d \<Longrightarrow> 1 \<le> parse_positive_int_param x d"
  by (simp add: parse_positive_int_param_def split: option.splits)

lemma page_size_offered: "parse_page_size_param x \<in> set marketplace_page_size_options"
  by (simp add: parse_page_size_param_def Let_def marketplace_page_size_options_def marketplace_default_page_size_def)

lemma initial_view_ok: "view_ok (initial_view ps)"
  using normal_or_default [OF all_safe_normal(1)] normal_or_default [OF all_safe_normal(2)]
  by (simp add: view_ok_def initial_view_def parse_positive_pos page_size_offered)

lemma commit_view_ok: "view_ok v \<Longrightarrow> view_ok (commit_view lc env deps v)"
  using option_effects_idle [of v lc env] total_pages_pos [of env v]
  by (simp add: commit_view_def Let_def view_ok_def)

lemma market_step_ok:
  assumes "view_ok (mk_view m)"
  shows "view_ok (mk_view (market_step lc ev m))"
proof (cases ev)
  case (Choose_category i)
  have "normal c" if "c \<in> set (''all'' # map fst (category_filter_options lc (mk_env m) (mk_view m)))" for c
    using that category_options_normal [of _ lc "mk_env m" "mk_view m"] all_safe_normal(1) by auto
  then show ?thesis using Choose_category assms by (simp add: Let_def view_ok_def del: set_simps)
next
  case (Choose_risk i)
  have "normal c" if "c \<in> set (''all'' # risk_filter_options lc (mk_env m) (mk_view m))" for c
    using that risk_options_normal [of _ lc "mk_env m" "mk_view m"] all_safe_normal(1) by auto
  then show ?thesis using Choose_risk assms by (simp add: Let_def view_ok_def del: set_simps)
next
  case Commit
  then show ?thesis using assms commit_view_ok by (simp add: commit_market_def)
qed (use assms total_pages_pos [of "mk_env m" "mk_view m"] in
     \<open>auto simp: view_ok_def choose_page_size_def previous_page_def next_page_def split: option.splits\<close>)

lemma market_reachable_ok: "market_reachable lc m \<Longrightarrow> view_ok (mk_view m)"
  by (induction rule: market_reachable.induct) (simp_all add: open_market_def initial_view_ok market_step_ok)

lemma commit_view_page:
  assumes "view_ok v"
  shows "commit_view lc env deps v =
     v\<lparr>mv_page := (if fst (total_count_info env) \<and> total_pages env v < mv_page v then total_pages env v
                    else if deps \<noteq> Some (reset_deps env v) then 1 else mv_page v)\<rparr>"
  using option_effects_idle [OF assms] by (simp add: commit_view_def Let_def)

lemma known_total_skills: "fst (total_count_info env) \<Longrightarrow> total_skills env v = snd (total_count_info env)"
  by (cases "total_count_info env") (simp add: total_skills_def)

lemma known_total_pages:
  "fst (total_count_info env) \<Longrightarrow> total_pages env (v\<lparr>mv_page := n\<rparr>) = total_pages env v"
  by (simp add: total_pages_def known_total_skills)

lemma reset_deps_page [simp]: "reset_deps env (v\<lparr>mv_page := n\<rparr>) = reset_deps env v"
  by (simp add: reset_deps_def normalized_category_def normalized_risk_def normalized_search_def)

lemma commit_settles:
  assumes "view_ok (mk_view m)"
  shows "mk_view (commit_market lc (commit_market lc m)) = mk_view (commit_market lc m)"
proof -
  let ?v = "mk_view m" and ?env = "mk_env m"
  let ?w = "commit_view lc ?env (mk_deps m) ?v"
  have "commit_view lc ?env (Some (reset_deps ?env ?v)) ?w = ?w"
  proof -
    have "\<not> (fst (total_count_info ?env) \<and> total_pages ?env ?w < mv_page ?w)"
      using total_pages_pos [of ?env ?v] by (auto simp: commit_view_page [OF assms] known_total_pages)
    moreover have "reset_deps ?env ?w = reset_deps ?env ?v"
      by (simp add: commit_view_page [OF assms])
    ultimately show ?thesis
      by (simp add: commit_view_page [OF commit_view_ok [OF assms]])
  qed
  then show ?thesis by (simp add: commit_market_def)
qed

lemma offset_below_total:
  assumes "1 \<le> p" and "p \<le> max 1 \<lceil>t / of_int z\<rceil>" and "0 < z" and "0 < t"
  shows "of_int ((p - 1) * z) < (t :: rat)"
proof -
  from assms(3,4) have "1 \<le> \<lceil>t / of_int z\<rceil>" by (simp add: less_ceiling_iff one_le_ceiling)
  with assms(2) have "p - 1 < \<lceil>t / of_int z\<rceil>" by simp
  then have "of_int (p - 1) < t / of_int z" by (simp add: less_ceiling_iff)
  with assms(3) show ?thesis by (simp add: pos_less_divide_eq)
qed

text \<open>C16: In every state the marketplace page can reach, the page is at least one, the page size and
  the filters are among the options offered. One render later the page is settled; with a known
  total it lies within the pages, Next is offered exactly before the last one, and the rows asked
  for begin within the total.\<close>

theorem pages_stay_in_range:
  assumes "market_reachable lc m" and "m' = commit_market lc m" and "v = mk_view m'" and "env = mk_env m'"
  shows "view_ok v \<and> \<not> category_effect lc env v \<and> \<not> risk_effect lc env v \<and>
     mk_view (commit_market lc m') = v \<and>
     (fst (total_count_info env) \<longrightarrow> mv_page v \<le> total_pages env v \<and>
        (has_next_page env v \<longleftrightarrow> mv_page v < total_pages env v) \<and>
        (0 < snd (total_count_info env) \<longrightarrow>
           of_int (the (mq_offset (market_skills_params env v))) < snd (total_count_info env)))"
proof -
  have ok0: "view_ok (mk_view m)" by (rule market_reachable_ok [OF assms(1)])
  have vv: "v = commit_view lc env (mk_deps m) (mk_view m)" and e: "env = mk_env m"
    using assms(2-4) by (simp_all add: commit_market_def)
  have ok: "view_ok v" unfolding vv by (rule commit_view_ok [OF ok0])
  have settled: "mk_view (commit_market lc m') = v"
    using commit_settles [OF ok0] assms(2,3) by simp
  have page: "mv_page v \<le> total_pages env v" if "fst (total_count_info env)"
    using that total_pages_pos [of env "mk_view m"]
    by (auto simp: vv commit_view_page [OF ok0] known_total_pages)
  have size: "0 < mv_size v" using ok by (auto simp: view_ok_def marketplace_page_size_options_def)
  have off: "of_int (the (mq_offset (market_skills_params env v))) < snd (total_count_info env)"
    if k: "fst (total_count_info env)" and t: "0 < snd (total_count_info env)"
  proof -
    have "mv_page v \<le> max 1 \<lceil>snd (total_count_info env) / of_int (mv_size v)\<rceil>"
      using page [OF k] by (simp add: total_pages_def known_total_skills [OF k])
    moreover have "1 \<le> mv_page v" using ok by (simp add: view_ok_def)
    ultimately show ?thesis using offset_below_total [OF _ _ size t] by (simp add: market_skills_params_def)
  qed
  show ?thesis using ok settled page off option_effects_idle [OF ok] by (simp add: has_next_page_def)
qed

lemma get_set_param_if [simp]:
  "params_get j (set_param_if b k x ps) = (if j = k then if b then Some x else None else params_get j ps)"
  by (simp add: set_param_if_def)

lemma parse_positive_to_string: "1 \<le> n \<Longrightarrow> parse_positive_int_param (Some (int_to_string n)) d = n"
  using parse_int_prefix_nat [of "nat n"]
  by (simp add: parse_positive_int_param_def int_to_string_def)

lemma page_size_to_string:
  "n \<in> set marketplace_page_size_options \<Longrightarrow> parse_page_size_param (Some (int_to_string n)) = n"
  by (subst parse_page_size_param_def)
    (auto simp: parse_positive_to_string marketplace_page_size_options_def Let_def)

lemma page_size_missing: "parse_page_size_param None = marketplace_default_page_size"
  by (simp add: parse_page_size_param_def parse_positive_int_param_def Let_def)

lemma initial_of_mirror:
  assumes "view_ok v"
  shows "initial_view (mirror_params v ps) = v\<lparr>mv_search := trim (mv_search v)\<rparr>"
proof -
  have "mv_category v \<noteq> [] \<and> mv_risk v \<noteq> []" "to_lower (trim (mv_category v)) = mv_category v"
    "to_lower (trim (mv_risk v)) = mv_risk v" and p: "1 \<le> mv_page v"
    and s: "mv_size v \<in> set marketplace_page_size_options" using assms by (simp_all add: view_ok_def)
  then have "mv_category (initial_view (mirror_params v ps)) = mv_category v"
    "mv_risk (initial_view (mirror_params v ps)) = mv_risk v"
    using all_safe_normal to_lower_Nil [of "trim (mv_category v)"] to_lower_Nil [of "trim (mv_risk v)"] by (simp_all add: initial_view_def mirror_params_def coalesce_opt_def or_default_def)
  moreover have "mv_search (initial_view (mirror_params v ps)) = trim (mv_search v)"
    by (simp add: initial_view_def mirror_params_def coalesce_opt_def)
  moreover have "mv_page (initial_view (mirror_params v ps)) = mv_page v"
    using p parse_positive_to_string [OF p, of 1]
    by (auto simp: initial_view_def mirror_params_def parse_positive_int_param_def [of None])
  moreover have "mv_size (initial_view (mirror_params v ps)) = mv_size v"
    using page_size_to_string [OF s] by (simp add: initial_view_def mirror_params_def page_size_missing)
  ultimately show ?thesis by (intro market_view.equality) simp_all
qed

text \<open>The URL the marketplace page writes reads back to the view it mirrors, with its search text
  trimmed, and keeps the other parameters. But the page that opens it shows the first page: before
  any answer has arrived, the effect that resets the page runs in the first render too.\<close>

theorem filters_survive_url:
  assumes "market_reachable lc m" and "v = mk_view m"
    and "q = params_to_string (mirror_params v (me_params (mk_env m)))"
  shows "initial_view (parse_query q) = v\<lparr>mv_search := trim (mv_search v)\<rparr> \<and>
     (\<forall>k. k \<notin> {''search'', ''category'', ''risk'', ''limit'', ''page''} \<longrightarrow>
        params_get k (parse_query q) = params_get k (me_params (mk_env m))) \<and>
     (\<forall>env. me_params env = parse_query q \<and> me_answer env = None \<longrightarrow>
        mk_view (commit_market lc (open_market env)) = v\<lparr>mv_search := trim (mv_search v), mv_page := 1\<rparr>)"
proof -
  have ok: "view_ok v" using market_reachable_ok [OF assms(1)] assms(2) by simp
  have q: "parse_query q = mirror_params v (me_params (mk_env m))" using assms(3) by (simp add: parse_query_to_string)
  have init: "initial_view (parse_query q) = v\<lparr>mv_search := trim (mv_search v)\<rparr>"
    unfolding q by (rule initial_of_mirror [OF ok])
  have "params_get k (parse_query q) = params_get k (me_params (mk_env m))"
    if "k \<notin> {''search'', ''category'', ''risk'', ''limit'', ''page''}" for k
    using that by (simp add: q mirror_params_def)
  moreover have "mk_view (commit_market lc (open_market env)) = v\<lparr>mv_search := trim (mv_search v), mv_page := 1\<rparr>"
    if "me_params env = parse_query q" and "me_answer env = None" for env
    using that init initial_view_ok [of "me_params env"]
    by (simp add: commit_market_def open_market_def commit_view_page total_count_info_def)
  ultimately show ?thesis using init by blast
qed

section \<open>Badges and buttons\<close>

lemma map_of_alist_update [simp]: "map_of (AList.update k v m) j = (if j = k then Some v else map_of m j)"
  by (simp add: update_conv')

lemma push_installed_names:
  "map_of (foldl (push_installed g) names ss) k =
     map_option (\<lambda>l. l @ map (\<lambda>_. (mg_id g, mg_name g)) (filter (\<lambda>s. ms_id s = k \<and> ms_installed s) ss)) (map_of names k)"
  by (induction ss arbitrary: names) (auto simp: push_installed_def option.map_comp comp_def option.map_ident split: option.splits)

lemma fresh_names: "map_of (foldl (\<lambda>names skill. AList.update (ms_id skill) [] names) names skills) k =
    (if k \<in> ms_id ` set skills then Some [] else map_of names k)"
  by (induction skills arbitrary: names) auto

definition badge_row :: "string \<Rightarrow> market_gateway \<times> market_skill list \<Rightarrow> (string \<times> string) list" where
  "badge_row k = (\<lambda>(g, ss). map (\<lambda>_. (mg_id g, mg_name g)) (filter (\<lambda>s. ms_id s = k \<and> ms_installed s) ss))"

lemma pushed_rows:
  "map_of (foldl (\<lambda>names (g, gateway_skills). foldl (push_installed g) names gateway_skills) names rows) k =
     map_option (\<lambda>l. l @ concat (map (badge_row k) rows)) (map_of names k)"
  by (induction rows arbitrary: names)
    (auto simp: push_installed_names badge_row_def option.map_comp comp_def option.map_ident)

lemma badges_of_rows:
  "k \<in> ms_id ` set skills \<Longrightarrow> badges_of (names_of_rows skills rows) k = concat (map (badge_row k) rows)"
  by (simp add: badges_of_def names_of_rows_def pushed_rows fresh_names coalesce_opt_def)

lemma badge_row_distinct:
  assumes "distinct (map ms_id ss)"
  shows "badge_row k (g, ss) = (case List.find (\<lambda>s. ms_id s = k) ss of
     None \<Rightarrow> [] | Some s \<Rightarrow> if ms_installed s then [(mg_id g, mg_name g)] else [])"
  using assms
proof (induction ss)
  case (Cons s ss)
  show ?case
  proof (cases "ms_id s = k")
    case True
    with Cons.prems have "k \<notin> ms_id ` set ss" by simp
    then have "\<forall>t \<in> set ss. ms_id t \<noteq> k" by blast
    with True show ?thesis by (simp add: badge_row_def filter_empty_conv)
  next
    case False
    with Cons show ?thesis by (simp add: badge_row_def)
  qed
qed (simp add: badge_row_def)

lemma status_of_gateway:
  assumes "distinct (map (mg_id \<circ> fst) rows)" and "(g, ss) \<in> set rows"
  shows "map_of (status_of_rows k rows) (mg_id g) =
    Some (case List.find (\<lambda>s. ms_id s = k) ss of None \<Rightarrow> False | Some s \<Rightarrow> ms_installed s)"
  using assms
proof (induction rows rule: rev_induct)
  case (snoc r rows)
  then show ?case by (cases r) (force simp: status_of_rows_def)
qed simp

text \<open>What the page keeps between a load and the next one.\<close>

definition badges_agree :: "market_gateway list \<Rightarrow> string \<Rightarrow> install_dialog \<times> installed_names \<Rightarrow> bool" where
  "badges_agree gateways i = (\<lambda>(d, names).
     distinct (map fst (badges_of names i)) \<and>
     set (badges_of names i) \<subseteq> (\<lambda>g. (mg_id g, mg_name g)) ` set gateways \<and>
     (\<forall>g \<in> set gateways. button_installed d (mg_id g) \<longleftrightarrow> (mg_id g, mg_name g) \<in> set (badges_of names i)))"

lemma find_gateway:
  "distinct (map mg_id gateways) \<Longrightarrow> g \<in> set gateways \<Longrightarrow> List.find (\<lambda>h. mg_id h = mg_id g) gateways = Some g"
  by (induction gateways) auto

lemma gateway_of_id:
  "distinct (map mg_id gateways) \<Longrightarrow> g \<in> set gateways \<Longrightarrow> h \<in> set gateways \<Longrightarrow> mg_id g = mg_id h \<longleftrightarrow> g = h"
  by (metis distinct_map inj_onD)

lemma badge_of_id:
  assumes "distinct (map mg_id gateways)" and "g \<in> set gateways"
    and "set l \<subseteq> (\<lambda>g. (mg_id g, mg_name g)) ` set gateways"
  shows "mg_id g \<in> fst ` set l \<longleftrightarrow> (mg_id g, mg_name g) \<in> set l"
proof
  assume "mg_id g \<in> fst ` set l"
  then obtain p where p: "p \<in> set l" "fst p = mg_id g" by auto
  then obtain h where h: "h \<in> set gateways" "p = (mg_id h, mg_name h)" using assms(3) by auto
  then have "mg_id g = mg_id h" using p(2) by simp
  then have "g = h" using gateway_of_id [OF assms(1,2) h(1)] by blast
  then show "(mg_id g, mg_name g) \<in> set l" using p h by simp
next
  assume "(mg_id g, mg_name g) \<in> set l"
  then have "fst (mg_id g, mg_name g) \<in> fst ` set l" by (rule imageI)
  then show "mg_id g \<in> fst ` set l" by simp
qed

lemma some_badge: "list_ex (\<lambda>p. fst p = k) l \<longleftrightarrow> k \<in> fst ` set l"
  by (induction l) auto

lemma badges_of_update:
  "badges_of (update_installed_gateway_names i k name b names) i =
     (if b then if k \<in> fst ` set (badges_of names i) then badges_of names i else badges_of names i @ [(k, name)]
      else filter (\<lambda>p. fst p \<noteq> k) (badges_of names i))"
proof -
  have "coalesce_opt (map_of (if x then names else AList.update i l names) i) [] =
      (if x then badges_of names i else l)" for x l
    by (simp add: badges_of_def coalesce_opt_def)
  then show ?thesis
    by (simp add: update_installed_gateway_names_def badges_of_def [of "if _ then _ else _"] Let_def some_badge
        badges_of_def [of names] coalesce_opt_def)
qed

lemma mutation_keeps_agreement:
  assumes d: "distinct (map mg_id gateways)" and n: "mg_name h \<noteq> []" and h: "h \<in> set gateways"
    and ok: "badges_agree gateways i (dl, names)"
  shows "badges_agree gateways i (mutation_succeeded gateways b i (mg_id h) (dl, names))"
proof -
  let ?l = "badges_of names i"
  let ?l' = "if b then if mg_id h \<in> fst ` set ?l then ?l else ?l @ [(mg_id h, mg_name h)] else filter (\<lambda>p. fst p \<noteq> mg_id h) ?l"
  let ?names = "update_installed_gateway_names i (mg_id h) (mg_name h) b names"
  from ok have l: "distinct (map fst ?l)" "set ?l \<subseteq> (\<lambda>g. (mg_id g, mg_name g)) ` set gateways"
    "\<And>g. g \<in> set gateways \<Longrightarrow> button_installed dl (mg_id g) \<longleftrightarrow> (mg_id g, mg_name g) \<in> set ?l"
    by (simp_all add: badges_agree_def)
  have l': "badges_of ?names i = ?l'" by (rule badges_of_update)
  have in_l': "(mg_id g, mg_name g) \<in> set ?l' \<longleftrightarrow> (if g = h then b else (mg_id g, mg_name g) \<in> set ?l)"
    if "g \<in> set gateways" for g
    using badge_of_id [OF d h l(2)] gateway_of_id [OF d that h] by auto
  have "distinct (map fst ?l')" using l(1) by (auto simp: distinct_map_filter)
  moreover have "set ?l' \<subseteq> (\<lambda>g. (mg_id g, mg_name g)) ` set gateways" using l(2) h by auto
  moreover have "mutation_succeeded gateways b i (mg_id h) (dl, names) =
     (dl\<lparr>sd_installed := AList.update (mg_id h) b (sd_installed dl)\<rparr>, ?names)"
    using find_gateway [OF d h] n by (simp add: mutation_succeeded_def)
  ultimately show ?thesis
    using l(3) in_l' gateway_of_id [OF d _ h]
    by (simp add: badges_agree_def l' button_installed_def del: if_image_distrib)
qed

lemma badge_row_in: "p \<in> set (badge_row k r) \<Longrightarrow> p = (mg_id (fst r), mg_name (fst r))"
  by (auto simp: badge_row_def split: prod.splits)

lemma names_from_rows: "set (concat (map (badge_row k) rows)) \<subseteq> (\<lambda>g. (mg_id g, mg_name g)) ` fst ` set rows"
proof
  fix p assume "p \<in> set (concat (map (badge_row k) rows))"
  then obtain q where q: "q \<in> set rows" "p \<in> set (badge_row k q)" by auto
  then show "p \<in> (\<lambda>g. (mg_id g, mg_name g)) ` fst ` set rows" using badge_row_in [OF q(2)] by simp
qed

lemma disjoint_singleton: "A \<subseteq> {x} \<Longrightarrow> x \<notin> B \<Longrightarrow> A \<inter> B = {}"
  by auto

lemma load_agrees:
  assumes rows: "map fst rows = gateways" and d: "distinct (map mg_id gateways)"
    and ss: "\<forall>r \<in> set rows. distinct (map ms_id (snd r))"
    and i: "i \<in> ms_id ` set skills" and dl: "sd_installed dl = status_of_rows i rows"
  shows "badges_agree gateways i (dl, names_of_rows skills rows)"
proof -
  let ?l = "concat (map (badge_row i) rows)"
  have fs: "fst ` set rows = set gateways" using arg_cong [OF rows, of set] by simp
  have sub: "set ?l \<subseteq> (\<lambda>g. (mg_id g, mg_name g)) ` set gateways" using names_from_rows [of i rows] fs by simp
  have dr: "distinct (map (mg_id \<circ> fst) rows)" using d rows by (metis map_map)
  have dist: "distinct (map fst ?l)"
    using dr ss
  proof (induction rows)
    case (Cons r rows)
    obtain h t where r: "r = (h, t)" by (cases r)
    have "set (map fst (badge_row i r)) \<subseteq> {mg_id h}" by (auto simp: r badge_row_def)
    moreover have "mg_id h \<notin> fst ` set (concat (map (badge_row i) rows))"
    proof
      assume "mg_id h \<in> fst ` set (concat (map (badge_row i) rows))"
      then obtain q p where q: "q \<in> set rows" "p \<in> set (badge_row i q)" "mg_id h = fst p" by auto
      then have "mg_id h = mg_id (fst q)" using badge_row_in [OF q(2)] by simp
      then have "mg_id h \<in> mg_id ` fst ` set rows" using q(1) by simp
      then show False using Cons.prems(1) r by (simp add: image_comp)
    qed
    ultimately have "set (map fst (badge_row i r)) \<inter> fst ` set (concat (map (badge_row i) rows)) = {}"
      by (rule disjoint_singleton)
    moreover have "distinct (map fst (badge_row i r))"
      using Cons.prems(2) badge_row_distinct [of t i h] by (simp add: r split: option.splits)
    moreover have "distinct (map fst (concat (map (badge_row i) rows)))" using Cons by simp
    ultimately show ?case by (simp add: image_Un del: set_concat)
  qed simp
  have "button_installed dl (mg_id g) \<longleftrightarrow> (mg_id g, mg_name g) \<in> set ?l" if g: "g \<in> set gateways" for g
  proof -
    obtain t where t: "(g, t) \<in> set rows" using g fs by force
    have "button_installed dl (mg_id g) \<longleftrightarrow> (mg_id g, mg_name g) \<in> set (badge_row i (g, t))"
      using status_of_gateway [OF dr t, of i] badge_row_distinct [of t i g] ss t
      by (auto simp: button_installed_def dl split: option.splits)
    moreover have "(mg_id g, mg_name g) \<in> set ?l \<longleftrightarrow> (mg_id g, mg_name g) \<in> set (badge_row i (g, t))"
    proof
      assume "(mg_id g, mg_name g) \<in> set ?l"
      then obtain r where r: "r \<in> set rows" "(mg_id g, mg_name g) \<in> set (badge_row i r)" by auto
      then have "mg_id (fst r) = mg_id (fst (g, t))" using badge_row_in [OF r(2)] by simp
      then have "r = (g, t)" using dr t r(1) by (auto simp: distinct_map inj_on_def)
      then show "(mg_id g, mg_name g) \<in> set (badge_row i (g, t))" using r(2) by simp
    qed (use t in auto)
    ultimately show ?thesis by simp
  qed
  then show ?thesis using dist sub by (simp add: badges_agree_def badges_of_rows [OF i])
qed

lemma mutations_keep_agreement:
  assumes "distinct (map mg_id gateways)" and "\<forall>g \<in> set gateways. mg_name g \<noteq> []"
    and "\<forall>m \<in> set ms. snd m \<in> mg_id ` set gateways"
  shows "badges_agree gateways i dn \<Longrightarrow>
    badges_agree gateways i (fold (\<lambda>m. mutation_succeeded gateways (fst m) i (snd m)) ms dn)"
  using assms(3)
proof (induction ms arbitrary: dn)
  case (Cons m ms)
  then obtain h where h: "h \<in> set gateways" "snd m = mg_id h" by auto
  with assms(2) have "mg_name h \<noteq> []" by blast
  from mutation_keeps_agreement [OF assms(1) this h(1), of i "fst dn" "snd dn"] Cons h show ?case by simp
qed simp


text \<open>The column of the pack sorts in the table but is not among the columns the URL may name: a
  click on it asks for its sorting and ends with none.\<close>

lemma pack_column_clears_sorting:
  "normalize_sorting [\<lparr>sort_id = ''source_url'', sort_desc = b\<rparr>] (so_allowed marketplace_sorting) = []"
  by (simp add: marketplace_sorting_def marketplace_sortable_columns_def)

section \<open>The properties at concrete inputs\<close>

definition sample_market :: market where
  "sample_market = fold (market_step str_cmp)
     [Commit, Next, Commit, Choose_risk 2, Type_search '' git '', Commit, Next, Next]
     (open_market
       \<lparr>me_params = [(''packId'', ''p1''), (''page'', ''4'')], me_gateways = [\<lparr>mg_id = ''g1'', mg_name = ''G''\<rparr>],
        me_answer = Some \<lparr>ma_status = 200,
          ma_skills = [\<lparr>ms_id = ''s1'', ms_name = ''n'', ms_category = None, ms_risk = Some ''Low'', ms_installed = True\<rparr>],
          ma_total = Some ''60''\<rparr>,
        me_options = Some \<lparr>ma_status = 200,
          ma_skills = [\<lparr>ms_id = ''s1'', ms_name = ''n'', ms_category = None, ms_risk = Some ''Low'', ms_installed = True\<rparr>],
          ma_total = None\<rparr>,
        me_loading = False\<rparr>)"

lemma market_steps_reachable: "market_reachable lc m \<Longrightarrow> market_reachable lc (fold (market_step lc) evs m)"
  by (induction evs arbitrary: m) (simp_all add: market_reachable.stepped)

lemma sample_market_reachable: "market_reachable str_cmp sample_market"
  unfolding sample_market_def by (intro market_steps_reachable market_reachable.opened)

lemma pages_stay_in_range_witness:
  "let m' = commit_market str_cmp sample_market; v = mk_view m'; env = mk_env m'
   in mv_page v = 3 \<and> fst (total_count_info env) \<and> 0 < snd (total_count_info env) \<and> mv_page v \<le> total_pages env v \<and>
      (has_next_page env v \<longleftrightarrow> mv_page v < total_pages env v) \<and>
      of_int (the (mq_offset (market_skills_params env v))) < snd (total_count_info env)"
proof -
  let ?m = "commit_market str_cmp sample_market"
  have "mv_page (mk_view ?m) = 3 \<and> fst (total_count_info (mk_env ?m)) \<and> 0 < snd (total_count_info (mk_env ?m))"
    by code_simp
  then show ?thesis using pages_stay_in_range [OF sample_market_reachable refl refl refl] by (simp add: Let_def)
qed

lemma filters_survive_url_witness:
  "let v = mk_view sample_market; q = params_to_string (mirror_params v (me_params (mk_env sample_market)));
       env = (mk_env sample_market)\<lparr>me_params := parse_query q, me_answer := None\<rparr>
   in q = ''packId=p1&page=3&search=git&risk=low'' \<and> initial_view (parse_query q) = v\<lparr>mv_search := ''git''\<rparr> \<and>
      mk_view (commit_market str_cmp (open_market env)) = v\<lparr>mv_search := ''git'', mv_page := 1\<rparr>"
proof -
  let ?v = "mk_view sample_market"
  let ?q = "params_to_string (mirror_params ?v (me_params (mk_env sample_market)))"
  have "?q = ''packId=p1&page=3&search=git&risk=low''" "trim (mv_search ?v) = ''git''" by code_simp+
  then show ?thesis using filters_survive_url [OF sample_market_reachable refl refl] by (simp add: Let_def)
qed


end
