(* ===== verification/JsonPretty.thy ===== *)
theory JsonPretty
  imports JsonText
begin

text \<open>
  \<^verbatim>\<open>JSON.stringify(v, null, 2)\<close> is read back by \<^verbatim>\<open>JSON.parse\<close>: the forms of the dashboard show
  values in this form and parse what the user leaves in the field.
\<close>

definition pretty_text :: "nat \<Rightarrow> jsvalue \<Rightarrow> string" where
  "pretty_text ind v = coalesce_opt (stringify_pretty ind v) ''null''"

lemma skip_ws_append [simp]: "list_all is_json_ws w \<Longrightarrow> skip_ws (w @ s) = skip_ws s"
  by (induction w) (simp_all add: skip_ws_def)

lemma pvalue_ws: "list_all is_json_ws w \<Longrightarrow> pvalue n (w @ s) = pvalue n s"
  by (cases n) simp_all

lemma pelems_ws: "list_all is_json_ws w \<Longrightarrow> pelems n (w @ s) = pelems n s"
  by (cases n) (simp_all add: pvalue_ws)

lemma pmembers_ws: "list_all is_json_ws w \<Longrightarrow> pmembers n (w @ s) = pmembers n s"
  by (cases n) simp_all

lemma indent_ws [simp]: "list_all is_json_ws (replicate k (CHR '' ''))" "is_json_ws newline"
  by (simp_all add: list_all_iff is_json_ws_def newline_def)

text \<open>A value is read from its text at any indentation, whatever white space stands before it.\<close>

definition pretty_back :: "jsvalue \<Rightarrow> bool" where
  "pretty_back v \<longleftrightarrow> (\<forall>ind r n. delimited r \<longrightarrow> 2 * length (pretty_text ind v @ r) < n \<longrightarrow>
     pvalue n (pretty_text ind v @ r) = Some (v, r))"

lemma pretty_leaf:
  assumes "reads_back v" and "\<And>ind. pretty_text ind v = js_text v"
  shows "pretty_back v"
  using assms by (simp add: pretty_back_def reads_back_def)

lemma delimited_ws: "is_json_ws c \<Longrightarrow> delimited (c # r)"
  by (simp add: delimited_def)

lemma pelems_pretty:
  assumes sep: "list_all is_json_ws w" and fin: "list_all is_json_ws u" "u \<noteq> []"
  shows "xs \<noteq> [] \<Longrightarrow> \<forall>x \<in> set xs. pretty_back x \<Longrightarrow>
     2 * length (join_with ('','' @ w) (map (pretty_text ind) xs) @ u @ CHR '']'' # r) + 1 < n \<Longrightarrow>
     pelems n (join_with ('','' @ w) (map (pretty_text ind) xs) @ u @ CHR '']'' # r) = Some (xs, r)"
proof (induction xs arbitrary: n rule: induct_list012)
  case (2 x)
  then obtain m where m: "n = Suc m" by (cases n) auto
  have "delimited (u @ CHR '']'' # r)" using fin by (cases u) (simp_all add: delimited_ws)
  with 2 m have "pvalue m (pretty_text ind x @ u @ CHR '']'' # r) = Some (x, u @ CHR '']'' # r)"
    by (simp add: pretty_back_def)
  with m show ?case using fin(1) by simp
next
  case (3 x y zs)
  then obtain m where m: "n = Suc m" by (cases n) auto
  let ?s = "join_with ('','' @ w) (map (pretty_text ind) (y # zs)) @ u @ CHR '']'' # r"
  have s: "join_with ('','' @ w) (map (pretty_text ind) (x # y # zs)) @ u @ CHR '']'' # r =
    pretty_text ind x @ CHR '','' # w @ ?s" by simp
  have "pvalue m (pretty_text ind x @ CHR '','' # w @ ?s) = Some (x, CHR '','' # w @ ?s)"
    using 3(4,5) unfolding s m by (simp add: pretty_back_def)
  moreover have "pelems m ?s = Some (y # zs, r)"
    using 3(2) [of m] 3(4,5) unfolding s m by simp
  ultimately show ?case unfolding s m by (simp add: pelems_ws [OF sep] del: join_with.simps list.map)
qed simp

definition pretty_entry :: "nat \<Rightarrow> string \<times> jsvalue \<Rightarrow> string" where
  "pretty_entry ind kv = quote_string (fst kv) @ '': '' @ pretty_text ind (snd kv)"

lemma pmembers_pretty_entry:
  assumes "pretty_back v" and "delimited (u @ d # r)" and "list_all is_json_ws u" and "\<not> is_json_ws d"
    and "2 * length (pretty_entry ind (k, v) @ u @ d # r) < n"
  shows "pmembers (Suc n) (pretty_entry ind (k, v) @ u @ d # r) =
     (if d = CHR ''}'' then Some ([(k, v)], r)
      else if d = CHR '','' then map_option (\<lambda>(kvs, rest). ((k, v) # kvs, rest)) (pmembers n r)
      else None)"
proof -
  have t: "pretty_entry ind (k, v) @ u @ d # r = char_of (34::nat) # (concat (map quote_char k) @ char_of (34::nat) #
      CHR '':'' # ('' '' @ pretty_text ind v @ u @ d # r))"
    by (simp add: pretty_entry_def quote_string_def dquote_def)
  have "pvalue n (pretty_text ind v @ u @ d # r) = Some (v, u @ d # r)"
    using assms(1,2,5) by (auto simp: pretty_back_def pretty_entry_def)
  then have "pvalue n ('' '' @ pretty_text ind v @ u @ d # r) = Some (v, u @ d # r)"
    by (subst pvalue_ws) (simp_all add: is_json_ws_def)
  with assms(3,4) show ?thesis
    unfolding t by (simp add: pstring_quoted del: pstring.simps append.simps)
qed

lemma pmembers_pretty:
  assumes sep: "list_all is_json_ws w" and fin: "list_all is_json_ws u" "u \<noteq> []"
  shows "kvs \<noteq> [] \<Longrightarrow> \<forall>kv \<in> set kvs. pretty_back (snd kv) \<Longrightarrow>
     2 * length (join_with ('','' @ w) (map (pretty_entry ind) kvs) @ u @ CHR ''}'' # r) + 1 < n \<Longrightarrow>
     pmembers n (join_with ('','' @ w) (map (pretty_entry ind) kvs) @ u @ CHR ''}'' # r) = Some (kvs, r)"
proof (induction kvs arbitrary: n rule: induct_list012)
  case (2 kv)
  then obtain m where m: "n = Suc m" by (cases n) auto
  obtain k v where kv: "kv = (k, v)" by (cases kv)
  have "delimited (u @ CHR ''}'' # r)" using fin by (cases u) (simp_all add: delimited_ws)
  from this 2 m kv show ?case
    using pmembers_pretty_entry [of v u "CHR ''}''" r ind k m] fin(1) by (simp del: pmembers.simps)
next
  case (3 x y zs)
  then obtain m where m: "n = Suc m" by (cases n) auto
  obtain k v where kv: "x = (k, v)" by (cases x)
  let ?s = "join_with ('','' @ w) (map (pretty_entry ind) (y # zs)) @ u @ CHR ''}'' # r"
  have s: "join_with ('','' @ w) (map (pretty_entry ind) (x # y # zs)) @ u @ CHR ''}'' # r =
    pretty_entry ind (k, v) @ [] @ CHR '','' # w @ ?s" by (simp add: kv)
  have "pmembers m ?s = Some (y # zs, r)"
    using 3(2) [of m] 3(4,5) unfolding s m by simp
  moreover have "2 * length (pretty_entry ind (k, v) @ [] @ CHR '','' # w @ ?s) < m" using 3(5) unfolding s m by simp
  moreover have "pretty_back v" using 3(4) kv by simp
  ultimately show ?case
    unfolding s m using pmembers_pretty_entry [of v "[]" "CHR '',''" "w @ ?s" ind k m] kv
    by (simp add: pmembers_ws [OF sep] del: join_with.simps list.map pmembers.simps)
qed simp

lemma pretty_text_arr: "pretty_text ind (JArr xs) =
    pretty_list ind (CHR ''['') (CHR '']'') (map (pretty_text (ind + 2)) xs)"
  by (simp add: pretty_text_def coalesce_opt_def cong: map_cong)

lemma plain_pretty: "json_plain v \<Longrightarrow> stringify_pretty ind v = Some (pretty_text ind v)"
  by (cases v) (simp_all add: pretty_text_def coalesce_opt_def)

lemma pretty_text_obj:
  assumes "list_all (\<lambda>kv. json_plain (snd kv)) kvs"
  shows "pretty_text ind (JObj kvs) =
    pretty_list ind (CHR ''{'') (CHR ''}'') (map (pretty_entry (ind + 2)) kvs)"
proof -
  have "concat (map (\<lambda>(k, v). case stringify_pretty (ind + 2) v of None \<Rightarrow> []
      | Some t \<Rightarrow> [quote_string k @ '': '' @ t]) kvs) = map (pretty_entry (ind + 2)) kvs"
    using assms by (induction kvs) (auto simp: plain_pretty pretty_entry_def split: prod.split)
  then show ?thesis by (simp add: pretty_text_def coalesce_opt_def)
qed

lemma pretty_text_head:
  assumes "json_plain v"
  shows "\<exists>c t. pretty_text ind v = c # t \<and> \<not> is_json_ws c \<and> c \<noteq> CHR '']''"
proof (cases v)
  case (JArr xs)
  then show ?thesis by (simp add: pretty_text_arr pretty_list_def)
next
  case (JObj kvs)
  with assms show ?thesis by (simp add: pretty_text_obj pretty_list_def)
qed (use assms js_text_head [of v] in \<open>auto simp: pretty_text_def js_text_def\<close>)

lemma pretty_back_arr:
  assumes "\<forall>x \<in> set xs. json_plain x" and "\<forall>x \<in> set xs. pretty_back x"
  shows "pretty_back (JArr xs)"
  unfolding pretty_back_def
proof (intro allI impI)
  fix ind r n
  assume n: "2 * length (pretty_text ind (JArr xs) @ r) < n"
  obtain m where m: "n = Suc m" using n by (cases n) auto
  show "pvalue n (pretty_text ind (JArr xs) @ r) = Some (JArr xs, r)"
  proof (cases "xs = []")
    case False
    let ?w = "newline # replicate (ind + 2) (CHR '' '')" and ?u = "newline # replicate ind (CHR '' '')"
    let ?s = "join_with ('','' @ ?w) (map (pretty_text (ind + 2)) xs) @ ?u @ CHR '']'' # r"
    have t: "pretty_text ind (JArr xs) @ r = CHR ''['' # ?w @ ?s"
      using False by (simp add: pretty_text_arr pretty_list_def)
    have "pelems m ?s = Some (xs, r)"
      by (rule pelems_pretty) (use assms(2) False n m in \<open>simp_all add: t del: replicate.simps\<close>)
    moreover obtain c v where h: "?s = c # v" "\<not> is_json_ws c" "c \<noteq> CHR '']''"
    proof -
      obtain c v where c: "pretty_text (ind + 2) (hd xs) = c # v" "\<not> is_json_ws c" "c \<noteq> CHR '']''"
        using pretty_text_head [of "hd xs" "ind + 2"] assms(1) False by auto
      then have "hd (map (pretty_text (ind + 2)) xs) = c # v" using False by (simp add: hd_map)
      then obtain z where "join_with ('','' @ ?w) (map (pretty_text (ind + 2)) xs) = c # z"
        using join_head [of "map (pretty_text (ind + 2)) xs"] False by blast
      then show ?thesis using that c by simp
    qed
    have "skip_ws (?w @ ?s) = ?s"
      by (subst skip_ws_append) (use h in \<open>simp_all del: replicate.simps append_Cons\<close>)
    moreover have "pelems m (?w @ ?s) = pelems m ?s" by (rule pelems_ws) (simp del: replicate.simps)
    ultimately show ?thesis unfolding m t using h by (simp del: append_Cons append_assoc replicate.simps)
  qed (simp add: m pretty_text_arr pretty_list_def)
qed

lemma pretty_back_obj:
  assumes "list_all (\<lambda>kv. json_plain (snd kv)) kvs" and "\<forall>kv \<in> set kvs. pretty_back (snd kv)"
    and "distinct (map fst kvs)"
  shows "pretty_back (JObj kvs)"
  unfolding pretty_back_def
proof (intro allI impI)
  fix ind r n
  assume n: "2 * length (pretty_text ind (JObj kvs) @ r) < n"
  obtain m where m: "n = Suc m" using n by (cases n) auto
  show "pvalue n (pretty_text ind (JObj kvs) @ r) = Some (JObj kvs, r)"
  proof (cases "kvs = []")
    case False
    let ?w = "newline # replicate (ind + 2) (CHR '' '')" and ?u = "newline # replicate ind (CHR '' '')"
    let ?s = "join_with ('','' @ ?w) (map (pretty_entry (ind + 2)) kvs) @ ?u @ CHR ''}'' # r"
    have t: "pretty_text ind (JObj kvs) @ r = CHR ''{'' # ?w @ ?s"
      using False by (simp add: pretty_text_obj [OF assms(1)] pretty_list_def)
    have "pmembers m ?s = Some (kvs, r)"
      by (rule pmembers_pretty) (use assms(2) False n m in \<open>simp_all add: t del: replicate.simps\<close>)
    moreover obtain v where h: "?s = char_of (34::nat) # v"
    proof -
      obtain v where "hd (map (pretty_entry (ind + 2)) kvs) = char_of (34::nat) # v"
        using False by (cases kvs) (auto simp: pretty_entry_def quote_string_def dquote_def)
      then obtain z where "join_with ('','' @ ?w) (map (pretty_entry (ind + 2)) kvs) = char_of (34::nat) # z"
        using join_head [of "map (pretty_entry (ind + 2)) kvs"] False by blast
      then show ?thesis using that by simp
    qed
    have q: "\<not> is_json_ws (char_of (34::nat))" "char_of (34::nat) \<noteq> CHR ''}''" by code_simp+
    have "skip_ws (?w @ ?s) = ?s"
      by (subst skip_ws_append) (use h q in \<open>simp_all del: replicate.simps append_Cons\<close>)
    moreover have "pmembers m (?w @ ?s) = pmembers m ?s" by (rule pmembers_ws) (simp del: replicate.simps)
    ultimately show ?thesis unfolding m t using h q
      by (simp add: make_object_distinct [OF assms(3)] del: append_Cons append_assoc replicate.simps)
  qed (simp add: m pretty_text_obj pretty_list_def make_object_def)
qed

lemma pvalue_pretty: "json_plain v \<Longrightarrow> pretty_back v"
proof (induction v rule: json_plain.induct)
  case (3 xs)
  then show ?case by (auto simp: list_all_iff intro!: pretty_back_arr)
next
  case (4 kvs)
  then show ?case by (auto simp: list_all_iff intro!: pretty_back_obj)
next
  case (2 q)
  then show ?case by (intro pretty_leaf reads_back_num) (simp_all add: pretty_text_def js_text_def)
qed (auto intro!: pretty_leaf reads_back_str reads_back_bool reads_back_null simp: pretty_text_def js_text_def)

theorem pretty_roundtrip:
  assumes "json_plain v"
  shows "stringify_pretty ind v = Some (pretty_text ind v) \<and> json_parse (pretty_text ind v) = Some v"
proof -
  have "delimited []" by (simp add: delimited_def)
  with pvalue_pretty [OF assms] have "pvalue (2 * length (pretty_text ind v @ []) + 1) (pretty_text ind v @ []) = Some (v, [])"
    unfolding pretty_back_def by (metis less_add_one)
  then show ?thesis using plain_pretty [OF assms] by (simp add: json_parse_def skip_ws_def)
qed

end
