(* ===== verification/BoardForms.thy ===== *)
theory BoardForms
  imports ApiModel Datetime Url JsonPretty
begin

text \<open>
  The forms that create and edit a board (\<^verbatim>\<open>app/boards/new/page.tsx\<close>,
  \<^verbatim>\<open>app/boards/[boardId]/edit/page.tsx\<close>): the slug, the fields that stand for the stored value until
  they are touched, the checks before a save and its payload, what a finished onboarding does to the
  form, the onboarding flag of the URL, and the cards and requests of the webhooks. The time zone is
  the pair of functions \<open>lz\<close> (from an instant to local time) and \<open>uz\<close> (back); the number type is rational.
\<close>

section \<open>Slugs\<close>

definition slug_plain :: "char \<Rightarrow> bool" where
  "slug_plain c \<longleftrightarrow> is_lower c \<or> is_digit c"

definition strip_dashes :: "string \<Rightarrow> string" where
  "strip_dashes s =
     (let t = (if starts_with s ''-'' then tl s else s)
      in if t \<noteq> [] \<and> last t = CHR ''-'' then butlast t else t)"

definition slugify :: "string \<Rightarrow> string \<Rightarrow> string" where
  "slugify fallback v =
     (let s = strip_dashes (replace_runs (\<lambda>c. \<not> slug_plain c) (CHR ''-'') (trim (to_lower v)))
      in if s = [] then fallback else s)"

section \<open>A board and its form\<close>

record board_settings =
  bs_id :: string
  bs_name :: string
  bs_description :: string
  bs_gateway :: "string option"
  bs_group :: "string option"
  bs_type :: "string option"
  bs_objective :: "string option"
  bs_approval :: "bool option"
  bs_review :: "bool option"
  bs_comment :: "bool option"
  bs_block :: "bool option"
  bs_lead_only :: "bool option"
  bs_max_agents :: "rat option"
  bs_metrics :: jsvalue
  bs_target :: "string option"

record board_form =
  bf_board :: "board_settings option"
  bf_name :: "string option"
  bf_description :: "string option"
  bf_gateway :: "string option"
  bf_group :: "string option"
  bf_type :: "string option"
  bf_objective :: "string option"
  bf_approval :: "bool option"
  bf_review :: "bool option"
  bf_comment :: "bool option"
  bf_block :: "bool option"
  bf_lead_only :: "bool option"
  bf_max_agents :: "rat option"
  bf_metrics :: "string option"
  bf_target :: "string option"
  bf_error :: "string option"
  bf_metrics_error :: "string option"
  bf_onboarding :: bool

text \<open>The flag of the URL opens the onboarding when the page is mounted, and is removed from it.\<close>

definition should_auto_open_onboarding :: "search_params \<Rightarrow> bool" where
  "should_auto_open_onboarding ps =
     (case params_get ''onboarding'' ps of
        None \<Rightarrow> False
      | Some v \<Rightarrow> v \<noteq> [] \<and> v \<noteq> ''0'' \<and> to_lower v \<noteq> ''false'')"

definition onboarding_flag_url :: "string option \<Rightarrow> search_params \<Rightarrow> string option" where
  "onboarding_flag_url board ps =
     (case board of
        None \<Rightarrow> None
      | Some b \<Rightarrow>
          if b = [] \<or> \<not> should_auto_open_onboarding ps then None
          else let qs = params_to_string (params_delete ''onboarding'' ps)
            in Some (''/boards/'' @ b @ ''/edit'' @ (if qs \<noteq> [] then ''?'' @ qs else [])))"

definition initial_board_form :: "search_params \<Rightarrow> board_form" where
  "initial_board_form ps =
     \<lparr>bf_board = None, bf_name = None, bf_description = None, bf_gateway = None, bf_group = None, bf_type = None,
      bf_objective = None, bf_approval = None, bf_review = None, bf_comment = None, bf_block = None,
      bf_lead_only = None, bf_max_agents = None, bf_metrics = None, bf_target = None, bf_error = None,
      bf_metrics_error = None, bf_onboarding = should_auto_open_onboarding ps\<rparr>"

text \<open>A truth value of JavaScript.\<close>

fun js_truthy :: "jsvalue \<Rightarrow> bool" where
  "js_truthy JUndef = False"
| "js_truthy JNull = False"
| "js_truthy (JBool b) = b"
| "js_truthy (JNum q) = (q \<noteq> 0)"
| "js_truthy (JStr s) = (s \<noteq> [])"
| "js_truthy _ = True"

definition metrics_text :: "jsvalue \<Rightarrow> string" where
  "metrics_text m = (if js_truthy m then coalesce_opt (stringify_pretty 0 m) ''undefined'' else [])"

record board_values =
  bv_name :: string
  bv_description :: string
  bv_gateway :: string
  bv_group :: string
  bv_type :: string
  bv_objective :: string
  bv_approval :: bool
  bv_review :: bool
  bv_comment :: bool
  bv_block :: bool
  bv_lead_only :: bool
  bv_max_agents :: rat
  bv_metrics :: string
  bv_target :: string

text \<open>\<^verbatim>\<open>a ?? b?.f ?? c\<close>.\<close>

definition resolved :: "'a option \<Rightarrow> ('b \<Rightarrow> 'a option) \<Rightarrow> 'b option \<Rightarrow> 'a \<Rightarrow> 'a" where
  "resolved own f stored d =
     (case own of Some v \<Rightarrow> v | None \<Rightarrow> coalesce_opt (Option.bind stored f) d)"

definition base_board :: "board_settings option \<Rightarrow> board_form \<Rightarrow> board_settings option" where
  "base_board loaded f = (case bf_board f of Some b \<Rightarrow> Some b | None \<Rightarrow> loaded)"

definition resolved_values :: "(int \<Rightarrow> int) \<Rightarrow> board_settings option \<Rightarrow> board_form \<Rightarrow> board_values" where
  "resolved_values lz loaded f =
     (let b = base_board loaded f in
      \<lparr>bv_name = resolved (bf_name f) (Some \<circ> bs_name) b [],
       bv_description = resolved (bf_description f) (Some \<circ> bs_description) b [],
       bv_gateway = resolved (bf_gateway f) bs_gateway b [],
       bv_group = resolved (bf_group f) bs_group b ''none'',
       bv_type = resolved (bf_type f) bs_type b ''goal'',
       bv_objective = resolved (bf_objective f) bs_objective b [],
       bv_approval = resolved (bf_approval f) bs_approval b True,
       bv_review = resolved (bf_review f) bs_review b False,
       bv_comment = resolved (bf_comment f) bs_comment b False,
       bv_block = resolved (bf_block f) bs_block b False,
       bv_lead_only = resolved (bf_lead_only f) bs_lead_only b False,
       bv_max_agents = resolved (bf_max_agents f) bs_max_agents b 1,
       bv_metrics = resolved (bf_metrics f) (Some \<circ> metrics_text \<circ> bs_metrics) b [],
       bv_target = resolved (bf_target f) (Some \<circ> to_local_date_input lz \<circ> bs_target) b (to_local_date_input lz None)\<rparr>)"

definition display_gateway_id :: "string list \<Rightarrow> string \<Rightarrow> string" where
  "display_gateway_id gateways own =
     (if own \<noteq> [] then own else case gateways of g # _ \<Rightarrow> g | [] \<Rightarrow> [])"

definition is_form_ready :: "string list \<Rightarrow> board_values \<Rightarrow> bool" where
  "is_form_ready gateways v \<longleftrightarrow>
     trim (bv_name v) \<noteq> [] \<and> trim (bv_description v) \<noteq> [] \<and> display_gateway_id gateways (bv_gateway v) \<noteq> []"

definition change_max_agents :: "string \<Rightarrow> board_form \<Rightarrow> board_form" where
  "change_max_agents s f =
     (case parse_int_prefix s of
        None \<Rightarrow> f\<lparr>bf_max_agents := Some 0\<rparr>
      | Some n \<Rightarrow> f\<lparr>bf_max_agents := Some (of_int (max 0 n))\<rparr>)"

definition handle_onboarding_confirmed :: "(int \<Rightarrow> int) \<Rightarrow> board_settings \<Rightarrow> board_form \<Rightarrow> board_form" where
  "handle_onboarding_confirmed lz updated f =
     f\<lparr>bf_board := Some updated,
       bf_description := Some (bs_description updated),
       bf_type := Some (coalesce_opt (bs_type updated) ''goal''),
       bf_objective := Some (coalesce_opt (bs_objective updated) []),
       bf_approval := Some (coalesce_opt (bs_approval updated) True),
       bf_review := Some (coalesce_opt (bs_review updated) False),
       bf_comment := Some (coalesce_opt (bs_comment updated) False),
       bf_block := Some (coalesce_opt (bs_block updated) False),
       bf_lead_only := Some (coalesce_opt (bs_lead_only updated) False),
       bf_max_agents := Some (coalesce_opt (bs_max_agents updated) 1),
       bf_metrics := Some (metrics_text (bs_metrics updated)),
       bf_target := Some (to_local_date_input lz (bs_target updated)),
       bf_group := Some (coalesce_opt (bs_group updated) ''none''),
       bf_onboarding := False\<rparr>"

section \<open>Saving a board\<close>

record board_payload =
  bp_name :: string
  bp_slug :: string
  bp_description :: string
  bp_gateway :: "string option"
  bp_group :: "string option"
  bp_type :: string
  bp_objective :: "string option"
  bp_approval :: bool
  bp_review :: bool
  bp_comment :: bool
  bp_block :: bool
  bp_lead_only :: bool
  bp_max_agents :: rat
  bp_metrics :: "jsvalue option"
  bp_target :: "string option"

definition none_if_empty :: "string \<Rightarrow> string option" where
  "none_if_empty s = (if s = [] then None else Some s)"

definition group_choice :: "string \<Rightarrow> string option" where
  "group_choice s = (if s = ''none'' then None else Some s)"

definition is_integer_number :: "rat \<Rightarrow> bool" where
  "is_integer_number q \<longleftrightarrow> q = of_int \<lfloor>q\<rfloor>"

definition board_payload_of :: "(int \<Rightarrow> int) \<Rightarrow> string \<Rightarrow> board_values \<Rightarrow> jsvalue option \<Rightarrow> board_payload" where
  "board_payload_of uz gateway v metrics =
     \<lparr>bp_name = trim (bv_name v), bp_slug = slugify ''board'' (trim (bv_name v)),
      bp_description = trim (bv_description v), bp_gateway = none_if_empty gateway,
      bp_group = group_choice (bv_group v), bp_type = bv_type v,
      bp_objective = (if bv_type v = ''general'' then None else none_if_empty (trim (bv_objective v))),
      bp_approval = bv_approval v, bp_review = bv_review v, bp_comment = bv_comment v, bp_block = bv_block v,
      bp_lead_only = bv_lead_only v, bp_max_agents = bv_max_agents v,
      bp_metrics = (if bv_type v = ''general'' then None else metrics),
      bp_target = (if bv_type v = ''general'' then None else local_date_input_to_utc_iso uz (Some (bv_target v)))\<rparr>"

text \<open>The payload goes to the board of the URL; None means that nothing is sent.\<close>

definition handle_board_submit ::
  "(int \<Rightarrow> int) \<Rightarrow> bool \<Rightarrow> string option \<Rightarrow> string list \<Rightarrow> board_values \<Rightarrow> board_form \<Rightarrow>
     board_form \<times> (string \<times> board_payload) option" where
  "handle_board_submit uz signed_in board gateways v f =
     (case board of
        None \<Rightarrow> (f, None)
      | Some b \<Rightarrow>
          if \<not> signed_in \<or> b = [] then (f, None)
          else if trim (bv_name v) = [] then (f\<lparr>bf_error := Some ''Board name is required.''\<rparr>, None)
          else let gateway = display_gateway_id gateways (bv_gateway v) in
          if gateway = [] then (f\<lparr>bf_error := Some ''Select a gateway before saving.''\<rparr>, None)
          else if trim (bv_description v) = [] then (f\<lparr>bf_error := Some ''Board description is required.''\<rparr>, None)
          else if \<not> is_integer_number (bv_max_agents v) \<or> bv_max_agents v < 0
          then (f\<lparr>bf_error := Some ''Max worker agents must be a non-negative integer.''\<rparr>, None)
          else let f1 = f\<lparr>bf_error := None, bf_metrics_error := None\<rparr> in
          if bv_type v \<noteq> ''general'' \<and> trim (bv_metrics v) \<noteq> [] then
            (case json_parse (bv_metrics v) of
               None \<Rightarrow> (f1\<lparr>bf_metrics_error := Some ''Success metrics must be valid JSON.''\<rparr>, None)
             | Some m \<Rightarrow> (f1, Some (b, board_payload_of uz gateway v (if m = JNull then None else Some m))))
          else (f1, Some (b, board_payload_of uz gateway v None)))"

text \<open>The answer of the update: the page to go to, or the error to show.\<close>

definition board_saved :: "int \<Rightarrow> string \<Rightarrow> string option" where
  "board_saved status i = (if status = 200 then Some (''/boards/'' @ i) else None)"

definition board_save_failed :: "string \<Rightarrow> board_form \<Rightarrow> board_form" where
  "board_save_failed message f = f\<lparr>bf_error := Some (if message = [] then ''Something went wrong.'' else message)\<rparr>"

section \<open>A new board\<close>

record new_board =
  nb_name :: string
  nb_slug :: string
  nb_description :: string
  nb_gateway :: string
  nb_group :: "string option"

record new_board_form =
  nf_name :: string
  nf_description :: string
  nf_gateway :: string
  nf_group :: string
  nf_error :: "string option"

definition handle_new_board_submit :: "bool \<Rightarrow> string list \<Rightarrow> new_board_form \<Rightarrow> new_board_form \<times> new_board option" where
  "handle_new_board_submit signed_in gateways f =
     (if \<not> signed_in then (f, None)
      else if trim (nf_name f) = [] then (f\<lparr>nf_error := Some ''Board name is required.''\<rparr>, None)
      else let gateway = display_gateway_id gateways (nf_gateway f) in
      if gateway = [] then (f\<lparr>nf_error := Some ''Select a gateway before creating a board.''\<rparr>, None)
      else if trim (nf_description f) = [] then (f\<lparr>nf_error := Some ''Board description is required.''\<rparr>, None)
      else (f\<lparr>nf_error := None\<rparr>,
            Some \<lparr>nb_name = trim (nf_name f), nb_slug = slugify ''board'' (trim (nf_name f)),
                  nb_description = trim (nf_description f), nb_gateway = gateway, nb_group = group_choice (nf_group f)\<rparr>))"

definition new_board_created :: "int \<Rightarrow> string \<Rightarrow> string option" where
  "new_board_created status i = (if status = 200 then Some (''/boards/'' @ i @ ''/edit?onboarding=1'') else None)"

section \<open>Webhooks\<close>

definition lead_agent_value :: string where
  "lead_agent_value = ''__lead_agent__''"

record webhook =
  wh_id :: string
  wh_description :: string
  wh_agent :: "string option"
  wh_endpoint_url :: "string option"
  wh_endpoint_path :: string

record webhook_card =
  wc_editing :: bool
  wc_description :: string
  wc_agent :: string

definition agent_value :: "webhook \<Rightarrow> string" where
  "agent_value w = coalesce_opt (wh_agent w) lead_agent_value"

definition new_webhook_card :: "webhook \<Rightarrow> webhook_card" where
  "new_webhook_card w = \<lparr>wc_editing = False, wc_description = wh_description w, wc_agent = agent_value w\<rparr>"

definition webhook_changed :: "webhook \<Rightarrow> webhook_card \<Rightarrow> bool" where
  "webhook_changed w c \<longleftrightarrow> trim (wc_description c) \<noteq> trim (wh_description w) \<or> wc_agent c \<noteq> agent_value w"

definition edit_webhook :: "webhook \<Rightarrow> webhook_card \<Rightarrow> webhook_card" where
  "edit_webhook w c = c\<lparr>wc_description := wh_description w, wc_agent := agent_value w, wc_editing := True\<rparr>"

definition cancel_webhook :: "webhook \<Rightarrow> webhook_card \<Rightarrow> webhook_card" where
  "cancel_webhook w c = c\<lparr>wc_description := wh_description w, wc_agent := agent_value w, wc_editing := False\<rparr>"

text \<open>The name shown as the recipient.\<close>

definition webhook_recipient :: "(string \<times> string) list \<Rightarrow> webhook \<Rightarrow> string" where
  "webhook_recipient agents w =
     (case wh_agent w of
        None \<Rightarrow> ''Lead agent''
      | Some a \<Rightarrow> if a = [] then ''Lead agent'' else coalesce_opt (map_of agents a) ''Lead agent'')"

text \<open>Saving a card: it ends the editing of an unchanged one, and otherwise asks the page for an
  update; the page answers whether it was saved.\<close>

record webhook_update =
  wu_id :: string
  wu_description :: string
  wu_agent :: "string option"

definition save_webhook_card :: "webhook \<Rightarrow> webhook_card \<Rightarrow> webhook_card \<times> webhook_update option" where
  "save_webhook_card w c =
     (let trimmed = trim (wc_description c) in
      if trimmed = [] then (c, None)
      else if \<not> webhook_changed w c then (c\<lparr>wc_editing := False\<rparr>, None)
      else (c, Some \<lparr>wu_id = wh_id w, wu_description = trimmed,
              wu_agent = (if wc_agent c = lead_agent_value then None else Some (wc_agent c))\<rparr>))"

definition webhook_card_saved :: "bool \<Rightarrow> webhook_card \<Rightarrow> webhook_card" where
  "webhook_card_saved saved c = (if saved then c\<lparr>wc_editing := False\<rparr> else c)"

record webhook_page =
  wp_description :: string
  wp_agent :: string
  wp_error :: "string option"
  wp_copied :: "string option"
  wp_deleting :: bool
  wp_updating :: bool

definition handle_update_webhook ::
  "string option \<Rightarrow> webhook_update \<Rightarrow> webhook_page \<Rightarrow> webhook_page \<times> webhook_update option" where
  "handle_update_webhook board u p =
     (if board = None \<or> board = Some [] \<or> wp_updating p then (p, None)
      else let trimmed = trim (wu_description u) in
      if trimmed = [] then (p\<lparr>wp_error := Some ''Webhook instruction is required.''\<rparr>, None)
      else (p\<lparr>wp_error := None, wp_updating := True\<rparr>, Some (u\<lparr>wu_description := trimmed\<rparr>)))"

definition update_webhook_settled :: "string option \<Rightarrow> webhook_page \<Rightarrow> webhook_page \<times> bool" where
  "update_webhook_settled failure p =
     (case failure of
        None \<Rightarrow> (p\<lparr>wp_updating := False\<rparr>, True)
      | Some m \<Rightarrow> (p\<lparr>wp_updating := False, wp_error := Some (if m = [] then ''Unable to update webhook.'' else m)\<rparr>, False))"

definition handle_create_webhook ::
  "string option \<Rightarrow> webhook_page \<Rightarrow> webhook_page \<times> (string \<times> string option) option" where
  "handle_create_webhook board p =
     (if board = None \<or> board = Some [] then (p, None)
      else let trimmed = trim (wp_description p) in
      if trimmed = [] then (p\<lparr>wp_error := Some ''Webhook instruction is required.''\<rparr>, None)
      else (p\<lparr>wp_error := None\<rparr>,
            Some (trimmed, if wp_agent p = lead_agent_value then None else Some (wp_agent p))))"

definition webhook_created :: "string option \<Rightarrow> webhook_page \<Rightarrow> webhook_page" where
  "webhook_created failure p =
     (case failure of
        None \<Rightarrow> p\<lparr>wp_description := [], wp_agent := lead_agent_value\<rparr>
      | Some m \<Rightarrow> p\<lparr>wp_error := Some (if m = [] then ''Unable to create webhook.'' else m)\<rparr>)"

definition handle_delete_webhook :: "string option \<Rightarrow> string \<Rightarrow> webhook_page \<Rightarrow> webhook_page \<times> string option" where
  "handle_delete_webhook board i p =
     (if board = None \<or> board = Some [] \<or> wp_deleting p then (p, None)
      else (p\<lparr>wp_error := None, wp_deleting := True\<rparr>, Some i))"

definition delete_webhook_settled :: "string option \<Rightarrow> webhook_page \<Rightarrow> webhook_page" where
  "delete_webhook_settled failure p =
     (case failure of
        None \<Rightarrow> p\<lparr>wp_deleting := False\<rparr>
      | Some m \<Rightarrow> p\<lparr>wp_deleting := False, wp_error := Some (if m = [] then ''Unable to delete webhook.'' else m)\<rparr>)"

text \<open>The text for the clipboard, the mark of a copied endpoint and the timer that removes it.\<close>

definition webhook_endpoint :: "webhook \<Rightarrow> string" where
  "webhook_endpoint w = trim (coalesce_opt (wh_endpoint_url w) (wh_endpoint_path w))"

definition webhook_copied :: "bool \<Rightarrow> webhook \<Rightarrow> webhook_page \<Rightarrow> webhook_page" where
  "webhook_copied ok w p =
     (if ok then p\<lparr>wp_copied := Some (wh_id w)\<rparr> else p\<lparr>wp_error := Some ''Unable to copy webhook endpoint.''\<rparr>)"

definition fire_copied_timer :: "string \<Rightarrow> webhook_page \<Rightarrow> webhook_page" where
  "fire_copied_timer i p = (if wp_copied p = Some i then p\<lparr>wp_copied := None\<rparr> else p)"

section \<open>Slugs are well formed\<close>

definition slug_ok :: "string \<Rightarrow> bool" where
  "slug_ok s \<longleftrightarrow> s \<noteq> [] \<and> (\<forall>c \<in> set s. slug_plain c \<or> c = CHR ''-'') \<and> hd s \<noteq> CHR ''-'' \<and> last s \<noteq> CHR ''-'' \<and>
     \<not> includes_str s ''--''"

text \<open>After the runs are replaced, a dash stands only between characters of the slug.\<close>

fun no_double_dash :: "string \<Rightarrow> bool" where
  "no_double_dash (c # d # s) = (\<not> (c = CHR ''-'' \<and> d = CHR ''-'') \<and> no_double_dash (d # s))"
| "no_double_dash _ = True"

lemma dash_not_plain [simp]: "\<not> slug_plain (CHR ''-'')"
  by (simp add: slug_plain_def is_lower_def is_digit_def)

lemma runs_replaced:
  "(\<forall>c \<in> set (replace_runs (\<lambda>c. \<not> slug_plain c) (CHR ''-'') s). slug_plain c \<or> c = CHR ''-'') \<and>
   no_double_dash (replace_runs (\<lambda>c. \<not> slug_plain c) (CHR ''-'') s)"
proof (induction "\<lambda>c. \<not> slug_plain c" "CHR ''-''" s rule: replace_runs.induct)
  case (2 c cs)
  show ?case
  proof (cases "slug_plain c")
    case False
    let ?t = "dropWhile (\<lambda>c. \<not> slug_plain c) cs"
    have "?t = [] \<or> slug_plain (hd ?t)" using hd_dropWhile [of "\<lambda>c. \<not> slug_plain c" cs] by auto
    then have "no_double_dash (CHR ''-'' # replace_runs (\<lambda>c. \<not> slug_plain c) (CHR ''-'') ?t)"
    proof (cases ?t)
      case (Cons d u)
      moreover have "slug_plain d" using \<open>?t = [] \<or> slug_plain (hd ?t)\<close> Cons by simp
      ultimately show ?thesis using 2(1) [OF False] by auto
    qed (simp only: replace_runs.simps no_double_dash.simps)
    with 2(1) [OF False] False show ?thesis by simp
  next
    case True
    with 2(2) show ?thesis
      by (cases "replace_runs (\<lambda>c. \<not> slug_plain c) (CHR ''-'') cs") auto
  qed
qed simp

lemma no_double_dash_iff: "no_double_dash s \<longleftrightarrow> \<not> includes_str s ''--''"
  unfolding includes_str_def by (induction s rule: no_double_dash.induct) auto

lemma no_double_dash_sub: "\<not> includes_str (a @ s @ b) ''--'' \<Longrightarrow> \<not> includes_str s ''--''"
  unfolding includes_str_def not_not index_of_None by (metis append.assoc)

lemma without_last:
  assumes "t \<noteq> []" and "last t = CHR ''-''" and "\<not> includes_str t ''--''"
  shows "t = butlast t @ ''-'' \<and> (butlast t \<noteq> [] \<longrightarrow> last (butlast t) \<noteq> CHR ''-'')"
proof -
  have t: "t = butlast t @ ''-''" using assms(1,2) append_butlast_last_id [of t] by simp
  moreover have "last (butlast t) \<noteq> CHR ''-''" if "butlast t \<noteq> []"
  proof
    assume "last (butlast t) = CHR ''-''"
    with that have "butlast t = butlast (butlast t) @ ''-''" using append_butlast_last_id [of "butlast t"] by simp
    with t have "t = (butlast (butlast t) @ ''-'') @ ''-''" by simp
    then have "t = butlast (butlast t) @ ''--'' @ []" by simp
    with assms(3) show False unfolding includes_str_def not_not index_of_None by blast
  qed
  ultimately show ?thesis by blast
qed

lemma stripped_ok:
  assumes c: "\<forall>c \<in> set s. slug_plain c \<or> c = CHR ''-''" and n: "\<not> includes_str s ''--''" and ne: "strip_dashes s \<noteq> []"
  shows "slug_ok (strip_dashes s)"
proof -
  define t where "t = (if starts_with s ''-'' then tl s else s)"
  define u where "u = (if t \<noteq> [] \<and> last t = CHR ''-'' then butlast t else t)"
  have u: "strip_dashes s = u" by (simp add: strip_dashes_def Let_def t_def u_def)
  have "s = [] @ t \<or> s = [hd s] @ t" by (cases s) (auto simp: t_def)
  then obtain a where a: "s = a @ t" by blast
  have tn: "\<not> includes_str t ''--''" using no_double_dash_sub [of a t "[]"] n a by simp
  have ht: "hd t \<noteq> CHR ''-''" if "t \<noteq> []"
    using n that by (cases s; cases "tl s") (auto simp: t_def no_double_dash_iff [symmetric] split: if_splits)
  have "t = u @ [] \<or> t = u @ ''-''" using without_last [OF _ _ tn] by (auto simp: u_def)
  then obtain b where b: "t = u @ b" by blast
  have un: "u \<noteq> []" using ne u by simp
  have "\<not> includes_str u ''--''" using no_double_dash_sub [of "[]" u b] tn b by simp
  moreover have "hd u \<noteq> CHR ''-''" using ht b un by simp
  moreover have "last u \<noteq> CHR ''-''" using without_last [OF _ _ tn] un by (auto simp: u_def)
  moreover have "\<forall>c \<in> set u. slug_plain c \<or> c = CHR ''-''" using c a b by simp
  ultimately show ?thesis using un by (simp add: slug_ok_def u)
qed

lemma runs_of_slug:
  "\<forall>c \<in> set s. slug_plain c \<or> c = CHR ''-'' \<Longrightarrow> no_double_dash s \<Longrightarrow>
     replace_runs (\<lambda>c. \<not> slug_plain c) (CHR ''-'') s = s"
proof (induction s rule: no_double_dash.induct)
  case (1 c d s)
  then show ?case by (cases "slug_plain c") auto
qed auto

lemma slug_unchanged:
  assumes "slug_ok s"
  shows "slugify fallback s = s"
proof -
  have c: "\<forall>c \<in> set s. slug_plain c \<or> c = CHR ''-''" and n: "no_double_dash s" and ne: "s \<noteq> []"
    and h: "hd s \<noteq> CHR ''-''" and l: "last s \<noteq> CHR ''-''"
    using assms by (simp_all add: slug_ok_def no_double_dash_iff)
  have low: "lower_char c = c" if "c \<in> set s" for c
    using c that by (auto simp: lower_char_def slug_plain_def is_lower_def is_digit_def is_upper_def)
  have "to_lower s = s" using low by (simp add: to_lower_def map_idI)
  moreover have ws: "\<not> is_ws c" if "c \<in> set s" for c
    using c that by (auto simp: slug_plain_def is_lower_def is_digit_def is_ws_def)
  moreover have "trim s = s" using ne by (intro trim_id disjI2 conjI ws hd_in_set last_in_set)
  moreover have "strip_dashes s = s" using h l ne by (cases s) (simp_all add: strip_dashes_def)
  ultimately show ?thesis using runs_of_slug [OF c n] ne by (simp add: slugify_def)
qed

lemma slug_ok_slugify:
  assumes "slug_ok fallback"
  shows "slug_ok (slugify fallback v)"
proof -
  let ?r = "replace_runs (\<lambda>c. \<not> slug_plain c) (CHR ''-'') (trim (to_lower v))"
  have "slug_ok (strip_dashes ?r)" if "strip_dashes ?r \<noteq> []"
    using runs_replaced [of "trim (to_lower v)"] that by (intro stripped_ok) (simp_all add: no_double_dash_iff)
  then show ?thesis using assms by (simp add: slugify_def Let_def)
qed

text \<open>The slug of any name is non-empty, made of lower-case letters, digits and single dashes between
  them, and a slug is its own slug.\<close>

theorem slugs_well_formed:
  assumes "slug_ok fallback"
  shows "slug_ok (slugify fallback v) \<and> slugify fallback (slugify fallback v) = slugify fallback v"
  using slug_ok_slugify [OF assms] slug_unchanged by blast

lemma slugs_well_formed_witness:
  "slugify ''board'' '' Q3: Launch -- EU! '' = ''q3-launch-eu'' \<and> slug_ok ''q3-launch-eu'' \<and>
   slugify ''board'' ''...'' = ''board'' \<and> slug_ok ''board''"
proof -
  have ok: "slug_ok ''board''" by code_simp
  have "slugify ''board'' '' Q3: Launch -- EU! '' = ''q3-launch-eu''" "slugify ''board'' ''...'' = ''board''" by code_simp+
  then show ?thesis using slugs_well_formed [OF ok, of "'' Q3: Launch -- EU! ''"] ok by simp
qed

section \<open>The target date\<close>

lemma nat_to_string_four: "1000 \<le> n \<Longrightarrow> n \<le> 9999 \<Longrightarrow> length (nat_to_string n) = 4"
proof -
  assume n: "1000 \<le> n" "n \<le> 9999"
  have step: "10 \<le> k \<Longrightarrow> length (nat_to_string k) = Suc (length (nat_to_string (k div 10)))" for k :: nat
    by (subst nat_to_string.simps) simp
  have one: "k < 10 \<Longrightarrow> length (nat_to_string k) = 1" for k :: nat
    by (subst nat_to_string.simps) simp
  have q: "10 \<le> n" "10 \<le> n div 10" "10 \<le> n div 10 div 10" "n div 10 div 10 div 10 < 10"
    using n by (simp_all add: less_mult_imp_div_less flip: div_mult2_eq)
  show ?thesis using q by (simp add: step one)
qed

text \<open>The day of an instant as the form shows it, and the instant that the form stores for it.\<close>

definition local_midnight :: "(int \<Rightarrow> int) \<Rightarrow> (int \<Rightarrow> int) \<Rightarrow> int \<Rightarrow> int" where
  "local_midnight lz uz t = uz (ms_per_day * (lz t div ms_per_day))"

definition date_shown :: "(int \<Rightarrow> int) \<Rightarrow> string option \<Rightarrow> bool" where
  "date_shown lz v \<longleftrightarrow>
     (case parse_api_datetime v of None \<Rightarrow> True
      | Some t \<Rightarrow> 1000 \<le> fst (civil (lz t div ms_per_day)) \<and> fst (civil (lz t div ms_per_day)) \<le> 9999)"

lemma date_input_saved:
  assumes "date_shown lz v"
  shows "local_date_input_to_utc_iso uz (Some (to_local_date_input lz v)) =
    map_option (\<lambda>t. to_iso (local_midnight lz uz t)) (parse_api_datetime v)"
proof (cases "parse_api_datetime v")
  case None
  then show ?thesis by (simp add: to_local_date_input_def local_date_input_to_utc_iso_def)
next
  case (Some t)
  obtain y m d where c: "civil (lz t div ms_per_day) = (y, m, d)" by (cases "civil (lz t div ms_per_day)") auto
  with assms Some have y: "1000 \<le> y" "y \<le> 9999" by (simp_all add: date_shown_def)
  have cs: "m < 12" "1 \<le> d" "d \<le> month_lengths y ! m" "make_day y (int m) (int d) = lz t div ms_per_day"
    using civil_spec [OF c] by auto
  then have d: "d \<le> 31" using month_lengths_bound [of m y] by simp
  let ?s = "int_to_string y @ ''-'' @ two (m + 1) @ ''-'' @ two d"
  have "pad_start 4 (nat_to_string (nat y)) = nat_to_string (nat y)"
    using nat_to_string_four [of "nat y"] y by (simp add: pad_start_def)
  then have ys: "int_to_string y = year_string y" using y by (simp add: int_to_string_def year_string_def)
  have "match_date ?s = Some (nat y, m + 1, d)"
    unfolding ys using y cs(1,2) d by (simp add: match_date_def digits_n_year digits_n_two)
      (use digits_n_two [of d "[]"] d in simp)
  moreover have "trim ?s = ?s" using match_date_trim [OF calculation] .
  moreover have "?s \<noteq> []" by simp
  ultimately have "local_date_input_to_utc_iso uz (Some ?s) = Some (to_iso (local_date uz y (int m) (int d)))"
    using y by (simp add: local_date_input_to_utc_iso_def)
  moreover have "local_date uz y (int m) (int d) = local_midnight lz uz t"
    using y cs(4) by (simp add: local_date_def make_full_year_def local_midnight_def)
  ultimately show ?thesis by (simp add: Some to_local_date_input_def c two_def)
qed

section \<open>What a save sends\<close>

text \<open>The payload that describes a stored board.\<close>

definition payload_of_board :: "(int \<Rightarrow> int) \<Rightarrow> (int \<Rightarrow> int) \<Rightarrow> board_settings \<Rightarrow> board_payload" where
  "payload_of_board lz uz b =
     (let t = coalesce_opt (bs_type b) ''goal''; goal = (t \<noteq> ''general'') in
      \<lparr>bp_name = bs_name b, bp_slug = slugify ''board'' (bs_name b), bp_description = bs_description b,
       bp_gateway = bs_gateway b, bp_group = bs_group b, bp_type = t,
       bp_objective = (if goal then bs_objective b else None),
       bp_approval = coalesce_opt (bs_approval b) True, bp_review = coalesce_opt (bs_review b) False,
       bp_comment = coalesce_opt (bs_comment b) False, bp_block = coalesce_opt (bs_block b) False,
       bp_lead_only = coalesce_opt (bs_lead_only b) False, bp_max_agents = coalesce_opt (bs_max_agents b) 1,
       bp_metrics = (if goal \<and> js_truthy (bs_metrics b) then Some (bs_metrics b) else None),
       bp_target = (if goal then map_option (\<lambda>t. to_iso (local_midnight lz uz t)) (parse_api_datetime (bs_target b)) else None)\<rparr>)"

text \<open>A board as the API stores it: texts without white space around them, a gateway, no group called
  none, a number of agents, metrics that are a JSON object or absent, a date the form can show.\<close>

definition trimmed :: "string \<Rightarrow> bool" where
  "trimmed s \<longleftrightarrow> s \<noteq> [] \<and> trim s = s"

definition board_stored :: "(int \<Rightarrow> int) \<Rightarrow> board_settings \<Rightarrow> bool" where
  "board_stored lz b \<longleftrightarrow> trimmed (bs_name b) \<and> trimmed (bs_description b) \<and>
     bs_gateway b \<noteq> None \<and> bs_gateway b \<noteq> Some [] \<and> bs_group b \<noteq> Some ''none'' \<and>
     (case bs_objective b of None \<Rightarrow> True | Some o' \<Rightarrow> trimmed o') \<and>
     (case bs_max_agents b of None \<Rightarrow> True | Some n \<Rightarrow> is_integer_number n \<and> 0 \<le> n) \<and>
     (case bs_metrics b of JObj kvs \<Rightarrow> json_plain (JObj kvs) | JNull \<Rightarrow> True | JUndef \<Rightarrow> True | _ \<Rightarrow> False) \<and>
     date_shown lz (bs_target b)"

lemma resolved_None [simp]: "resolved None f (Some b) d = coalesce_opt (f b) d"
  by (simp add: resolved_def)

lemma resolved_Some [simp]: "resolved (Some v) f b d = v"
  by (simp add: resolved_def)

lemma coalesce_opt_simps [simp]: "coalesce_opt (Some v) d = v" "coalesce_opt None d = d"
  by (simp_all add: coalesce_opt_def)

definition board_values_of :: "(int \<Rightarrow> int) \<Rightarrow> board_settings \<Rightarrow> board_values" where
  "board_values_of lz b = resolved_values lz (Some b) (initial_board_form [])"

lemma untouched_values:
  "resolved_values lz (Some b) (initial_board_form ps) = board_values_of lz b"
  by (simp add: board_values_of_def resolved_values_def initial_board_form_def base_board_def)

lemma confirmed_values:
  "bf_name g = None \<Longrightarrow> bf_gateway g = None \<Longrightarrow>
     resolved_values lz loaded (handle_onboarding_confirmed lz b g) = board_values_of lz b"
  by (simp add: board_values_of_def resolved_values_def initial_board_form_def base_board_def
      handle_onboarding_confirmed_def Let_def)

lemma metrics_read_back:
  assumes "board_stored lz b"
  shows "js_truthy (bs_metrics b) \<longrightarrow> trim (metrics_text (bs_metrics b)) \<noteq> [] \<and> bs_metrics b \<noteq> JNull \<and>
      json_parse (metrics_text (bs_metrics b)) = Some (bs_metrics b)"
    and "\<not> js_truthy (bs_metrics b) \<longrightarrow> metrics_text (bs_metrics b) = []"
proof -
  show "js_truthy (bs_metrics b) \<longrightarrow> trim (metrics_text (bs_metrics b)) \<noteq> [] \<and> bs_metrics b \<noteq> JNull \<and>
      json_parse (metrics_text (bs_metrics b)) = Some (bs_metrics b)"
  proof
    assume "js_truthy (bs_metrics b)"
    with assms obtain kvs where m: "bs_metrics b = JObj kvs" "json_plain (JObj kvs)"
      by (auto simp: board_stored_def split: jsvalue.splits)
    have t: "metrics_text (JObj kvs) = pretty_text 0 (JObj kvs)"
      using pretty_roundtrip [OF m(2), of 0] by (simp add: metrics_text_def)
    have "pretty_text 0 (JObj kvs) \<noteq> [] \<and> hd (pretty_text 0 (JObj kvs)) = CHR ''{''"
      using m(2) by (simp add: pretty_text_obj pretty_list_def)
    then have "CHR ''{'' \<in> set (pretty_text 0 (JObj kvs))" by (metis hd_in_set)
    then have "trim (pretty_text 0 (JObj kvs)) \<noteq> []" by (force simp: trim_empty_iff is_ws_def)
    then show "trim (metrics_text (bs_metrics b)) \<noteq> [] \<and> bs_metrics b \<noteq> JNull \<and>
      json_parse (metrics_text (bs_metrics b)) = Some (bs_metrics b)"
      using pretty_roundtrip [OF m(2), of 0] by (simp add: m(1) t)
  qed
qed (simp add: metrics_text_def)

lemma submit_of_values:
  assumes ok: "board_stored lz b" and i: "i \<noteq> []"
  shows "handle_board_submit uz True (Some i) gateways (board_values_of lz b) f =
    (f\<lparr>bf_error := None, bf_metrics_error := None\<rparr>, Some (i, payload_of_board lz uz b))"
proof -
  let ?v = "board_values_of lz b" and ?m = "bs_metrics b"
  obtain g where g: "bs_gateway b = Some g" "g \<noteq> []" using ok by (cases "bs_gateway b") (auto simp: board_stored_def)
  have v: "bv_name ?v = bs_name b" "bv_description ?v = bs_description b" "bv_gateway ?v = g"
    "bv_group ?v = coalesce_opt (bs_group b) ''none''" "bv_type ?v = coalesce_opt (bs_type b) ''goal''"
    "bv_objective ?v = coalesce_opt (bs_objective b) []" "bv_approval ?v = coalesce_opt (bs_approval b) True"
    "bv_review ?v = coalesce_opt (bs_review b) False" "bv_comment ?v = coalesce_opt (bs_comment b) False"
    "bv_block ?v = coalesce_opt (bs_block b) False" "bv_lead_only ?v = coalesce_opt (bs_lead_only b) False"
    "bv_max_agents ?v = coalesce_opt (bs_max_agents b) 1" "bv_metrics ?v = metrics_text ?m"
    "bv_target ?v = to_local_date_input lz (bs_target b)"
    by (simp_all add: board_values_of_def resolved_values_def initial_board_form_def base_board_def Let_def g)
  have n: "trim (bs_name b) = bs_name b" "bs_name b \<noteq> []" "trim (bs_description b) = bs_description b" "bs_description b \<noteq> []"
    using ok by (simp_all add: board_stored_def trimmed_def)
  have grp: "group_choice (coalesce_opt (bs_group b) ''none'') = bs_group b"
    using ok by (cases "bs_group b") (auto simp: board_stored_def group_choice_def)
  have obj: "none_if_empty (trim (coalesce_opt (bs_objective b) [])) = bs_objective b"
    using ok by (cases "bs_objective b") (auto simp: board_stored_def none_if_empty_def trimmed_def)
  have mx: "is_integer_number (coalesce_opt (bs_max_agents b) 1)" "\<not> coalesce_opt (bs_max_agents b) 1 < 0"
    using ok by (cases "bs_max_agents b"; auto simp: board_stored_def is_integer_number_def)+
  have date: "local_date_input_to_utc_iso uz (Some (to_local_date_input lz (bs_target b))) =
      map_option (\<lambda>t. to_iso (local_midnight lz uz t)) (parse_api_datetime (bs_target b))"
    using ok by (intro date_input_saved) (simp add: board_stored_def)
  have gg: "none_if_empty g = Some g" using g(2) by (simp add: none_if_empty_def)
  have pay: "board_payload_of uz g ?v m = payload_of_board lz uz b"
    if "coalesce_opt (bs_type b) ''goal'' \<noteq> ''general'' \<longrightarrow> m = (if js_truthy ?m then Some ?m else None)" for m
    using that n gg by (auto simp: board_payload_of_def payload_of_board_def v grp obj date g(1) Let_def)
  have sub: "handle_board_submit uz True (Some i) gateways ?v f =
     (let f1 = f\<lparr>bf_error := None, bf_metrics_error := None\<rparr> in
      if bv_type ?v \<noteq> ''general'' \<and> trim (bv_metrics ?v) \<noteq> [] then
        (case json_parse (bv_metrics ?v) of
           None \<Rightarrow> (f1\<lparr>bf_metrics_error := Some ''Success metrics must be valid JSON.''\<rparr>, None)
         | Some m \<Rightarrow> (f1, Some (i, board_payload_of uz g ?v (if m = JNull then None else Some m))))
      else (f1, Some (i, board_payload_of uz g ?v None)))"
    using i n mx g(2) by (simp add: handle_board_submit_def v(1-3,12) display_gateway_id_def Let_def)
  show ?thesis
  proof (cases "js_truthy ?m")
    case True
    have "trim (metrics_text ?m) \<noteq> []" "?m \<noteq> JNull" "json_parse (metrics_text ?m) = Some ?m"
      using metrics_read_back(1) [OF ok] True by simp_all
    then show ?thesis unfolding sub v(5,13) Let_def using pay [of None] pay [of "Some ?m"] True by simp
  next
    case False
    then show ?thesis unfolding sub v(5,13) Let_def using metrics_read_back(2) [OF ok] pay [of None] by simp
  qed
qed


lemma slug_ok_board: "slug_ok ''board''"
  by code_simp

lemma payload_ok:
  assumes "trim (bv_name v) \<noteq> []" and "trim (bv_description v) \<noteq> []" and "gateway \<noteq> []" and "0 \<le> bv_max_agents v"
    and "p = board_payload_of uz gateway v m"
  shows "trimmed (bp_name p) \<and> slug_ok (bp_slug p) \<and> trimmed (bp_description p) \<and> bp_gateway p \<noteq> None \<and>
    0 \<le> bp_max_agents p \<and>
    (bp_type p = ''general'' \<longrightarrow> bp_objective p = None \<and> bp_metrics p = None \<and> bp_target p = None)"
proof -
  have "slug_ok (slugify ''board'' x)" for x using slug_ok_slugify [OF slug_ok_board] .
  then show ?thesis using assms by (simp add: board_payload_of_def trimmed_def none_if_empty_def)
qed

text \<open>C22: Exactly which forms are sent, and that a form that is not sent shows why. A payload that is sent
  has a trimmed name with a well-formed slug, a description, a gateway and a number of agents, and
  a general board has no goal.\<close>

theorem board_submit_checked:
  assumes "handle_board_submit uz True (Some i) gateways v f = (f', r)" and "i \<noteq> []"
  shows "(r \<noteq> None \<longleftrightarrow> is_form_ready gateways v \<and> is_integer_number (bv_max_agents v) \<and> 0 \<le> bv_max_agents v \<and>
       (bv_type v = ''general'' \<or> trim (bv_metrics v) = [] \<or> json_parse (bv_metrics v) \<noteq> None)) \<and>
     (r = None \<longleftrightarrow> bf_error f' \<noteq> None \<or> bf_metrics_error f' \<noteq> None) \<and>
     (\<forall>p. r = Some (i, p) \<longrightarrow> trimmed (bp_name p) \<and> slug_ok (bp_slug p) \<and> trimmed (bp_description p) \<and>
        bp_gateway p \<noteq> None \<and> 0 \<le> bp_max_agents p \<and>
        (bp_type p = ''general'' \<longrightarrow> bp_objective p = None \<and> bp_metrics p = None \<and> bp_target p = None))"
proof -
  have b: "i = [] \<longleftrightarrow> False" using assms(2) by simp
  let ?g = "display_gateway_id gateways (bv_gateway v)"
  consider (name) "trim (bv_name v) = []" | (gateway) "trim (bv_name v) \<noteq> []" "?g = []"
    | (description) "trim (bv_name v) \<noteq> []" "?g \<noteq> []" "trim (bv_description v) = []"
    | (agents) "trim (bv_name v) \<noteq> []" "?g \<noteq> []" "trim (bv_description v) \<noteq> []"
        "\<not> is_integer_number (bv_max_agents v) \<or> bv_max_agents v < 0"
    | (ready) "trim (bv_name v) \<noteq> []" "?g \<noteq> []" "trim (bv_description v) \<noteq> []"
        "is_integer_number (bv_max_agents v)" "0 \<le> bv_max_agents v"
    using not_less by blast
  then show ?thesis
  proof cases
    case ready
    let ?f = "f\<lparr>bf_error := None, bf_metrics_error := None\<rparr>"
    have sub: "(f', r) =
       (if bv_type v \<noteq> ''general'' \<and> trim (bv_metrics v) \<noteq> [] then
          (case json_parse (bv_metrics v) of
             None \<Rightarrow> (?f\<lparr>bf_metrics_error := Some ''Success metrics must be valid JSON.''\<rparr>, None)
           | Some m \<Rightarrow> (?f, Some (i, board_payload_of uz ?g v (if m = JNull then None else Some m))))
        else (?f, Some (i, board_payload_of uz ?g v None)))"
      using assms(1) b ready by (simp add: handle_board_submit_def Let_def)
    have fine: "is_form_ready gateways v" using ready by (simp add: is_form_ready_def)
    show ?thesis
    proof (cases "bv_type v = ''general'' \<or> trim (bv_metrics v) = []")
      case True
      then have "f' = ?f" "r = Some (i, board_payload_of uz ?g v None)" using sub by auto
      moreover have "bv_type v = ''general'' \<or> trim (bv_metrics v) = [] \<or> json_parse (bv_metrics v) \<noteq> None" using True by blast
      ultimately show ?thesis using ready fine payload_ok [OF ready(1,3,2,5) refl] by (simp only: True) simp
    next
      case False
      show ?thesis
      proof (cases "json_parse (bv_metrics v)")
        case None
        with False sub have "f' = ?f\<lparr>bf_metrics_error := Some ''Success metrics must be valid JSON.''\<rparr>" "r = None" by simp_all
        then show ?thesis using False None by simp
      next
        case (Some m)
        with False sub have "f' = ?f" "r = Some (i, board_payload_of uz ?g v (if m = JNull then None else Some m))"
          by simp_all
        then show ?thesis using Some ready fine payload_ok [OF ready(1,3,2,5) refl] by simp
      qed
    qed
  qed (use assms(1) b in \<open>auto simp: handle_board_submit_def is_form_ready_def\<close>)
qed

definition sample_board :: board_settings where
  "sample_board = \<lparr>bs_id = ''b1'', bs_name = ''Launch'', bs_description = ''Ship it'', bs_gateway = Some ''g1'',
     bs_group = None, bs_type = Some ''goal'', bs_objective = Some ''Win'', bs_approval = None, bs_review = Some True,
     bs_comment = None, bs_block = None, bs_lead_only = Some False, bs_max_agents = Some 3,
     bs_metrics = JObj [(''kpi'', JStr ''five'')], bs_target = Some (to_iso 55800000)\<rparr>"

lemma first_day: "civil 0 = (1970, 0, 1)"
  by code_simp

lemma sample_board_parsed: "parse_api_datetime (Some (to_iso 55800000)) = Some 55800000"
  by (rule parse_api_to_iso) (simp_all add: year_of_def first_day)

lemma sample_board_date: "date_shown id (Some (to_iso 55800000))"
  by (simp add: date_shown_def sample_board_parsed first_day)

lemma sample_board_midnight:
  "map_option (\<lambda>t. to_iso (local_midnight id id t)) (parse_api_datetime (Some (to_iso 55800000))) = Some (to_iso 0)"
  by (simp add: sample_board_parsed local_midnight_def)

lemma sample_board_trimmed: "trimmed ''Launch''" "trimmed ''Ship it''" "trimmed ''Win''"
  by code_simp+

lemma sample_board_stored: "board_stored id sample_board"
  by (simp add: board_stored_def sample_board_def sample_board_date sample_board_trimmed is_integer_number_def)


definition sample_values :: board_values where
  "sample_values = \<lparr>bv_name = '' Launch '', bv_description = ''d'', bv_gateway = [], bv_group = ''none'', bv_type = ''goal'',
     bv_objective = [], bv_approval = True, bv_review = False, bv_comment = False, bv_block = False,
     bv_lead_only = False, bv_max_agents = 0, bv_metrics = ''{'', bv_target = []\<rparr>"

lemma sample_values_ready: "is_form_ready [''g1''] sample_values"
  by code_simp

lemma board_submit_checked_witness:
  "let (f', r) = handle_board_submit id True (Some ''b1'') [''g1''] sample_values (initial_board_form [])
   in is_form_ready [''g1''] sample_values \<and> r = None \<and> (bf_error f' \<noteq> None \<or> bf_metrics_error f' \<noteq> None)"
proof -
  obtain f' r where h: "handle_board_submit id True (Some ''b1'') [''g1''] sample_values (initial_board_form []) = (f', r)"
    by fastforce
  have "json_parse (bv_metrics sample_values) = None" "trim (bv_metrics sample_values) \<noteq> []" "bv_type sample_values \<noteq> ''general''"
    by code_simp+
  then have "r = None" using board_submit_checked [OF h] by (cases r) auto
  then show ?thesis using board_submit_checked [OF h] h sample_values_ready by simp
qed

text \<open>Any JSON passes as success metrics, though the type of the payload asks for an object.\<close>

lemma metrics_of_any_json:
  "map_option (\<lambda>ip. bp_metrics (snd ip)) (snd (handle_board_submit id True (Some ''b1'') [''g1'']
     (sample_values\<lparr>bv_metrics := ''5''\<rparr>) (initial_board_form []))) = Some (Some (JNum 5))"
proof -
  have "json_parse ''5'' = Some (JNum 5)" "trim ''5'' \<noteq> []" "trim '' Launch '' \<noteq> []" "trim ''d'' \<noteq> []" by code_simp+
  then show ?thesis
    by (simp add: handle_board_submit_def sample_values_def display_gateway_id_def is_integer_number_def
        board_payload_of_def Let_def)
qed

text \<open>A webhook card asks for an update exactly if its instruction is not blank and something
  changed; applied to the webhook, the update leaves the card without changes. Cancelling restores
  the card of the webhook.\<close>

theorem webhook_update_exact:
  "(snd (save_webhook_card w c) \<noteq> None \<longleftrightarrow> trim (wc_description c) \<noteq> [] \<and> webhook_changed w c) \<and>
   (case snd (save_webhook_card w c) of
      None \<Rightarrow> True
    | Some u \<Rightarrow> wu_id u = wh_id w \<and>
        \<not> webhook_changed (w\<lparr>wh_description := wu_description u, wh_agent := wu_agent u\<rparr>) c) \<and>
   cancel_webhook w c = new_webhook_card w"
  by (simp add: save_webhook_card_def Let_def webhook_changed_def agent_value_def cancel_webhook_def
      new_webhook_card_def split: option.split)

text \<open>While one webhook is being updated, a save of another card is dropped without a word: the page
  neither sends it nor reports an error, and the card stays open.\<close>

lemma concurrent_update_dropped:
  "wp_updating p \<Longrightarrow> handle_update_webhook board u p = (p, None) \<and> webhook_card_saved False c = c"
  by (simp add: handle_update_webhook_def webhook_card_saved_def)

end
