(* ===== verification/GroupForms.thy ===== *)
theory GroupForms
  imports BoardForms
begin

text \<open>
  The forms that create and edit a board group (\<^verbatim>\<open>app/board-groups/new/page.tsx\<close>,
  \<^verbatim>\<open>app/board-groups/[groupId]/edit/page.tsx\<close>). The boards of a group are set by one request for each
  board that enters or leaves it, one after the other. A \<^verbatim>\<open>Set\<close> is a list without duplicates in
  insertion order. The store of the server is a function from board ids to the group they are in; a
  request that failed may have been carried out or not.
\<close>

section \<open>Choosing boards\<close>

record group_board_row =
  gr_id :: string
  gr_name :: string
  gr_slug :: string
  gr_group :: "string option"

definition toggle_board :: "string \<Rightarrow> string list \<Rightarrow> string list" where
  "toggle_board i chosen = (if i \<in> set chosen then filter (\<lambda>j. j \<noteq> i) chosen else chosen @ [i])"

definition search_boards :: "string \<Rightarrow> group_board_row list \<Rightarrow> group_board_row list" where
  "search_boards term boards =
     filter (\<lambda>b. let q = to_lower (trim term) in
        q = [] \<or> includes_str (to_lower (gr_name b)) q \<or> includes_str (to_lower (gr_slug b)) q) boards"

text \<open>The boards of the organization and of the group, once each, by name.\<close>

definition merged_boards ::
  "(string \<Rightarrow> string \<Rightarrow> int) \<Rightarrow> group_board_row list \<Rightarrow> group_board_row list \<Rightarrow> group_board_row list" where
  "merged_boards lc all_boards group_boards =
     js_sort (\<lambda>a b. lc (gr_name a) (gr_name b))
       (map snd (foldl (\<lambda>by_id b. AList.update (gr_id b) b by_id) [] (all_boards @ group_boards)))"

definition is_in_other_group :: "string option \<Rightarrow> group_board_row \<Rightarrow> bool" where
  "is_in_other_group group_id b \<longleftrightarrow> gr_group b \<noteq> None \<and> gr_group b \<noteq> Some [] \<and> gr_group b \<noteq> group_id"

section \<open>Assigning boards\<close>

type_synonym assignment = "string \<times> string option"

definition assignment_requests :: "string \<Rightarrow> string list \<Rightarrow> group_board_row list \<Rightarrow> assignment list" where
  "assignment_requests group_id desired group_boards =
     (let current = dedup (map gr_id group_boards)
      in map (\<lambda>i. (i, Some group_id)) (filter (\<lambda>i. i \<notin> set current) desired) @
         map (\<lambda>i. (i, None)) (filter (\<lambda>i. i \<notin> set desired) current))"

text \<open>The requests answered one after the other: the number that succeeded and the boards that failed,
  None while one is under way.\<close>

fun run_assignments :: "assignment list \<Rightarrow> bool list \<Rightarrow> (nat \<times> string list) option" where
  "run_assignments [] outcomes = Some (0, [])"
| "run_assignments (r # rs) [] = None"
| "run_assignments (r # rs) (ok # outcomes) =
     map_option (\<lambda>(updated, failures). if ok then (Suc updated, failures) else (updated, fst r # failures))
       (run_assignments rs outcomes)"

text \<open>What the server keeps: a request that succeeded was carried out, of the others the list tells.\<close>

fun serve_assignments :: "assignment list \<Rightarrow> bool list \<Rightarrow> (string \<Rightarrow> string option) \<Rightarrow> string \<Rightarrow> string option" where
  "serve_assignments (r # rs) (carried # ds) store =
     serve_assignments rs ds (if carried then store(fst r := snd r) else store)"
| "serve_assignments _ _ store = store"

record assign_state =
  as_saving :: bool
  as_error :: "string option"
  as_result :: "(nat \<times> nat) option"

definition assignments_error :: "nat \<Rightarrow> string" where
  "assignments_error n = ''Failed to update '' @ nat_to_string n @ '' board assignment'' @ (if n = 1 then [] else ''s'') @ ''.''"

definition begin_save_assignments ::
  "bool \<Rightarrow> string option \<Rightarrow> group_board_row list option \<Rightarrow> string list \<Rightarrow> assign_state \<Rightarrow> assign_state \<times> assignment list option" where
  "begin_save_assignments signed_in group_id group_boards desired s =
     (case group_id of
        None \<Rightarrow> (s, None)
      | Some g \<Rightarrow>
          if \<not> signed_in \<or> g = [] then (s, None)
          else case group_boards of
            None \<Rightarrow> (s\<lparr>as_error := Some ''Group boards are not loaded yet.''\<rparr>, None)
          | Some bs \<Rightarrow> (s\<lparr>as_error := None, as_result := None\<rparr>, Some (assignment_requests g desired bs)))"

definition finish_save_assignments :: "nat \<times> string list \<Rightarrow> assign_state \<Rightarrow> assign_state \<times> nat" where
  "finish_save_assignments = (\<lambda>(updated, failures) s.
     (s\<lparr>as_result := Some (updated, length failures),
        as_error := (if failures \<noteq> [] then Some (assignments_error (length failures)) else as_error s)\<rparr>,
      length failures))"

section \<open>Saving a group\<close>

record group_payload =
  gp_name :: string
  gp_slug :: string
  gp_description :: "string option"

record group_form =
  gf_name :: "string option"
  gf_description :: "string option"
  gf_error :: "string option"
  gf_selected :: "string list"
  gf_initialized :: bool
  gf_assign :: assign_state

definition initial_group_form :: group_form where
  "initial_group_form = \<lparr>gf_name = None, gf_description = None, gf_error = None, gf_selected = [], gf_initialized = False,
     gf_assign = \<lparr>as_saving = False, as_error = None, as_result = None\<rparr>\<rparr>"

text \<open>The first answer with the boards of the group fills the selection.\<close>

definition init_selection :: "string option \<Rightarrow> group_board_row list option \<Rightarrow> group_form \<Rightarrow> group_form" where
  "init_selection group_id group_boards f =
     (if group_id = None \<or> group_id = Some [] \<or> gf_initialized f then f
      else case group_boards of
        None \<Rightarrow> f
      | Some bs \<Rightarrow> f\<lparr>gf_initialized := True, gf_selected := dedup (map gr_id bs)\<rparr>)"

definition group_payload_of :: "string \<Rightarrow> string \<Rightarrow> group_payload" where
  "group_payload_of name description =
     \<lparr>gp_name = trim name, gp_slug = slugify ''group'' (trim name), gp_description = none_if_empty (trim description)\<rparr>"

definition begin_group_submit ::
  "bool \<Rightarrow> string option \<Rightarrow> (string \<times> string option) option \<Rightarrow> group_form \<Rightarrow> group_form \<times> group_payload option" where
  "begin_group_submit signed_in group_id stored f =
     (let name = resolved (gf_name f) (Some \<circ> fst) stored [];
          description = resolved (gf_description f) snd stored []
      in if \<not> signed_in \<or> group_id = None \<or> group_id = Some [] then (f, None)
         else if trim name = [] then (f\<lparr>gf_error := Some ''Group name is required.''\<rparr>, None)
         else (f\<lparr>gf_error := None, gf_assign := \<lparr>as_saving = True, as_error = None, as_result = None\<rparr>\<rparr>,
               Some (group_payload_of name description)))"

text \<open>The rest of \<^verbatim>\<open>handleSubmit\<close>: the answer of the update, the requests for the boards and their
  outcomes; the result is the form and the page to go to.\<close>

definition group_update_failed :: "js_error \<Rightarrow> group_form \<Rightarrow> group_form" where
  "group_update_failed e f =
     (let m = error_message e []
      in f\<lparr>gf_error := Some (if m = [] then ''Something went wrong.'' else m), gf_assign := (gf_assign f)\<lparr>as_saving := False\<rparr>\<rparr>)"

definition finish_group_submit ::
  "bool \<Rightarrow> string option \<Rightarrow> group_board_row list option \<Rightarrow> int \<times> string \<Rightarrow> bool list \<Rightarrow> group_form \<Rightarrow>
     (group_form \<times> string option) option" where
  "finish_group_submit signed_in group_id group_boards answer outcomes f =
     (let settle = (\<lambda>g. g\<lparr>gf_assign := (gf_assign g)\<lparr>as_saving := False\<rparr>\<rparr>) in
      if fst answer \<noteq> 200 then Some (settle (f\<lparr>gf_error := Some ''Something went wrong.''\<rparr>), None)
      else case begin_save_assignments signed_in group_id group_boards (gf_selected f) (gf_assign f) of
        (a, None) \<Rightarrow> Some (settle (f\<lparr>gf_assign := a\<rparr>), None)
      | (a, Some requests) \<Rightarrow>
          map_option (\<lambda>result.
             case finish_save_assignments result a of (a', failed) \<Rightarrow>
               (settle (f\<lparr>gf_assign := a'\<rparr>), if failed > 0 then None else Some (''/board-groups/'' @ snd answer)))
           (run_assignments requests outcomes))"

section \<open>A new group\<close>

definition begin_new_group :: "bool \<Rightarrow> string \<Rightarrow> string \<Rightarrow> string option \<Rightarrow> string option \<times> group_payload option" where
  "begin_new_group signed_in name description error =
     (if \<not> signed_in then (error, None)
      else if trim name = [] then (Some ''Group name is required.'', None)
      else (None, Some (group_payload_of name description)))"

text \<open>After the group is created, the chosen boards are assigned; failures are counted in the URL.\<close>

definition finish_new_group :: "js_error + int \<times> string \<Rightarrow> string list \<Rightarrow> bool list \<Rightarrow> (string + string) option" where
  "finish_new_group answer chosen outcomes =
     (case answer of
        Inl e \<Rightarrow> Some (Inl (error_message e ''Something went wrong.''))
      | Inr (status, g) \<Rightarrow>
          if status \<noteq> 200 then Some (Inl ''Unable to create group.'')
          else map_option (\<lambda>(updated, failures).
              if failures \<noteq> []
              then Inr (''/board-groups/'' @ g @ ''/edit?assign_failed='' @ nat_to_string (length failures))
              else Inr (''/board-groups/'' @ g))
            (run_assignments (map (\<lambda>i. (i, Some g)) chosen) outcomes))"

text \<open>The notice of the edit page for the number in the URL.\<close>

definition assign_failed_count :: "search_params \<Rightarrow> int option" where
  "assign_failed_count ps =
     (case params_get ''assign_failed'' ps of
        None \<Rightarrow> None
      | Some s \<Rightarrow> if s = [] then None else case parse_int_prefix s of None \<Rightarrow> None | Some n \<Rightarrow> if n = 0 then None else Some n)"

section \<open>The assignments reach the chosen boards\<close>

text \<open>The boards that the server has in a group.\<close>

definition members :: "string \<Rightarrow> (string \<Rightarrow> string option) \<Rightarrow> string set" where
  "members g store = {i. store i = Some g}"

lemma requests_distinct:
  assumes "distinct desired"
  shows "distinct (map fst (assignment_requests g desired bs))"
  using assms distinct_dedup [of "map gr_id bs"]
  by (auto simp: assignment_requests_def Let_def comp_def)

lemma serve_other: "i \<notin> fst ` set rs \<Longrightarrow> serve_assignments rs ds store i = store i"
  by (induction rs ds store rule: serve_assignments.induct) auto

abbreviation failed_boards :: "assignment list \<Rightarrow> bool list \<Rightarrow> string list" where
  "failed_boards rs outcomes \<equiv> map (fst \<circ> fst) (filter (\<lambda>ro. \<not> snd ro) (zip rs outcomes))"

lemma served_or_failed:
  "distinct (map fst rs) \<Longrightarrow> length outcomes = length rs \<Longrightarrow> list_all2 (\<longrightarrow>) outcomes carried \<Longrightarrow>
     (i, v) \<in> set rs \<Longrightarrow> serve_assignments rs carried store i = v \<or> i \<in> set (failed_boards rs outcomes)"
proof (induction rs arbitrary: outcomes carried store)
  case (Cons r rs)
  obtain oc ocs where os: "outcomes = oc # ocs" using Cons.prems(2) by (cases outcomes) auto
  obtain d ds where cs: "carried = d # ds" using Cons.prems(3) os by (cases carried) auto
  show ?case
  proof (cases "r = (i, v)")
    case True
    then have "i \<notin> fst ` set rs" using Cons.prems(1) by auto
    then show ?thesis using True Cons.prems(3) by (auto simp: os cs serve_other)
  next
    case False
    then have "(i, v) \<in> set rs" using Cons.prems(4) by simp
    then show ?thesis using Cons.IH [of ocs ds] Cons.prems by (auto simp: os cs)
  qed
qed simp

lemma run_assignments_Some:
  "length outcomes = length rs \<Longrightarrow>
     run_assignments rs outcomes =
       Some (length (filter id outcomes), failed_boards rs outcomes)"
  by (induction rs outcomes rule: run_assignments.induct) auto

lemma request_members:
  "(i, v) \<in> set (assignment_requests g desired bs) \<longleftrightarrow>
     (i \<in> set desired - gr_id ` set bs \<and> v = Some g) \<or> (i \<in> gr_id ` set bs - set desired \<and> v = None)"
  by (auto simp: assignment_requests_def Let_def)

lemma assignments_reach:
  assumes d: "distinct desired" and bs: "gr_id ` set bs = members g store"
    and rs: "rs = assignment_requests g desired bs" and len: "length outcomes = length rs"
    and oc: "list_all2 (\<longrightarrow>) outcomes carried" and st: "store' = serve_assignments rs carried store"
  shows "(members g store' - set desired) \<union> (set desired - members g store') \<subseteq> set (failed_boards rs outcomes)"
    and "i \<notin> set desired \<union> members g store \<Longrightarrow> store' i = store i"
proof -
  have dist: "distinct (map fst rs)" unfolding rs by (rule requests_distinct [OF d])
  have fsts: "i \<in> fst ` set rs \<longleftrightarrow> (i \<in> set desired) \<noteq> (i \<in> members g store)" for i
  proof -
    have "i \<in> fst ` set rs \<longleftrightarrow> (\<exists>v. (i, v) \<in> set rs)" by force
    then show ?thesis unfolding rs request_members bs by blast
  qed
  show "(members g store' - set desired) \<union> (set desired - members g store') \<subseteq> set (failed_boards rs outcomes)"
  proof
    fix i assume i: "i \<in> (members g store' - set desired) \<union> (set desired - members g store')"
    have "i \<in> fst ` set rs"
    proof (rule ccontr)
      assume "i \<notin> fst ` set rs"
      then have "store' i = store i" "(i \<in> set desired) = (i \<in> members g store)"
        using fsts [of i] serve_other [of i rs] by (simp_all add: st)
      with i show False by (auto simp: members_def)
    qed
    then obtain v where v: "(i, v) \<in> set rs" by auto
    then have "v = Some g \<longleftrightarrow> i \<in> set desired" "v = None \<longleftrightarrow> i \<notin> set desired"
      using request_members [of i v g desired bs] unfolding rs by blast+
    then have "store' i \<noteq> v" using i by (auto simp: members_def)
    then show "i \<in> set (failed_boards rs outcomes)"
      using served_or_failed [OF dist len oc v] unfolding st by blast
  qed
  show "store' i = store i" if "i \<notin> set desired \<union> members g store"
    using that fsts [of i] serve_other [of i rs] by (simp add: st)
qed

text \<open>C17: Saving a group asks for exactly the boards that enter or leave it. When the page moves on, the
  group has the chosen boards; otherwise it shows an error, only boards whose request failed are
  wrong, and a second save, with the boards of the group loaded again, asks for no others. Boards
  that were neither chosen nor in the group keep their group.\<close>

theorem saved_group_has_selection:
  assumes "finish_group_submit True (Some g) (Some bs) (200, g) outcomes f = Some (f', page)"
    and "g \<noteq> []" and "distinct (gf_selected f)" and "gr_id ` set bs = members g store"
    and "rs = assignment_requests g (gf_selected f) bs" and "length outcomes = length rs"
    and "list_all2 (\<longrightarrow>) outcomes carried" and "store' = serve_assignments rs carried store"
    and "gr_id ` set bs' = members g store'"
  shows "(page \<noteq> None \<longleftrightarrow> as_error (gf_assign f') = None) \<and>
     (page \<noteq> None \<longrightarrow> members g store' = set (gf_selected f)) \<and>
     (members g store' - set (gf_selected f)) \<union> (set (gf_selected f) - members g store') \<subseteq> set (failed_boards rs outcomes) \<and>
     fst ` set (assignment_requests g (gf_selected f) bs') \<subseteq> set (failed_boards rs outcomes) \<and>
     (\<forall>i. i \<notin> set (gf_selected f) \<union> members g store \<longrightarrow> store' i = store i)"
proof -
  let ?fs = "failed_boards rs outcomes" and ?D = "set (gf_selected f)"
  note reach = assignments_reach [OF assms(3-8)]
  have "page = (if ?fs = [] then Some (''/board-groups/'' @ g) else None) \<and>
      as_error (gf_assign f') = (if ?fs \<noteq> [] then Some (assignments_error (length ?fs)) else None)"
    using assms(1,2) run_assignments_Some [OF assms(6)]
    by (auto simp: finish_group_submit_def begin_save_assignments_def finish_save_assignments_def assms(5) Let_def)
  moreover have "members g store' = ?D" if "?fs = []" using reach(1) that by auto
  moreover have "fst ` set (assignment_requests g (gf_selected f) bs') \<subseteq> set ?fs"
  proof
    fix i assume "i \<in> fst ` set (assignment_requests g (gf_selected f) bs')"
    then have "i \<in> (members g store' - ?D) \<union> (?D - members g store')"
      using request_members [of i _ g "gf_selected f" bs'] assms(9) by force
    then show "i \<in> set ?fs" using reach(1) by blast
  qed
  ultimately show ?thesis using reach by auto
qed

lemma saved_group_has_selection_witness:
  "let bs = [\<lparr>gr_id = ''b1'', gr_name = ''B'', gr_slug = ''b'', gr_group = Some ''g''\<rparr>];
       f = initial_group_form\<lparr>gf_selected := [''b2'']\<rparr>;
       store = (\<lambda>_. None)(''b1'' := Some ''g'');
       rs = assignment_requests ''g'' [''b2''] bs;
       store' = serve_assignments rs [True, True] store
   in rs = [(''b2'', Some ''g''), (''b1'', None)] \<and> members ''g'' store' = {''b2''} \<and>
      map_option snd (finish_group_submit True (Some ''g'') (Some bs) (200, ''g'') [True, True] f) = Some (Some ''/board-groups/g'')"
proof -
  let ?bs = "[\<lparr>gr_id = ''b1'', gr_name = ''B'', gr_slug = ''b'', gr_group = Some ''g''\<rparr>]"
  let ?f = "initial_group_form\<lparr>gf_selected := [''b2'']\<rparr>"
  let ?store = "(\<lambda>_. None)(''b1'' := Some ''g'') :: string \<Rightarrow> string option"
  let ?rs = "assignment_requests ''g'' [''b2''] ?bs"
  let ?store' = "serve_assignments ?rs [True, True] ?store"
  have rs: "?rs = [(''b2'', Some ''g''), (''b1'', None)]" by code_simp
  have ex: "\<exists>f'. finish_group_submit True (Some ''g'') (Some ?bs) (200, ''g'') [True, True] ?f = Some (f', Some ''/board-groups/g'')"
    by (simp add: finish_group_submit_def begin_save_assignments_def initial_group_form_def rs finish_save_assignments_def)
  then obtain f' where fin: "finish_group_submit True (Some ''g'') (Some ?bs) (200, ''g'') [True, True] ?f =
      Some (f', Some ''/board-groups/g'')" by blast
  have store': "?store' = (\<lambda>_. None)(''b2'' := Some ''g'')" by (auto simp: rs)
  let ?bs' = "[\<lparr>gr_id = ''b2'', gr_name = [], gr_slug = [], gr_group = Some ''g''\<rparr>]"
  have bs': "gr_id ` set ?bs' = members ''g'' ?store'"
    unfolding store' by (auto simp: members_def)
  have "members ''g'' ?store' = set (gf_selected ?f)"
    using saved_group_has_selection [where rs = ?rs and store' = ?store' and store = ?store and carried = "[True, True]"
        and bs' = ?bs', OF fin]
    by (simp add: bs' rs members_def initial_group_form_def)
  then show ?thesis using fin rs by (simp add: Let_def initial_group_form_def)
qed

text \<open>The number of failures that a new group puts into the URL is the number the edit page shows.\<close>

lemma digits_encoded: "form_encode (nat_to_string n) = nat_to_string n"
proof -
  have "form_char c = [c]" if "is_digit c" for c
    using that by (auto simp: form_char_def form_plain_def is_alnum_def is_digit_def)
  then show ?thesis using digits_only_to_string [of n]
    by (simp add: form_encode_def digits_only_def list_all_iff cong: map_cong)
qed

lemma failed_count_shown:
  "0 < n \<Longrightarrow> assign_failed_count (parse_query (''assign_failed='' @ nat_to_string n)) = Some (int n)"
proof -
  assume n: "0 < n"
  have "params_to_string [(''assign_failed'', nat_to_string n)] = ''assign_failed='' @ nat_to_string n"
  proof -
    have "form_encode ''assign_failed'' = ''assign_failed''" by code_simp
    then show ?thesis by (simp add: params_to_string_def digits_encoded)
  qed
  then have "parse_query (''assign_failed='' @ nat_to_string n) = [(''assign_failed'', nat_to_string n)]"
    using parse_query_to_string [of "[(''assign_failed'', nat_to_string n)]"] by simp
  then show ?thesis using n parse_int_prefix_nat [of n] by (simp add: assign_failed_count_def params_get_def)
qed

end
