(* ===== verification/Dashboard.thy ===== *)
theory Dashboard
  imports ActivityModel JsJson
begin

text \<open>
  The dashboard (\<^verbatim>\<open>app/dashboard/page.tsx\<close>): how it reads the sessions that gateways report in
  varying shapes, the list of sessions without duplicates, the state of the gateways and the rows of
  the summary, the order of the recent activity and its links. Numbers are exact rationals; the
  number formatter of the browser is the parameter \<open>nf\<close>, the collation \<open>lc\<close>.
\<close>

section \<open>Reading a session\<close>

type_synonym js_record = "(string \<times> jsvalue) list"

definition dash_to_record :: "jsvalue \<Rightarrow> js_record option" where
  "dash_to_record v = (case v of JObj kvs \<Rightarrow> Some kvs | _ \<Rightarrow> None)"

definition property_of :: "js_record \<Rightarrow> string \<Rightarrow> jsvalue" where
  "property_of r k = coalesce_opt (map_of r k) JUndef"

fun first_some :: "('a \<Rightarrow> 'b option) \<Rightarrow> 'a list \<Rightarrow> 'b option" where
  "first_some f [] = None"
| "first_some f (x # xs) = (case f x of None \<Rightarrow> first_some f xs | Some y \<Rightarrow> Some y)"

definition dash_read_string :: "js_record option \<Rightarrow> string list \<Rightarrow> string option" where
  "dash_read_string r keys =
     (case r of
        None \<Rightarrow> None
      | Some kvs \<Rightarrow>
          first_some (\<lambda>k. case property_of kvs k of
              JStr s \<Rightarrow> if trim s \<noteq> [] then Some (trim s) else None
            | _ \<Rightarrow> None) keys)"

text \<open>\<^verbatim>\<open>Number.parseFloat\<close>: the longest decimal number at the beginning, None for \<^verbatim>\<open>NaN\<close> and infinity.\<close>

definition parse_float :: "string \<Rightarrow> rat option" where
  "parse_float s =
     (let t = dropWhile is_ws s;
          negative = starts_with t ''-'';
          u = (if starts_with t ''-'' \<or> starts_with t ''+'' then tl t else t);
          w = takeWhile is_digit u; r = dropWhile is_digit u;
          f = (if starts_with r ''.'' then takeWhile is_digit (tl r) else []);
          r' = (if starts_with r ''.'' then dropWhile is_digit (tl r) else r);
          e = (case pexp r' of Some (x, _) \<Rightarrow> x | None \<Rightarrow> 1)
      in if w = [] \<and> f = [] then None
         else Some ((if negative then - 1 else 1) * (of_nat (nat_of_digits w) + of_nat (nat_of_digits f) / 10 ^ length f) * e))"

definition dash_read_number :: "js_record option \<Rightarrow> string list \<Rightarrow> rat option" where
  "dash_read_number r keys =
     (case r of
        None \<Rightarrow> None
      | Some kvs \<Rightarrow>
          first_some (\<lambda>k. case property_of kvs k of
              JNum q \<Rightarrow> Some q
            | JStr s \<Rightarrow> parse_float (filter (\<lambda>c. is_digit c \<or> c = CHR ''.'' \<or> c = CHR ''-'') s)
            | _ \<Rightarrow> None) keys)"

definition read_string_from_records :: "js_record option list \<Rightarrow> string list \<Rightarrow> string option" where
  "read_string_from_records records keys = first_some (\<lambda>r. dash_read_string r keys) records"

definition read_number_from_records :: "js_record option list \<Rightarrow> string list \<Rightarrow> rat option" where
  "read_number_from_records records keys = first_some (\<lambda>r. dash_read_number r keys) records"

definition normalize_epoch_ms :: "rat \<Rightarrow> rat" where
  "normalize_epoch_ms q =
     (if 1000000000000 \<le> q then q else if 1000000000 \<le> q then q * 1000 else q)"

text \<open>\<^verbatim>\<open>new Date(q)\<close> with its ISO text: whole milliseconds toward zero, None beyond the range of dates.\<close>

definition date_of_ms :: "rat \<Rightarrow> string option" where
  "date_of_ms q =
     (if \<bar>q\<bar> \<le> 8640000000000000 then Some (to_iso (if 0 \<le> q then \<lfloor>q\<rfloor> else \<lceil>q\<rceil>)) else None)"

definition timestamp_of :: "jsvalue \<Rightarrow> string option" where
  "timestamp_of v =
     (case v of
        JNum q \<Rightarrow> date_of_ms (normalize_epoch_ms q)
      | JStr s \<Rightarrow>
          let t = trim s in
          if t = [] then None
          else (case Option.bind (parse_float t) (\<lambda>q. date_of_ms (normalize_epoch_ms q)) of
                  Some d \<Rightarrow> Some d
                | None \<Rightarrow> map_option to_iso (parse_timestamp (Some t)))
      | _ \<Rightarrow> None)"

definition dash_read_timestamp :: "js_record option \<Rightarrow> string list \<Rightarrow> string option" where
  "dash_read_timestamp r keys =
     (case r of None \<Rightarrow> None | Some kvs \<Rightarrow> first_some (\<lambda>k. timestamp_of (property_of kvs k)) keys)"

definition read_timestamp_from_records :: "js_record option list \<Rightarrow> string list \<Rightarrow> string option" where
  "read_timestamp_from_records records keys = first_some (\<lambda>r. dash_read_timestamp r keys) records"

section \<open>Session identity\<close>

definition session_id_keys :: "string list" where
  "session_id_keys = [''key'', ''id'', ''session_key'', ''sessionKey'', ''sessionId'']"

definition session_identifiers :: "js_record option \<Rightarrow> string list" where
  "session_identifiers r = dedup (List.map_filter (\<lambda>k. dash_read_string r [k]) session_id_keys)"

definition shares_session_identity :: "string list \<Rightarrow> string list \<Rightarrow> bool" where
  "shares_session_identity left right = list_ex (\<lambda>v. v \<in> set right) left"

text \<open>A session is kept unless one of its identifiers was seen in a kept one.\<close>

fun unique_sessions :: "js_record list \<Rightarrow> string list \<Rightarrow> js_record list" where
  "unique_sessions [] seen = []"
| "unique_sessions (entry # entries) seen =
     (let ids = session_identifiers (Some entry)
      in if list_ex (\<lambda>v. v \<in> set seen) ids then unique_sessions entries seen
         else entry # unique_sessions entries (seen @ ids))"

definition session_records :: "jsvalue list option \<Rightarrow> jsvalue \<Rightarrow> js_record list" where
  "session_records sessions main =
     (let records = List.map_filter dash_to_record (coalesce_opt sessions []);
          main_ids = session_identifiers (dash_to_record main)
      in case dash_to_record main of
           None \<Rightarrow> records
         | Some m \<Rightarrow>
             if main_ids \<noteq> [] \<and> \<not> list_ex (\<lambda>e. shares_session_identity (session_identifiers (Some e)) main_ids) records
             then m # records else records)"

section \<open>Numbers in text\<close>

definition round_half_up :: "rat \<Rightarrow> int" where
  "round_half_up q = \<lfloor>q + 1 / 2\<rfloor>"

text \<open>\<^verbatim>\<open>q.toFixed(k)\<close> for positive \<open>k\<close>.\<close>

definition to_fixed :: "nat \<Rightarrow> rat \<Rightarrow> string" where
  "to_fixed k q =
     (let s = pad_start (k + 1) (nat_to_string (nat (round_half_up (\<bar>q\<bar> * 10 ^ k))))
      in (if q < 0 then ''-'' else []) @ take (length s - k) s @ ''.'' @ drop (length s - k) s)"

definition compact_number :: "(rat \<Rightarrow> string) \<Rightarrow> rat \<Rightarrow> string" where
  "compact_number nf q =
     (if 1000000 \<le> \<bar>q\<bar> then to_fixed 1 (q / 1000000) @ ''m''
      else if 1000 \<le> \<bar>q\<bar> then to_fixed 1 (q / 1000) @ ''k''
      else nf q)"

definition format_count :: "(rat \<Rightarrow> string) \<Rightarrow> rat \<Rightarrow> string" where
  "format_count nf q = nf (of_int (max 0 (round_half_up q)))"

definition format_percent :: "rat \<Rightarrow> string" where
  "format_percent q = to_fixed 1 q @ ''%''"

definition format_per_day :: "rat \<Rightarrow> rat \<Rightarrow> string" where
  "format_per_day count days = (if days \<le> 0 then em_dash else to_fixed 1 (count / days) @ ''/day'')"

definition clamp_percent :: "rat \<Rightarrow> int" where
  "clamp_percent q = max 0 (min 100 (round_half_up q))"

section \<open>Session summaries\<close>

record session_summary =
  ss_key :: string
  ss_title :: string
  ss_subtitle :: string
  ss_usage :: string
  ss_last_seen :: "string option"
  ss_is_main :: bool

definition session_key :: "js_record \<Rightarrow> nat \<Rightarrow> string" where
  "session_key entry index =
     (case dash_read_string (Some entry) [''key'', ''session_key'', ''sessionKey'', ''id'', ''sessionId''] of
        Some k \<Rightarrow> k
      | None \<Rightarrow> ''session-'' @ nat_to_string index)"

definition candidate_records :: "js_record \<Rightarrow> js_record option list" where
  "candidate_records entry =
     [Some entry, dash_to_record (property_of entry ''usage''), dash_to_record (property_of entry ''stats''),
      dash_to_record (property_of entry ''metrics'')]"

definition session_last_seen :: "js_record \<Rightarrow> string option" where
  "session_last_seen entry = read_timestamp_from_records (candidate_records entry)
     [''updated_at'', ''updatedAt'', ''last_updated_at'', ''lastUpdatedAt'', ''last_seen_at'', ''lastSeen'', ''last_seen'',
      ''last_active_at'', ''lastActiveAt'', ''lastActivityAt'', ''activityAt'', ''created_at'', ''createdAt'']"

definition session_usage :: "(rat \<Rightarrow> string) \<Rightarrow> js_record \<Rightarrow> string" where
  "session_usage nf entry =
     (let records = candidate_records entry;
          used = read_number_from_records records
            [''used'', ''used_tokens'', ''tokens'', ''current'', ''token_count'', ''tokenCount'', ''totalTokens'',
             ''total_tokens'', ''inputTokens'', ''input_tokens''];
          mx = read_number_from_records records
            [''max'', ''limit'', ''token_limit'', ''capacity'', ''max_tokens'', ''maxTokens'', ''context_window'',
             ''contextWindow'', ''contextTokens'', ''context_tokens'', ''maxContextTokens'', ''max_context_tokens''];
          pct = read_number_from_records records
            [''pct'', ''percent'', ''ratio_pct'', ''ratioPct'', ''token_pct'', ''usage_pct'', ''percentUsed'', ''contextPercent''];
          usage_pct = (case pct of
              Some p \<Rightarrow> clamp_percent p
            | None \<Rightarrow> (case (used, mx) of
                  (Some u, Some m) \<Rightarrow> if 0 < m then clamp_percent (u / m * 100) else 0
                | _ \<Rightarrow> 0))
      in case (used, mx) of
           (Some u, Some m) \<Rightarrow>
             compact_number nf u @ ''/'' @ compact_number nf m @ '' ('' @ int_to_string usage_pct @ ''%)''
         | (Some u, None) \<Rightarrow> compact_number nf u @ '' tokens''
         | (None, _) \<Rightarrow> em_dash)"

definition session_subtitle :: "js_record \<Rightarrow> string" where
  "session_subtitle entry =
     (let origin = dash_to_record (property_of entry ''origin'');
          channel = read_string_from_records [Some entry, origin] [''channel'', ''source'', ''kind'', ''chatType''];
          model = dash_read_string (Some entry) [''model'', ''model_name'', ''provider'', ''engine''];
          provider = dash_read_string (Some entry) [''modelProvider'', ''model_provider'', ''provider''];
          dot = '' '' @ middle_dot @ '' '';
          bits = List.map_filter id [channel, model];
          plain = (if bits \<noteq> [] then join_with dot bits else ''Session'');
          with_provider = (case (provider, model) of
              (Some p, Some m) \<Rightarrow> if p \<noteq> m then Some (m @ dot @ p) else model
            | _ \<Rightarrow> model);
          detailed = join_with dot (List.map_filter id [channel, with_provider])
      in if detailed \<noteq> [] then detailed else plain)"

definition summarize_session :: "(rat \<Rightarrow> string) \<Rightarrow> string list \<Rightarrow> nat \<Rightarrow> js_record \<Rightarrow> session_summary" where
  "summarize_session nf main_ids index entry =
     (let key = session_key entry index in
      \<lparr>ss_key = key,
       ss_title = coalesce_opt (dash_read_string (Some entry) [''label'', ''name'', ''title'']) key,
       ss_subtitle = session_subtitle entry, ss_usage = session_usage nf entry,
       ss_last_seen = session_last_seen entry,
       ss_is_main = (main_ids \<noteq> [] \<and> shares_session_identity (session_identifiers (Some entry)) main_ids)\<rparr>)"

definition to_session_summaries :: "(rat \<Rightarrow> string) \<Rightarrow> jsvalue list option \<Rightarrow> jsvalue \<Rightarrow> session_summary list" where
  "to_session_summaries nf sessions main =
     (let main_ids = session_identifiers (dash_to_record main);
          entries = unique_sessions (session_records sessions main) []
      in map (\<lambda>(i, e). summarize_session nf main_ids i e) (zip [0..<length entries] entries))"

section \<open>Gateways\<close>

record dash_board =
  db_id :: string
  db_name :: string
  db_gateway :: "string option"

record gateway_target =
  gt_gateway :: string
  gt_board :: string
  gt_board_name :: string

fun targets_from :: "dash_board list \<Rightarrow> (string \<times> gateway_target) list \<Rightarrow> (string \<times> gateway_target) list" where
  "targets_from [] by_gateway = by_gateway"
| "targets_from (b # bs) by_gateway =
     (case db_gateway b of
        None \<Rightarrow> targets_from bs by_gateway
      | Some g \<Rightarrow>
          if g = [] \<or> g \<in> fst ` set by_gateway then targets_from bs by_gateway
          else targets_from bs (by_gateway @ [(g, \<lparr>gt_gateway = g, gt_board = db_id b, gt_board_name = db_name b\<rparr>)]))"

definition sorted_boards :: "(string \<Rightarrow> string \<Rightarrow> int) \<Rightarrow> dash_board list \<Rightarrow> dash_board list" where
  "sorted_boards lc boards = js_sort (\<lambda>a b. lc (db_name a) (db_name b)) boards"

definition gateway_targets :: "(string \<Rightarrow> string \<Rightarrow> int) \<Rightarrow> dash_board list \<Rightarrow> gateway_target list" where
  "gateway_targets lc boards =
     js_sort (\<lambda>a b. lc (gt_board_name a) (gt_board_name b)) (map snd (targets_from (sorted_boards lc boards) []))"

record gateway_status =
  gs_connected :: bool
  gs_url :: "string option"
  gs_count :: "rat option"
  gs_sessions :: jsvalue
  gs_main :: jsvalue
  gs_main_error :: "string option"
  gs_error :: "string option"

record gateway_snapshot =
  sn_target :: gateway_target
  sn_connected :: bool
  sn_url :: "string option"
  sn_count :: rat
  sn_sessions :: "jsvalue list"
  sn_main :: jsvalue
  sn_main_error :: "string option"
  sn_error :: "string option"
  sn_request_error :: "string option"

text \<open>One request for a target: the answer with its status, or the error that was thrown; None when the
  whole query was aborted.\<close>

definition unavailable_gateway :: "gateway_target \<Rightarrow> string \<Rightarrow> gateway_snapshot" where
  "unavailable_gateway target message =
     \<lparr>sn_target = target, sn_connected = False, sn_url = None, sn_count = 0, sn_sessions = [], sn_main = JNull,
      sn_main_error = None, sn_error = None, sn_request_error = Some message\<rparr>"

definition snapshot_of :: "gateway_target \<Rightarrow> bool \<Rightarrow> js_error + int \<times> gateway_status \<Rightarrow> gateway_snapshot option" where
  "snapshot_of target aborted answer =
     (case answer of
        Inl e \<Rightarrow>
          if aborted then None else Some (unavailable_gateway target (error_message e ''Gateway status request failed.''))
      | Inr (status, p) \<Rightarrow>
          if status \<noteq> 200
          then Some (unavailable_gateway target (''Gateway status request failed ('' @ int_to_string status @ '')''))
          else Some \<lparr>sn_target = target, sn_connected = gs_connected p, sn_url = gs_url p,
                 sn_count = coalesce_opt (gs_count p) 0,
                 sn_sessions = (case gs_sessions p of JArr xs \<Rightarrow> xs | _ \<Rightarrow> []),
                 sn_main = (if gs_main p = JUndef then JNull else gs_main p),
                 sn_main_error = gs_main_error p, sn_error = gs_error p, sn_request_error = None\<rparr>)"

definition has_text :: "string option \<Rightarrow> bool" where
  "has_text v \<longleftrightarrow> v \<noteq> None \<and> v \<noteq> Some []"

definition dash_sessions :: "(rat \<Rightarrow> string) \<Rightarrow> gateway_snapshot list \<Rightarrow> session_summary list" where
  "dash_sessions nf snapshots =
     concat (map (\<lambda>sn.
       if has_text (sn_request_error sn) then []
       else let source = (if has_text (sn_url sn) then the (sn_url sn) else gt_board_name (sn_target sn))
         in map (\<lambda>x. x\<lparr>ss_key := gt_gateway (sn_target sn) @ '':'' @ ss_key x,
                      ss_subtitle := source @ '' '' @ middle_dot @ '' '' @ ss_subtitle x\<rparr>)
              (to_session_summaries nf (Some (sn_sessions sn)) (sn_main sn))) snapshots)"

definition gateway_connected_count :: "gateway_snapshot list \<Rightarrow> nat" where
  "gateway_connected_count sns = length (filter (\<lambda>s. \<not> has_text (sn_request_error s) \<and> sn_connected s) sns)"

definition gateway_disconnected_count :: "gateway_snapshot list \<Rightarrow> nat" where
  "gateway_disconnected_count sns = length (filter (\<lambda>s. \<not> has_text (sn_request_error s) \<and> \<not> sn_connected s) sns)"

definition gateway_unavailable_count :: "gateway_snapshot list \<Rightarrow> nat" where
  "gateway_unavailable_count sns = length (filter (\<lambda>s. has_text (sn_request_error s)) sns)"

definition gateway_health_error_count :: "gateway_snapshot list \<Rightarrow> nat" where
  "gateway_health_error_count sns = length (filter (\<lambda>s. has_text (sn_error s) \<or> has_text (sn_main_error s)) sns)"

definition active_sessions :: "(rat \<Rightarrow> string) \<Rightarrow> gateway_snapshot list \<Rightarrow> rat" where
  "active_sessions nf sns = max (sum_list (map (\<lambda>s. max 0 (sn_count s)) sns)) (of_nat (length (dash_sessions nf sns)))"

definition gateway_status_label :: "gateway_target list \<Rightarrow> bool \<Rightarrow> gateway_snapshot list \<Rightarrow> string" where
  "gateway_status_label targets loading sns =
     (if targets = [] then ''Not configured''
      else if loading then ''Checking''
      else if gateway_connected_count sns = length targets then ''All connected''
      else if 0 < gateway_connected_count sns then ''Partially connected''
      else if gateway_unavailable_count sns = length targets then ''Unavailable''
      else ''Disconnected'')"

datatype row_tone = Tone_default | Tone_success | Tone_warning | Tone_danger

definition gateway_status_tone :: "string \<Rightarrow> row_tone" where
  "gateway_status_tone label =
     (if label = ''All connected'' then Tone_success
      else if label = ''Checking'' \<or> label = ''Not configured'' then Tone_default
      else if label = ''Partially connected'' \<or> label = ''Disconnected'' then Tone_warning
      else Tone_danger)"

definition gateway_badge_tone :: "string \<Rightarrow> string" where
  "gateway_badge_tone label =
     (if label = ''All connected'' then ''online''
      else if label = ''Partially connected'' \<or> label = ''Disconnected'' \<or> label = ''Unavailable'' then ''offline''
      else ''neutral'')"

record summary_row =
  sr_label :: string
  sr_value :: string
  sr_tone :: row_tone

definition gateway_health_rows :: "(rat \<Rightarrow> string) \<Rightarrow> gateway_target list \<Rightarrow> bool \<Rightarrow> gateway_snapshot list \<Rightarrow> summary_row list" where
  "gateway_health_rows nf targets loading sns =
     (let label = gateway_status_label targets loading sns;
          issues = gateway_health_error_count sns + gateway_disconnected_count sns;
          count = (\<lambda>n. format_count nf (of_nat n))
      in [\<lparr>sr_label = ''Gateway status'', sr_value = label, sr_tone = gateway_status_tone label\<rparr>,
          \<lparr>sr_label = ''Configured gateways'', sr_value = count (length targets), sr_tone = Tone_default\<rparr>,
          \<lparr>sr_label = ''Connected gateways'', sr_value = count (gateway_connected_count sns),
           sr_tone = (if 0 < gateway_connected_count sns then Tone_success else Tone_default)\<rparr>,
          \<lparr>sr_label = ''Unavailable gateways'', sr_value = count (gateway_unavailable_count sns),
           sr_tone = (if 0 < gateway_unavailable_count sns then Tone_danger else Tone_default)\<rparr>,
          \<lparr>sr_label = ''Gateways with issues'', sr_value = count issues,
           sr_tone = (if 0 < issues then Tone_warning else Tone_success)\<rparr>])"

section \<open>Workload and throughput\<close>

record dash_kpis =
  dk_inbox :: rat
  dk_in_progress :: rat
  dk_review :: rat
  dk_done :: rat
  dk_error_rate :: rat
  dk_points :: "rat list"

definition workload_rows :: "(rat \<Rightarrow> string) \<Rightarrow> dash_kpis \<Rightarrow> summary_row list" where
  "workload_rows nf k =
     [\<lparr>sr_label = ''Total work items'',
       sr_value = format_count nf (dk_inbox k + dk_in_progress k + dk_review k + dk_done k), sr_tone = Tone_default\<rparr>,
      \<lparr>sr_label = ''Inbox'', sr_value = format_count nf (dk_inbox k), sr_tone = Tone_default\<rparr>,
      \<lparr>sr_label = ''In progress'', sr_value = format_count nf (dk_in_progress k),
       sr_tone = (if 0 < dk_in_progress k then Tone_warning else Tone_default)\<rparr>,
      \<lparr>sr_label = ''In review'', sr_value = format_count nf (dk_review k), sr_tone = Tone_default\<rparr>,
      \<lparr>sr_label = ''Completed'', sr_value = format_count nf (dk_done k),
       sr_tone = (if 0 < dk_done k then Tone_success else Tone_default)\<rparr>]"

definition review_backlog_ratio :: "dash_kpis \<Rightarrow> rat option" where
  "review_backlog_ratio k = (if 0 < dk_in_progress k then Some (dk_review k / dk_in_progress k) else None)"

definition infinity_sign :: string where
  "infinity_sign = [char_of (158::nat)]"

definition throughput_rows :: "(rat \<Rightarrow> string) \<Rightarrow> dash_kpis \<Rightarrow> summary_row list" where
  "throughput_rows nf k =
     (let count = sum_list (dk_points k);
          days = length (filter (\<lambda>v. 0 < v) (dk_points k));
          ratio = review_backlog_ratio k
      in [\<lparr>sr_label = ''Completed tasks'', sr_value = format_count nf count, sr_tone = Tone_default\<rparr>,
          \<lparr>sr_label = ''Average throughput'', sr_value = format_per_day count 7, sr_tone = Tone_default\<rparr>,
          \<lparr>sr_label = ''Error rate'', sr_value = format_percent (dk_error_rate k),
           sr_tone = (if 0 < dk_error_rate k then Tone_warning else Tone_success)\<rparr>,
          \<lparr>sr_label = ''Completion consistency'', sr_value = format_count nf (of_nat days) @ '' active days'',
           sr_tone = (if 6 \<le> days then Tone_success else Tone_default)\<rparr>,
          \<lparr>sr_label = ''Review backlog ratio'',
           sr_value = (case ratio of Some r \<Rightarrow> to_fixed 2 r @ ''x''
              | None \<Rightarrow> if 0 < dk_review k then infinity_sign else ''0.00x''),
           sr_tone = (case ratio of Some r \<Rightarrow> if 1 < r then Tone_warning else Tone_success
              | None \<Rightarrow> if 0 < dk_review k then Tone_warning else Tone_success)\<rparr>])"

section \<open>Recent activity\<close>

record dash_event =
  de_id :: string
  de_type :: string
  de_created_at :: string
  de_task_id :: "string option"
  de_route_name :: "string option"
  de_route_params :: search_params

definition ordered_activity_events :: "dash_event list \<Rightarrow> dash_event list" where
  "ordered_activity_events events =
     js_sort (by_key_desc (\<lambda>e. coalesce_opt (parse_timestamp (Some (de_created_at e))) 0)) events"

definition recent_logs :: "dash_event list \<Rightarrow> dash_event list" where
  "recent_logs events = take 8 (ordered_activity_events events)"

definition build_activity_event_href :: "dash_event \<Rightarrow> string" where
  "build_activity_event_href ev =
     (let params = de_route_params ev; board = params_get ''boardId'' params in
      if de_route_name ev = Some ''board.approvals'' \<and> truthy board
      then ''/boards/'' @ encode_uri_component (the board) @ ''/approvals''
      else if de_route_name ev = Some ''board'' \<and> truthy board
      then (let query = params_to_string (foldl (\<lambda>ps (key, v). if key \<noteq> ''boardId'' then params_set key v ps else ps) [] params)
            in ''/boards/'' @ encode_uri_component (the board) @ (if query \<noteq> [] then ''?'' @ query else []))
      else (let ps = (if length params > 0 then params
                      else [(''eventId'', de_id ev), (''eventType'', de_type ev), (''createdAt'', de_created_at ev)]);
                ps' = (if truthy (de_task_id ev) \<and> params_get ''taskId'' ps = None
                       then params_set ''taskId'' (the (de_task_id ev)) ps else ps)
            in ''/activity?'' @ params_to_string ps'))"

section \<open>Sessions are listed once\<close>

abbreviation ids :: "js_record \<Rightarrow> string list" where
  "ids e \<equiv> session_identifiers (Some e)"

definition disjoint_ids :: "js_record \<Rightarrow> js_record \<Rightarrow> bool" where
  "disjoint_ids a b \<longleftrightarrow> set (ids a) \<inter> set (ids b) = {}"

lemma unique_seen: "e \<in> set (unique_sessions xs seen) \<Longrightarrow> set (ids e) \<inter> set seen = {}"
  by (induction xs seen rule: unique_sessions.induct) (auto simp: Let_def list_ex_iff split: if_splits)

lemma unique_disjoint: "sorted_wrt disjoint_ids (unique_sessions xs seen)"
proof (induction xs seen rule: unique_sessions.induct)
  case (2 e es seen)
  have "disjoint_ids e x" if "x \<in> set (unique_sessions es (seen @ ids e))" for x
    using unique_seen [OF that] by (auto simp: disjoint_ids_def)
  with 2 show ?case by (simp add: Let_def)
qed simp

lemma unique_covers:
  "x \<in> set xs \<Longrightarrow> x \<in> set (unique_sessions xs seen) \<or>
     (\<exists>v \<in> set (ids x). v \<in> set seen \<or> (\<exists>e \<in> set (unique_sessions xs seen). v \<in> set (ids e)))"
proof (induction xs seen rule: unique_sessions.induct)
  case (2 e es seen)
  show ?case
  proof (cases "list_ex (\<lambda>v. v \<in> set seen) (ids e)")
    case True
    then show ?thesis using 2(1) 2(3) by (auto simp: Let_def list_ex_iff)
  next
    case False
    then show ?thesis using 2(2) 2(3) by (auto simp: Let_def)
  qed
qed simp

lemma read_string_first:
  "dash_read_string (Some e) keys = first_some (\<lambda>k. dash_read_string (Some e) [k]) keys"
  by (induction keys) (auto simp: dash_read_string_def split: option.splits)

lemma first_some_in: "first_some f xs = Some y \<Longrightarrow> \<exists>x \<in> set xs. f x = Some y"
  by (induction xs) (auto split: option.splits)

lemma first_some_None: "first_some f xs = None \<longleftrightarrow> (\<forall>x \<in> set xs. f x = None)"
  by (induction xs) (auto split: option.splits)

lemma set_map_filter_Some: "v \<in> set (List.map_filter f xs) \<longleftrightarrow> (\<exists>x \<in> set xs. f x = Some v)"
  by (induction xs) (auto simp: List.map_filter_simps split: option.splits)

lemma set_ids: "v \<in> set (ids e) \<longleftrightarrow> (\<exists>k \<in> set session_id_keys. dash_read_string (Some e) [k] = Some v)"
  by (simp add: session_identifiers_def set_map_filter_Some)

lemma session_key_cases:
  "(\<exists>v. session_key e i = v \<and> v \<in> set (ids e)) \<or> ids e = [] \<and> session_key e i = ''session-'' @ nat_to_string i"
proof (cases "dash_read_string (Some e) [''key'', ''session_key'', ''sessionKey'', ''id'', ''sessionId'']")
  case None
  then have n: "\<forall>k \<in> set [''key'', ''session_key'', ''sessionKey'', ''id'', ''sessionId'']. dash_read_string (Some e) [k] = None"
    unfolding read_string_first [of e "[_, _, _, _, _]"] first_some_None .
  have "v \<notin> set (ids e)" for v unfolding set_ids session_id_keys_def using n by simp
  then have "ids e = []" by (metis list.set_intros(1) neq_Nil_conv)
  with None show ?thesis by (simp add: session_key_def)
next
  case (Some v)
  then have "\<exists>k \<in> set [''key'', ''session_key'', ''sessionKey'', ''id'', ''sessionId'']. dash_read_string (Some e) [k] = Some v"
    unfolding read_string_first [of e "[_, _, _, _, _]"] by (rule first_some_in)
  then have "v \<in> set (ids e)" unfolding set_ids session_id_keys_def by auto
  with Some show ?thesis by (simp add: session_key_def)
qed

definition plain_ids :: "js_record list \<Rightarrow> bool" where
  "plain_ids es \<longleftrightarrow> (\<forall>e \<in> set es. \<forall>v \<in> set (ids e). \<not> starts_with v ''session-'')"

lemma session_keys_differ:
  assumes "sorted_wrt disjoint_ids es" and "plain_ids es" and "i < j" and "j < length es"
  shows "session_key (es ! i) i \<noteq> session_key (es ! j) j"
proof
  assume eq: "session_key (es ! i) i = session_key (es ! j) j"
  have disj: "set (ids (es ! i)) \<inter> set (ids (es ! j)) = {}"
    using sorted_wrt_nth_less [OF assms(1,3,4)] by (simp add: disjoint_ids_def)
  have plain: "\<not> starts_with v ''session-''" if "v \<in> set (ids (es ! k))" "k < length es" for v k
    using assms(2) that by (auto simp: plain_ids_def)
  have st: "starts_with (''session-'' @ n) ''session-''" for n by (rule starts_with_append)
  have lens: "i < length es" "j < length es" using assms(3,4) by simp_all
  show False
    using session_key_cases [of "es ! i" i] session_key_cases [of "es ! j" j]
  proof (elim disjE exE conjE)
    fix v w assume "session_key (es ! i) i = v" "v \<in> set (ids (es ! i))" "session_key (es ! j) j = w" "w \<in> set (ids (es ! j))"
    then show False using eq disj by auto
  next
    fix v assume "session_key (es ! i) i = v" "v \<in> set (ids (es ! i))" "session_key (es ! j) j = ''session-'' @ nat_to_string j"
    then show False using eq plain lens(1) st by metis
  next
    fix v assume "session_key (es ! i) i = ''session-'' @ nat_to_string i" "session_key (es ! j) j = v" "v \<in> set (ids (es ! j))"
    then show False using eq plain lens(2) st by metis
  next
    assume "session_key (es ! i) i = ''session-'' @ nat_to_string i" "session_key (es ! j) j = ''session-'' @ nat_to_string j"
    then show False using eq nat_to_string_inj [of i j] assms(3) by simp
  qed
qed

lemma summaries_nth:
  "j < length (unique_sessions (session_records sessions main) []) \<Longrightarrow>
     to_session_summaries nf sessions main ! j =
       summarize_session nf (session_identifiers (dash_to_record main)) j (unique_sessions (session_records sessions main) [] ! j)"
  by (simp add: to_session_summaries_def Let_def)

lemma length_summaries [simp]:
  "length (to_session_summaries nf sessions main) = length (unique_sessions (session_records sessions main) [])"
  by (simp add: to_session_summaries_def Let_def)

lemma summary_keys_distinct:
  assumes "plain_ids (session_records sessions main)"
  shows "distinct (map ss_key (to_session_summaries nf sessions main))"
proof -
  let ?es = "unique_sessions (session_records sessions main) []"
  have sub: "set (unique_sessions xs seen) \<subseteq> set xs" for xs seen
    by (induction xs seen rule: unique_sessions.induct) (auto simp: Let_def)
  have plain: "plain_ids ?es" using assms sub by (auto simp: plain_ids_def)
  have "session_key (?es ! i) i \<noteq> session_key (?es ! j) j" if "i \<noteq> j" "i < length ?es" "j < length ?es" for i j
    using session_keys_differ [OF unique_disjoint plain, of i j] session_keys_differ [OF unique_disjoint plain, of j i] that
    by (metis linorder_neqE_nat)
  then show ?thesis by (simp add: distinct_conv_nth summaries_nth summarize_session_def Let_def)
qed


section \<open>Times of sessions\<close>

lemma parse_float_year:
  assumes "0 \<le> y" and "y \<le> 9999"
  shows "parse_float (year_string y @ CHR ''-'' # r) = Some (of_int y)"
proof -
  let ?d = "pad_start 4 (nat_to_string (nat y))"
  have ys: "year_string y = ?d" using assms by (simp add: year_string_def)
  have dig: "digits_only ?d" by (rule digits_only_pad) simp
  then have all: "\<forall>c \<in> set ?d. is_digit c" by (simp add: digits_only_def list_all_iff)
  obtain c cs where c: "?d = c # cs" "is_digit c" using all by (cases ?d) (auto simp: pad_start_def)
  have nc: "\<not> is_ws c" "c \<noteq> CHR ''-''" "c \<noteq> CHR ''+''" using c(2) by (auto simp: is_digit_def is_ws_def)
  have nd: "\<not> is_digit (CHR ''-'')" by code_simp
  have tw: "takeWhile is_digit (?d @ CHR ''-'' # r) = ?d" "dropWhile is_digit (?d @ CHR ''-'' # r) = CHR ''-'' # r"
    using all nd by (simp_all add: takeWhile_append dropWhile_append)
  have start: "dropWhile is_ws (?d @ CHR ''-'' # r) = ?d @ CHR ''-'' # r"
    "\<not> starts_with (?d @ CHR ''-'' # r) ''-''" "\<not> starts_with (?d @ CHR ''-'' # r) ''+''" using nc by (simp_all add: c(1))
  have ne: "?d \<noteq> []" using c(1) by simp
  have n: "nat_of_digits ?d = nat y" by simp
  show ?thesis
    unfolding parse_float_def Let_def ys start(1) using start(2,3) ne assms
    by (simp add: tw n pexp_def nat_of_digits_def [of "[]"] of_nat_nat del: append_Cons)
qed

text \<open>A session time given as an ISO text is not read as that time: the year at its beginning is
  taken for a number of milliseconds, so the session seems to have been seen in 1970.\<close>

theorem iso_session_time_misread:
  assumes "year_of t = y" and "0 \<le> y" and "y \<le> 9999"
  shows "timestamp_of (JStr (to_iso t)) = Some (to_iso y)"
proof -
  obtain m d where c: "civil (t div ms_per_day) = (y, m, d)" using assms(1)
    by (cases "civil (t div ms_per_day)") (auto simp: year_of_def)
  then obtain r where iso: "to_iso t = year_string y @ CHR ''-'' # r" by (simp add: to_iso_def date_string_def)
  have "trim (to_iso t) = to_iso t"
    using hd_to_iso [of t] last_to_iso [of t] assms by (intro trim_id) (auto simp: is_digit_def is_ws_def)
  moreover have "to_iso t \<noteq> []" by (simp add: iso)
  moreover have "date_of_ms (normalize_epoch_ms (of_int y)) = Some (to_iso y)"
    using assms by (simp add: date_of_ms_def normalize_epoch_ms_def)
  moreover have "parse_float (to_iso t) = Some (of_int y)" unfolding iso by (rule parse_float_year [OF assms(2,3)])
  ultimately show ?thesis by (simp add: timestamp_of_def Let_def)
qed

section \<open>Gateways and links\<close>

lemma counts_partition:
  "gateway_connected_count sns + gateway_disconnected_count sns + gateway_unavailable_count sns = length sns"
  by (induction sns) (auto simp: gateway_connected_count_def gateway_disconnected_count_def gateway_unavailable_count_def)

lemma count_all: "length (filter P xs) = length xs \<longleftrightarrow> (\<forall>x \<in> set xs. P x)"
  by (metis filter_id_conv length_filter_less less_irrefl)

lemma four_way:
  "x = (if A then a else if B then b else if C then c else d) \<Longrightarrow> a \<noteq> b \<Longrightarrow> a \<noteq> c \<Longrightarrow> a \<noteq> d \<Longrightarrow> b \<noteq> c \<Longrightarrow> b \<noteq> d \<Longrightarrow> c \<noteq> d \<Longrightarrow>
     (x = a \<longleftrightarrow> A) \<and> (x = c \<longleftrightarrow> \<not> A \<and> \<not> B \<and> C) \<and> (x = d \<longleftrightarrow> \<not> A \<and> \<not> B \<and> \<not> C)"
  by auto

text \<open>Each gateway is connected, disconnected or unavailable; once every target has its snapshot, the
  status says all connected exactly if every gateway answered and is connected, unavailable exactly if
  no gateway answered, and disconnected exactly if some answered but none is connected.\<close>

theorem gateway_status_correct:
  assumes "map sn_target sns = targets" and "targets \<noteq> []" and "label = gateway_status_label targets False sns"
  shows "gateway_connected_count sns + gateway_disconnected_count sns + gateway_unavailable_count sns = length targets \<and>
     (label = ''All connected'' \<longleftrightarrow> (\<forall>s \<in> set sns. sn_connected s \<and> \<not> has_text (sn_request_error s))) \<and>
     (label = ''Unavailable'' \<longleftrightarrow> (\<forall>s \<in> set sns. has_text (sn_request_error s))) \<and>
     (label = ''Disconnected'' \<longleftrightarrow> (\<exists>s \<in> set sns. \<not> has_text (sn_request_error s)) \<and>
        (\<forall>s \<in> set sns. has_text (sn_request_error s) \<or> \<not> sn_connected s))"
proof -
  have len: "length targets = length sns" using assms(1) by (metis length_map)
  have ne: "sns \<noteq> []" using assms(1,2) by auto
  have a: "gateway_connected_count sns = length targets \<longleftrightarrow> (\<forall>s \<in> set sns. sn_connected s \<and> \<not> has_text (sn_request_error s))"
    unfolding gateway_connected_count_def len count_all by blast
  have u: "gateway_unavailable_count sns = length targets \<longleftrightarrow> (\<forall>s \<in> set sns. has_text (sn_request_error s))"
    unfolding gateway_unavailable_count_def len count_all ..
  have z: "gateway_connected_count sns = 0 \<longleftrightarrow> (\<forall>s \<in> set sns. has_text (sn_request_error s) \<or> \<not> sn_connected s)"
    by (auto simp: gateway_connected_count_def filter_empty_conv)
  have label: "label = (if gateway_connected_count sns = length targets then ''All connected''
      else if 0 < gateway_connected_count sns then ''Partially connected''
      else if gateway_unavailable_count sns = length targets then ''Unavailable'' else ''Disconnected'')"
    using assms(2,3) by (simp add: gateway_status_label_def)
  have pos: "0 < length targets" using assms(2) by simp
  have answered: "(\<exists>s \<in> set sns. \<not> has_text (sn_request_error s)) \<longleftrightarrow> gateway_unavailable_count sns \<noteq> length targets"
    unfolding u by blast
  have "(label = ''All connected'' \<longleftrightarrow> gateway_connected_count sns = length targets) \<and>
      (label = ''Unavailable'' \<longleftrightarrow> gateway_connected_count sns \<noteq> length targets \<and>
         \<not> 0 < gateway_connected_count sns \<and> gateway_unavailable_count sns = length targets) \<and>
      (label = ''Disconnected'' \<longleftrightarrow> gateway_connected_count sns \<noteq> length targets \<and>
         \<not> 0 < gateway_connected_count sns \<and> gateway_unavailable_count sns \<noteq> length targets)"
    by (rule four_way [OF label]) simp_all
  moreover have "gateway_unavailable_count sns = length targets \<Longrightarrow> gateway_connected_count sns = 0"
    using counts_partition [of sns] len by simp
  moreover have "gateway_connected_count sns \<noteq> length targets" if "gateway_connected_count sns = 0" using that pos by simp
  ultimately show ?thesis unfolding a [symmetric] u [symmetric] z [symmetric] answered
    using counts_partition [of sns] len by (metis not_gr_zero)
qed

text \<open>A gateway that answers that it is not connected, with its error, counts twice as one with issues.\<close>

definition offline_gateway :: gateway_snapshot where
  "offline_gateway = \<lparr>sn_target = \<lparr>gt_gateway = ''g'', gt_board = ''b'', gt_board_name = ''B''\<rparr>, sn_connected = False,
     sn_url = Some ''ws'', sn_count = 0, sn_sessions = [], sn_main = JNull, sn_main_error = None,
     sn_error = Some ''refused'', sn_request_error = None\<rparr>"

lemma offline_gateway_counted_twice:
  "gateway_health_error_count [offline_gateway] + gateway_disconnected_count [offline_gateway] = 2"
  by (simp add: gateway_health_error_count_def gateway_disconnected_count_def offline_gateway_def has_text_def)

lemma normalized_params_same:
  "\<forall>kv \<in> set ps. snd kv \<noteq> [] \<Longrightarrow> distinct (map fst (acc @ ps)) \<Longrightarrow>
     foldl (\<lambda>acc (key, v). case v of JStr s \<Rightarrow> if length s > 0 then AList.update key s acc else acc | _ \<Rightarrow> acc)
       acc (map (\<lambda>(k, v). (k, JStr v)) ps) = acc @ ps"
proof (induction ps arbitrary: acc)
  case (Cons p ps)
  obtain k v where p: "p = (k, v)" by (cases p)
  have "k \<notin> fst ` set acc" using Cons.prems(2) by (auto simp: p)
  then have "AList.update k v acc = acc @ [(k, v)]" by (rule alist_update_new)
  then show ?case using Cons.IH [of "acc @ [(k, v)]"] Cons.prems by (simp add: p del: length_greater_0_conv)
qed simp

text \<open>The dashboard and the activity page link an event to the same place, when its route parameters are
  non-empty texts.\<close>

theorem event_links_agree:
  assumes "\<forall>kv \<in> set (de_route_params ev). snd kv \<noteq> []" and "distinct (map fst (de_route_params ev))"
  shows "build_activity_event_href ev =
    build_route_href (de_route_name ev)
      (normalize_route_params (Some (map (\<lambda>(k, v). (k, JStr v)) (de_route_params ev))))
      \<lparr>rf_event_id = de_id ev, rf_event_type = de_type ev, rf_created_at = de_created_at ev, rf_task_id = de_task_id ev\<rparr>"
proof -
  have "normalize_route_params (Some (map (\<lambda>(k, v). (k, JStr v)) (de_route_params ev))) = de_route_params ev"
    using normalized_params_same [of "de_route_params ev" "[]"] assms by (simp add: normalize_route_params_def)
  then show ?thesis
    by (simp add: build_activity_event_href_def build_route_href_def board_path_def board_query_def activity_params_def Let_def)
qed

section \<open>The properties at concrete inputs\<close>


lemma iso_session_time_misread_witness: "timestamp_of (JStr (to_iso 5)) = Some (to_iso 1970)"
proof -
  have "civil 0 = (1970, 0, 1)" by code_simp
  then have "year_of 5 = 1970" by (simp add: year_of_def)
  then show ?thesis by (rule iso_session_time_misread) simp_all
qed

lemma gateway_status_correct_witness:
  "gateway_status_label [sn_target offline_gateway] False [offline_gateway] = ''Disconnected'' \<and>
   gateway_disconnected_count [offline_gateway] = 1"
proof -
  have "\<not> has_text (sn_request_error offline_gateway)" "\<not> sn_connected offline_gateway"
    by (simp_all add: offline_gateway_def has_text_def)
  then show ?thesis
    using gateway_status_correct [of "[offline_gateway]" "[sn_target offline_gateway]", OF _ _ refl]
    by (simp add: gateway_disconnected_count_def)
qed

lemma event_links_agree_witness:
  "build_activity_event_href \<lparr>de_id = ''e'', de_type = ''task.created'', de_created_at = ''c'', de_task_id = Some ''t'',
      de_route_name = Some ''board'', de_route_params = [(''boardId'', ''b 1''), (''taskId'', ''t'')]\<rparr> = ''/boards/b%201?taskId=t'' \<and>
   build_route_href (Some ''board'')
      (normalize_route_params (Some [(''boardId'', JStr ''b 1''), (''taskId'', JStr ''t'')]))
      \<lparr>rf_event_id = ''e'', rf_event_type = ''task.created'', rf_created_at = ''c'', rf_task_id = Some ''t''\<rparr> = ''/boards/b%201?taskId=t''"
proof -
  let ?e = "\<lparr>de_id = ''e'', de_type = ''task.created'', de_created_at = ''c'', de_task_id = Some ''t'',
      de_route_name = Some ''board'', de_route_params = [(''boardId'', ''b 1''), (''taskId'', ''t'')]\<rparr>"
  have "build_activity_event_href ?e = ''/boards/b%201?taskId=t''" by code_simp
  then show ?thesis using event_links_agree [of ?e] by simp
qed

end
