(* ===== verification/EcomFlows.thy ===== *)
theory EcomFlows
  imports Backoff Url
begin

text \<open>
  The flow editor of the customer-service agent (\<^verbatim>\<open>app/(ecom)/cs/flows/page.tsx\<close>): a flow is a list
  of steps, each of which names the step that follows it, or waits for the reply of the customer
  and branches on it. The editor keeps its own copy, changes it step by step and saves it as a
  whole. An optional field of a step that is absent is None.
\<close>

section \<open>Flows\<close>

record flow_branch =
  fb_label :: string
  fb_goto :: string

record flow_node =
  fn_id :: "string option"
  fn_type :: string
  fn_prompt :: "string option"
  fn_discount :: "jsnum option"
  fn_goto :: "string option"
  fn_branches :: "flow_branch list option"
  fn_message :: "string option"
  fn_percent :: "jsnum option"
  fn_slug :: "string option"
  fn_accept_message :: "string option"
  fn_reason :: "string option"

record cs_flow =
  fw_id :: string
  fw_name :: string
  fw_intent :: string
  fw_enabled :: bool
  fw_triggers :: "string list option"
  fw_escalate_keywords :: "string list option"
  fw_steps :: "flow_node list option"

datatype step_kind = Message | Request_refund_approval | Resolve | Escalate

definition kind_of :: "string \<Rightarrow> step_kind" where
  "kind_of type =
     (if type = ''request_refund_approval'' then Request_refund_approval
      else if type = ''resolve'' then Resolve
      else if type = ''escalate'' then Escalate
      else Message)"

fun step_meta_label :: "step_kind \<Rightarrow> string" where
  "step_meta_label Message = ''Message''"
| "step_meta_label Request_refund_approval = ''Refund''"
| "step_meta_label Resolve = ''Resolve''"
| "step_meta_label Escalate = ''Escalate''"

definition split_list :: "string \<Rightarrow> string list" where
  "split_list s = filter (\<lambda>t. t \<noteq> []) (map trim (split_on (CHR '','') s))"

definition clamp_num :: "jsnum \<Rightarrow> rat \<Rightarrow> rat \<Rightarrow> jsnum" where
  "clamp_num n lo hi = (if js_is_nan n then Fin lo else js_max (Fin lo) (js_min (Fin hi) n))"

definition slugify_id :: "string \<Rightarrow> string" where
  "slugify_id s = replace_chars (\<lambda>c. \<not> (is_alnum c \<or> c = CHR ''_'' \<or> c = CHR ''-'')) (CHR ''_'') s"

definition step_name :: "nat \<Rightarrow> string" where
  "step_name n = ''step_'' @ nat_to_string n"

text \<open>\<^verbatim>\<open>s.id || `step_${i + 1}`\<close>.\<close>

definition name_at :: "nat \<Rightarrow> flow_node \<Rightarrow> string" where
  "name_at i s = (case fn_id s of Some n \<Rightarrow> if n = [] then step_name (i + 1) else n | None \<Rightarrow> step_name (i + 1))"

section \<open>The editor\<close>

record flow_editor =
  ed_name :: string
  ed_enabled :: bool
  ed_triggers :: string
  ed_escalate :: string
  ed_steps :: "flow_node list"
  ed_dirty :: bool
  ed_pending :: bool
  ed_success :: bool

definition named_steps :: "flow_node list \<Rightarrow> flow_node list" where
  "named_steps steps = map (\<lambda>(i, s). s\<lparr>fn_id := Some (name_at i s)\<rparr>) (enumerate 0 steps)"

definition open_editor :: "cs_flow \<Rightarrow> flow_editor" where
  "open_editor flow =
     \<lparr>ed_name = fw_name flow, ed_enabled = fw_enabled flow,
      ed_triggers = join_with '', '' (coalesce_opt (fw_triggers flow) []),
      ed_escalate = join_with '', '' (coalesce_opt (fw_escalate_keywords flow) []),
      ed_steps = named_steps (coalesce_opt (fw_steps flow) []),
      ed_dirty = False, ed_pending = False, ed_success = False\<rparr>"

definition touch :: "flow_editor \<Rightarrow> flow_editor" where
  "touch e = e\<lparr>ed_dirty := True\<rparr>"

text \<open>The patches that the controls of a step make.\<close>

datatype step_patch =
    Patch_id string | Patch_prompt string | Patch_discount jsnum | Patch_goto string
  | Patch_branches "flow_branch list" | Patch_branching "flow_branch list"

fun apply_patch :: "step_patch \<Rightarrow> flow_node \<Rightarrow> flow_node" where
  "apply_patch (Patch_id v) s = s\<lparr>fn_id := Some v\<rparr>"
| "apply_patch (Patch_prompt v) s = s\<lparr>fn_prompt := Some v\<rparr>"
| "apply_patch (Patch_discount n) s = s\<lparr>fn_discount := Some n\<rparr>"
| "apply_patch (Patch_goto v) s = s\<lparr>fn_goto := Some v\<rparr>"
| "apply_patch (Patch_branches bs) s = s\<lparr>fn_branches := Some bs\<rparr>"
| "apply_patch (Patch_branching bs) s = s\<lparr>fn_branches := Some bs, fn_goto := None\<rparr>"

definition patch_step :: "nat \<Rightarrow> step_patch \<Rightarrow> flow_editor \<Rightarrow> flow_editor" where
  "patch_step i p e =
     touch (e\<lparr>ed_steps := map (\<lambda>(j, s). if j = i then apply_patch p s else s) (enumerate 0 (ed_steps e))\<rparr>)"

definition remove_step :: "nat \<Rightarrow> flow_editor \<Rightarrow> flow_editor" where
  "remove_step i e =
     touch (e\<lparr>ed_steps := map snd (filter (\<lambda>(j, s). j \<noteq> i) (enumerate 0 (ed_steps e)))\<rparr>)"

lemma step_name_inject [simp]: "step_name m = step_name n \<longleftrightarrow> m = n"
  by (auto simp: step_name_def dest: nat_to_string_inj)

lemma finite_used: "finite {m. n \<le> m \<and> step_name m \<in> set used}"
proof (rule finite_subset)
  show "{m. n \<le> m \<and> step_name m \<in> set used} \<subseteq> step_name -` set used" by auto
  show "finite (step_name -` set used)" by (rule finite_vimageI) (auto intro: injI)
qed

text \<open>The loop that looks for an unused name ends: only finitely many names are used.\<close>

function next_free :: "string list \<Rightarrow> nat \<Rightarrow> nat" where
  "next_free used n = (if step_name n \<in> set used then next_free used (Suc n) else n)"
  by auto

termination
proof (relation "measure (\<lambda>(used, n). card {m. n \<le> m \<and> step_name m \<in> set used})")
  fix used n assume u: "step_name n \<in> set used"
  let ?A = "{m. n \<le> m \<and> step_name m \<in> set used}" and ?B = "{m. Suc n \<le> m \<and> step_name m \<in> set used}"
  have "?B \<subseteq> ?A" by auto
  moreover have "n \<in> ?A" using u by simp
  moreover have "n \<notin> ?B" by simp
  ultimately have "?B \<subset> ?A" by blast
  then show "((used, Suc n), used, n) \<in> measure (\<lambda>(used, n). card {m. n \<le> m \<and> step_name m \<in> set used})"
    by (simp add: psubset_card_mono [OF finite_used])
qed simp

definition add_step :: "flow_editor \<Rightarrow> flow_editor" where
  "add_step e =
     (let prev = ed_steps e;
          n = next_free (map the (filter (\<lambda>i. i \<noteq> None) (map fn_id prev))) (length prev + 1)
      in touch (e\<lparr>ed_steps := prev @
           [\<lparr>fn_id = Some (step_name n), fn_type = ''message'', fn_prompt = Some [], fn_discount = None,
             fn_goto = Some ''next'', fn_branches = None, fn_message = None, fn_percent = None,
             fn_slug = None, fn_accept_message = None, fn_reason = None\<rparr>]\<rparr>))"

definition flow_targets :: "flow_node list \<Rightarrow> string list" where
  "flow_targets steps = map (\<lambda>(i, s). name_at i s) (enumerate 0 steps)"

record flow_payload =
  fp_name :: string
  fp_enabled :: bool
  fp_triggers :: "string list"
  fp_escalate_keywords :: "string list"
  fp_steps :: "flow_node list"

text \<open>The Save button is disabled while a save is pending.\<close>

definition payload_of_editor :: "flow_editor \<Rightarrow> flow_payload" where
  "payload_of_editor e =
     \<lparr>fp_name = ed_name e, fp_enabled = ed_enabled e, fp_triggers = split_list (ed_triggers e),
      fp_escalate_keywords = split_list (ed_escalate e), fp_steps = ed_steps e\<rparr>"

definition begin_save_flow :: "flow_editor \<Rightarrow> flow_editor \<times> flow_payload option" where
  "begin_save_flow e =
     (if ed_pending e then (e, None)
      else (e\<lparr>ed_pending := True, ed_success := False\<rparr>, Some (payload_of_editor e)))"

definition finish_save_flow :: "bool \<Rightarrow> flow_editor \<Rightarrow> flow_editor" where
  "finish_save_flow ok e =
     (if ok then e\<lparr>ed_pending := False, ed_success := True, ed_dirty := False\<rparr>
      else e\<lparr>ed_pending := False\<rparr>)"

definition save_note :: "flow_editor \<Rightarrow> string" where
  "save_note e =
     (if ed_dirty e then ''Unsaved changes'' else if ed_success e then ''All changes saved'' else ''Up to date'')"

section \<open>A step\<close>

definition is_message :: "flow_node \<Rightarrow> bool" where
  "is_message s = (kind_of (fn_type s) = Message)"

definition prompt_value :: "flow_node \<Rightarrow> string" where
  "prompt_value s = coalesce_opt (fn_prompt s) (if is_message s then coalesce_opt (fn_message s) [] else [])"

definition branches_of :: "flow_node \<Rightarrow> flow_branch list" where
  "branches_of s = coalesce_opt (fn_branches s) []"

text \<open>\<^verbatim>\<open>t.id !== step.id\<close>: the other steps.\<close>

definition sibling_targets :: "string list \<Rightarrow> flow_node \<Rightarrow> string list" where
  "sibling_targets targets s = filter (\<lambda>t. fn_id s \<noteq> Some t) targets"

definition add_branch :: "string list \<Rightarrow> flow_node \<Rightarrow> step_patch" where
  "add_branch targets s =
     (let fallthrough = (case List.find (\<lambda>t. fn_id s \<noteq> Some t) targets of Some t \<Rightarrow> t | None \<Rightarrow> ''resolve'')
      in Patch_branching
           (if branches_of s = []
            then [\<lparr>fb_label = ''is satisfied / accepts'', fb_goto = ''resolve''\<rparr>,
                  \<lparr>fb_label = ''is not satisfied / declines'', fb_goto = fallthrough\<rparr>]
            else branches_of s @ [\<lparr>fb_label = [], fb_goto = fallthrough\<rparr>]))"

definition set_branch :: "nat \<Rightarrow> (flow_branch \<Rightarrow> flow_branch) \<Rightarrow> flow_node \<Rightarrow> step_patch" where
  "set_branch bi patch s =
     Patch_branches (map (\<lambda>(j, b). if j = bi then patch b else b) (enumerate 0 (branches_of s)))"

definition remove_branch :: "nat \<Rightarrow> flow_node \<Rightarrow> step_patch" where
  "remove_branch bi s = Patch_branches (map snd (filter (\<lambda>(j, b). j \<noteq> bi) (enumerate 0 (branches_of s))))"

definition goto_options :: "bool \<Rightarrow> string list \<Rightarrow> string list" where
  "goto_options allow_next targets =
     (if allow_next then [''next''] else []) @ targets @ [''resolve'', ''escalate'']"

text \<open>A select whose value is none of its options shows the first of them.\<close>

definition shown_option :: "string \<Rightarrow> string list \<Rightarrow> string" where
  "shown_option v options = (if v \<in> set options then v else hd options)"

definition branch_label_for :: "string list \<Rightarrow> string \<Rightarrow> string" where
  "branch_label_for targets goto =
     (if goto = ''resolve'' then ''Resolve'' else if goto = ''escalate'' then ''Escalate''
      else case List.find (\<lambda>x. x = goto) targets of Some t \<Rightarrow> t | None \<Rightarrow> goto)"

text \<open>The note beside the coupon, and the key of a card in the list.\<close>

definition no_coupon :: "flow_node \<Rightarrow> bool" where
  "no_coupon s = (case fn_discount s of None \<Rightarrow> True | Some n \<Rightarrow> n = Fin 0 \<or> n = NaN)"

definition node_key :: "nat \<Rightarrow> flow_node \<Rightarrow> string + nat" where
  "node_key i s = (case fn_id s of Some n \<Rightarrow> if n = [] then Inr i else Inl n | None \<Rightarrow> Inr i)"

text \<open>What the user can do with a step; the number typed as a coupon is already converted.\<close>

datatype step_edit =
    Type_id string | Type_prompt string | Type_coupon jsnum | Choose_goto string
  | Add_branch | Type_label nat string | Choose_branch_goto nat string | Remove_branch nat

fun edit_patch :: "string list \<Rightarrow> flow_node \<Rightarrow> step_edit \<Rightarrow> step_patch" where
  "edit_patch targets s (Type_id v) = Patch_id (slugify_id v)"
| "edit_patch targets s (Type_prompt v) = Patch_prompt v"
| "edit_patch targets s (Type_coupon n) = Patch_discount (clamp_num n 0 100)"
| "edit_patch targets s (Choose_goto v) = Patch_goto v"
| "edit_patch targets s Add_branch = add_branch targets s"
| "edit_patch targets s (Type_label bi v) = set_branch bi (\<lambda>b. b\<lparr>fb_label := v\<rparr>) s"
| "edit_patch targets s (Choose_branch_goto bi v) = set_branch bi (\<lambda>b. b\<lparr>fb_goto := v\<rparr>) s"
| "edit_patch targets s (Remove_branch bi) = remove_branch bi s"

text \<open>Which controls the card of a step shows, and which values its selects offer.\<close>

fun edit_offered :: "string list \<Rightarrow> flow_node \<Rightarrow> step_edit \<Rightarrow> bool" where
  "edit_offered targets s (Type_id v) = True"
| "edit_offered targets s (Choose_goto v) =
     (is_message s \<and> branches_of s = [] \<and> v \<in> set (goto_options True (sibling_targets targets s)))"
| "edit_offered targets s (Choose_branch_goto bi v) =
     (is_message s \<and> bi < length (branches_of s) \<and> v \<in> set (goto_options False (sibling_targets targets s)))"
| "edit_offered targets s (Type_label bi v) = (is_message s \<and> bi < length (branches_of s))"
| "edit_offered targets s (Remove_branch bi) = (is_message s \<and> bi < length (branches_of s))"
| "edit_offered targets s ev = is_message s"

section \<open>All controls\<close>

datatype flow_event =
    Type_name string | Toggle_enabled | Type_triggers string | Type_escalate string
  | Edit_step nat step_edit | Delete_step nat | Add_step | Save_flow | Flow_saved bool

fun flow_edit :: "flow_event \<Rightarrow> flow_editor \<Rightarrow> flow_editor" where
  "flow_edit (Type_name v) e = touch (e\<lparr>ed_name := v\<rparr>)"
| "flow_edit Toggle_enabled e = touch (e\<lparr>ed_enabled := \<not> ed_enabled e\<rparr>)"
| "flow_edit (Type_triggers v) e = touch (e\<lparr>ed_triggers := v\<rparr>)"
| "flow_edit (Type_escalate v) e = touch (e\<lparr>ed_escalate := v\<rparr>)"
| "flow_edit (Edit_step i ev) e =
     (if i < length (ed_steps e) \<and> edit_offered (flow_targets (ed_steps e)) (ed_steps e ! i) ev
      then patch_step i (edit_patch (flow_targets (ed_steps e)) (ed_steps e ! i) ev) e else e)"
| "flow_edit (Delete_step i) e = (if i < length (ed_steps e) then remove_step i e else e)"
| "flow_edit Add_step e = add_step e"
| "flow_edit Save_flow e = fst (begin_save_flow e)"
| "flow_edit (Flow_saved ok) e = (if ed_pending e then finish_save_flow ok e else e)"

text \<open>The page: the chosen flow, else the first one; the editor of another flow starts afresh.\<close>

definition selected_flow :: "cs_flow list option \<Rightarrow> string option \<Rightarrow> cs_flow option" where
  "selected_flow flows chosen =
     (case List.find (\<lambda>f. Some (fw_id f) = chosen) (coalesce_opt flows []) of
        Some f \<Rightarrow> Some f
      | None \<Rightarrow> (case coalesce_opt flows [] of [] \<Rightarrow> None | f # _ \<Rightarrow> Some f))"

section \<open>Names and links\<close>

lemma map_at:
  "i < length xs \<Longrightarrow> map (\<lambda>(j, x). if j = i then f x else x) (enumerate 0 xs) = xs[i := f (xs ! i)]"
  by (rule nth_equalityI) (auto simp: nth_enumerate_eq nth_list_update)

lemma filter_past: "k < n \<Longrightarrow> map snd (filter (\<lambda>(j, x). j \<noteq> k) (enumerate n xs)) = xs"
  by (induction xs arbitrary: n) auto

lemma filter_at:
  "map snd (filter (\<lambda>(j, x). j \<noteq> n + i) (enumerate n xs)) = take i xs @ drop (Suc i) xs"
proof (induction xs arbitrary: n i)
  case (Cons x xs)
  then show ?case
    using Cons.IH [of "Suc n" "i - 1"] filter_past [of n "Suc n" xs] by (cases i) auto
qed simp

lemma ed_steps_patch [simp]:
  "i < length (ed_steps e) \<Longrightarrow>
     ed_steps (patch_step i p e) = (ed_steps e)[i := apply_patch p (ed_steps e ! i)]"
  by (simp add: patch_step_def touch_def map_at)

lemma ed_steps_remove [simp]:
  "ed_steps (remove_step i e) = take i (ed_steps e) @ drop (Suc i) (ed_steps e)"
  using filter_at [of 0 i] by (simp add: remove_step_def touch_def)

declare next_free.simps [simp del]

lemma next_free_spec:
  "step_name (next_free used n) \<notin> set used \<and> n \<le> next_free used n \<and>
     (\<forall>m. n \<le> m \<and> m < next_free used n \<longrightarrow> step_name m \<in> set used)"
proof (induction used n rule: next_free.induct)
  case (1 used n)
  then show ?case
    by (subst (1 2 3) next_free.simps) (auto, metis Suc_leI le_neq_implies_less)
qed

text \<open>The places that a message step leads to.\<close>

definition step_links :: "flow_node \<Rightarrow> string set" where
  "step_links s = (if is_message s then set_option (fn_goto s) \<union> fb_goto ` set (branches_of s) else {})"

abbreviation special_target :: "string \<Rightarrow> bool" where
  "special_target g \<equiv> g \<in> {''next'', ''resolve'', ''escalate''}"

abbreviation node_ids :: "flow_node list \<Rightarrow> string option set" where
  "node_ids steps \<equiv> fn_id ` set steps"

definition named_well :: "flow_node \<Rightarrow> bool" where
  "named_well s \<longleftrightarrow> (\<exists>n. fn_id s = Some n \<and> n \<noteq> [] \<and> \<not> special_target n)"

definition well_linked :: "flow_node list \<Rightarrow> bool" where
  "well_linked steps \<longleftrightarrow> distinct (map fn_id steps) \<and> (\<forall>s \<in> set steps. named_well s) \<and>
     (\<forall>s \<in> set steps. \<forall>g \<in> step_links s. special_target g \<or> Some g \<in> node_ids steps)"

lemma ids_update_same:
  "i < length steps \<Longrightarrow> fn_id s' = fn_id (steps ! i) \<Longrightarrow> map fn_id (steps[i := s']) = map fn_id steps"
  by (simp add: map_update list_update_same_conv)

lemma well_linked_update:
  assumes "well_linked steps" and "i < length steps" and "fn_id s' = fn_id (steps ! i)"
    and "\<forall>g \<in> step_links s'. special_target g \<or> Some g \<in> node_ids steps"
  shows "well_linked (steps[i := s'])"
proof -
  have ids: "map fn_id (steps[i := s']) = map fn_id steps" using assms(2,3) by (rule ids_update_same)
  then have "node_ids (steps[i := s']) = node_ids steps" by (metis list.set_map)
  moreover have "named_well s'"
    using assms(1-3) by (simp add: well_linked_def named_well_def)
  moreover have "x = s' \<or> x \<in> set steps" if "x \<in> set (steps[i := s'])" for x
    using that set_update_subset_insert [of steps i s'] by auto
  ultimately show ?thesis
    using assms(1,4) ids unfolding well_linked_def by metis
qed

lemma named_steps_same:
  "\<forall>s \<in> set steps. \<exists>n. fn_id s = Some n \<and> n \<noteq> [] \<Longrightarrow> named_steps steps = steps"
  unfolding named_steps_def by (rule nth_equalityI) (auto simp: nth_enumerate_eq name_at_def dest!: nth_mem)

lemma targets_of_named:
  "\<forall>s \<in> set steps. named_well s \<Longrightarrow> map Some (flow_targets steps) = map fn_id steps"
  unfolding flow_targets_def
  by (rule nth_equalityI) (auto simp: nth_enumerate_eq name_at_def named_well_def dest!: nth_mem)

lemma target_is_id:
  "\<forall>s \<in> set steps. named_well s \<Longrightarrow> t \<in> set (flow_targets steps) \<Longrightarrow> Some t \<in> node_ids steps"
  using arg_cong [OF targets_of_named, of steps set] by (auto simp: image_iff)

lemma step_links_rename [simp]: "step_links (s\<lparr>fn_id := n\<rparr>) = step_links s"
  by (simp add: step_links_def is_message_def branches_of_def)

lemma named_well_only_id: "named_well (s\<lparr>fn_id := n\<rparr>) \<longleftrightarrow> (\<exists>m. n = Some m \<and> m \<noteq> [] \<and> \<not> special_target m)"
  by (simp add: named_well_def)

lemma distinct_update_iff:
  assumes "distinct xs" and "i < length xs" and "a \<noteq> xs ! i"
  shows "distinct (xs[i := a]) \<longleftrightarrow> a \<notin> set xs"
proof
  assume d: "distinct (xs[i := a])"
  show "a \<notin> set xs"
  proof
    assume "a \<in> set xs"
    then obtain k where k: "k < length xs" "xs ! k = a" by (auto simp: in_set_conv_nth)
    with assms(3) have "k \<noteq> i" by auto
    with k assms(2) d nth_eq_iff_index_eq [of "xs[i := a]" k i] show False by simp
  qed
qed (use assms in \<open>simp add: distinct_list_update\<close>)

lemma set_removed:
  assumes "distinct xs" and "i < length xs"
  shows "set (take i xs @ drop (Suc i) xs) = set xs - {xs ! i}"
proof -
  have x: "xs = take i xs @ xs ! i # drop (Suc i) xs" using assms(2) by (rule id_take_nth_drop)
  then have "set xs = set (take i xs) \<union> set (drop (Suc i) xs) \<union> {xs ! i}"
    by (metis Un_insert_right list.simps(15) set_append sup_bot_right)
  moreover have "xs ! i \<notin> set (take i xs) \<union> set (drop (Suc i) xs)"
    using assms(1) x by (metis Un_iff distinct.simps(2) distinct_append disjoint_insert(2) list.simps(15) not_distinct_conv_prefix set_append)
  ultimately show ?thesis by auto
qed

lemma rename_keeps_links:
  assumes w: "well_linked steps" and i: "i < length steps" and v: "fn_id (steps ! i) \<noteq> Some v"
  shows "well_linked (steps[i := (steps ! i)\<lparr>fn_id := Some v\<rparr>]) \<longleftrightarrow>
     v \<noteq> [] \<and> \<not> special_target v \<and> Some v \<notin> node_ids steps \<and>
     (\<forall>s \<in> set steps. \<forall>g \<in> step_links s. fn_id (steps ! i) \<noteq> Some g)"
proof -
  let ?x = "steps ! i" and ?y = "(steps ! i)\<lparr>fn_id := Some v\<rparr>"
  let ?new = "steps[i := ?y]"
  have d: "distinct (map fn_id steps)" and n: "\<forall>s \<in> set steps. named_well s"
    and l: "\<forall>s \<in> set steps. \<forall>g \<in> step_links s. special_target g \<or> Some g \<in> node_ids steps"
    using w by (simp_all add: well_linked_def)
  have ds: "distinct steps" using d by (simp add: distinct_map)
  have dn: "distinct (map fn_id ?new) \<longleftrightarrow> Some v \<notin> node_ids steps"
    using distinct_update_iff [OF d, of i "Some v"] i v by (simp add: map_update)
  have set_new: "set ?new = insert ?y (set steps - {?x})"
    using set_update_distinct [OF ds i] .
  have inj: "inj_on fn_id (set steps)" using d by (simp add: distinct_map)
  have x: "?x \<in> set steps" using i by simp
  have ids_new: "node_ids ?new = insert (Some v) (node_ids steps - {fn_id ?x})"
    using inj_on_image_set_diff [OF inj, of "set steps" "{?x}"] x by (simp add: set_new)
  have links_new: "(\<exists>s \<in> set ?new. g \<in> step_links s) \<longleftrightarrow> (\<exists>s \<in> set steps. g \<in> step_links s)" for g
    using x by (auto simp: set_new)
  have nx: "\<not> special_target g" if "fn_id ?x = Some g" for g
    using n x that by (auto simp: named_well_def)
  have names: "(\<forall>s \<in> set ?new. named_well s) \<longleftrightarrow> v \<noteq> [] \<and> \<not> special_target v"
    using n by (auto simp: set_new named_well_only_id)
  have all_links: "(\<forall>s \<in> set ?new. \<forall>g \<in> step_links s. P g) \<longleftrightarrow> (\<forall>s \<in> set steps. \<forall>g \<in> step_links s. P g)" for P
    using links_new by blast
  have "(special_target g \<or> Some g \<in> insert (Some v) (node_ids steps - {fn_id ?x})) = (fn_id ?x \<noteq> Some g)"
    if "s \<in> set steps" and "g \<in> step_links s" for s g
  proof -
    have "special_target g \<or> Some g \<in> node_ids steps" using l that by blast
    then show ?thesis using nx [of g] v by (cases "fn_id ?x = Some g") auto
  qed
  then have leads: "(\<forall>s \<in> set steps. \<forall>g \<in> step_links s. special_target g \<or> Some g \<in> insert (Some v) (node_ids steps - {fn_id ?x})) =
      (\<forall>s \<in> set steps. \<forall>g \<in> step_links s. fn_id ?x \<noteq> Some g)"
    by (intro ball_cong refl)
  show ?thesis
    unfolding well_linked_def ids_new dn names all_links leads
    by (rule iffI; elim conjE; intro conjI; assumption)
qed

lemma delete_keeps_links:
  assumes w: "well_linked steps" and i: "i < length steps"
  shows "well_linked (take i steps @ drop (Suc i) steps) \<longleftrightarrow>
     (\<forall>s \<in> set steps - {steps ! i}. \<forall>g \<in> step_links s. fn_id (steps ! i) \<noteq> Some g)"
proof -
  let ?x = "steps ! i" and ?new = "take i steps @ drop (Suc i) steps"
  have d: "distinct (map fn_id steps)" and n: "\<forall>s \<in> set steps. named_well s"
    and l: "\<forall>s \<in> set steps. \<forall>g \<in> step_links s. special_target g \<or> Some g \<in> node_ids steps"
    using w by (simp_all add: well_linked_def)
  have ds: "distinct steps" using d by (simp add: distinct_map)
  have set_new: "set ?new = set steps - {?x}" using set_removed [OF ds i] .
  have inj: "inj_on fn_id (set steps)" using d by (simp add: distinct_map)
  have x: "?x \<in> set steps" using i by simp
  have ids: "fn_id ` (set steps - {?x}) = node_ids steps - {fn_id ?x}"
    using inj_on_image_set_diff [OF inj, of "set steps" "{?x}"] x by simp
  have "distinct ?new" using ds by (metis distinct_append distinct_take distinct_drop id_take_nth_drop [OF i] disjoint_insert(1) distinct.simps(2) list.simps(15))
  then have dn: "distinct (map fn_id ?new)"
    using inj set_new unfolding distinct_map by (metis Diff_subset inj_on_subset)
  have nx: "\<not> special_target g" if "fn_id ?x = Some g" for g
    using n x that by (auto simp: named_well_def)
  have "(special_target g \<or> Some g \<in> node_ids steps - {fn_id ?x}) = (fn_id ?x \<noteq> Some g)"
    if "s \<in> set steps - {?x}" and "g \<in> step_links s" for s g
  proof -
    have "special_target g \<or> Some g \<in> node_ids steps" using l that by blast
    then show ?thesis using nx [of g] by (cases "fn_id ?x = Some g") auto
  qed
  then have leads: "(\<forall>s \<in> set steps - {?x}. \<forall>g \<in> step_links s. special_target g \<or> Some g \<in> node_ids steps - {fn_id ?x}) =
      (\<forall>s \<in> set steps - {?x}. \<forall>g \<in> step_links s. fn_id ?x \<noteq> Some g)"
    by (intro ball_cong refl)
  have names: "\<forall>s \<in> set steps - {?x}. named_well s" using n by blast
  show ?thesis
    unfolding well_linked_def set_new ids leads using dn names by blast
qed

section \<open>Edits\<close>

lemma branches_of_patch [simp]:
  "branches_of (s\<lparr>fn_branches := Some bs\<rparr>) = bs" "branches_of (s\<lparr>fn_goto := g\<rparr>) = branches_of s"
  "branches_of (s\<lparr>fn_prompt := q\<rparr>) = branches_of s" "branches_of (s\<lparr>fn_discount := n\<rparr>) = branches_of s"
  by (simp_all add: branches_of_def coalesce_opt_def)

lemma is_message_patch [simp]: "is_message (apply_patch p s) = is_message s"
  by (cases p) (simp_all add: is_message_def)

lemma find_in: "List.find P xs = Some t \<Longrightarrow> t \<in> set xs"
  by (metis find_Some_iff nth_mem)

lemma step_edit_links:
  assumes "edit_offered ts s ev" and "\<forall>v. ev \<noteq> Type_id v"
    and "g \<in> step_links (apply_patch (edit_patch ts s ev) s)"
  shows "g \<in> step_links s \<or> special_target g \<or> g \<in> set ts"
proof (cases ev)
  case Add_branch
  then show ?thesis using assms
    by (auto simp: step_links_def add_branch_def Let_def split: if_splits option.splits dest: find_in)
next
  case (Choose_goto v)
  then show ?thesis using assms
    by (auto simp: step_links_def goto_options_def sibling_targets_def split: if_splits)
next
  case (Choose_branch_goto bi v)
  then show ?thesis using assms
    by (auto simp: step_links_def set_branch_def goto_options_def sibling_targets_def in_set_enumerate_eq
        split: if_splits)
qed (use assms in \<open>auto simp: step_links_def set_branch_def remove_branch_def in_set_enumerate_eq split: if_splits\<close>)

lemma step_edit_id:
  "\<forall>v. ev \<noteq> Type_id v \<Longrightarrow> fn_id (apply_patch (edit_patch ts s ev) s) = fn_id s"
  by (cases ev) (simp_all add: add_branch_def set_branch_def remove_branch_def Let_def)

lemma added_step:
  "\<exists>x. ed_steps (add_step e) = ed_steps e @ [x] \<and> named_well x \<and> fn_id x \<notin> node_ids (ed_steps e) \<and>
     step_links x = {''next''}"
proof -
  let ?used = "map the (filter (\<lambda>i. i \<noteq> None) (map fn_id (ed_steps e)))"
  let ?n = "next_free ?used (length (ed_steps e) + 1)"
  have "step_name ?n \<notin> set ?used" using next_free_spec by blast
  moreover have "m \<in> set ?used" if m: "Some m \<in> node_ids (ed_steps e)" for m
  proof -
    obtain x where "x \<in> set (ed_steps e)" "fn_id x = Some m" using m by (metis imageE)
    then show ?thesis by (auto simp: image_iff intro!: bexI [of _ x])
  qed
  ultimately have "Some (step_name ?n) \<notin> node_ids (ed_steps e)" by blast
  moreover have "step_name ?n \<noteq> [] \<and> \<not> special_target (step_name ?n)" by (simp add: step_name_def)
  ultimately show ?thesis
    by (simp add: add_step_def Let_def touch_def named_well_def step_links_def is_message_def kind_of_def
        branches_of_def coalesce_opt_def)
qed

text \<open>Which events keep the links of a flow: all but a new name that is not a new proper name or
  leaves a link to the old one, and the removal of a step that another one leads to.\<close>

fun keeps_links :: "flow_node list \<Rightarrow> flow_event \<Rightarrow> bool" where
  "keeps_links steps (Edit_step i (Type_id v)) =
     (i < length steps \<longrightarrow> fn_id (steps ! i) = Some (slugify_id v) \<or>
        slugify_id v \<noteq> [] \<and> \<not> special_target (slugify_id v) \<and> Some (slugify_id v) \<notin> node_ids steps \<and>
        (\<forall>s \<in> set steps. \<forall>g \<in> step_links s. fn_id (steps ! i) \<noteq> Some g))"
| "keeps_links steps (Delete_step i) =
     (i < length steps \<longrightarrow>
        (\<forall>s \<in> set steps - {steps ! i}. \<forall>g \<in> step_links s. fn_id (steps ! i) \<noteq> Some g))"
| "keeps_links steps _ = True"

lemma edit_links:
  assumes w: "well_linked (ed_steps e)"
  shows "well_linked (ed_steps (flow_edit (Edit_step i ev) e)) \<longleftrightarrow> keeps_links (ed_steps e) (Edit_step i ev)"
proof (cases "i < length (ed_steps e) \<and> edit_offered (flow_targets (ed_steps e)) (ed_steps e ! i) ev")
  case False
  then show ?thesis using w by (cases ev) auto
next
  case True
  let ?steps = "ed_steps e" and ?s = "ed_steps e ! i"
  let ?p = "edit_patch (flow_targets ?steps) ?s ev"
  have e: "ed_steps (flow_edit (Edit_step i ev) e) = ?steps[i := apply_patch ?p ?s]" using True by simp
  show ?thesis
  proof (cases "\<exists>v. ev = Type_id v")
    case True': True
    then obtain v where v: "ev = Type_id v" by blast
    show ?thesis
    proof (cases "fn_id ?s = Some (slugify_id v)")
      case True'': True
      then have "?s\<lparr>fn_id := Some (slugify_id v)\<rparr> = ?s" by (cases ?s) simp
      then have "ed_steps (flow_edit (Edit_step i ev) e) = ?steps" unfolding e using v by simp
      moreover have "keeps_links ?steps (Edit_step i ev)" using True'' v by simp
      ultimately show ?thesis using w by simp
    next
      case False
      then show ?thesis using rename_keeps_links [OF w, of i "slugify_id v"] True v e by simp
    qed
  next
    case False
    then have nv: "\<forall>v. ev \<noteq> Type_id v" by blast
    have n: "\<forall>s \<in> set ?steps. named_well s" using w by (simp add: well_linked_def)
    have "special_target g \<or> Some g \<in> node_ids ?steps" if g: "g \<in> step_links (apply_patch ?p ?s)" for g
      using step_edit_links [OF conjunct2 [OF True] nv g] target_is_id [OF n, of g] w True
      unfolding well_linked_def by (metis nth_mem)
    then have "well_linked (?steps[i := apply_patch ?p ?s])"
      using well_linked_update [OF w] True step_edit_id [OF nv] by blast
    moreover have "keeps_links ?steps (Edit_step i ev)" using nv by (cases ev) simp_all
    ultimately show ?thesis using e by simp
  qed
qed

lemma touch_steps [simp]: "ed_steps (touch e) = ed_steps e"
  by (simp add: touch_def)

text \<open>C9: Which edits keep a flow whole, that is with proper, distinct names, and with every step
  leading to a step or to a special target: exactly those that do not rename or remove a step that
  others lead to, and do not give a name twice. Choosing from the selects, adding steps and adding
  or removing branches is always safe.\<close>

lemma edits_that_keep_links:
  assumes "well_linked (ed_steps e)"
  shows "well_linked (ed_steps (flow_edit ev e)) \<longleftrightarrow> keeps_links (ed_steps e) ev"
proof (cases ev)
  case (Edit_step i x)
  then show ?thesis using edit_links [OF assms] by simp
next
  case (Delete_step i)
  then show ?thesis using delete_keeps_links [OF assms, of i] assms by simp
next
  case Add_step
  obtain x where x: "ed_steps (add_step e) = ed_steps e @ [x]" "named_well x" "fn_id x \<notin> node_ids (ed_steps e)"
      "step_links x = {''next''}"
    using added_step by blast
  have "distinct (map fn_id (ed_steps e @ [x]))" using assms x(3) by (simp add: well_linked_def)
  moreover have "\<forall>s \<in> set (ed_steps e @ [x]). named_well s" using assms x(2) by (simp add: well_linked_def)
  moreover have "special_target g \<or> Some g \<in> node_ids (ed_steps e @ [x])"
    if s: "s \<in> set (ed_steps e @ [x])" and g: "g \<in> step_links s" for s g
  proof (cases "s = x")
    case True
    then show ?thesis using g x(4) by simp
  next
    case False
    then have "s \<in> set (ed_steps e)" using s by simp
    then have "special_target g \<or> Some g \<in> node_ids (ed_steps e)" using assms g unfolding well_linked_def by blast
    then show ?thesis by auto
  qed
  ultimately have "well_linked (ed_steps e @ [x])" unfolding well_linked_def by blast
  then show ?thesis using Add_step x(1) by simp
qed (use assms in \<open>simp_all add: begin_save_flow_def finish_save_flow_def\<close>)

text \<open>A new step gets the first unused name from the length of the list on; the search ends.\<close>

lemma unused_name_is_near:
  "next_free used n \<le> n + length used"
proof -
  let ?m = "next_free used n"
  have "step_name ` {n ..< ?m} \<subseteq> set used" using next_free_spec [of used n] by auto
  then have "card (step_name ` {n ..< ?m}) \<le> card (set used)" by (intro card_mono) auto
  moreover have "card (step_name ` {n ..< ?m}) = ?m - n" by (subst card_image) (auto intro: inj_onI)
  ultimately show ?thesis using card_length [of used] by linarith
qed

text \<open>The life of an editor together with what the server stores: a save is a request and later an
  answer. Here nothing is edited while a save is pending.\<close>

fun is_edit :: "flow_event \<Rightarrow> bool" where
  "is_edit Save_flow = False"
| "is_edit (Flow_saved ok) = False"
| "is_edit _ = True"

inductive flow_session :: "cs_flow \<Rightarrow> flow_editor \<Rightarrow> flow_payload \<Rightarrow> flow_payload option \<Rightarrow> bool" for f where
  opened: "flow_session f (open_editor f) (payload_of_editor (open_editor f)) None"
| edited: "flow_session f e stored None \<Longrightarrow> is_edit ev \<Longrightarrow> flow_session f (flow_edit ev e) stored None"
| saving: "flow_session f e stored None \<Longrightarrow> begin_save_flow e = (e', Some p) \<Longrightarrow> flow_session f e' stored (Some p)"
| saved: "flow_session f e stored (Some p) \<Longrightarrow> flow_session f (flow_edit (Flow_saved True) e) p None"
| refused: "flow_session f e stored (Some p) \<Longrightarrow> flow_session f (flow_edit (Flow_saved False) e) stored None"

lemma edit_touches: "is_edit ev \<Longrightarrow> flow_edit ev e = e \<or> ed_dirty (flow_edit ev e)"
  by (cases ev) (simp_all add: touch_def patch_step_def remove_step_def add_step_def Let_def)

lemma edit_pending: "is_edit ev \<Longrightarrow> ed_pending (flow_edit ev e) = ed_pending e"
  by (cases ev) (simp_all add: touch_def patch_step_def remove_step_def add_step_def Let_def)

lemma session_facts:
  "flow_session f e stored pend \<Longrightarrow>
     (ed_pending e \<longleftrightarrow> pend \<noteq> None) \<and> (\<not> ed_dirty e \<longrightarrow> payload_of_editor e = stored) \<and>
     (\<forall>p. pend = Some p \<longrightarrow> payload_of_editor e = p)"
proof (induction rule: flow_session.induct)
  case opened
  then show ?case by (simp add: open_editor_def)
next
  case (edited e stored ev)
  then show ?case using edit_touches [of ev e] edit_pending [of ev e] by auto
qed (auto simp: begin_save_flow_def finish_save_flow_def payload_of_editor_def split: if_splits)


text \<open>The fields stay open while a save is pending, and its success clears the mark of every edit
  made meanwhile: the note says that all is saved, though the request carried the older text.\<close>

lemma late_edit_called_saved:
  assumes "flow_session f e stored (Some p)" and "v \<noteq> fp_name p"
    and "e' = flow_edit (Flow_saved True) (flow_edit (Type_name v) e)"
  shows "save_note e' = ''All changes saved'' \<and> fp_name (payload_of_editor e') = v \<and> fp_name p \<noteq> v"
  using session_facts [OF assms(1)] assms(2,3)
  by (simp add: touch_def finish_save_flow_def save_note_def payload_of_editor_def)

lemma trim_blank_front: "trim (CHR '' '' # s) = trim s"
  by (simp add: trim_def is_ws_def)

lemma split_on_front:
  "c \<notin> set sep \<Longrightarrow>
     split_on c (sep @ s) = (case split_on c s of [] \<Rightarrow> [sep] | w # ws \<Rightarrow> (sep @ w) # ws)"
  by (induction sep) (auto split: list.splits)

lemma split_on_joined:
  "xs \<noteq> [] \<Longrightarrow> \<forall>x \<in> set xs. c \<notin> set x \<Longrightarrow>
     split_on c (join_with (c # sep) xs) = hd xs # map (\<lambda>x. sep @ x) (tl xs) \<or> c \<in> set sep"
proof (induction xs rule: induct_list012)
  case (3 x y zs)
  show ?case
  proof (cases "c \<in> set sep")
    case False
    then show ?thesis using 3 split_on_front [OF False, of "join_with (c # sep) (y # zs)"]
      by (simp add: split_on_append)
  qed simp
qed (auto simp: split_on_none)

text \<open>A list of phrases survives its way through the text field.\<close>

definition phrase :: "string \<Rightarrow> bool" where
  "phrase t \<longleftrightarrow> t \<noteq> [] \<and> trim t = t \<and> CHR '','' \<notin> set t"

lemma split_list_join:
  assumes "\<forall>t \<in> set ts. phrase t"
  shows "split_list (join_with '', '' ts) = ts"
proof (cases ts)
  case Nil
  then show ?thesis by (simp add: split_list_def)
next
  case (Cons t us)
  have "split_on (CHR '','') (join_with '', '' ts) = t # map (\<lambda>x. CHR '' '' # x) us"
    using split_on_joined [of ts "CHR '',''" "'' ''"] assms Cons by (auto simp: phrase_def)
  moreover have "map trim us = us" using assms Cons by (intro map_idI) (simp add: phrase_def)
  moreover have "filter (\<lambda>t. t \<noteq> []) us = us" using assms Cons by (auto simp: phrase_def filter_id_conv)
  ultimately show ?thesis
    using assms Cons by (simp add: split_list_def comp_def trim_blank_front phrase_def)
qed


text \<open>Whatever is typed as a coupon, a percentage between 0 and 100 is stored. But the zero that is
  shown as ``no coupon'' is stored as a coupon of zero percent, not as none.\<close>

lemma coupon_in_range:
  "\<exists>r. fn_discount (apply_patch (edit_patch ts s (Type_coupon n)) s) = Some (Fin r) \<and> 0 \<le> r \<and> r \<le> 100"
  by (cases n) (auto simp: clamp_num_def js_max_def js_min_def)

lemma coupon_of_zero_is_sent:
  assumes "s' = apply_patch (edit_patch ts s (Type_coupon (Fin 0))) s"
  shows "no_coupon s' \<and> fn_discount s' \<noteq> None"
  using assms by (simp add: clamp_num_def js_max_def js_min_def no_coupon_def)

text \<open>A key typed into the name of a step changes the key of its card, which is therefore mounted
  anew: the field loses the focus. And a link to a name that is gone is shown as the first option
  of its select.\<close>

lemma typing_remounts_card:
  assumes "fn_id s = Some n" and "n \<noteq> []" and "slugify_id v \<noteq> n"
  shows "node_key i (apply_patch (edit_patch ts s (Type_id v)) s) \<noteq> node_key i s"
  using assms by (simp add: node_key_def)

lemma dangling_link_shown_as_next:
  "\<not> special_target g \<Longrightarrow> g \<notin> set ts \<Longrightarrow> shown_option g (goto_options True ts) = ''next''"
  by (simp add: shown_option_def goto_options_def)

section \<open>A sample flow\<close>

definition sample_node :: "string \<Rightarrow> string \<Rightarrow> flow_node" where
  "sample_node n g = \<lparr>fn_id = Some n, fn_type = ''message'', fn_prompt = Some ''Hi'', fn_discount = None, fn_goto = Some g,
     fn_branches = None, fn_message = None, fn_percent = None, fn_slug = None, fn_accept_message = None, fn_reason = None\<rparr>"

definition sample_flow :: cs_flow where
  "sample_flow = \<lparr>fw_id = ''f'', fw_name = ''Refund'', fw_intent = ''refund'', fw_enabled = True,
     fw_triggers = Some [''refund'', ''send back''], fw_escalate_keywords = None,
     fw_steps = Some [sample_node ''offer'' ''done'', sample_node ''done'' ''resolve'']\<rparr>"

lemma sample_opened:
  "ed_steps (open_editor sample_flow) = [sample_node ''offer'' ''done'', sample_node ''done'' ''resolve'']"
  by (simp add: open_editor_def sample_flow_def coalesce_opt_def named_steps_def name_at_def sample_node_def)

lemma sample_well_linked: "well_linked (ed_steps (open_editor sample_flow))"
  by (simp add: sample_opened well_linked_def named_well_def step_links_def sample_node_def branches_of_def
      coalesce_opt_def)

text \<open>Renaming ``done'' breaks the link of ``offer''; removing ``offer'' breaks none.\<close>

lemma edits_that_keep_links_witness:
  "well_linked (ed_steps (open_editor sample_flow)) \<and>
   \<not> well_linked (ed_steps (flow_edit (Edit_step 1 (Type_id ''end'')) (open_editor sample_flow))) \<and>
   well_linked (ed_steps (flow_edit (Delete_step 0) (open_editor sample_flow)))"
proof (intro conjI)
  show "\<not> well_linked (ed_steps (flow_edit (Edit_step 1 (Type_id ''end'')) (open_editor sample_flow)))"
    unfolding edits_that_keep_links [OF sample_well_linked]
    by (simp add: sample_opened sample_node_def step_links_def is_message_def kind_of_def branches_of_def
        coalesce_opt_def slugify_id_def replace_chars_def is_alnum_def is_lower_def is_upper_def is_digit_def)
  show "well_linked (ed_steps (flow_edit (Delete_step 0) (open_editor sample_flow)))"
    unfolding edits_that_keep_links [OF sample_well_linked]
    by (simp add: sample_opened sample_node_def step_links_def is_message_def kind_of_def branches_of_def
        coalesce_opt_def)
qed (rule sample_well_linked)



end
