(* ===== verification/EcomApi.thy ===== *)
theory EcomApi
  imports ApiClient ActivityModel JsonText EcomFlows
begin

text \<open>
  The client of the e-commerce endpoints (\<^verbatim>\<open>lib/ecom-api.ts\<close>) and the scope of stores that its
  pages share (\<^verbatim>\<open>components/ecom/store-context.tsx\<close>, \<^verbatim>\<open>StoreSwitcher.tsx\<close>, \<^verbatim>\<open>nav-items.ts\<close>). A function
  of the client is the call it makes of the fetch wrapper of \<open>ApiClient\<close>: a path and the options.
\<close>

section \<open>Calls\<close>

type_synonym api_call = "string \<times> request_init"

definition get_call :: "string \<Rightarrow> api_call" where
  "get_call path = (path, \<lparr>ri_method = ''GET'', ri_headers = [], ri_body = Missing\<rparr>)"

definition text_call :: "string \<Rightarrow> string \<Rightarrow> string \<Rightarrow> api_call" where
  "text_call meth path body = (path, \<lparr>ri_method = meth, ri_headers = [], ri_body = Val body\<rparr>)"

definition json_call :: "string \<Rightarrow> string \<Rightarrow> jsvalue \<Rightarrow> api_call" where
  "json_call meth path v =
     (path, \<lparr>ri_method = meth, ri_headers = [],
             ri_body = (case stringify v of Some t \<Rightarrow> Val t | None \<Rightarrow> Missing)\<rparr>)"

text \<open>Sending a call, and the \<^verbatim>\<open>data\<close> of its answer.\<close>

definition send_call ::
  "env \<Rightarrow> location option \<Rightarrow> clerk_session \<Rightarrow> api_call \<Rightarrow> local_auth \<Rightarrow> (js_error + http_request) \<times> local_auth" where
  "send_call e window clerk c s = begin_fetch e window clerk (fst c) (snd c) s"

definition unwrap :: "http_response \<Rightarrow> js_error + fetch_data" where
  "unwrap r = map_sum id ft_data (finish_fetch r)"

section \<open>Stores and metrics\<close>

record ecom_store =
  es_id :: string
  es_name :: string
  es_domain :: string
  es_provider :: string
  es_status :: string
  es_public_url :: "string option"
  es_support_email :: "string option"
  es_support_name :: "string option"
  es_tracking_url :: "string option"
  es_facts :: "string option"

record store_profile =
  sp_name :: string
  sp_public_url :: string
  sp_support_email :: string
  sp_support_name :: string
  sp_tracking_url :: string
  sp_facts :: string

definition profile_json :: "store_profile \<Rightarrow> jsvalue" where
  "profile_json p =
     JObj [(''name'', JStr (sp_name p)), (''public_url'', JStr (sp_public_url p)),
           (''support_email'', JStr (sp_support_email p)), (''support_name'', JStr (sp_support_name p)),
           (''tracking_url'', JStr (sp_tracking_url p)), (''facts'', JStr (sp_facts p))]"

definition set_store_profile :: "string \<Rightarrow> store_profile \<Rightarrow> api_call" where
  "set_store_profile i p = json_call ''PUT'' (''/api/v1/ecom/stores/'' @ i @ ''/profile'') (profile_json p)"

definition connect_shopify :: "string \<Rightarrow> string \<Rightarrow> string \<Rightarrow> api_call" where
  "connect_shopify i client_id client_secret =
     json_call ''PUT'' (''/api/v1/ecom/stores/'' @ i @ ''/shopify-credentials'')
       (JObj [(''client_id'', JStr client_id), (''client_secret'', JStr client_secret)])"

definition fetch_stores :: api_call where
  "fetch_stores = get_call ''/api/v1/ecom/stores''"

definition fetch_connections :: api_call where
  "fetch_connections = get_call ''/api/v1/ecom/connections''"

definition fetch_metrics :: "string \<Rightarrow> int \<Rightarrow> api_call" where
  "fetch_metrics store days =
     get_call (''/api/v1/ecom/metrics?store='' @ encode_uri_component store @ ''&days='' @ int_to_string days)"

definition add_store :: "string \<Rightarrow> string option \<Rightarrow> api_call" where
  "add_store domain name =
     json_call ''POST'' ''/api/v1/ecom/stores''
       (case name of
          Some n \<Rightarrow> if n = [] then JObj [(''domain'', JStr domain)] else JObj [(''domain'', JStr domain), (''name'', JStr n)]
        | None \<Rightarrow> JObj [(''domain'', JStr domain)])"

definition set_store_token :: "string \<Rightarrow> string \<Rightarrow> api_call" where
  "set_store_token i v =
     json_call ''PUT'' (''/api/v1/ecom/stores/'' @ encode_uri_component i @ ''/token'') (JObj [(''value'', JStr v)])"

definition remove_store :: "string \<Rightarrow> api_call" where
  "remove_store i =
     (''/api/v1/ecom/stores/'' @ encode_uri_component i, \<lparr>ri_method = ''DELETE'', ri_headers = [], ri_body = Missing\<rparr>)"

section \<open>The vault, tickets, agents and flows\<close>

record vault_doc =
  vd_slug :: string
  vd_title :: string
  vd_tags :: string
  vd_body :: string

definition fetch_vault_docs :: api_call where
  "fetch_vault_docs = get_call ''/api/v1/ecom/vault''"

definition fetch_vault_doc :: "string \<Rightarrow> api_call" where
  "fetch_vault_doc slug = get_call (''/api/v1/ecom/vault/'' @ slug)"

definition save_vault_doc :: "string \<Rightarrow> string \<Rightarrow> string \<Rightarrow> string \<Rightarrow> api_call" where
  "save_vault_doc slug title tags body =
     json_call ''PUT'' (''/api/v1/ecom/vault/'' @ slug)
       (JObj [(''title'', JStr title), (''tags'', JStr tags), (''body'', JStr body)])"

record ticket =
  tc_id :: string
  tc_subject :: string
  tc_customer_email :: string
  tc_customer_name :: string
  tc_status :: string
  tc_channel :: string

definition fetch_tickets :: api_call where
  "fetch_tickets = get_call ''/api/v1/ecom/tickets''"

definition fetch_ticket :: "string \<Rightarrow> api_call" where
  "fetch_ticket i = get_call (''/api/v1/ecom/tickets/'' @ i)"

definition run_cs_loop :: api_call where
  "run_cs_loop = text_call ''POST'' ''/api/v1/ecom/cs/run'' ''{}''"

text \<open>The poll of the open ticket: none without an id, faster while the agent is drafting.\<close>

definition ticket_poll :: "string option \<Rightarrow> string option \<Rightarrow> nat option" where
  "ticket_poll i status =
     (if i = None \<or> i = Some [] then None else if status = Some ''auto_handling'' then Some 2000 else Some 6000)"

definition fetch_agent_templates :: api_call where
  "fetch_agent_templates = get_call ''/api/v1/ecom/agents/templates''"

definition fetch_agents :: api_call where
  "fetch_agents = get_call ''/api/v1/ecom/agents''"

record agent_settings =
  gs_voice :: string
  gs_sops :: string
  gs_schedule :: string
  gs_enabled :: bool

definition save_agent :: "string \<Rightarrow> agent_settings \<Rightarrow> api_call" where
  "save_agent i a =
     json_call ''PUT'' (''/api/v1/ecom/agents/'' @ i)
       (JObj [(''voice'', JStr (gs_voice a)), (''sops'', JStr (gs_sops a)), (''schedule'', JStr (gs_schedule a)),
              (''enabled'', JBool (gs_enabled a))])"

definition fetch_flows :: api_call where
  "fetch_flows = get_call ''/api/v1/ecom/flows''"

text \<open>A number that is not finite is written as \<^verbatim>\<open>null\<close>; a field that is absent is left out.\<close>

definition number_json :: "jsnum \<Rightarrow> jsvalue" where
  "number_json n = (case n of Fin r \<Rightarrow> JNum r | _ \<Rightarrow> JNull)"

definition field_json :: "string \<Rightarrow> ('a \<Rightarrow> jsvalue) \<Rightarrow> 'a option \<Rightarrow> (string \<times> jsvalue) list" where
  "field_json k f x = (case x of None \<Rightarrow> [] | Some v \<Rightarrow> [(k, f v)])"

definition branch_json :: "flow_branch \<Rightarrow> jsvalue" where
  "branch_json b = JObj [(''label'', JStr (fb_label b)), (''goto'', JStr (fb_goto b))]"

definition step_json :: "flow_node \<Rightarrow> jsvalue" where
  "step_json s =
     JObj (field_json ''id'' JStr (fn_id s) @ [(''type'', JStr (fn_type s))] @
       field_json ''prompt'' JStr (fn_prompt s) @ field_json ''discount_percent'' number_json (fn_discount s) @
       field_json ''goto'' JStr (fn_goto s) @ field_json ''branches'' (\<lambda>bs. JArr (map branch_json bs)) (fn_branches s) @
       field_json ''message'' JStr (fn_message s) @ field_json ''percent'' number_json (fn_percent s) @
       field_json ''slug'' JStr (fn_slug s) @ field_json ''accept_message'' JStr (fn_accept_message s) @
       field_json ''reason'' JStr (fn_reason s))"

definition flow_json :: "flow_payload \<Rightarrow> jsvalue" where
  "flow_json p =
     JObj [(''name'', JStr (fp_name p)), (''enabled'', JBool (fp_enabled p)),
           (''triggers'', JArr (map JStr (fp_triggers p))),
           (''escalate_keywords'', JArr (map JStr (fp_escalate_keywords p))),
           (''steps'', JArr (map step_json (fp_steps p)))]"

definition save_flow :: "string \<Rightarrow> flow_payload \<Rightarrow> api_call" where
  "save_flow i p = json_call ''PUT'' (''/api/v1/ecom/flows/'' @ i) (flow_json p)"

section \<open>Insights, tasks, chat, secrets, version\<close>

definition fetch_insights :: api_call where
  "fetch_insights = get_call ''/api/v1/ecom/insights''"

definition fetch_realtime :: api_call where
  "fetch_realtime = get_call ''/api/v1/ecom/realtime''"

definition enable_realtime :: api_call where
  "enable_realtime = text_call ''POST'' ''/api/v1/ecom/realtime/enable'' ''{}''"

record team_task =
  wk_id :: string
  wk_title :: string
  wk_assignee :: string
  wk_status :: string

definition fetch_team_tasks :: api_call where
  "fetch_team_tasks = get_call ''/api/v1/ecom/tasks''"

definition create_team_task :: "string \<Rightarrow> string \<Rightarrow> api_call" where
  "create_team_task title assignee =
     json_call ''POST'' ''/api/v1/ecom/tasks'' (JObj [(''title'', JStr title), (''assignee'', JStr assignee)])"

definition update_team_task :: "string \<Rightarrow> string option \<Rightarrow> string option \<Rightarrow> api_call" where
  "update_team_task i status assignee =
     json_call ''PATCH'' (''/api/v1/ecom/tasks/'' @ i)
       (JObj (field_json ''status'' JStr status @ field_json ''assignee'' JStr assignee))"

definition send_chat :: "string \<Rightarrow> api_call" where
  "send_chat message = json_call ''POST'' ''/api/v1/ecom/chat'' (JObj [(''message'', JStr message)])"

definition fetch_secrets :: api_call where
  "fetch_secrets = get_call ''/api/v1/ecom/settings/secrets''"

definition set_secret :: "string \<Rightarrow> string \<Rightarrow> api_call" where
  "set_secret handle v =
     json_call ''PUT'' (''/api/v1/ecom/settings/secrets/'' @ encode_uri_component handle) (JObj [(''value'', JStr v)])"

definition delete_secret :: "string \<Rightarrow> api_call" where
  "delete_secret handle =
     (''/api/v1/ecom/settings/secrets/'' @ encode_uri_component handle,
      \<lparr>ri_method = ''DELETE'', ri_headers = [], ri_body = Missing\<rparr>)"

definition fetch_version :: api_call where
  "fetch_version = get_call ''/api/v1/ecom/version''"

section \<open>The scope of stores\<close>

definition all_stores :: string where
  "all_stores = ''all''"

definition scope_key :: string where
  "scope_key = ''ecom_active_store''"

record store_scope =
  sc_stores :: "ecom_store list"
  sc_active :: string

text \<open>\<^verbatim>\<open>readInitial\<close>: the stored scope; without a window there is no local storage.\<close>

definition read_initial_scope :: "(string \<times> string) list option \<Rightarrow> string" where
  "read_initial_scope storage =
     (case storage of None \<Rightarrow> all_stores | Some items \<Rightarrow> coalesce_opt (map_of items scope_key) all_stores)"

definition set_active_store ::
  "string \<Rightarrow> store_scope \<times> (string \<times> string) list option \<Rightarrow> store_scope \<times> (string \<times> string) list option" where
  "set_active_store i s =
     ((fst s)\<lparr>sc_active := i\<rparr>, map_option (AList.update scope_key i) (snd s))"

definition is_aggregate :: "store_scope \<Rightarrow> bool" where
  "is_aggregate s = (sc_active s = all_stores)"

definition active_store :: "store_scope \<Rightarrow> ecom_store option" where
  "active_store s = (if is_aggregate s then None else List.find (\<lambda>x. es_id x = sc_active s) (sc_stores s))"

definition switcher_label :: "store_scope \<Rightarrow> string" where
  "switcher_label s =
     (if is_aggregate s then ''All stores''
      else case active_store s of Some x \<Rightarrow> es_name x | None \<Rightarrow> ''Select store'')"

definition nav_hrefs :: "string list" where
  "nav_hrefs = [''/overview'', ''/analytics'', ''/tasks'', ''/chat'', ''/agents'', ''/cs'', ''/brand'', ''/settings'']"

definition nav_active :: "string \<Rightarrow> string \<Rightarrow> bool" where
  "nav_active pathname href =
     (if href = ''/overview'' then pathname = ''/overview'' else starts_with pathname href)"

section \<open>What is sent reads back\<close>

definition body_read :: "api_call \<Rightarrow> jsvalue option" where
  "body_read c = (case ri_body (snd c) of Val t \<Rightarrow> json_parse t | _ \<Rightarrow> None)"

lemma json_call_reads: "json_plain v \<Longrightarrow> body_read (json_call meth path v) = Some v"
  using json_roundtrip [of v] by (auto simp: body_read_def json_call_def)

definition whole :: "jsnum \<Rightarrow> bool" where
  "whole n \<longleftrightarrow> (case n of Fin r \<Rightarrow> r = of_int \<lfloor>r\<rfloor> | _ \<Rightarrow> True)"

lemma number_json_plain: "whole n \<Longrightarrow> json_plain (number_json n)"
  by (cases n) (simp_all add: number_json_def whole_def)

lemma field_json_simps [simp]:
  "field_json k f None = []" "field_json k f (Some v) = [(k, f v)]"
  by (simp_all add: field_json_def)

lemma field_json_plain:
  "list_all (\<lambda>kv. json_plain (snd kv)) (field_json k f x) \<longleftrightarrow> (\<forall>v. x = Some v \<longrightarrow> json_plain (f v))"
  by (cases x) auto

lemma field_json_key: "map fst (field_json k f x) = (if x = None then [] else [k])"
  by (cases x) simp_all

lemma member_optional: "i \<in> set (if p then [] else [k]) \<longleftrightarrow> \<not> p \<and> i = k"
  by simp

lemma distinct_optional:
  "distinct ((if p then [] else [k]) @ ks) \<longleftrightarrow> (p \<or> k \<notin> set ks) \<and> distinct ks" "distinct (if p then [] else [k])"
  by auto

lemma step_json_plain:
  assumes "\<forall>n. fn_discount s = Some n \<longrightarrow> whole n" and "\<forall>n. fn_percent s = Some n \<longrightarrow> whole n"
  shows "json_plain (step_json s)"
proof -
  have "distinct (map fst (field_json ''id'' JStr (fn_id s) @ [(''type'', JStr (fn_type s))] @
       field_json ''prompt'' JStr (fn_prompt s) @ field_json ''discount_percent'' number_json (fn_discount s) @
       field_json ''goto'' JStr (fn_goto s) @ field_json ''branches'' (\<lambda>bs. JArr (map branch_json bs)) (fn_branches s) @
       field_json ''message'' JStr (fn_message s) @ field_json ''percent'' number_json (fn_percent s) @
       field_json ''slug'' JStr (fn_slug s) @ field_json ''accept_message'' JStr (fn_accept_message s) @
       field_json ''reason'' JStr (fn_reason s)))"
    by (simp add: field_json_key distinct_optional member_optional split del: if_split del: distinct_append)
  moreover have "list_all json_plain (map branch_json bs)" for bs
    by (simp add: list_all_iff branch_json_def)
  ultimately show ?thesis
    unfolding step_json_def json_plain.simps
    by (simp add: field_json_plain number_json_plain assms del: map_append)
qed

lemma percent_decode_uri_char:
  "percent_decode ((if uri_plain c then [c] else concat (map percent (utf8 c))) @ s) = utf8 c @ percent_decode s"
proof (cases "uri_plain c")
  case True
  then have "c \<noteq> CHR ''%''" "c \<noteq> CHR ''+''" "code c < 128"
    by (auto simp: uri_plain_def is_alnum_def is_digit_def is_upper_def is_lower_def)
  with True show ?thesis by (simp add: utf8_def percent_decode_plain)
next
  case False
  then show ?thesis using percent_decode_bytes [OF utf8_bytes [of c]] by simp
qed

lemma decode_component: "form_decode (encode_uri_component s) = s"
proof -
  have "percent_decode (encode_uri_component s) = concat (map utf8 s)"
    by (induction s) (simp_all add: encode_uri_component_def percent_decode_uri_char)
  moreover have "utf8_decode (concat (map utf8 s)) = s"
    by (induction s) (auto simp: utf8_decode_utf8)
  ultimately show ?thesis by (simp add: form_decode_def)
qed

lemma percent_no_slash: "b < 256 \<Longrightarrow> CHR ''/'' \<notin> set (percent b)"
proof -
  assume "b < 256"
  then have "b div 16 < 16" "b mod 16 < 16" by (simp_all add: less_mult_imp_div_less)
  then have "code (upper_hex (b div 16)) \<noteq> 47" "code (upper_hex (b mod 16)) \<noteq> 47"
    by (simp_all add: code_upper_hex)
  moreover have "code (CHR ''/'') = 47" by simp
  ultimately have "CHR ''/'' \<noteq> upper_hex (b div 16)" "CHR ''/'' \<noteq> upper_hex (b mod 16)" by metis+
  then show ?thesis by (simp add: percent_def)
qed

lemma component_no_slash: "CHR ''/'' \<notin> set (encode_uri_component s)"
proof -
  have "CHR ''/'' \<notin> set (if uri_plain c then [c] else concat (map percent (utf8 c)))" for c
    using percent_no_slash utf8_bytes [of c]
    by (auto simp: uri_plain_def is_alnum_def is_digit_def is_upper_def is_lower_def)
  then show ?thesis by (induction s) (simp_all add: encode_uri_component_def split del: if_split)
qed

section \<open>Scope and navigation\<close>

text \<open>A chosen scope survives a reload, and its label names the store exactly if there is one.\<close>

lemma scope_survives_reload:
  "read_initial_scope (snd (set_active_store i (s, Some items))) = i \<and>
   (switcher_label (fst (set_active_store i (s, Some items))) =
      (if i = all_stores then ''All stores''
       else case List.find (\<lambda>x. es_id x = i) (sc_stores s) of Some x \<Rightarrow> es_name x | None \<Rightarrow> ''Select store''))"
  by (simp add: read_initial_scope_def set_active_store_def switcher_label_def active_store_def is_aggregate_def
      coalesce_opt_def update_conv)

end
