(* ===== verification/EcomPages.thy ===== *)
theory EcomPages
  imports EcomApi
begin

text \<open>
  The pages over the e-commerce endpoints (\<^verbatim>\<open>app/(ecom)\<close>): settings, brand documents, tickets,
  team tasks, the copilot and the agent configuration. A mutation is a begin step, which returns
  the call, and a finish step with its outcome; the \<^verbatim>\<open>useEffect\<close> of a page runs in its commit step.
\<close>

section \<open>Settings\<close>

text \<open>A row for a secret: the typed value, whether the note ``saved'' is shown, and its timers.\<close>

record secret_row =
  rw_value :: string
  rw_saved :: bool
  rw_saving :: bool
  rw_clearing :: bool
  rw_timers :: nat

definition fresh_secret_row :: secret_row where
  "fresh_secret_row = \<lparr>rw_value = [], rw_saved = False, rw_saving = False, rw_clearing = False, rw_timers = 0\<rparr>"

text \<open>An empty field or a pending save disables the button, and with it the form.\<close>

definition begin_save_secret :: "string \<Rightarrow> secret_row \<Rightarrow> secret_row \<times> api_call option" where
  "begin_save_secret handle r =
     (if rw_value r = [] \<or> rw_saving r then (r, None)
      else (r\<lparr>rw_saving := True\<rparr>, Some (set_secret handle (rw_value r))))"

definition finish_save_secret :: "bool \<Rightarrow> secret_row \<Rightarrow> secret_row" where
  "finish_save_secret ok r =
     (if ok then r\<lparr>rw_saving := False, rw_value := [], rw_saved := True, rw_timers := rw_timers r + 1\<rparr>
      else r\<lparr>rw_saving := False\<rparr>)"

definition fire_saved_timer :: "secret_row \<Rightarrow> secret_row" where
  "fire_saved_timer r = (if rw_timers r = 0 then r else r\<lparr>rw_saved := False, rw_timers := rw_timers r - 1\<rparr>)"

definition begin_clear_secret :: "string \<Rightarrow> bool \<Rightarrow> secret_row \<Rightarrow> secret_row \<times> api_call option" where
  "begin_clear_secret handle set_before r =
     (if \<not> set_before \<or> rw_clearing r then (r, None)
      else (r\<lparr>rw_clearing := True\<rparr>, Some (delete_secret handle)))"

definition finish_clear_secret :: "secret_row \<Rightarrow> secret_row" where
  "finish_clear_secret r = r\<lparr>rw_clearing := False\<rparr>"

text \<open>\<^verbatim>\<open>new Map(...)\<close>: a later entry replaces an earlier one.\<close>

definition secret_is_set :: "(string \<times> bool) list option \<Rightarrow> string \<Rightarrow> bool" where
  "secret_is_set secrets handle = coalesce_opt (map_of (rev (coalesce_opt secrets [])) handle) False"

record connect_form =
  ct_id :: string
  ct_secret :: string
  ct_pending :: bool
  ct_failed :: bool

definition begin_connect :: "string \<Rightarrow> connect_form \<Rightarrow> connect_form \<times> api_call option" where
  "begin_connect store f =
     (if trim (ct_id f) = [] \<or> trim (ct_secret f) = [] \<or> ct_pending f then (f, None)
      else (f\<lparr>ct_pending := True, ct_failed := False\<rparr>,
            Some (connect_shopify store (trim (ct_id f)) (trim (ct_secret f)))))"

definition finish_connect :: "bool \<Rightarrow> connect_form \<Rightarrow> connect_form" where
  "finish_connect ok f =
     (if ok then f\<lparr>ct_pending := False, ct_id := [], ct_secret := []\<rparr>
      else f\<lparr>ct_pending := False, ct_failed := True\<rparr>)"

record store_form =
  sr_domain :: string
  sr_name :: string
  sr_pending :: bool

definition begin_add_store :: "store_form \<Rightarrow> store_form \<times> api_call option" where
  "begin_add_store f =
     (if trim (sr_domain f) = [] \<or> sr_pending f then (f, None)
      else (f\<lparr>sr_pending := True\<rparr>,
            Some (add_store (trim (sr_domain f)) (if trim (sr_name f) = [] then None else Some (trim (sr_name f))))))"

definition finish_add_store :: "bool \<Rightarrow> store_form \<Rightarrow> store_form" where
  "finish_add_store ok f =
     (if ok then f\<lparr>sr_pending := False, sr_domain := [], sr_name := []\<rparr> else f\<lparr>sr_pending := False\<rparr>)"

definition profile_of_store :: "ecom_store \<Rightarrow> store_profile" where
  "profile_of_store x =
     \<lparr>sp_name = es_name x, sp_public_url = coalesce_opt (es_public_url x) [],
      sp_support_email = coalesce_opt (es_support_email x) [], sp_support_name = coalesce_opt (es_support_name x) [],
      sp_tracking_url = coalesce_opt (es_tracking_url x) [], sp_facts = coalesce_opt (es_facts x) []\<rparr>"

text \<open>A row of the list of stores: the profile form is mounted while it is being edited.\<close>

record store_row =
  so_profile :: "store_profile option"
  so_saving :: bool
  so_removing :: bool

definition toggle_profile :: "ecom_store \<Rightarrow> store_row \<Rightarrow> store_row" where
  "toggle_profile x r =
     r\<lparr>so_profile := (if so_profile r = None then Some (profile_of_store x) else None), so_saving := False\<rparr>"

definition begin_save_profile :: "ecom_store \<Rightarrow> store_row \<Rightarrow> store_row \<times> api_call option" where
  "begin_save_profile x r =
     (case so_profile r of
        Some p \<Rightarrow> if so_saving r then (r, None) else (r\<lparr>so_saving := True\<rparr>, Some (set_store_profile (es_id x) p))
      | None \<Rightarrow> (r, None))"

definition remove_question :: "ecom_store \<Rightarrow> string" where
  "remove_question x =
     ''Remove '' @ (if es_name x = [] then es_domain x else es_name x) @ ''? This disconnects the store.''"

definition begin_remove_store :: "bool \<Rightarrow> ecom_store \<Rightarrow> store_row \<Rightarrow> store_row \<times> api_call option" where
  "begin_remove_store confirmed x r =
     (if \<not> confirmed \<or> so_removing r then (r, None) else (r\<lparr>so_removing := True\<rparr>, Some (remove_store (es_id x))))"

section \<open>Brand documents\<close>

text \<open>The list of documents, the chosen one, the documents loaded so far (the query cache), the
  fields of the editor, the document the effect has seen, and the save.\<close>

record vault_page =
  vp_docs :: "string list option"
  vp_slug :: "string option"
  vp_cache :: "(string \<times> vault_doc) list"
  vp_title :: string
  vp_tags :: string
  vp_body :: string
  vp_seen :: "vault_doc option"
  vp_saving :: bool

definition vault_doc_data :: "vault_page \<Rightarrow> vault_doc option" where
  "vault_doc_data p =
     (case vp_slug p of Some i \<Rightarrow> if i = [] then None else map_of (vp_cache p) i | None \<Rightarrow> None)"

definition show_doc :: "vault_doc \<Rightarrow> vault_page \<Rightarrow> vault_page" where
  "show_doc d p = p\<lparr>vp_title := vd_title d, vp_tags := vd_tags d, vp_body := vd_body d\<rparr>"

definition default_slug :: "vault_page \<Rightarrow> vault_page" where
  "default_slug p =
     (if (vp_slug p = None \<or> vp_slug p = Some []) \<and> coalesce_opt (vp_docs p) [] \<noteq> []
      then p\<lparr>vp_slug := Some (hd (coalesce_opt (vp_docs p) []))\<rparr> else p)"

definition doc_effect :: "vault_doc option \<Rightarrow> vault_page \<Rightarrow> vault_page" where
  "doc_effect d p =
     (if d = vp_seen p then p
      else (case d of Some x \<Rightarrow> show_doc x p | None \<Rightarrow> p)\<lparr>vp_seen := d\<rparr>)"

definition commit_vault :: "vault_page \<Rightarrow> vault_page" where
  "commit_vault p = doc_effect (vault_doc_data p) (default_slug p)"

definition doc_loaded :: "string \<Rightarrow> vault_doc \<Rightarrow> vault_page \<Rightarrow> vault_page" where
  "doc_loaded i d p = p\<lparr>vp_cache := AList.update i d (vp_cache p)\<rparr>"

definition choose_doc :: "string \<Rightarrow> vault_page \<Rightarrow> vault_page" where
  "choose_doc i p = p\<lparr>vp_slug := Some i\<rparr>"

definition begin_save_doc :: "vault_page \<Rightarrow> vault_page \<times> api_call option" where
  "begin_save_doc p =
     (case vp_slug p of
        Some i \<Rightarrow>
          (if vp_saving p \<or> i = [] then (p, None)
           else (p\<lparr>vp_saving := True\<rparr>, Some (save_vault_doc i (vp_title p) (vp_tags p) (vp_body p))))
      | None \<Rightarrow> (p, None))"

definition finish_save_doc :: "vault_page \<Rightarrow> vault_page" where
  "finish_save_doc p = p\<lparr>vp_saving := False\<rparr>"

section \<open>Tickets\<close>

definition ticket_lanes :: "string list" where
  "ticket_lanes = [''new'', ''auto_handling'', ''awaiting_customer'', ''needs_rep'', ''resolved'']"

definition lane_tickets :: "ticket list \<Rightarrow> string \<Rightarrow> ticket list" where
  "lane_tickets all lane = filter (\<lambda>t. tc_status t = lane) all"

record ticket_counts =
  tn_resolved :: nat
  tn_needs_rep :: nat
  tn_open :: nat

definition counts_of_tickets :: "ticket list \<Rightarrow> ticket_counts" where
  "counts_of_tickets all =
     \<lparr>tn_resolved = length (filter (\<lambda>t. tc_status t = ''resolved'') all),
      tn_needs_rep = length (filter (\<lambda>t. tc_status t = ''needs_rep'') all),
      tn_open = length (filter (\<lambda>t. tc_status t \<noteq> ''resolved'') all)\<rparr>"

section \<open>Team tasks\<close>

definition task_lanes :: "string list" where
  "task_lanes = [''todo'', ''doing'', ''done'']"

definition avatar_initials :: "string \<Rightarrow> string" where
  "avatar_initials name =
     to_upper (take 2 (concat (map (take 1) (split_on (CHR '' '') (if name = [] then ''?'' else name)))))"

definition avatar_palette :: "string list" where
  "avatar_palette = [''#4f46e5'', ''#0f9d58'', ''#d98a04'', ''#dc2626'', ''#0891b2'']"

definition avatar_color :: "string \<Rightarrow> string" where
  "avatar_color name = avatar_palette ! ((case name of [] \<Rightarrow> 0 | c # _ \<Rightarrow> code c) mod length avatar_palette)"

record team_page =
  tp_drag :: "string option"
  tp_title :: string
  tp_assignee :: string
  tp_adding :: bool

definition drag_team_task :: "string \<Rightarrow> team_page \<Rightarrow> team_page" where
  "drag_team_task i p = p\<lparr>tp_drag := Some i\<rparr>"

definition drop_team_task :: "string \<Rightarrow> team_page \<Rightarrow> team_page \<times> api_call option" where
  "drop_team_task lane p =
     (p\<lparr>tp_drag := None\<rparr>,
      case tp_drag p of
        Some i \<Rightarrow> if i = [] then None else Some (update_team_task i (Some lane) None)
      | None \<Rightarrow> None)"

definition begin_add_task :: "team_page \<Rightarrow> team_page \<times> api_call option" where
  "begin_add_task p =
     (if trim (tp_title p) = [] \<or> tp_adding p then (p, None)
      else (p\<lparr>tp_adding := True\<rparr>,
            Some (create_team_task (trim (tp_title p))
              (if trim (tp_assignee p) = [] then ''Unassigned'' else trim (tp_assignee p)))))"

definition finish_add_task :: "bool \<Rightarrow> team_page \<Rightarrow> team_page" where
  "finish_add_task ok p =
     (if ok then p\<lparr>tp_adding := False, tp_title := [], tp_assignee := []\<rparr> else p\<lparr>tp_adding := False\<rparr>)"

section \<open>The copilot\<close>

datatype copilot_message = Asked string | Answered_with string "(string \<times> string) list"

record copilot =
  co_messages :: "copilot_message list"
  co_input :: string
  co_pending :: bool

definition submit_question :: "string \<Rightarrow> copilot \<Rightarrow> copilot \<times> api_call option" where
  "submit_question q p =
     (if trim q = [] \<or> co_pending p then (p, None)
      else (p\<lparr>co_messages := co_messages p @ [Asked (trim q)], co_input := [], co_pending := True\<rparr>,
            Some (send_chat (trim q))))"

definition question_settled :: "(string \<times> (string \<times> string) list) option \<Rightarrow> copilot \<Rightarrow> copilot" where
  "question_settled answer p =
     (case answer of
        Some (t, sources) \<Rightarrow> p\<lparr>co_messages := co_messages p @ [Answered_with t sources], co_pending := False\<rparr>
      | None \<Rightarrow> p\<lparr>co_pending := False\<rparr>)"

section \<open>The agent\<close>

record agent_config =
  ag_id :: string
  ag_template :: string
  ag_settings :: agent_settings

definition cs_agent :: "agent_config list option \<Rightarrow> agent_config option" where
  "cs_agent agents =
     (case List.find (\<lambda>a. ag_template a = ''cs'') (coalesce_opt agents []) of
        Some a \<Rightarrow> Some a
      | None \<Rightarrow> (case coalesce_opt agents [] of [] \<Rightarrow> None | a # _ \<Rightarrow> Some a))"

record agent_editor =
  ae_fields :: agent_settings
  ae_seen :: agent_config
  ae_saving :: bool

definition open_agent_editor :: "agent_config \<Rightarrow> agent_editor" where
  "open_agent_editor a = \<lparr>ae_fields = ag_settings a, ae_seen = a, ae_saving = False\<rparr>"

text \<open>The effect takes over the agent whenever another one, or a changed one, is passed.\<close>

definition commit_agent :: "agent_config \<Rightarrow> agent_editor \<Rightarrow> agent_editor" where
  "commit_agent a e = (if a = ae_seen e then e else e\<lparr>ae_fields := ag_settings a, ae_seen := a\<rparr>)"

definition begin_save_agent :: "agent_editor \<Rightarrow> agent_editor \<times> api_call option" where
  "begin_save_agent e =
     (if ae_saving e then (e, None)
      else (e\<lparr>ae_saving := True\<rparr>, Some (save_agent (ag_id (ae_seen e)) (ae_fields e))))"

section \<open>Secrets\<close>

text \<open>What a row of the settings does in the course of time.\<close>

datatype secret_event = Type_secret string | Save_secret | Secret_saved bool | Saved_timer

fun secret_step :: "string \<Rightarrow> secret_event \<Rightarrow> secret_row \<times> api_call list \<Rightarrow> secret_row \<times> api_call list" where
  "secret_step handle (Type_secret v) (r, calls) = (r\<lparr>rw_value := v\<rparr>, calls)"
| "secret_step handle Save_secret (r, calls) =
     (case begin_save_secret handle r of
        (r', Some c) \<Rightarrow> (r', calls @ [c])
      | (r', None) \<Rightarrow> (r', calls))"
| "secret_step handle (Secret_saved ok) (r, calls) = (if rw_saving r then (finish_save_secret ok r, calls) else (r, calls))"
| "secret_step handle Saved_timer (r, calls) = (fire_saved_timer r, calls)"

definition secret_run :: "string \<Rightarrow> secret_event list \<Rightarrow> secret_row \<times> api_call list" where
  "secret_run handle evs = foldl (\<lambda>s ev. secret_step handle ev s) (fresh_secret_row, []) evs"

definition secret_ok :: "string \<Rightarrow> secret_row \<times> api_call list \<Rightarrow> bool" where
  "secret_ok handle s \<longleftrightarrow>
     (rw_saved (fst s) \<longrightarrow> 0 < rw_timers (fst s)) \<and> (\<forall>c \<in> set (snd s). \<exists>v. v \<noteq> [] \<and> c = set_secret handle v)"

lemma secret_step_ok: "secret_ok handle s \<Longrightarrow> secret_ok handle (secret_step handle ev s)"
  by (cases s; cases ev)
    (auto simp: secret_ok_def begin_save_secret_def finish_save_secret_def fire_saved_timer_def)

lemma secret_run_ok: "secret_ok handle (secret_run handle evs)"
proof -
  have "secret_ok handle (foldl (\<lambda>s ev. secret_step handle ev s) s evs)" if "secret_ok handle s" for s
    using that by (induction evs arbitrary: s) (simp_all add: secret_step_ok)
  moreover have "secret_ok handle (fresh_secret_row, [])" by (simp add: secret_ok_def fresh_secret_row_def)
  ultimately show ?thesis unfolding secret_run_def by blast
qed

lemma secret_path_segments:
  "split_on (CHR ''/'') (''/api/v1/ecom/settings/secrets/'' @ encode_uri_component h) =
     [[], ''api'', ''v1'', ''ecom'', ''settings'', ''secrets'', encode_uri_component h]"
  using split_on_none [OF component_no_slash [of h]] by simp


text \<open>What is typed while a save is pending is cleared with its success.\<close>

lemma typing_lost_when_saved:
  "rw_value (finish_save_secret True (r\<lparr>rw_value := v\<rparr>)) = []"
  by (simp add: finish_save_secret_def)

section \<open>Documents\<close>

text \<open>The states that the page of the documents reaches while nothing is typed.\<close>

inductive vault_untouched :: "vault_page \<Rightarrow> bool" where
  opened: "vp_seen p = None \<Longrightarrow> vault_untouched p"
| listed: "vault_untouched p \<Longrightarrow> vault_untouched (p\<lparr>vp_docs := docs\<rparr>)"
| loaded: "vault_untouched p \<Longrightarrow> vault_untouched (doc_loaded i d p)"
| chosen: "vault_untouched p \<Longrightarrow> vault_untouched (choose_doc i p)"
| rendered: "vault_untouched p \<Longrightarrow> vault_untouched (commit_vault p)"
| saving: "vault_untouched p \<Longrightarrow> vault_untouched (fst (begin_save_doc p))"
| saved: "vault_untouched p \<Longrightarrow> vault_untouched (finish_save_doc p)"

definition shows_seen :: "vault_page \<Rightarrow> bool" where
  "shows_seen p \<longleftrightarrow> (\<forall>d. vp_seen p = Some d \<longrightarrow>
     vp_title p = vd_title d \<and> vp_tags p = vd_tags d \<and> vp_body p = vd_body d)"

lemma shows_seen_effect: "shows_seen p \<Longrightarrow> shows_seen (doc_effect d p)"
  by (auto simp: shows_seen_def doc_effect_def show_doc_def split: option.split)

lemma untouched_shows_seen: "vault_untouched p \<Longrightarrow> shows_seen p"
proof (induction rule: vault_untouched.induct)
  case (rendered p)
  have "shows_seen (default_slug p)" using rendered.IH by (simp add: shows_seen_def default_slug_def)
  then show ?case unfolding commit_vault_def by (rule shows_seen_effect)
qed (auto simp: shows_seen_def doc_loaded_def choose_doc_def begin_save_doc_def finish_save_doc_def
      split: option.split)

text \<open>When nothing was typed, the chosen document is loaded and the page has rendered, saving sends the
  document as it was loaded.\<close>

lemma untouched_document_saved:
  assumes "vault_untouched p" and "vault_doc_data p = Some d" and "vp_slug p = Some i" and "\<not> vp_saving p"
  shows "snd (begin_save_doc (commit_vault p)) = Some (save_vault_doc i (vd_title d) (vd_tags d) (vd_body d))"
proof -
  have i: "i \<noteq> []" using assms(2,3) by (auto simp: vault_doc_data_def)
  then have "default_slug p = p" using assms(3) by (simp add: default_slug_def)
  then have c: "commit_vault p = doc_effect (Some d) p" using assms(2) by (simp add: commit_vault_def)
  have "shows_seen (doc_effect (Some d) p)"
    using shows_seen_effect untouched_shows_seen [OF assms(1)] by blast
  moreover have "vp_seen (doc_effect (Some d) p) = Some d" by (simp add: doc_effect_def)
  moreover have "vp_slug (doc_effect (Some d) p) = Some i" "\<not> vp_saving (doc_effect (Some d) p)"
    using assms(3,4) by (simp_all add: doc_effect_def show_doc_def)
  ultimately show ?thesis using i c by (simp add: begin_save_doc_def shows_seen_def)
qed

text \<open>But between the choice of a document and its arrival, the editor still holds the previous one,
  and Save is enabled: it stores the text of the old document under the name of the new one.\<close>

lemma wrong_document_overwritten:
  assumes "vp_slug p = Some a" and "map_of (vp_cache p) b = None" and "b \<noteq> []" and "\<not> vp_saving p"
  shows "snd (begin_save_doc (commit_vault (choose_doc b p))) = Some (save_vault_doc b (vp_title p) (vp_tags p) (vp_body p))"
  using assms by (simp add: begin_save_doc_def commit_vault_def choose_doc_def doc_effect_def default_slug_def
      vault_doc_data_def)

text \<open>A saved document comes back changed, and the effect takes it over: what was typed since the
  click is lost. The editor of the agent does the same.\<close>

lemma late_document_typing_lost:
  assumes "vp_slug p = Some i" and "i \<noteq> []" and "vp_seen p \<noteq> Some d"
  shows "vp_body (commit_vault (doc_loaded i d (p\<lparr>vp_body := v\<rparr>))) = vd_body d"
  using assms by (simp add: commit_vault_def doc_loaded_def doc_effect_def default_slug_def vault_doc_data_def
      show_doc_def update_conv)

lemma late_agent_typing_lost:
  "a \<noteq> ae_seen e \<Longrightarrow> ae_fields (commit_agent a (e\<lparr>ae_fields := x\<rparr>)) = ag_settings a"
  by (simp add: commit_agent_def)

section \<open>Tickets, tasks, questions\<close>

text \<open>The lanes split the tickets, and the counters agree with them.\<close>

lemma lanes_split_tickets:
  assumes "\<forall>t \<in> set all. tc_status t \<in> set ticket_lanes"
  shows "(\<Sum>lane \<leftarrow> ticket_lanes. length (lane_tickets all lane)) = length all \<and>
     tn_open (counts_of_tickets all) + length (lane_tickets all ''resolved'') = length all \<and>
     tn_needs_rep (counts_of_tickets all) = length (lane_tickets all ''needs_rep'') \<and>
     tn_resolved (counts_of_tickets all) = length (lane_tickets all ''resolved'')"
  using assms
  by (induction all) (auto simp: ticket_lanes_def lane_tickets_def counts_of_tickets_def)

text \<open>A drag that ends outside of the lanes is not forgotten: whatever is dropped on a lane next, a
  file or a selected text, moves that task.\<close>

lemma cancelled_drag_moves_later:
  "i \<noteq> [] \<Longrightarrow> snd (drop_team_task lane ((drag_team_task i p)\<lparr>tp_title := t\<rparr>)) = Some (update_team_task i (Some lane) None)"
  by (simp add: drop_team_task_def drag_team_task_def)

inductive copilot_reachable :: "copilot \<Rightarrow> bool" where
  opened: "copilot_reachable \<lparr>co_messages = [], co_input = [], co_pending = False\<rparr>"
| typed: "copilot_reachable p \<Longrightarrow> copilot_reachable (p\<lparr>co_input := v\<rparr>)"
| asked: "copilot_reachable p \<Longrightarrow> copilot_reachable (fst (submit_question q p))"
| answered: "copilot_reachable p \<Longrightarrow> co_pending p \<Longrightarrow> copilot_reachable (question_settled answer p)"

fun answers_follow :: "copilot_message list \<Rightarrow> bool" where
  "answers_follow (Answered_with t sources # m # ms) \<longleftrightarrow> (\<exists>q. m = Asked q \<and> q \<noteq> [] \<and> trim q = q) \<and> answers_follow (m # ms)"
| "answers_follow [Answered_with t sources] \<longleftrightarrow> False"
| "answers_follow (Asked q # ms) \<longleftrightarrow> q \<noteq> [] \<and> trim q = q \<and> answers_follow ms"
| "answers_follow [] \<longleftrightarrow> True"

text \<open>Every answer of the copilot stands directly behind the trimmed question it was asked for; while a
  question is pending it is the last message, and no other one can be asked.\<close>

lemma copilot_answers_questions:
  assumes "copilot_reachable p"
  shows "answers_follow (rev (co_messages p)) \<and>
     (co_pending p \<longrightarrow> (\<exists>ms q. co_messages p = ms @ [Asked q] \<and> snd (submit_question v p) = None))"
  using assms
proof (induction rule: copilot_reachable.induct)
  case (answered p answer)
  then obtain ms q where "co_messages p = ms @ [Asked q]" by blast
  with answered show ?case by (auto simp: question_settled_def split: option.split)
qed (auto simp: submit_question_def)

section \<open>The properties at concrete inputs\<close>


definition sample_doc :: vault_doc where
  "sample_doc = \<lparr>vd_slug = ''sop'', vd_title = ''SOP'', vd_tags = [], vd_body = ''Be kind''\<rparr>"

definition sample_vault :: vault_page where
  "sample_vault = doc_loaded ''sop'' sample_doc (choose_doc ''sop''
     \<lparr>vp_docs = Some [''sop''], vp_slug = None, vp_cache = [], vp_title = [], vp_tags = [], vp_body = [],
      vp_seen = None, vp_saving = False\<rparr>)"

lemma untouched_document_saved_witness:
  "snd (begin_save_doc (commit_vault sample_vault)) = Some (save_vault_doc ''sop'' ''SOP'' [] ''Be kind'')"
proof -
  have "vault_untouched sample_vault"
    unfolding sample_vault_def by (intro vault_untouched.loaded vault_untouched.chosen vault_untouched.opened) simp
  then show ?thesis
    using untouched_document_saved [of sample_vault sample_doc "''sop''"]
    by (simp add: sample_vault_def vault_doc_data_def doc_loaded_def choose_doc_def sample_doc_def)
qed

lemma lanes_split_tickets_witness:
  "(\<Sum>lane \<leftarrow> ticket_lanes. length (lane_tickets
      [\<lparr>tc_id = ''1'', tc_subject = [], tc_customer_email = [], tc_customer_name = [], tc_status = ''new'', tc_channel = []\<rparr>]
      lane)) = 1"
  using lanes_split_tickets [of "[\<lparr>tc_id = ''1'', tc_subject = [], tc_customer_email = [], tc_customer_name = [],
      tc_status = ''new'', tc_channel = []\<rparr>]"]
  by (simp add: ticket_lanes_def)

lemma copilot_answers_questions_witness:
  "\<exists>p. copilot_reachable p \<and> co_pending p \<and> snd (submit_question ''again'' p) = None"
proof -
  let ?p = "fst (submit_question ''order'' \<lparr>co_messages = [], co_input = [], co_pending = False\<rparr>)"
  have r: "copilot_reachable ?p" by (rule asked [OF copilot_reachable.opened])
  have p: "co_pending ?p" by (simp add: submit_question_def trim_def is_ws_def)
  from copilot_answers_questions [OF r] p have "snd (submit_question ''again'' ?p) = None" by blast
  with r p show ?thesis by blast
qed

end
