(* ===== verification/AdminForms.thy ===== *)
theory AdminForms
  imports BoardForms ListTools
begin

text \<open>
  The smaller forms of the dashboard: tags (\<^verbatim>\<open>components/tags/TagForm.tsx\<close>), the local sign-in
  (\<^verbatim>\<open>components/organisms/LocalAuthLogin.tsx\<close>), gateways (\<^verbatim>\<open>app/gateways\<close>), sources of skills
  (\<^verbatim>\<open>components/skills/MarketplaceSkillForm.tsx\<close>), the profile (\<^verbatim>\<open>app/onboarding\<close>), invites
  (\<^verbatim>\<open>app/invite\<close>) and the received payloads of a webhook (\<^verbatim>\<open>app/boards/[boardId]/webhooks\<close>).
\<close>

section \<open>Tags\<close>

record tag_values =
  tv_name :: string
  tv_slug :: string
  tv_color :: string
  tv_description :: string

record tag_form =
  tf_values :: tag_values
  tf_error :: "string option"

record tag_payload =
  ty_name :: string
  ty_slug :: string
  ty_color :: string
  ty_description :: "string option"

definition default_tag_values :: tag_values where
  "default_tag_values = \<lparr>tv_name = [], tv_slug = [], tv_color = ''9e9e9e'', tv_description = []\<rparr>"

definition normalize_color_input :: "string \<Rightarrow> string" where
  "normalize_color_input v =
     (let t = trim v; cleaned = to_lower (if starts_with t ''#'' then tl t else t)
      in if length cleaned = 6 \<and> list_all is_lower_hex cleaned then cleaned else ''9e9e9e'')"

definition tag_slugify :: "string \<Rightarrow> string" where
  "tag_slugify v = strip_dashes (replace_runs (\<lambda>c. \<not> slug_plain c) (CHR ''-'') (trim (to_lower v)))"

definition open_tag_form :: "tag_values option \<Rightarrow> tag_form" where
  "open_tag_form initial =
     (let v = coalesce_opt initial default_tag_values
      in \<lparr>tf_values = v\<lparr>tv_color := normalize_color_input (tv_color v)\<rparr>, tf_error = None\<rparr>)"

definition suggested_slug :: "tag_form \<Rightarrow> string" where
  "suggested_slug f = tag_slugify (trim (tv_name (tf_values f)))"

definition handle_tag_submit :: "tag_form \<Rightarrow> tag_form \<times> tag_payload option" where
  "handle_tag_submit f =
     (let v = tf_values f; normalized_name = trim (tv_name v) in
      if normalized_name = [] then (f\<lparr>tf_error := Some ''Tag name is required.''\<rparr>, None)
      else let normalized_slug = tag_slugify (if trim (tv_slug v) = [] then normalized_name else trim (tv_slug v)) in
      if normalized_slug = [] then (f\<lparr>tf_error := Some ''Tag slug is required.''\<rparr>, None)
      else (f\<lparr>tf_error := None\<rparr>,
            Some \<lparr>ty_name = normalized_name, ty_slug = normalized_slug, ty_color = normalize_color_input (tv_color v),
                  ty_description = none_if_empty (trim (tv_description v))\<rparr>))"

definition tag_not_saved :: "js_error \<Rightarrow> tag_form \<Rightarrow> tag_form" where
  "tag_not_saved e f = f\<lparr>tf_error := Some (error_message e ''Unable to save tag.'')\<rparr>"

text \<open>The values the edit page starts from.\<close>

definition values_of_tag :: "tag_payload \<Rightarrow> tag_values" where
  "values_of_tag t =
     \<lparr>tv_name = ty_name t, tv_slug = ty_slug t, tv_color = ty_color t,
      tv_description = coalesce_opt (ty_description t) []\<rparr>"

section \<open>Local sign-in\<close>

record login_form =
  lg_token :: string
  lg_error :: "string option"
  lg_validating :: bool

definition token_min_length :: nat where
  "token_min_length = 50"

text \<open>The request that validates a token; None when no base URL can be found.\<close>

definition validation_request :: "env \<Rightarrow> location option \<Rightarrow> string \<Rightarrow> http_request option" where
  "validation_request e window token =
     (case get_api_base_url e window of
        Inl err \<Rightarrow> None
      | Inr base \<Rightarrow>
          Some \<lparr>hq_url = base @ ''/api/v1/users/me'', hq_method = ''GET'',
                hq_headers = new_headers [(''Authorization'', bearer token)], hq_body = Missing\<rparr>)"

text \<open>The outcome: no answer at all, or one with a status.\<close>

definition validate_local_token :: "http_request option \<Rightarrow> http_response option \<Rightarrow> string option" where
  "validate_local_token request response =
     (if request = None then Some ''Unable to resolve backend URL.''
      else case response of
             None \<Rightarrow> Some ''Unable to reach backend to validate token.''
           | Some r \<Rightarrow>
               (if response_ok r then None
                else if hr_status r = 401 \<or> hr_status r = 403 then Some ''Token is invalid.''
                else Some (''Unable to validate token (HTTP '' @ int_to_string (hr_status r) @ '').'')))"

definition begin_login :: "login_form \<Rightarrow> login_form \<times> string option" where
  "begin_login f =
     (let cleaned = trim (lg_token f) in
      if lg_validating f then (f, None)
      else if cleaned = [] then (f\<lparr>lg_error := Some ''Bearer token is required.''\<rparr>, None)
      else if length cleaned < token_min_length
      then (f\<lparr>lg_error := Some (''Bearer token must be at least '' @ nat_to_string token_min_length @ '' characters.'')\<rparr>, None)
      else (f\<lparr>lg_validating := True\<rparr>, Some cleaned))"

text \<open>The last component tells whether the page goes on as authenticated.\<close>

definition finish_login ::
  "string \<Rightarrow> string option \<Rightarrow> login_form \<times> local_auth \<Rightarrow> (login_form \<times> local_auth) \<times> bool" where
  "finish_login cleaned validation_error s =
     (let f = (fst s)\<lparr>lg_validating := False\<rparr> in
      case validation_error of
        Some err \<Rightarrow> ((f\<lparr>lg_error := Some err\<rparr>, snd s), False)
      | None \<Rightarrow> ((f\<lparr>lg_error := None\<rparr>, set_local_auth_token cleaned (snd s)), True))"

section \<open>Gateways\<close>

record gateway_values =
  gy_name :: string
  gy_url :: string
  gy_token :: string
  gy_pairing_off :: bool
  gy_root :: string
  gy_insecure_tls :: bool

record gateway_notes =
  gy_url_error :: "string option"
  gy_status :: string
  gy_message :: "string option"
  gy_error :: "string option"

record gateway_payload =
  gz_name :: string
  gz_url :: string
  gz_token :: "string option"
  gz_pairing_off :: bool
  gz_root :: string
  gz_insecure_tls :: bool

definition default_workspace_root :: string where
  "default_workspace_root = ''~/.openclaw''"

definition new_gateway_values :: gateway_values where
  "new_gateway_values =
     \<lparr>gy_name = [], gy_url = [], gy_token = [], gy_pairing_off = False, gy_root = default_workspace_root,
      gy_insecure_tls = False\<rparr>"

definition gateway_can_submit :: "gateway_values \<Rightarrow> bool" where
  "gateway_can_submit v \<longleftrightarrow> trim (gy_name v) \<noteq> [] \<and> trim (gy_url v) \<noteq> [] \<and> trim (gy_root v) \<noteq> []"

text \<open>The part of \<^verbatim>\<open>handleSubmit\<close> that both pages share, up to the check of the connection and after it.\<close>

definition begin_gateway_submit ::
  "(string \<Rightarrow> url option) \<Rightarrow> gateway_values \<Rightarrow> gateway_notes \<Rightarrow> gateway_notes \<times> gateway_check option" where
  "begin_gateway_submit parse_url v n =
     (if trim (gy_name v) = [] then (n\<lparr>gy_error := Some ''Gateway name is required.''\<rparr>, None)
      else let validation = validate_gateway_url parse_url (gy_url v); n1 = n\<lparr>gy_url_error := validation\<rparr> in
      if validation \<noteq> None then (n1\<lparr>gy_status := ''error'', gy_message := validation\<rparr>, None)
      else if trim (gy_root v) = [] then (n1\<lparr>gy_error := Some ''Workspace root is required.''\<rparr>, None)
      else (n1\<lparr>gy_status := ''checking'', gy_message := None\<rparr>,
            Some (gateway_check_request (gy_url v) (gy_token v) (gy_pairing_off v) (gy_insecure_tls v))))"

definition gateway_payload_of :: "gateway_values \<Rightarrow> gateway_payload" where
  "gateway_payload_of v =
     \<lparr>gz_name = trim (gy_name v), gz_url = trim (gy_url v), gz_token = none_if_empty (trim (gy_token v)),
      gz_pairing_off = gy_pairing_off v, gz_root = trim (gy_root v), gz_insecure_tls = gy_insecure_tls v\<rparr>"

definition finish_gateway_submit ::
  "(bool \<times> string optional) response \<Rightarrow> gateway_values \<Rightarrow> gateway_notes \<Rightarrow> gateway_notes \<times> gateway_payload option" where
  "finish_gateway_submit answer v n =
     (case finish_gateway_check answer of
        (ok, message) \<Rightarrow>
          (let n1 = n\<lparr>gy_status := (if ok then ''success'' else ''error''), gy_message := Some message\<rparr> in
           if \<not> ok then (n1, None) else (n1\<lparr>gy_error := None\<rparr>, Some (gateway_payload_of v))))"

text \<open>The edit page: what was not edited is the loaded gateway's.\<close>

record loaded_gateway =
  gw_name :: string
  gw_url :: string
  gw_token :: "string option"
  gw_pairing_off :: "bool option"
  gw_root :: "string option"
  gw_insecure_tls :: "bool option"

record gateway_edits =
  gx_name :: "string option"
  gx_url :: "string option"
  gx_token :: "string option"
  gx_pairing_off :: "bool option"
  gx_root :: "string option"
  gx_insecure_tls :: "bool option"

definition first_of_two :: "'a option \<Rightarrow> 'a option \<Rightarrow> 'a \<Rightarrow> 'a" where
  "first_of_two a b d = (case a of Some x \<Rightarrow> x | None \<Rightarrow> coalesce_opt b d)"

definition resolved_gateway :: "gateway_edits \<Rightarrow> loaded_gateway option \<Rightarrow> gateway_values" where
  "resolved_gateway x g =
     \<lparr>gy_name = first_of_two (gx_name x) (map_option gw_name g) [],
      gy_url = first_of_two (gx_url x) (map_option gw_url g) [],
      gy_token = first_of_two (gx_token x) (Option.bind g gw_token) [],
      gy_pairing_off = first_of_two (gx_pairing_off x) (Option.bind g gw_pairing_off) False,
      gy_root = first_of_two (gx_root x) (Option.bind g gw_root) default_workspace_root,
      gy_insecure_tls = first_of_two (gx_insecure_tls x) (Option.bind g gw_insecure_tls) False\<rparr>"

definition begin_edit_gateway ::
  "(string \<Rightarrow> url option) \<Rightarrow> bool \<Rightarrow> string option \<Rightarrow> gateway_edits \<Rightarrow> loaded_gateway option \<Rightarrow> gateway_notes \<Rightarrow>
     gateway_notes \<times> gateway_check option" where
  "begin_edit_gateway parse_url signed_in i x g n =
     (if \<not> signed_in \<or> i = None \<or> i = Some [] then (n, None)
      else begin_gateway_submit parse_url (resolved_gateway x g) n)"

definition begin_new_gateway ::
  "(string \<Rightarrow> url option) \<Rightarrow> bool \<Rightarrow> gateway_values \<Rightarrow> gateway_notes \<Rightarrow> gateway_notes \<times> gateway_check option" where
  "begin_new_gateway parse_url signed_in v n =
     (if \<not> signed_in then (n, None) else begin_gateway_submit parse_url v n)"

section \<open>Sources of skills\<close>

record skill_values =
  sv_source_url :: string
  sv_name :: string
  sv_description :: string
  sv_branch :: string

record skill_form =
  sf_values :: skill_values
  sf_error :: "string option"

definition url_hostname :: "url \<Rightarrow> string" where
  "url_hostname u = takeWhile (\<lambda>c. c \<noteq> CHR '':'') (url_host u)"

definition is_valid_source_url :: "(string \<Rightarrow> url option) \<Rightarrow> string \<Rightarrow> bool" where
  "is_valid_source_url parse_url v =
     (case parse_url v of
        None \<Rightarrow> False
      | Some u \<Rightarrow>
          url_protocol u = ''https:'' \<and> url_hostname u = ''github.com'' \<and>
          2 \<le> length (filter (\<lambda>s. s \<noteq> []) (map trim (split_on (CHR ''/'') (url_pathname u)))))"

definition default_branch_of :: "string \<Rightarrow> string" where
  "default_branch_of b = (if trim b = [] then ''main'' else trim b)"

definition open_skill_form :: "string \<Rightarrow> skill_values option \<Rightarrow> skill_form" where
  "open_skill_form default_branch initial =
     (let v = coalesce_opt initial \<lparr>sv_source_url = [], sv_name = [], sv_description = [], sv_branch = ''main''\<rparr>
      in \<lparr>sf_values = v\<lparr>sv_branch := (if trim (sv_branch v) = [] then default_branch_of default_branch else trim (sv_branch v))\<rparr>,
          sf_error = None\<rparr>)"

definition handle_skill_submit ::
  "(string \<Rightarrow> url option) \<Rightarrow> string \<Rightarrow> string \<Rightarrow> string \<Rightarrow> skill_form \<Rightarrow> skill_form \<times> skill_values option" where
  "handle_skill_submit parse_url default_branch url_required url_invalid f =
     (let v = sf_values f; normalized_url = trim (sv_source_url v) in
      if normalized_url = [] then (f\<lparr>sf_error := Some url_required\<rparr>, None)
      else if \<not> is_valid_source_url parse_url normalized_url then (f\<lparr>sf_error := Some url_invalid\<rparr>, None)
      else (f\<lparr>sf_error := None\<rparr>,
            Some \<lparr>sv_source_url = normalized_url, sv_name = trim (sv_name v), sv_description = trim (sv_description v),
                  sv_branch = (if trim (sv_branch v) = [] then default_branch_of default_branch else trim (sv_branch v))\<rparr>))"

definition skill_not_saved :: "js_error \<Rightarrow> skill_form \<Rightarrow> skill_form" where
  "skill_not_saved e f = f\<lparr>sf_error := Some (error_message e ''Unable to save skill.'')\<rparr>"

section \<open>The profile\<close>

record profile_page =
  pp_name :: string
  pp_timezone :: string
  pp_error :: "string option"

definition resolved_name :: "profile_page \<Rightarrow> profile option \<Rightarrow> string \<Rightarrow> string" where
  "resolved_name p pf fallback =
     (if trim (pp_name p) \<noteq> [] then pp_name p
      else case Option.bind pf (or_null \<circ> pf_preferred_name) of
             Some n \<Rightarrow> n
           | None \<Rightarrow> coalesce_opt (Option.bind pf (or_null \<circ> pf_name)) fallback)"

definition resolved_timezone :: "profile_page \<Rightarrow> profile option \<Rightarrow> string" where
  "resolved_timezone p pf =
     (if trim (pp_timezone p) \<noteq> [] then pp_timezone p else coalesce_opt (Option.bind pf (or_null \<circ> pf_timezone)) [])"

record profile_payload =
  py_name :: string
  py_preferred_name :: string
  py_timezone :: string

definition handle_profile_submit ::
  "bool \<Rightarrow> profile option \<Rightarrow> string \<Rightarrow> profile_page \<Rightarrow> profile_page \<times> profile_payload option" where
  "handle_profile_submit signed_in pf fallback p =
     (if \<not> signed_in then (p, None)
      else if trim (resolved_name p pf fallback) = [] \<or> trim (resolved_timezone p pf) = []
      then (p\<lparr>pp_error := Some ''Please complete the required fields.''\<rparr>, None)
      else (p\<lparr>pp_error := None\<rparr>,
            Some \<lparr>py_name = trim (resolved_name p pf fallback), py_preferred_name = trim (resolved_name p pf fallback),
                  py_timezone = trim (resolved_timezone p pf)\<rparr>))"

definition profile_not_saved :: "string \<Rightarrow> profile_page \<Rightarrow> profile_page" where
  "profile_not_saved message p =
     p\<lparr>pp_error := Some (if message = [] then ''Something went wrong.'' else message)\<rparr>"

section \<open>Invites\<close>

record invite_page =
  nv_token :: string
  nv_seen :: string
  nv_error :: "string option"
  nv_accepted :: bool
  nv_pending :: bool

definition token_from_query :: "search_params \<Rightarrow> string" where
  "token_from_query ps = trim (coalesce_opt (params_get ''token'' ps) [])"

definition open_invite :: "search_params \<Rightarrow> invite_page" where
  "open_invite ps = \<lparr>nv_token = token_from_query ps, nv_seen = token_from_query ps, nv_error = None,
     nv_accepted = False, nv_pending = False\<rparr>"

definition invite_effect :: "search_params \<Rightarrow> invite_page \<Rightarrow> invite_page" where
  "invite_effect ps p =
     (if token_from_query ps = nv_seen p then p
      else p\<lparr>nv_token := token_from_query ps, nv_seen := token_from_query ps\<rparr>)"

definition handle_accept :: "bool \<Rightarrow> invite_page \<Rightarrow> invite_page \<times> string option" where
  "handle_accept signed_in p =
     (if \<not> signed_in \<or> nv_pending p \<or> nv_accepted p then (p, None)
      else if trim (nv_token p) = [] then (p\<lparr>nv_error := Some ''Invite token is required.''\<rparr>, None)
      else (p\<lparr>nv_error := None, nv_pending := True\<rparr>, Some (trim (nv_token p))))"

definition invite_settled :: "int + string \<Rightarrow> invite_page \<Rightarrow> invite_page" where
  "invite_settled outcome p =
     (case outcome of
        Inl status \<Rightarrow>
          (if status = 200 then p\<lparr>nv_accepted := True, nv_error := None, nv_pending := False\<rparr>
           else p\<lparr>nv_pending := False\<rparr>)
      | Inr message \<Rightarrow>
          p\<lparr>nv_error := Some (if message = [] then ''Unable to accept invite.'' else message), nv_pending := False\<rparr>)"

definition invite_helper_text :: "invite_page \<Rightarrow> string" where
  "invite_helper_text p =
     (if nv_accepted p then ''Invite accepted. Redirecting to your organization'' @ ellipsis
      else if trim (nv_token p) = [] then ''Paste the invite token or open the invite link you were sent.''
      else ''Accept the invite to join the organization.'')"

section \<open>Payloads of a webhook\<close>

definition payload_page_limit :: nat where
  "payload_page_limit = 20"

definition stringify_payload :: "jsvalue \<Rightarrow> string" where
  "stringify_payload v =
     (case v of
        JNull \<Rightarrow> []
      | JUndef \<Rightarrow> []
      | JStr s \<Rightarrow> s
      | _ \<Rightarrow> coalesce_opt (stringify_pretty 0 v) [])"

definition current_payload_page :: "nat \<Rightarrow> nat" where
  "current_payload_page offset = offset div payload_page_limit + 1"

definition payload_page_count :: "nat \<Rightarrow> nat" where
  "payload_page_count total_count = max 1 ((total_count + payload_page_limit - 1) div payload_page_limit)"

definition previous_payloads :: "bool \<Rightarrow> nat \<Rightarrow> nat" where
  "previous_payloads loading offset =
     (if 0 < offset \<and> \<not> loading then offset - payload_page_limit else offset)"

definition next_payloads :: "bool \<Rightarrow> nat \<Rightarrow> nat \<Rightarrow> nat" where
  "next_payloads loading total_count offset =
     (if offset + payload_page_limit < total_count \<and> \<not> loading then offset + payload_page_limit else offset)"

section \<open>What the forms send\<close>

lemma tag_slugify_eq: "tag_slugify v \<noteq> [] \<Longrightarrow> tag_slugify v = slugify fallback v"
  by (simp add: tag_slugify_def slugify_def Let_def)

lemma tag_slug_ok: "tag_slugify v \<noteq> [] \<Longrightarrow> slug_ok (tag_slugify v)"
proof -
  assume "tag_slugify v \<noteq> []"
  then have "tag_slugify v = slugify ''a'' v" by (rule tag_slugify_eq)
  moreover have "slug_ok ''a''" by code_simp
  ultimately show "slug_ok (tag_slugify v)" using slug_ok_slugify [of "''a''" v] by simp
qed

lemma tag_slug_same: "slug_ok s \<Longrightarrow> tag_slugify s = s"
  using slug_unchanged [of s "[]"] by (simp add: tag_slugify_def slugify_def Let_def split: if_splits)

definition six_hex :: "string \<Rightarrow> bool" where
  "six_hex s \<longleftrightarrow> length s = 6 \<and> list_all is_lower_hex s"

lemma hex_plain: "is_lower_hex c \<Longrightarrow> \<not> is_ws c \<and> lower_char c = c \<and> c \<noteq> CHR ''#''"
  by (auto simp: is_lower_hex_def is_digit_def is_ws_def lower_char_def is_upper_def)

lemma color_six_hex: "six_hex (normalize_color_input v)"
  by (auto simp: six_hex_def normalize_color_input_def Let_def is_lower_hex_def is_digit_def)

lemma color_same:
  assumes "six_hex s"
  shows "normalize_color_input s = s"
proof -
  have ne: "s \<noteq> []" using assms by (auto simp: six_hex_def)
  have p: "\<not> is_ws c \<and> lower_char c = c \<and> c \<noteq> CHR ''#''" if "c \<in> set s" for c
    using assms that hex_plain by (simp add: six_hex_def list_all_iff)
  have "trim s = s" using ne p by (intro trim_id disjI2 conjI) (simp_all add: p)
  moreover have "to_lower s = s" using p by (simp add: to_lower_def map_idI)
  moreover have "\<not> starts_with s ''#''" using ne p by (cases s) auto
  ultimately show ?thesis using assms by (simp add: normalize_color_input_def six_hex_def)
qed

text \<open>A tag that is saved has a trimmed name, a well-formed slug and a six-digit color, which the board
  shows as it is; and saving it again untouched sends the same tag.\<close>

lemma saved_tag_is_stable:
  assumes "handle_tag_submit f = (f', Some t)"
  shows "ty_name t \<noteq> [] \<and> trim (ty_name t) = ty_name t \<and> slug_ok (ty_slug t) \<and> six_hex (ty_color t) \<and>
     normalize_tag_color (Some (ty_color t)) = ty_color t \<and>
     snd (handle_tag_submit (open_tag_form (Some (values_of_tag t)))) = Some t"
proof -
  let ?v = "tf_values f"
  from assms have t: "ty_name t = trim (tv_name ?v)" "ty_name t \<noteq> []" "ty_color t = normalize_color_input (tv_color ?v)"
      "ty_description t = none_if_empty (trim (tv_description ?v))" "slug_ok (ty_slug t)"
    by (auto simp: handle_tag_submit_def Let_def tag_slug_ok split: if_splits)
  have color: "normalize_color_input (ty_color t) = ty_color t" using color_same color_six_hex t(3) by simp
  have "normalize_tag_color (Some (ty_color t)) = normalize_color_input (ty_color t)"
    by (simp add: normalize_tag_color_def normalize_color_input_def coalesce_opt_def Let_def)
  moreover have "trim (ty_slug t) = ty_slug t"
  proof -
    have "\<forall>c \<in> set (ty_slug t). \<not> is_ws c"
      using t(5) by (auto simp: slug_ok_def slug_plain_def is_ws_def is_lower_def is_digit_def)
    then show ?thesis by (cases "ty_slug t = []") (simp_all add: trim_id)
  qed
  moreover have "ty_slug t \<noteq> []" "tag_slugify (ty_slug t) = ty_slug t"
    using t(5) tag_slug_same by (auto simp: slug_ok_def)
  moreover have "none_if_empty (trim (coalesce_opt (ty_description t) [])) = ty_description t"
    by (simp add: t(4) none_if_empty_def coalesce_opt_def)
  ultimately show ?thesis
    using t(1,2,5) color color_six_hex t(3)
    by (cases t) (simp add: handle_tag_submit_def open_tag_form_def values_of_tag_def coalesce_opt_def Let_def)
qed

text \<open>C10: A token is stored exactly if a backend answered that it is valid; the request that asked carried
  it, it has at least fifty characters, and from then on it is the token that requests use. In
  every other case the stored token stays what it was, and an error is shown.\<close>

lemma only_valid_tokens_stored:
  assumes "begin_login f = (f1, Some token)" and "request = validation_request e window token"
    and "finish_login token (validate_local_token request answer) (f1, s) = ((f2, s2), go_on)"
  shows "(go_on \<longleftrightarrow> (\<exists>rq r. request = Some rq \<and> answer = Some r \<and> 200 \<le> hr_status r \<and> hr_status r \<le> 299)) \<and>
     (go_on \<longrightarrow> token_min_length \<le> length token \<and> trim token = token \<and>
        header_get ''Authorization'' (hq_headers (the request)) = Some (bearer token) \<and>
        fst (get_local_auth_token s2) = Some token) \<and>
     (\<not> go_on \<longrightarrow> s2 = s \<and> lg_error f2 \<noteq> None) \<and> \<not> lg_validating f2"
proof -
  have low: "to_lower ''Authorization'' = ''authorization''" "to_lower ''authorization'' = ''authorization''" by code_simp+
  have token: "token = trim (lg_token f)" "token_min_length \<le> length token" "token \<noteq> []"
    using assms(1) by (auto simp: begin_login_def Let_def split: if_splits)
  have "header_get ''Authorization'' (hq_headers rq) = Some (bearer token)" if "request = Some rq" for rq
    using that assms(2) by (auto simp: validation_request_def header_get_def new_headers_def header_append_def header_set_def low split: sum.splits)
  moreover have "fst (get_local_auth_token (set_local_auth_token token s)) = Some token"
    using token(3) by (auto simp: get_local_auth_token_def set_local_auth_token_def non_empty_env_def Let_def
        split: option.split)
  ultimately show ?thesis
    using assms(3) token(1,2)
    by (auto simp: finish_login_def validate_local_token_def response_ok_def Let_def split: option.splits if_splits)
qed

lemma validate_trimmed: "validate_gateway_url parse_url (trim v) = validate_gateway_url parse_url v"
  by (simp add: validate_gateway_url_def)

text \<open>C11: A gateway is saved exactly if the check of its connection succeeded, and with the address, the
  token and the flags that were checked; its address is valid and its name and root are not blank.
  A failed check is reported.\<close>

lemma gateway_saved_as_checked:
  assumes "begin_edit_gateway parse_url signed_in i x g n = (n1, Some c)"
    and "finish_gateway_submit answer (resolved_gateway x g) n1 = (n2, r)"
  shows "(r \<noteq> None \<longleftrightarrow> (\<exists>err. answer = Ok (True, err))) \<and>
     (\<forall>p. r = Some p \<longrightarrow> gc_url c = gz_url p \<and> gc_token c = gz_token p \<and> gc_disable_pairing c = gz_pairing_off p \<and>
        gc_insecure_tls c = gz_insecure_tls p \<and> validate_gateway_url parse_url (gz_url p) = None \<and>
        trim (gz_name p) \<noteq> [] \<and> trim (gz_root p) \<noteq> []) \<and>
     (r = None \<longrightarrow> gy_status n2 = ''error'' \<and> gy_message n2 \<noteq> None)"
proof -
  let ?v = "resolved_gateway x g"
  have c: "c = gateway_check_request (gy_url ?v) (gy_token ?v) (gy_pairing_off ?v) (gy_insecure_tls ?v)"
      "validate_gateway_url parse_url (gy_url ?v) = None" "trim (gy_name ?v) \<noteq> []" "trim (gy_root ?v) \<noteq> []"
    using assms(1) by (auto simp: begin_edit_gateway_def begin_gateway_submit_def Let_def split: if_splits)
  have saved: "gc_url c = gz_url p \<and> gc_token c = gz_token p \<and> gc_disable_pairing c = gz_pairing_off p \<and>
      gc_insecure_tls c = gz_insecure_tls p \<and> validate_gateway_url parse_url (gz_url p) = None \<and>
      trim (gz_name p) \<noteq> [] \<and> trim (gz_root p) \<noteq> []" if "p = gateway_payload_of ?v" for p
    unfolding that using c
    by (simp add: gateway_payload_of_def gateway_check_request_def none_if_empty_def validate_trimmed)
  show ?thesis
  proof (cases "\<exists>err. answer = Ok (True, err)")
    case True
    then have "r = Some (gateway_payload_of ?v)"
      using assms(2) by (auto simp: finish_gateway_submit_def finish_gateway_check_def Let_def)
    then show ?thesis using True saved by simp
  next
    case False
    then have "\<not> fst (finish_gateway_check answer)"
      by (auto simp: finish_gateway_check_def split: response.splits)
    then have "r = None \<and> gy_status n2 = ''error'' \<and> gy_message n2 \<noteq> None"
      using assms(2) by (auto simp: finish_gateway_submit_def Let_def split: prod.splits)
    then show ?thesis using False by simp
  qed
qed

text \<open>An untouched gateway is saved as it is.\<close>

lemma untouched_gateway_payload:
  assumes "x = \<lparr>gx_name = None, gx_url = None, gx_token = None, gx_pairing_off = None, gx_root = None, gx_insecure_tls = None\<rparr>"
    and "trim (gw_name g) = gw_name g" and "trim (gw_url g) = gw_url g"
    and "\<forall>t. gw_token g = Some t \<longrightarrow> t \<noteq> [] \<and> trim t = t"
  shows "gateway_payload_of (resolved_gateway x (Some g)) =
     \<lparr>gz_name = gw_name g, gz_url = gw_url g, gz_token = gw_token g,
      gz_pairing_off = coalesce_opt (gw_pairing_off g) False,
      gz_root = trim (coalesce_opt (gw_root g) default_workspace_root),
      gz_insecure_tls = coalesce_opt (gw_insecure_tls g) False\<rparr>"
  using assms by (cases "gw_token g")
    (simp_all add: gateway_payload_of_def resolved_gateway_def first_of_two_def none_if_empty_def coalesce_opt_def)

text \<open>A profile that is saved lets its user in: the check that guards the dashboard finds it complete.\<close>

lemma saved_profile_is_complete:
  assumes "handle_profile_submit signed_in pf fallback p = (p', Some q)"
  shows "signed_in \<and> is_onboarding_complete
     (Some \<lparr>pf_name = Val (py_name q), pf_preferred_name = Val (py_preferred_name q), pf_timezone = Val (py_timezone q)\<rparr>)"
  using assms
  by (auto simp: handle_profile_submit_def is_onboarding_complete_def non_empty_env_def Let_def split: if_splits)

text \<open>A field that is emptied shows the stored name again.\<close>

lemma cleared_name_reappears:
  assumes "pf_preferred_name x = Val n" and "trim v = []"
  shows "resolved_name (p\<lparr>pp_name := v\<rparr>) (Some x) fallback = n"
  using assms by (simp add: resolved_name_def)

section \<open>Pages of payloads\<close>

inductive payload_offset :: "nat \<Rightarrow> nat \<Rightarrow> bool" for total_count where
  first_page: "payload_offset total_count 0"
| previous: "payload_offset total_count i \<Longrightarrow> payload_offset total_count (previous_payloads loading i)"
| next_page: "payload_offset total_count i \<Longrightarrow> payload_offset total_count (next_payloads loading total_count i)"

lemma payload_offset_pages:
  "payload_offset total_count i \<Longrightarrow> payload_page_limit dvd i \<and> (i = 0 \<or> i < total_count)"
proof (induction rule: payload_offset.induct)
  case (previous i loading)
  then have "payload_page_limit dvd i - payload_page_limit" by (simp add: dvd_diff_nat)
  then show ?case using previous.IH by (auto simp: previous_payloads_def)
qed (auto simp: next_payloads_def)

text \<open>Whatever the user clicks, the page of payloads is between the first and the last one; Previous
  works exactly behind the first page, Next exactly before the last, and every payload lies on
  exactly one page.\<close>

lemma payload_pages_correct:
  assumes "payload_offset total_count offset"
  shows "offset = payload_page_limit * (current_payload_page offset - 1) \<and>
     current_payload_page offset \<le> payload_page_count total_count \<and>
     (previous_payloads False offset \<noteq> offset \<longleftrightarrow> 1 < current_payload_page offset) \<and>
     (next_payloads False total_count offset \<noteq> offset \<longleftrightarrow> current_payload_page offset < payload_page_count total_count) \<and>
     (k < total_count \<longrightarrow> current_payload_page k \<le> payload_page_count total_count)"
proof -
  obtain m where m: "offset = 20 * m"
    using payload_offset_pages [OF assms] by (auto simp: payload_page_limit_def)
  have "offset = 0 \<or> offset < total_count" using payload_offset_pages [OF assms] by blast
  then have le: "m + 1 \<le> payload_page_count total_count"
    using m by (auto simp: payload_page_count_def payload_page_limit_def)
  have nx: "20 * m + 20 < total_count \<longleftrightarrow> m + 1 < payload_page_count total_count"
    by (auto simp: payload_page_count_def payload_page_limit_def)
  have "k div 20 + 1 \<le> payload_page_count total_count" if "k < total_count"
    using that by (auto simp: payload_page_count_def payload_page_limit_def)
  moreover have "0 < m \<longrightarrow> 20 * m - 20 \<noteq> 20 * m" by auto
  ultimately show ?thesis
    using le nx by (auto simp add: m current_payload_page_def payload_page_limit_def previous_payloads_def next_payloads_def)
qed

text \<open>The text shown for an object or a list reads back as the payload.\<close>

lemma payload_text_reads_back:
  assumes "json_plain v" and "(case v of JArr _ \<Rightarrow> True | JObj _ \<Rightarrow> True | _ \<Rightarrow> False)"
  shows "json_parse (stringify_payload v) = Some v"
  using assms pretty_roundtrip [of v 0] by (auto simp: stringify_payload_def coalesce_opt_def split: jsvalue.splits)

section \<open>The properties at concrete inputs\<close>

definition sample_tag_form :: tag_form where
  "sample_tag_form = \<lparr>tf_values = \<lparr>tv_name = '' Bug '', tv_slug = [], tv_color = ''9e9e9e'', tv_description = []\<rparr>, tf_error = None\<rparr>"

lemma saved_tag_is_stable_witness:
  "\<exists>t. snd (handle_tag_submit sample_tag_form) = Some t \<and> slug_ok (ty_slug t) \<and> ty_name t = ''Bug''"
proof -
  have h: "handle_tag_submit sample_tag_form =
     (sample_tag_form, Some \<lparr>ty_name = ''Bug'', ty_slug = ''bug'', ty_color = ''9e9e9e'', ty_description = None\<rparr>)"
    by code_simp
  from saved_tag_is_stable [OF h] h show ?thesis by simp
qed

lemma saved_profile_is_complete_witness:
  "is_onboarding_complete (Some \<lparr>pf_name = Val ''Ada'', pf_preferred_name = Val ''Ada'', pf_timezone = Val ''UTC''\<rparr>)"
  using saved_profile_is_complete [of True None "[]" "\<lparr>pp_name = ''Ada '', pp_timezone = ''UTC'', pp_error = None\<rparr>"]
  by (simp add: handle_profile_submit_def resolved_name_def resolved_timezone_def trim_def is_ws_def)

lemma payload_pages_correct_witness:
  "payload_offset 45 20 \<and> current_payload_page 20 \<le> payload_page_count 45"
proof -
  have o: "payload_offset 45 20"
    using payload_offset.next_page [OF payload_offset.first_page, of 45 False]
    by (simp add: next_payloads_def payload_page_limit_def)
  then show ?thesis using payload_pages_correct [OF o] by blast
qed

lemma only_valid_tokens_stored_witness:
  "\<exists>f1 s2 f2. begin_login \<lparr>lg_token = replicate 50 (CHR ''k''), lg_error = None, lg_validating = False\<rparr> =
      (f1, Some (replicate 50 (CHR ''k''))) \<and>
     finish_login (replicate 50 (CHR ''k''))
       (validate_local_token (validation_request sample_env None (replicate 50 (CHR ''k'')))
         (Some \<lparr>hr_status = 200, hr_content_type = None, hr_json = None, hr_text = None\<rparr>)) (f1, sample_auth) =
      ((f2, s2), True) \<and> fst (get_local_auth_token s2) = Some (replicate 50 (CHR ''k''))"
proof -
  let ?k = "replicate 50 (CHR ''k'')"
  have k: "trim ?k = ?k" by (intro trim_id) (simp add: is_ws_def)
  have base: "get_api_base_url sample_env None = Inr []" by code_simp
  let ?f1 = "\<lparr>lg_token = ?k, lg_error = None, lg_validating = True\<rparr>"
  let ?rq = "validation_request sample_env None ?k"
  let ?a = "Some \<lparr>hr_status = 200, hr_content_type = None, hr_json = None, hr_text = None\<rparr>"
  have b: "begin_login \<lparr>lg_token = ?k, lg_error = None, lg_validating = False\<rparr> = (?f1, Some ?k)"
    by (simp add: begin_login_def k Let_def token_min_length_def del: replicate.simps)
  obtain f2 s2 where f: "finish_login ?k (validate_local_token ?rq ?a) (?f1, sample_auth) = ((f2, s2), True)"
    by (simp add: finish_login_def validate_local_token_def validation_request_def base response_ok_def Let_def)
  from only_valid_tokens_stored [OF b refl f] b f show ?thesis by blast
qed

definition sample_gateway_edits :: gateway_edits where
  "sample_gateway_edits = \<lparr>gx_name = Some ''Main'', gx_url = Some '' wss://h:1'', gx_token = None, gx_pairing_off = None,
     gx_root = None, gx_insecure_tls = None\<rparr>"

definition sample_url_parser :: "string \<Rightarrow> url option" where
  "sample_url_parser s = Some \<lparr>url_protocol = ''wss:'', url_origin = s, url_host = ''h:1'', url_pathname = [],
     url_search = [], url_hash = []\<rparr>"

definition no_gateway_notes :: gateway_notes where
  "no_gateway_notes = \<lparr>gy_url_error = None, gy_status = ''idle'', gy_message = None, gy_error = None\<rparr>"

lemma gateway_saved_as_checked_witness:
  "\<exists>p. snd (finish_gateway_submit (Ok (True, Missing)) (resolved_gateway sample_gateway_edits None)
      (fst (begin_edit_gateway sample_url_parser True (Some ''g1'') sample_gateway_edits None no_gateway_notes))) = Some p \<and>
     validate_gateway_url sample_url_parser (gz_url p) = None"
proof -
  have t: "trim '' wss://h:1'' = ''wss://h:1''" "trim ''Main'' = ''Main''" "trim ''~/.openclaw'' = ''~/.openclaw''"
    by code_simp+
  have h1: "list_all (\<lambda>c. is_alnum c \<or> c = CHR ''.'' \<or> c = CHR ''-'') ''h''" and d1: "digits_only ''1''" by code_simp+
  have n1: "nat_of_digits ''1'' = 1" by code_simp
  have port: "has_explicit_port ''wss://h:1''"
    using conjunct1 [OF conjunct2 [OF explicit_port_recognised [OF h1 _ d1, of "[]"]]] by (simp add: n1)
  have v: "resolved_gateway sample_gateway_edits None = \<lparr>gy_name = ''Main'', gy_url = '' wss://h:1'', gy_token = [],
      gy_pairing_off = False, gy_root = ''~/.openclaw'', gy_insecure_tls = False\<rparr>"
    by (simp add: resolved_gateway_def sample_gateway_edits_def first_of_two_def coalesce_opt_def default_workspace_root_def)
  have u: "validate_gateway_url sample_url_parser '' wss://h:1'' = None"
    by (simp add: validate_gateway_url_def sample_url_parser_def t port Let_def)
  have h: "begin_edit_gateway sample_url_parser True (Some ''g1'') sample_gateway_edits None no_gateway_notes =
      (no_gateway_notes\<lparr>gy_status := ''checking''\<rparr>,
       Some (gateway_check_request '' wss://h:1'' [] False False))"
    by (simp add: begin_edit_gateway_def begin_gateway_submit_def v u t no_gateway_notes_def Let_def)
  obtain n2 r where f: "finish_gateway_submit (Ok (True, Missing)) (resolved_gateway sample_gateway_edits None)
      (no_gateway_notes\<lparr>gy_status := ''checking''\<rparr>) = (n2, r)" by fastforce
  note r = gateway_saved_as_checked [OF h f]
  obtain p where p: "r = Some p" using conjunct1 [OF r] by auto
  then have "validate_gateway_url sample_url_parser (gz_url p) = None"
    using spec [OF conjunct1 [OF conjunct2 [OF r]], of p] by simp
  then show ?thesis using f p by (simp add: h)
qed

end
