(* ===== verification/GlobalPages.thy ===== *)
theory GlobalPages
  imports Approvals BoardGroup
begin

text \<open>
  The pages over all boards: the approvals of every board (\<^verbatim>\<open>app/approvals/page.tsx\<close>), which gathers the
  lists of the boards and sends a decision to the approval's own board, and the packs of
  skills (\<^verbatim>\<open>app/skills/packs/page.tsx\<close>) with their one-by-one synchronization. Then two shared parts:
  the mentions in a rendered text (\<^verbatim>\<open>components/atoms/Markdown.tsx\<close>) and the select with a search field
  (\<^verbatim>\<open>components/ui/dropdown-select.tsx\<close>).
\<close>

section \<open>Gathering the approvals of all boards\<close>

text \<open>The answer for one board: a status and the items, or the message of an error.\<close>

type_synonym board_answer = "(int \<times> panel_approval list) + string optional"

record global_approvals =
  ga_approvals :: "panel_approval list"
  ga_warnings :: "string list"

definition board_outcome :: "string \<Rightarrow> board_answer \<Rightarrow> panel_approval list + string optional" where
  "board_outcome name answer =
     (case answer of
        Inl (st, items) \<Rightarrow>
          (if st \<noteq> 200
           then Inr (Val (''Failed to load approvals for '' @ name @ '' (status '' @ int_to_string st @ '').''))
           else Inl items)
      | Inr message \<Rightarrow> Inr message)"

definition gather_step :: "panel_approval list + string optional \<Rightarrow> global_approvals \<Rightarrow> global_approvals" where
  "gather_step result g =
     (case result of
        Inl items \<Rightarrow> g\<lparr>ga_approvals := ga_approvals g @ items\<rparr>
      | Inr message \<Rightarrow>
          g\<lparr>ga_warnings := ga_warnings g @ [coalesce_opt (or_null message) ''Unable to load approvals.'']\<rparr>)"

text \<open>\<^verbatim>\<open>boards\<close> are pairs of an id and a name; \<^verbatim>\<open>answer\<close> is what the request for a board settles with.\<close>

definition gather_approvals :: "(string \<times> string) list \<Rightarrow> (string \<Rightarrow> board_answer) \<Rightarrow> global_approvals" where
  "gather_approvals boards answer =
     fold gather_step (map (\<lambda>(i, name). board_outcome name (answer i)) boards)
       \<lparr>ga_approvals = [], ga_warnings = []\<rparr>"

fun code_before :: "string \<Rightarrow> string \<Rightarrow> bool" where
  "code_before _ [] = False"
| "code_before [] (d # ds) = True"
| "code_before (c # cs) (d # ds) = (code c < code d \<or> (code c = code d \<and> code_before cs ds))"

definition default_order :: "string \<Rightarrow> string \<Rightarrow> int" where
  "default_order a b = (if code_before a b then - 1 else if code_before b a then 1 else 0)"

definition board_ids_key :: "(string \<times> string) list \<Rightarrow> string" where
  "board_ids_key boards = join_with '','' (js_sort default_order (map fst boards))"

definition board_label_by_id :: "(string \<times> string) list \<Rightarrow> (string \<times> string) list" where
  "board_label_by_id boards = fold (\<lambda>(i, name) m. AList.update i name m) boards []"

text \<open>The cache of the query, by the key of the boards it was made for.\<close>

type_synonym approvals_cache = "string \<Rightarrow> global_approvals option"

definition shown_approvals :: "string \<Rightarrow> approvals_cache \<Rightarrow> panel_approval list" where
  "shown_approvals key cache = (case cache key of None \<Rightarrow> [] | Some g \<Rightarrow> ga_approvals g)"

text \<open>The board, the approval and the status that \<^verbatim>\<open>handleDecision\<close> sends.\<close>

definition send_decision :: "string \<Rightarrow> approvals_cache \<Rightarrow> string \<Rightarrow> string \<Rightarrow> (string \<times> string \<times> string) option" where
  "send_decision key cache i st =
     (case List.find (\<lambda>a. approval_id a = i) (shown_approvals key cache) of
        None \<Rightarrow> None
      | Some a \<Rightarrow> if pa_board_id a = [] then None else Some (pa_board_id a, i, st))"

definition decision_answered ::
  "string \<Rightarrow> string \<Rightarrow> int \<times> panel_approval \<Rightarrow> approvals_cache \<Rightarrow> approvals_cache" where
  "decision_answered key i result cache =
     (if fst result \<noteq> 200 then cache
      else case cache key of
             None \<Rightarrow> cache
           | Some g \<Rightarrow>
               cache(key \<mapsto> g\<lparr>ga_approvals :=
                 map (\<lambda>a. if approval_id a = i then snd result else a) (ga_approvals g)\<rparr>))"

definition combined_error :: "string option \<Rightarrow> string list \<Rightarrow> string option" where
  "combined_error error_text warnings =
     (let parts = (if truthy error_text then [the error_text] else []) @
                  (if warnings \<noteq> [] then [join_with '' '' warnings] else [])
      in if parts \<noteq> [] then Some (join_with '' '' parts) else None)"

section \<open>Synchronizing packs of skills\<close>

text \<open>\<^verbatim>\<open>kp_queue\<close> holds the packs that a running \<^verbatim>\<open>handleSyncAllPacks\<close> has still to finish, the one it
  waits for first.\<close>

record packs_page =
  kp_syncing :: "string set"
  kp_all :: bool
  kp_queue :: "string list"
  kp_failed :: bool
  kp_warnings :: "string list"
  kp_error :: "string option"

datatype sync_outcome = Synced int "string list" | Sync_failed

definition handle_sync_pack :: "string \<Rightarrow> packs_page \<Rightarrow> packs_page \<times> string option" where
  "handle_sync_pack i p =
     (if kp_all p \<or> i \<in> kp_syncing p then (p, None)
      else (p\<lparr>kp_error := None, kp_warnings := [], kp_syncing := insert i (kp_syncing p)\<rparr>, Some i))"

definition pack_synced :: "string \<Rightarrow> sync_outcome \<Rightarrow> packs_page \<Rightarrow> packs_page" where
  "pack_synced i outcome p =
     (let p1 = (case outcome of
                  Synced st warnings \<Rightarrow> if st = 200 then p\<lparr>kp_warnings := warnings\<rparr> else p
                | Sync_failed \<Rightarrow> p)
      in p1\<lparr>kp_syncing := kp_syncing p1 - {i}\<rparr>)"

text \<open>The loop goes on to the next pack that has an id, or ends.\<close>

fun next_pack :: "string list \<Rightarrow> packs_page \<Rightarrow> packs_page \<times> string option" where
  "next_pack [] p =
     (p\<lparr>kp_all := False, kp_queue := [],
        kp_error := (if kp_failed p then Some ''Some skill packs failed to sync. Please try again.'' else kp_error p)\<rparr>,
      None)"
| "next_pack (i # is) p =
     (if i = [] then next_pack is p
      else (p\<lparr>kp_queue := i # is, kp_syncing := insert i (kp_syncing p)\<rparr>, Some i))"

definition handle_sync_all :: "bool \<Rightarrow> string list \<Rightarrow> packs_page \<Rightarrow> packs_page \<times> string option" where
  "handle_sync_all is_admin packs p =
     (if \<not> is_admin \<or> kp_all p \<or> kp_syncing p \<noteq> {} \<or> packs = [] then (p, None)
      else next_pack packs (p\<lparr>kp_error := None, kp_warnings := [], kp_all := True, kp_failed := False\<rparr>))"

definition all_pack_synced :: "sync_outcome \<Rightarrow> packs_page \<Rightarrow> packs_page \<times> string option" where
  "all_pack_synced outcome p =
     (case kp_queue p of
        [] \<Rightarrow> (p, None)
      | i # is \<Rightarrow>
          (let p1 = (case outcome of
                       Synced st warnings \<Rightarrow> if st = 200 then p\<lparr>kp_warnings := kp_warnings p @ warnings\<rparr> else p
                     | Sync_failed \<Rightarrow> p\<lparr>kp_failed := True\<rparr>)
           in next_pack is (p1\<lparr>kp_syncing := kp_syncing p1 - {i}\<rparr>)))"

text \<open>A whole synchronization: the answers in the order of the requests, and the requests it made.\<close>

fun sync_run :: "sync_outcome list \<Rightarrow> packs_page \<times> string option \<Rightarrow> packs_page \<times> string list" where
  "sync_run outcomes (p, None) = (p, [])"
| "sync_run [] (p, Some i) = (p, [i])"
| "sync_run (out # outcomes) (p, Some i) =
     (case sync_run outcomes (all_pack_synced out p) of (p', sent) \<Rightarrow> (p', i # sent))"

section \<open>Mentions in a rendered text\<close>

datatype text_node = Plain string | Mention string

definition mention_char :: "char \<Rightarrow> bool" where
  "mention_char c \<longleftrightarrow> is_word_char c \<or> c = CHR ''.'' \<or> c = CHR ''-''"

text \<open>\<^verbatim>\<open>(?:[A-Za-z0-9_.-]*[A-Za-z0-9_])?\<close>: the longest run that ends in a word character.\<close>

definition mention_body :: "string \<Rightarrow> string" where
  "mention_body s = rev (dropWhile (\<lambda>c. \<not> is_word_char c) (rev (takeWhile mention_char s)))"

definition mention_at :: "string \<Rightarrow> string option" where
  "mention_at s =
     (case s of
        a # w # rest \<Rightarrow> if a = CHR ''@'' \<and> is_word_char w then Some (a # w # mention_body rest) else None
      | _ \<Rightarrow> None)"

text \<open>\<^verbatim>\<open>matchAll(MENTION_PATTERN)\<close>: the index, the prefix and the mention of each match.\<close>

function mention_matches :: "nat \<Rightarrow> bool \<Rightarrow> string \<Rightarrow> (nat \<times> string \<times> string) list" where
  "mention_matches i at_start [] = []"
| "mention_matches i at_start (c # cs) =
     (if at_start \<and> mention_at (c # cs) \<noteq> None
      then let m = the (mention_at (c # cs))
           in (i, [], m) # mention_matches (i + length m) False (drop (length m) (c # cs))
      else if \<not> is_word_char c \<and> mention_at cs \<noteq> None
      then let m = the (mention_at cs)
           in (i, [c], m) # mention_matches (i + 1 + length m) False (drop (length m) cs)
      else mention_matches (i + 1) False cs)"
  by pat_completeness auto

termination
proof (relation "measure (\<lambda>(i, b, s). length s)")
  show "wf (measure (\<lambda>(i :: nat, b :: bool, s :: string). length s))" by (rule wf_measure)
qed (auto simp: mention_at_def split: list.splits if_splits)

text \<open>The loop over the matches: \<^verbatim>\<open>lastIndex\<close> and the nodes so far.\<close>

fun mention_loop :: "string \<Rightarrow> (nat \<times> string \<times> string) list \<Rightarrow> nat \<times> text_node list \<Rightarrow> nat \<times> text_node list" where
  "mention_loop t [] s = s"
| "mention_loop t ((i, prefix, mention) # ms) (last_index, nodes) =
     mention_loop t ms
       (i + length prefix + length mention,
        nodes @ (if last_index < i then [Plain (take (i - last_index) (drop last_index t))] else []) @
          (if prefix \<noteq> [] then [Plain prefix] else []) @ [Mention mention])"

definition render_mentions_in_text :: "string \<Rightarrow> text_node list" where
  "render_mentions_in_text t =
     (case mention_loop t (mention_matches 0 True t) (0, []) of
        (last_index, nodes) \<Rightarrow>
          (if nodes = [] then [Plain t]
           else nodes @ (if last_index < length t then [Plain (drop last_index t)] else [])))"

fun node_text :: "text_node \<Rightarrow> string" where
  "node_text (Plain s) = s"
| "node_text (Mention s) = s"

section \<open>The select with a search field\<close>

definition resolve_placeholder :: "string \<Rightarrow> string option \<Rightarrow> string" where
  "resolve_placeholder aria_label placeholder =
     (if truthy placeholder then the placeholder
      else if trim aria_label = [] then ''Select an option''
      else if ends_with (trim aria_label) ''...'' then trim aria_label else trim aria_label @ ''...'')"

text \<open>\<^verbatim>\<open>/^select\\s+/i\<close>: the word, a backslash and then letters s.\<close>

definition strip_select :: "string \<Rightarrow> string" where
  "strip_select s =
     (let rest = drop 7 s; run = takeWhile (\<lambda>c. lower_char c = CHR ''s'') rest
      in if to_lower (take 6 s) = ''select'' \<and> take 1 (drop 6 s) = [char_of (92 :: nat)] \<and> run \<noteq> []
         then drop (length run) rest else s)"

definition resolve_search_placeholder :: "string \<Rightarrow> string option \<Rightarrow> string" where
  "resolve_search_placeholder aria_label search_placeholder =
     (if truthy search_placeholder then the search_placeholder
      else let cleaned = trim (strip_select aria_label); value = ''Search '' @ cleaned in
           if cleaned = [] then ''Search...'' else if ends_with value ''...'' then value else value @ ''...'')"

record dropdown =
  dd_open :: bool
  dd_search :: string

definition dropdown_open_change :: "bool \<Rightarrow> dropdown \<Rightarrow> dropdown" where
  "dropdown_open_change next_open d =
     (if next_open then d\<lparr>dd_open := True\<rparr> else d\<lparr>dd_open := False, dd_search := []\<rparr>)"

text \<open>The value passed to \<^verbatim>\<open>onValueChange\<close>, if any.\<close>

definition dropdown_select :: "string option \<Rightarrow> string \<Rightarrow> dropdown \<Rightarrow> dropdown \<times> string option" where
  "dropdown_select value next_value d =
     (dropdown_open_change False d, if Some next_value \<noteq> value then Some next_value else None)"

definition dropdown_label :: "(string \<times> string) list \<Rightarrow> string option \<Rightarrow> string \<Rightarrow> string option \<Rightarrow> string" where
  "dropdown_label options value aria_label placeholder =
     (let label = (case List.find (\<lambda>(v, l). Some v = value) options of
                     Some (v, l) \<Rightarrow> l | None \<Rightarrow> coalesce_opt value [])
      in if label = [] then resolve_placeholder aria_label placeholder else label)"

section \<open>Approvals of all boards\<close>

text \<open>The lists of the boards that answered, in the order of the boards, and one warning per other board.\<close>

lemma gather_approvals_eq:
  fixes boards :: "(string \<times> string) list" and answer :: "string \<Rightarrow> board_answer"
  defines "outs \<equiv> map (\<lambda>(i, name). board_outcome name (answer i)) boards"
  shows "ga_approvals (gather_approvals boards answer) = concat [items. Inl items \<leftarrow> outs]"
    and "ga_warnings (gather_approvals boards answer) =
      [coalesce_opt (or_null message) ''Unable to load approvals.''. Inr message \<leftarrow> outs]"
proof -
  have "ga_approvals (fold gather_step rs g) = ga_approvals g @ concat [items. Inl items \<leftarrow> rs] \<and>
      ga_warnings (fold gather_step rs g) =
        ga_warnings g @ [coalesce_opt (or_null message) ''Unable to load approvals.''. Inr message \<leftarrow> rs]" for rs g
    by (induction rs arbitrary: g) (auto simp: gather_step_def split: sum.splits)
  then show "ga_approvals (gather_approvals boards answer) = concat [items. Inl items \<leftarrow> outs]"
    and "ga_warnings (gather_approvals boards answer) =
      [coalesce_opt (or_null message) ''Unable to load approvals.''. Inr message \<leftarrow> outs]"
    by (simp_all add: gather_approvals_def outs_def)
qed

lemma gathered_from:
  assumes "a \<in> set (ga_approvals (gather_approvals boards answer))"
  obtains i name items where "(i, name) \<in> set boards" and "answer i = Inl (200, items)" and "a \<in> set items"
  using assms by (fastforce simp: gather_approvals_eq board_outcome_def split: sum.splits if_splits)

lemma one_warning_per_failed_board:
  "length (ga_warnings (gather_approvals boards answer)) =
     length (filter (\<lambda>(i, name). \<nexists>items. answer i = Inl (200, items)) boards)"
  unfolding gather_approvals_eq
  by (induction boards) (auto simp: board_outcome_def split: sum.splits)

text \<open>C12: On the page of all approvals a decision goes to the board that the approval was loaded from, with the
  status that was chosen; once it is answered the panel shows the answer in the approval's place,
  and one pending approval less.\<close>

lemma decision_goes_to_its_board:
  assumes "\<forall>i name st items a. (i, name) \<in> set boards \<and> answer i = Inl (st, items) \<and> a \<in> set items \<longrightarrow> pa_board_id a = i \<and> i \<noteq> []"
    and "distinct (map approval_id (ga_approvals (gather_approvals boards answer)))"
    and "cache key = Some (gather_approvals boards answer)" and "pl_external p = Some (shown_approvals key cache)"
    and "x \<in> set (panel_approvals p)" and "approval_id r = approval_id x" and "\<not> is_pending (panel_normalize_approval r)"
    and "handle_decision True signed_in ''global'' (approval_id x) st p = (p1, d)"
    and "p2 = p1\<lparr>pl_external := Some (shown_approvals key (decision_answered key (approval_id x) (200, r) cache))\<rparr>"
  shows "d = To_parent (approval_id x) st \<and>
     (\<exists>i name items. (i, name) \<in> set boards \<and> answer i = Inl (200, items) \<and> approval_id x \<in> approval_id ` set items \<and>
        send_decision key cache (approval_id x) st = Some (i, approval_id x, st)) \<and>
     panel_approvals p2 = map (\<lambda>a. if approval_id a = approval_id x then panel_normalize_approval r else a) (panel_approvals p) \<and>
     length (filter is_pending (panel_approvals p2)) + (if is_pending x then 1 else 0) =
       length (filter is_pending (panel_approvals p))"
proof -
  let ?i = "approval_id x" and ?g = "gather_approvals boards answer"
  have shown: "shown_approvals key cache = ga_approvals ?g" using assms(3) by (simp add: shown_approvals_def)
  then have A: "panel_approvals p = map panel_normalize_approval (ga_approvals ?g)"
    using assms(4) by (simp add: panel_approvals_def)
  then have ids: "map approval_id (panel_approvals p) = map approval_id (ga_approvals ?g)"
    by (simp add: panel_normalize_approval_def comp_def)
  obtain y where y: "y \<in> set (ga_approvals ?g)" "approval_id y = ?i"
    using assms(5) unfolding A by (auto simp: panel_normalize_approval_def)
  have find: "List.find (\<lambda>a. approval_id a = ?i) (ga_approvals ?g) = Some y"
    using find_in_distinct [OF assms(2) y(1) refl] y(2) by simp
  obtain i name items where o: "(i, name) \<in> set boards" "answer i = Inl (200, items)" "y \<in> set items"
    using y(1) by (rule gathered_from)
  have "send_decision key cache ?i st = Some (i, ?i, st)"
    using assms(1) o find by (auto simp: send_decision_def shown)
  moreover have "?i \<in> approval_id ` set items" using imageI [OF o(3), of approval_id] y(2) by simp
  moreover have "d = To_parent ?i st" using assms(8) by (auto simp: handle_decision_def Let_def)
  moreover have A2: "panel_approvals p2 =
      map (\<lambda>a. if approval_id a = ?i then panel_normalize_approval r else a) (panel_approvals p)"
    unfolding A using assms(3)
    by (simp add: assms(9) panel_approvals_def shown_approvals_def decision_answered_def)
  moreover have "length (filter is_pending (panel_approvals p2)) + (if is_pending x then 1 else 0) =
      length (filter is_pending (panel_approvals p))"
    unfolding A2 by (rule count_replace [OF _ assms(5,7)]) (simp add: ids assms(2))
  ultimately show ?thesis using o by blast
qed

section \<open>Packs\<close>

definition nonempty_ids :: "string list \<Rightarrow> string list" where
  "nonempty_ids is = filter (\<lambda>i. i \<noteq> []) is"

fun outcome_warnings :: "sync_outcome \<Rightarrow> string list" where
  "outcome_warnings (Synced st warnings) = (if st = 200 then warnings else [])"
| "outcome_warnings Sync_failed = []"

lemma next_pack_cases:
  "(nonempty_ids is = [] \<and> next_pack is p = next_pack [] p) \<or>
   (\<exists>i rest. nonempty_ids is = i # nonempty_ids rest \<and> i \<noteq> [] \<and>
      next_pack is p = (p\<lparr>kp_queue := i # rest, kp_syncing := insert i (kp_syncing p)\<rparr>, Some i))"
  by (induction "is" p rule: next_pack.induct) (auto simp: nonempty_ids_def)

lemma sync_run_from:
  assumes "kp_syncing p = {}" and "kp_all p" and "kp_error p = None" and "length outcomes = length (nonempty_ids is)"
    and "sync_run outcomes (next_pack is p) = (q, sent)"
  shows "sent = nonempty_ids is \<and> \<not> kp_all q \<and> kp_queue q = [] \<and> kp_syncing q = {} \<and>
     kp_warnings q = kp_warnings p @ concat (map outcome_warnings outcomes) \<and>
     (kp_error q \<noteq> None \<longleftrightarrow> kp_failed p \<or> Sync_failed \<in> set outcomes)"
  using assms
proof (induction outcomes arbitrary: p "is" sent)
  case Nil
  then have "nonempty_ids is = []" by simp
  with next_pack_cases [of "is" p] have "next_pack is p = next_pack [] p" by simp
  with Nil \<open>nonempty_ids is = []\<close> show ?case by (cases "kp_failed p") auto
next
  case (Cons out outcomes)
  from Cons.prems(4) have "nonempty_ids is \<noteq> []" by auto
  with next_pack_cases [of "is" p] obtain i rest where i: "nonempty_ids is = i # nonempty_ids rest"
    "next_pack is p = (p\<lparr>kp_queue := i # rest, kp_syncing := insert i (kp_syncing p)\<rparr>, Some i)" by blast
  let ?p = "p\<lparr>kp_queue := i # rest, kp_syncing := insert i (kp_syncing p)\<rparr>"
  define p1 where "p1 = (case out of Synced st warnings \<Rightarrow>
      if st = 200 then ?p\<lparr>kp_warnings := kp_warnings p @ warnings\<rparr> else ?p | Sync_failed \<Rightarrow> ?p\<lparr>kp_failed := True\<rparr>)"
  define p2 where "p2 = p1\<lparr>kp_syncing := kp_syncing p1 - {i}\<rparr>"
  have step: "all_pack_synced out ?p = next_pack rest p2"
    by (cases out) (simp_all add: all_pack_synced_def p1_def p2_def Let_def)
  have p2: "kp_syncing p2 = {}" "kp_all p2" "kp_error p2 = None"
      "kp_warnings p2 = kp_warnings p @ outcome_warnings out" "kp_failed p2 \<longleftrightarrow> kp_failed p \<or> out = Sync_failed"
    using Cons.prems(1-3) by (cases out; auto simp: p2_def p1_def)+
  obtain sent' where run: "sync_run outcomes (next_pack rest p2) = (q, sent')" and sent: "sent = i # sent'"
    using Cons.prems(5) by (auto simp: i(2) step split: prod.splits)
  have "length outcomes = length (nonempty_ids rest)" using Cons.prems(4) i(1) by simp
  from Cons.IH [OF p2(1-3) this run] show ?case by (auto simp: sent i(1) p2(4,5))
qed

text \<open>C23: Synchronizing all packs asks for every pack once, in the order of the list and one after the other; at
  the end no pack is marked as busy, the warnings of all the answers are shown in order, and an
  error is shown exactly if some pack failed: the others are synchronized all the same.\<close>

lemma sync_all_visits_every_pack:
  assumes "\<not> kp_all p" and "kp_syncing p = {}" and "packs \<noteq> []"
    and "length outcomes = length (nonempty_ids packs)"
    and "sync_run outcomes (handle_sync_all True packs p) = (q, sent)"
  shows "sent = nonempty_ids packs \<and> \<not> kp_all q \<and> kp_syncing q = {} \<and>
     kp_warnings q = concat (map outcome_warnings outcomes) \<and>
     (kp_error q \<noteq> None \<longleftrightarrow> Sync_failed \<in> set outcomes)"
  using sync_run_from [of "p\<lparr>kp_error := None, kp_warnings := [], kp_all := True, kp_failed := False\<rparr>" outcomes packs q sent]
    assms by (simp add: handle_sync_all_def)

text \<open>The page with the requests for single packs that are under way.\<close>

inductive packs_reach :: "packs_page \<Rightarrow> string set \<Rightarrow> bool" where
  fresh: "packs_reach \<lparr>kp_syncing = {}, kp_all = False, kp_queue = [], kp_failed = False, kp_warnings = [], kp_error = None\<rparr> {}"
| sync_one: "packs_reach p S \<Longrightarrow> handle_sync_pack i p = (p', req) \<Longrightarrow> packs_reach p' (S \<union> set_option req)"
| one_done: "packs_reach p S \<Longrightarrow> i \<in> S \<Longrightarrow> packs_reach (pack_synced i out p) (S - {i})"
| sync_all: "packs_reach p S \<Longrightarrow> handle_sync_all is_admin packs p = (p', req) \<Longrightarrow> packs_reach p' S"
| all_done: "packs_reach p S \<Longrightarrow> kp_queue p \<noteq> [] \<Longrightarrow> all_pack_synced out p = (p', req) \<Longrightarrow> packs_reach p' S"

definition packs_ok :: "packs_page \<Rightarrow> string set \<Rightarrow> bool" where
  "packs_ok p S \<longleftrightarrow>
     (if kp_all p then S = {} \<and> (\<exists>i rest. kp_queue p = i # rest \<and> kp_syncing p = {i})
      else kp_queue p = [] \<and> kp_syncing p = S)"

lemma next_pack_ok:
  assumes "kp_syncing p = {}" and "kp_all p" and "next_pack is p = (p', req)"
  shows "packs_ok p' {}"
  using next_pack_cases [of "is" p] assms by (auto simp: packs_ok_def)

lemma packs_invariant: "packs_reach p S \<Longrightarrow> packs_ok p S"
proof (induction rule: packs_reach.induct)
  case (all_done p S out p' req)
  then obtain i rest where q: "kp_queue p = i # rest" "kp_syncing p = {i}" "kp_all p" "S = {}"
    by (auto simp: packs_ok_def split: if_splits)
  define p1 where "p1 = (case out of Synced st warnings \<Rightarrow>
      if st = 200 then p\<lparr>kp_warnings := kp_warnings p @ warnings\<rparr> else p | Sync_failed \<Rightarrow> p\<lparr>kp_failed := True\<rparr>)"
  have "next_pack rest (p1\<lparr>kp_syncing := kp_syncing p1 - {i}\<rparr>) = (p', req)"
    using all_done(3) by (cases out) (simp_all add: all_pack_synced_def q(1) p1_def Let_def)
  moreover have "kp_syncing p1 = {i}" "kp_all p1" using q by (auto simp: p1_def split: sync_outcome.split)
  ultimately show ?case using next_pack_ok [of "p1\<lparr>kp_syncing := kp_syncing p1 - {i}\<rparr>" rest p' req] q(4) by simp
next
  case (sync_all p S is_admin packs p' req)
  then show ?case
    using next_pack_ok [of "p\<lparr>kp_error := None, kp_warnings := [], kp_all := True, kp_failed := False\<rparr>" packs p' req]
    by (auto simp: handle_sync_all_def packs_ok_def split: if_splits)
qed (auto simp: packs_ok_def handle_sync_pack_def pack_synced_def Let_def split: if_splits sync_outcome.splits)

text \<open>C24: While all packs are synchronized exactly one of them is marked as busy, no single pack is being
  synchronized, and neither button starts anything; otherwise the packs marked as busy are those
  with a request under way.\<close>

lemma one_pack_at_a_time:
  assumes "packs_reach p S"
  shows "(kp_all p \<longrightarrow> S = {} \<and> (\<exists>i. kp_syncing p = {i}) \<and>
      (\<forall>i. handle_sync_pack i p = (p, None)) \<and> (\<forall>adm packs. handle_sync_all adm packs p = (p, None))) \<and>
     (\<not> kp_all p \<longrightarrow> kp_syncing p = S)"
  using packs_invariant [OF assms]
  by (auto simp: packs_ok_def handle_sync_pack_def handle_sync_all_def split: if_splits)

text \<open>Two packs synchronized at the same time: only the warnings of the answer that comes last are shown.\<close>

lemma overlapping_warnings_lost:
  assumes "i \<noteq> j"
  shows "kp_warnings (pack_synced j (Synced 200 []) (pack_synced i (Synced 200 [w])
     (fst (handle_sync_pack j (fst (handle_sync_pack i p)))))) = []"
  by (simp add: pack_synced_def)

section \<open>Mentions\<close>

lemma mention_body_prefix: "\<exists>rest. s = mention_body s @ rest"
proof -
  have "\<exists>t. takeWhile mention_char s = mention_body s @ t"
    unfolding mention_body_def
    by (metis rev_append rev_rev_ident takeWhile_dropWhile_id)
  then show ?thesis by (metis append.assoc takeWhile_dropWhile_id)
qed

lemma mention_body_chars: "c \<in> set (mention_body s) \<Longrightarrow> mention_char c"
  unfolding mention_body_def by (metis set_dropWhileD set_rev set_takeWhileD)

lemma mention_body_end: "mention_body s \<noteq> [] \<Longrightarrow> is_word_char (List.last (mention_body s))"
  using hd_dropWhile [of "\<lambda>c. \<not> is_word_char c" "rev (takeWhile mention_char s)"]
  by (simp add: mention_body_def last_rev del: dropWhile_eq_Nil_conv)

lemma mention_at_Some:
  assumes "mention_at s = Some m"
  obtains w b rest where "m = CHR ''@'' # w # b" and "s = m @ rest" and "list_all mention_char (w # b)"
    and "is_word_char (List.last m)"
proof -
  from assms obtain w t where s: "s = CHR ''@'' # w # t" "is_word_char w" "m = CHR ''@'' # w # mention_body t"
    by (auto simp: mention_at_def split: list.splits if_splits)
  obtain rest where "t = mention_body t @ rest" using mention_body_prefix by blast
  with s have "s = m @ rest" by (metis append_Cons)
  moreover have "list_all mention_char (w # mention_body t)"
    using s(2) mention_body_chars by (auto simp: list_all_iff mention_char_def)
  moreover have "is_word_char (List.last m)" using s(2,3) mention_body_end by simp
  ultimately show thesis using that s(3) by blast
qed

lemma mention_len: "mention_at s = Some m \<Longrightarrow> 2 \<le> length m \<and> take (length m) s = m \<and> length m \<le> length s"
  by (erule mention_at_Some) auto

fun matches_ok :: "nat \<Rightarrow> string \<Rightarrow> (nat \<times> string \<times> string) list \<Rightarrow> bool" where
  "matches_ok j t [] \<longleftrightarrow> j \<le> length t"
| "matches_ok j t ((i, prefix, mention) # ms) \<longleftrightarrow>
     j \<le> i \<and> i + length prefix + length mention \<le> length t \<and>
     take (length prefix + length mention) (drop i t) = prefix @ mention \<and>
     matches_ok (i + length prefix + length mention) t ms"

lemma matches_ok_from: "matches_ok j t ms \<Longrightarrow> i \<le> j \<Longrightarrow> matches_ok i t ms"
  by (cases ms) auto

lemma mention_matches_ok: "drop i t = s \<Longrightarrow> i \<le> length t \<Longrightarrow> matches_ok i t (mention_matches i b s)"
proof (induction i b s rule: mention_matches.induct)
  case (2 i b c cs)
  have t: "t = take i t @ c # cs" using append_take_drop_id [of i t] 2(4) by simp
  have l: "length t = i + Suc (length cs)" using arg_cong [OF t, of length] 2(5) by simp
  have d: "drop (i + n) t = drop n (c # cs)" for n using drop_drop [of n i t] 2(4) by (simp add: add.commute)
  consider (here) m where "b" "mention_at (c # cs) = Some m"
    | (after) m where "\<not> (b \<and> mention_at (c # cs) \<noteq> None)" "\<not> is_word_char c" "mention_at cs = Some m"
    | (skip) "\<not> (b \<and> mention_at (c # cs) \<noteq> None)" "\<not> (\<not> is_word_char c \<and> mention_at cs \<noteq> None)"
    by blast
  then show ?case
  proof cases
    case here
    have "mention_matches i b (c # cs) = (i, [], m) # mention_matches (i + length m) False (drop (length m) (c # cs))"
      using here by (simp add: Let_def)
    moreover have "matches_ok (i + length m) t (mention_matches (i + length m) False (drop (length m) (c # cs)))"
    proof (rule 2(1))
      show "m = the (mention_at (c # cs))" unfolding here(2) by simp
      show "drop (i + length m) t = drop (length m) (c # cs)" by (rule d)
      have "length m \<le> length (c # cs)" using mention_len [OF here(2)] by blast
      then show "i + length m \<le> length t" using l by simp
    qed (use here in blast)
    moreover have "take (length m) (drop i t) = m" "i + length m \<le> length t"
      using mention_len [OF here(2)] l unfolding 2(4) by (simp_all only: length_Cons) linarith
    ultimately show ?thesis by (simp only: matches_ok.simps list.size add_0_right append_Nil) simp
  next
    case after
    have "mention_matches i b (c # cs) =
        (i, [c], m) # mention_matches (i + 1 + length m) False (drop (length m) cs)"
      using after by (simp add: Let_def)
    moreover have "matches_ok (i + 1 + length m) t (mention_matches (i + 1 + length m) False (drop (length m) cs))"
      by (rule 2(2)) (use after mention_len [OF after(3)] l d [of "1 + length m"] in \<open>auto simp: add.assoc\<close>)
    moreover have "take (1 + length m) (drop i t) = c # m" "i + 1 + length m \<le> length t"
      using mention_len [OF after(3)] l unfolding 2(4) by simp_all
    ultimately show ?thesis by simp
  next
    case skip
    then have "matches_ok (i + 1) t (mention_matches (i + 1) False cs)" using 2(3) d [of 1] l by simp
    moreover have "mention_matches i b (c # cs) = mention_matches (i + 1) False cs" using skip by (auto simp: Let_def)
    ultimately show ?thesis using matches_ok_from [of "i + 1" t _ i] by simp
  qed
qed simp

lemma mention_loop_text:
  assumes "matches_ok j t ms" and "concat (map node_text nodes) = take j t"
    and "mention_loop t ms (j, nodes) = (k, nodes')"
  shows "concat (map node_text nodes') = take k t \<and> k \<le> length t"
  using assms
proof (induction ms arbitrary: j nodes)
  case (Cons x ms)
  obtain i prefix m where x: "x = (i, prefix, m)" by (cases x)
  let ?k = "i + length prefix + length m"
  let ?n = "nodes @ (if j < i then [Plain (take (i - j) (drop j t))] else []) @
      (if prefix \<noteq> [] then [Plain prefix] else []) @ [Mention m]"
  have ok: "j \<le> i" "take (length prefix + length m) (drop i t) = prefix @ m" "matches_ok ?k t ms"
    using Cons.prems(1) x by simp_all
  have "take j t @ take (i - j) (drop j t) = take i t"
    using ok(1) by (metis le_add_diff_inverse take_add)
  then have e: "take j t @ take (i - j) (drop j t) @ r = take i t @ r" for r by (metis append.assoc)
  have f: "take i t @ prefix @ m = take ?k t" using ok(2) by (metis add.assoc take_add)
  have "concat (map node_text ?n) = take ?k t"
    using ok(1) f by (cases "j < i"; cases "prefix = []") (auto simp: e Cons.prems(2))
  from Cons.IH [OF ok(3) this] Cons.prems(3) show ?case by (simp add: x)
qed simp

lemma mention_loop_mentions:
  "[m. Mention m \<leftarrow> snd (mention_loop t ms (j, nodes))] = [m. Mention m \<leftarrow> nodes] @ map (snd \<circ> snd) ms"
  by (induction ms arbitrary: j nodes) auto

text \<open>Where a mention starts: an at sign and a word character, behind the start or a character that is no word character.\<close>

definition mention_starts :: "bool \<Rightarrow> string \<Rightarrow> nat \<Rightarrow> bool" where
  "mention_starts b s k \<longleftrightarrow> mention_at (drop k s) \<noteq> None \<and> (if k = 0 then b else \<not> is_word_char (s ! (k - 1)))"

lemma mention_starts_Cons:
  "mention_starts b (c # cs) k \<longleftrightarrow>
     (if k = 0 then b \<and> mention_at (c # cs) \<noteq> None else mention_starts (\<not> is_word_char c) cs (k - 1))"
  by (cases k) (auto simp: mention_starts_def nth_Cons split: nat.split)

lemma no_mention_inside:
  assumes "mention_at s = Some m" and "k < length m" and "0 < k"
  shows "mention_at (drop k s) = None"
proof -
  obtain w b rest where m: "m = CHR ''@'' # w # b" "s = m @ rest" "list_all mention_char (w # b)"
    using assms(1) by (rule mention_at_Some)
  obtain n where n: "k = Suc n" using assms(3) gr0_implies_Suc by blast
  have "m ! k = (w # b) ! n" "n < length (w # b)" using assms(2) m(1) n by simp_all
  then have "m ! k \<in> set (w # b)" by (metis nth_mem)
  then have "mention_char (m ! k)" using m(3) by (auto simp: list_all_iff)
  then have "m ! k \<noteq> CHR ''@''" by (auto simp: mention_char_def is_word_char_def is_alnum_def is_digit_def is_upper_def is_lower_def)
  moreover have "drop k s = m ! k # drop (Suc k) s"
    using assms(2) m(2) by (simp add: Cons_nth_drop_Suc [symmetric] nth_append)
  ultimately show ?thesis by (simp add: mention_at_def split: list.split)
qed

lemma mention_starts_after:
  assumes "mention_at s = Some m"
  shows "mention_starts True s k \<longleftrightarrow> k = 0 \<or> (length m \<le> k \<and> mention_starts False (drop (length m) s) (k - length m))"
proof -
  obtain rest where m: "s = m @ rest" "is_word_char (List.last m)" "m \<noteq> []"
    using assms by (elim mention_at_Some) blast
  have e: "s ! (length m - 1) = List.last m" using m by (simp add: nth_append last_conv_nth)
  consider "k = 0" | "0 < k" "k < length m" | "k = length m" "0 < k" | j where "k = length m + Suc j"
    using m(3) by (metis less_imp_Suc_add linorder_neqE_nat neq0_conv add_Suc_right)
  then show ?thesis
  proof cases
    case 1
    then show ?thesis using assms by (simp add: mention_starts_def)
  next
    case 2
    then show ?thesis using no_mention_inside [OF assms] by (simp add: mention_starts_def)
  next
    case 3
    then show ?thesis using e m(2) by (simp add: mention_starts_def)
  next
    case 4
    then show ?thesis using m(1) by (simp add: mention_starts_def nth_append add.commute)
  qed
qed

definition mention_offsets :: "(nat \<times> string \<times> string) list \<Rightarrow> nat list" where
  "mention_offsets ms = map (\<lambda>(i, prefix, m). i + length prefix) ms"

lemma mention_starts_not_start: "mention_at s = None \<Longrightarrow> mention_starts b s k \<longleftrightarrow> mention_starts False s k"
  by (cases k) (auto simp: mention_starts_def)

lemma mention_matches_starts:
  "j \<in> set (mention_offsets (mention_matches i b s)) \<longleftrightarrow>
     i \<le> j \<and> mention_starts b s (j - i)"
proof (induction i b s rule: mention_matches.induct)
  case (1 i b)
  then show ?case by (simp add: mention_starts_def mention_at_def mention_offsets_def)
next
  case (2 i b c cs)
  consider (here) m where "b" "mention_at (c # cs) = Some m"
    | (after) m where "\<not> (b \<and> mention_at (c # cs) \<noteq> None)" "\<not> is_word_char c" "mention_at cs = Some m"
    | (skip) "\<not> (b \<and> mention_at (c # cs) \<noteq> None)" "\<not> (\<not> is_word_char c \<and> mention_at cs \<noteq> None)"
    by blast
  then show ?case
  proof cases
    case here
    have e: "mention_matches i b (c # cs) = (i, [], m) # mention_matches (i + length m) False (drop (length m) (c # cs))"
      using here by (simp add: Let_def)
    have ih: "j \<in> set (mention_offsets (mention_matches (i + length m) False (drop (length m) (c # cs)))) \<longleftrightarrow>
        i + length m \<le> j \<and> mention_starts False (drop (length m) (c # cs)) (j - (i + length m))"
      by (rule 2(1)) (use here in auto)
    have "mention_starts b (c # cs) (j - i) \<longleftrightarrow> j - i = 0 \<or> (length m \<le> j - i \<and>
        mention_starts False (drop (length m) (c # cs)) (j - i - length m))"
      using mention_starts_after [OF here(2)] here(1) by simp
    then have r: "i \<le> j \<and> mention_starts b (c # cs) (j - i) \<longleftrightarrow> j = i \<or> (i + length m \<le> j \<and>
        mention_starts False (drop (length m) (c # cs)) (j - (i + length m)))"
      by (auto simp: diff_diff_left)
    show ?thesis unfolding r ih [symmetric] e by (simp add: mention_offsets_def)
  next
    case after
    have e: "mention_matches i b (c # cs) = (i, [c], m) # mention_matches (i + 1 + length m) False (drop (length m) cs)"
      using after by (simp add: Let_def)
    have ih: "j \<in> set (mention_offsets (mention_matches (i + 1 + length m) False (drop (length m) cs))) \<longleftrightarrow>
        i + 1 + length m \<le> j \<and> mention_starts False (drop (length m) cs) (j - (i + 1 + length m))"
      by (rule 2(2)) (use after in auto)
    have "mention_starts b (c # cs) (j - i) \<longleftrightarrow> j - i \<noteq> 0 \<and> (j - i - 1 = 0 \<or> (length m \<le> j - i - 1 \<and>
        mention_starts False (drop (length m) cs) (j - i - 1 - length m)))"
      using mention_starts_after [OF after(3)] after(1,2) by (auto simp: mention_starts_Cons)
    then have r: "i \<le> j \<and> mention_starts b (c # cs) (j - i) \<longleftrightarrow> j = i + 1 \<or> (i + 1 + length m \<le> j \<and>
        mention_starts False (drop (length m) cs) (j - (i + 1 + length m)))"
      by (auto simp: diff_diff_left)
    show ?thesis unfolding r ih [symmetric] e by (simp add: mention_offsets_def)
  next
    case skip
    have e: "mention_matches i b (c # cs) = mention_matches (i + 1) False cs"
      using skip by (auto simp: Let_def)
    have ih: "j \<in> set (mention_offsets (mention_matches (i + 1) False cs)) \<longleftrightarrow> i + 1 \<le> j \<and> mention_starts False cs (j - (i + 1))"
      by (rule 2(3)) (use skip in auto)
    have "mention_starts (\<not> is_word_char c) cs k \<longleftrightarrow> mention_starts False cs k" for k
      using skip(2) mention_starts_not_start [of cs] by (cases "is_word_char c") auto
    then have "i \<le> j \<and> mention_starts b (c # cs) (j - i) \<longleftrightarrow> i + 1 \<le> j \<and> mention_starts False cs (j - (i + 1))"
      using skip(1) by (auto simp: mention_starts_Cons)
    then show ?thesis unfolding e ih by blast
  qed
qed

text \<open>C28: Rendering a text keeps every character of it, and sets off exactly the mentions: each of them, in order,
  is one that the pattern finds, and one is found exactly where an at sign followed by a word
  character begins the text or follows a character that is no word character.\<close>

lemma rendered_text_is_the_text:
  "concat (map node_text (render_mentions_in_text t)) = t \<and>
   [m. Mention m \<leftarrow> render_mentions_in_text t] = map (snd \<circ> snd) (mention_matches 0 True t) \<and>
   (k \<in> set (mention_offsets (mention_matches 0 True t)) \<longleftrightarrow>
      mention_starts True t k)"
proof -
  obtain last_index nodes where l: "mention_loop t (mention_matches 0 True t) (0, []) = (last_index, nodes)" by fastforce
  have "concat (map node_text nodes) = take last_index t"
    using mention_loop_text [OF mention_matches_ok [of 0 t t True] _ l] by simp
  moreover have "[m. Mention m \<leftarrow> nodes] = map (snd \<circ> snd) (mention_matches 0 True t)"
    using mention_loop_mentions [of t "mention_matches 0 True t" 0 "[]"] l by simp
  ultimately show ?thesis
    using mention_matches_starts [of k 0 True t] by (auto simp: render_mentions_in_text_def l)
qed

text \<open>The prefix of a label is not removed: the example given with the function reads otherwise.\<close>

lemma select_prefix_is_kept:
  "resolve_search_placeholder ''Select agent'' None = ''Search Select agent...''"
  by code_simp

section \<open>The properties at concrete inputs\<close>

definition global_answer :: "string \<Rightarrow> board_answer" where
  "global_answer i =
     (if i = ''b1'' then Inl (200, [panel_item ''a1'' ''pending'' ''2026-01-01T00:00:00'' None])
      else Inl (503, []))"

definition global_cache :: approvals_cache where
  "global_cache = [''b1,b2'' \<mapsto> gather_approvals [(''b2'', ''Two''), (''b1'', ''One'')] global_answer]"

lemma decision_goes_to_its_board_witness:
  "send_decision ''b1,b2'' global_cache ''a1'' ''approved'' = Some (''b1'', ''a1'', ''approved'')"
proof -
  let ?a = "panel_item ''a1'' ''pending'' ''2026-01-01T00:00:00'' None"
  let ?r = "panel_item ''a1'' ''approved'' ''2026-01-01T00:00:00'' None"
  let ?boards = "[(''b2'', ''Two''), (''b1'', ''One'')]"
  let ?p = "\<lparr>pl_external = Some (shown_approvals ''b1,b2'' global_cache), pl_query = None, pl_error = None,
     pl_updating = None, pl_selected = None\<rparr>"
  have g: "ga_approvals (gather_approvals ?boards global_answer) = [?a]"
    by (simp add: gather_approvals_def gather_step_def board_outcome_def global_answer_def)
  have c: "global_cache ''b1,b2'' = Some (gather_approvals ?boards global_answer)" by (simp add: global_cache_def)
  have x: "panel_normalize_approval ?a \<in> set (panel_approvals ?p)"
    by (simp add: panel_approvals_def shown_approvals_def c g)
  have i: "approval_id (panel_normalize_approval ?a) = ''a1''" by (simp add: panel_normalize_approval_def panel_item_def)
  have "\<not> is_pending (panel_normalize_approval ?r)"
    by (simp add: is_pending_def panel_normalize_approval_def panel_item_def coalesce_opt_def)
  moreover obtain p1 d where "handle_decision True True ''global'' (approval_id (panel_normalize_approval ?a)) ''approved'' ?p = (p1, d)"
    by fastforce
  ultimately have "\<exists>i name items. (i, name) \<in> set ?boards \<and> global_answer i = Inl (200, items) \<and>
      approval_id (panel_normalize_approval ?a) \<in> approval_id ` set items \<and>
      send_decision ''b1,b2'' global_cache (approval_id (panel_normalize_approval ?a)) ''approved'' =
        Some (i, approval_id (panel_normalize_approval ?a), ''approved'')"
    using decision_goes_to_its_board [of ?boards global_answer global_cache "''b1,b2''" ?p "panel_normalize_approval ?a" ?r]
      c x i by (auto simp: g global_answer_def panel_item_def)
  then obtain b where "send_decision ''b1,b2'' global_cache ''a1'' ''approved'' = Some (b, ''a1'', ''approved'')"
      "\<exists>items. global_answer b = Inl (200, items)"
    unfolding i by blast
  then show ?thesis by (auto simp: global_answer_def split: if_splits)
qed

lemma sync_all_visits_every_pack_witness:
  "snd (sync_run [Sync_failed, Synced 200 [''w'']] (handle_sync_all True [''p1'', ''p2'']
     \<lparr>kp_syncing = {}, kp_all = False, kp_queue = [], kp_failed = False, kp_warnings = [], kp_error = None\<rparr>)) = [''p1'', ''p2'']"
proof -
  let ?p = "\<lparr>kp_syncing = {}, kp_all = False, kp_queue = [], kp_failed = False, kp_warnings = [], kp_error = None\<rparr>"
  obtain q sent where r: "sync_run [Sync_failed, Synced 200 [''w'']] (handle_sync_all True [''p1'', ''p2''] ?p) = (q, sent)"
    by fastforce
  then show ?thesis using sync_all_visits_every_pack [of ?p "[''p1'', ''p2'']", OF _ _ _ _ r] by (simp add: nonempty_ids_def)
qed

lemma one_pack_at_a_time_witness:
  "kp_syncing (fst (handle_sync_pack ''p1''
     \<lparr>kp_syncing = {}, kp_all = False, kp_queue = [], kp_failed = False, kp_warnings = [], kp_error = None\<rparr>)) = {''p1''}"
  using one_pack_at_a_time [OF packs_reach.sync_one [OF packs_reach.fresh, of "''p1''"]]
  by (simp add: handle_sync_pack_def)

end
