(* ===== verification/AppShell.thy ===== *)
theory AppShell
  imports AdminForms CustomFieldForm JsonText ActivityModel
begin

text \<open>
  What surrounds the pages: the frame with its sidebar and its redirects
  (\<^verbatim>\<open>components/templates/DashboardShell.tsx\<close>, with the effect of \<^verbatim>\<open>app/onboarding/page.tsx\<close>), the switch of
  organizations (\<^verbatim>\<open>components/organisms/OrgSwitcher.tsx\<close>), the state of the system
  (\<^verbatim>\<open>components/organisms/DashboardSidebar.tsx\<close>), the user menu, the activity of the page
  (\<^verbatim>\<open>hooks/usePageActive.ts\<close>); then the parts of the board and gateway pages with files of their own: the
  inputs of custom fields (\<^verbatim>\<open>TaskCustomFieldsEditor.tsx\<close>) and the page that edits a field, the goal
  of a board (\<^verbatim>\<open>components/BoardGoalPanel.tsx\<close>) and the masked token of a gateway.
\<close>

section \<open>Redirects\<close>

definition shell_redirect :: "bool \<Rightarrow> string \<Rightarrow> profile option \<Rightarrow> string option" where
  "shell_redirect signed_in pathname pf =
     (if \<not> signed_in \<or> pathname = ''/onboarding'' then None
      else if pf = None then None
      else if \<not> is_onboarding_complete pf then Some ''/onboarding'' else None)"

definition onboarding_redirect :: "profile option \<Rightarrow> string option" where
  "onboarding_redirect pf = (if pf \<noteq> None \<and> is_onboarding_complete pf then Some ''/dashboard'' else None)"

text \<open>The redirect of a page in the frame.\<close>

definition page_redirect :: "bool \<Rightarrow> string \<Rightarrow> profile option \<Rightarrow> string option" where
  "page_redirect signed_in pathname pf =
     (if pathname = ''/onboarding'' then onboarding_redirect pf else shell_redirect signed_in pathname pf)"

section \<open>The sidebar\<close>

record sidebar =
  sb_open :: bool
  sb_path :: string

definition render_sidebar :: "string \<Rightarrow> sidebar \<Rightarrow> sidebar" where
  "render_sidebar pathname s = (if sb_path s \<noteq> pathname then \<lparr>sb_open = False, sb_path = pathname\<rparr> else s)"

definition toggle_sidebar :: "string \<Rightarrow> sidebar \<Rightarrow> sidebar" where
  "toggle_sidebar pathname s = \<lparr>sb_open = \<not> sb_open s, sb_path = pathname\<rparr>"

definition sidebar_key :: "string \<Rightarrow> sidebar \<Rightarrow> sidebar" where
  "sidebar_key key s = (if sb_open s \<and> key = ''Escape'' then s\<lparr>sb_open := False\<rparr> else s)"

definition system_status :: "bool option \<Rightarrow> bool \<Rightarrow> string" where
  "system_status ok_value is_error =
     (if ok_value = Some True then ''operational''
      else if ok_value = Some False then ''degraded''
      else if is_error then ''degraded'' else ''unknown'')"

definition system_status_label :: "string \<Rightarrow> string" where
  "system_status_label st =
     (if st = ''operational'' then ''All systems operational''
      else if st = ''unknown'' then ''System status unavailable'' else ''System degraded'')"

section \<open>Organizations\<close>

record org_switcher =
  os_open :: bool
  os_name :: string
  os_error :: "string option"

definition org_value :: "(string \<times> bool) list \<Rightarrow> string" where
  "org_value orgs = (case List.find snd orgs of Some (i, active) \<Rightarrow> i | None \<Rightarrow> ''personal'')"

text \<open>The organization asked for, if any.\<close>

definition handle_org_change :: "(string \<times> bool) list \<Rightarrow> string \<Rightarrow> org_switcher \<Rightarrow> org_switcher \<times> string option" where
  "handle_org_change orgs value s =
     (if value = ''__create__'' then (s\<lparr>os_error := None, os_open := True\<rparr>, None)
      else if value = [] \<or> value = org_value orgs then (s, None)
      else (s, Some value))"

definition switch_failed :: "string \<Rightarrow> org_switcher \<Rightarrow> org_switcher" where
  "switch_failed message s =
     s\<lparr>os_error := Some (if message = [] then ''Unable to switch organization.'' else message)\<rparr>"

definition handle_create_org :: "org_switcher \<Rightarrow> org_switcher \<times> string option" where
  "handle_create_org s =
     (if trim (os_name s) = [] then (s\<lparr>os_error := Some ''Organization name is required.''\<rparr>, None)
      else (s, Some (trim (os_name s))))"

definition org_created :: "org_switcher \<Rightarrow> org_switcher" where
  "org_created s = s\<lparr>os_name := [], os_error := None, os_open := False\<rparr>"

definition org_not_created :: "string \<Rightarrow> org_switcher \<Rightarrow> org_switcher" where
  "org_not_created message s =
     s\<lparr>os_error := Some (if message = [] then ''Unable to create organization.'' else message)\<rparr>"

text \<open>What an announced switch sends to the other tabs: a storage event and a message of the channel.\<close>

datatype tab_message = Storage_event string "string option" | Channel_message string

definition switch_payload :: "string \<Rightarrow> int \<Rightarrow> string" where
  "switch_payload org_id now =
     coalesce_opt (stringify (JObj [(''orgId'', JStr org_id), (''ts'', JNum (of_int now))])) []"

definition announce_org_switch :: "bool \<Rightarrow> bool \<Rightarrow> string \<Rightarrow> int \<Rightarrow> tab_message list" where
  "announce_org_switch storage_works has_channel org_id now =
     (if storage_works then [Storage_event ''openclaw_org_switch'' (Some (switch_payload org_id now))] else []) @
     (if has_channel then [Channel_message (switch_payload org_id now)] else [])"

fun tab_reloads :: "bool \<Rightarrow> tab_message \<Rightarrow> bool" where
  "tab_reloads has_channel (Storage_event key value) \<longleftrightarrow> key = ''openclaw_org_switch'' \<and> truthy value"
| "tab_reloads has_channel (Channel_message payload) \<longleftrightarrow> has_channel"

section \<open>The user menu and the page's activity\<close>

definition menu_name :: "string option \<Rightarrow> bool \<Rightarrow> string" where
  "menu_name from_db local_mode = coalesce_opt from_db (if local_mode then ''Local User'' else ''Account'')"

definition menu_email :: "string option \<Rightarrow> bool \<Rightarrow> string" where
  "menu_email from_db local_mode = coalesce_opt from_db (if local_mode then ''local@localhost'' else [])"

definition avatar_label :: "string option \<Rightarrow> bool \<Rightarrow> string option \<Rightarrow> string" where
  "avatar_label from_db local_mode user_id =
     to_upper (take 1 (coalesce_opt from_db (if local_mode then ''Local User'' else coalesce_opt user_id ''U'')))"

text \<open>The document: its visibility, whether it is hidden, and the focus where the browser tells.\<close>

record document_state =
  ds_visibility :: string
  ds_hidden :: bool
  ds_focus :: "bool option"

definition compute_is_active :: "document_state option \<Rightarrow> bool" where
  "compute_is_active d =
     (case d of
        None \<Rightarrow> True
      | Some x \<Rightarrow> (ds_visibility x = ''visible'' \<and> \<not> ds_hidden x) \<and> coalesce_opt (ds_focus x) True)"

section \<open>Inputs of custom fields\<close>

definition field_value :: "field_values \<Rightarrow> string \<Rightarrow> jsvalue" where
  "field_value values key = (case map_of values key of Some v \<Rightarrow> v | None \<Rightarrow> JUndef)"

definition shown_fields :: "field_def list \<Rightarrow> field_values \<Rightarrow> field_def list" where
  "shown_fields defs values = filter (\<lambda>d. is_custom_field_visible d (field_value values (fd_key d))) defs"

definition boolean_choice :: "jsvalue \<Rightarrow> string" where
  "boolean_choice v = (if v = JBool True then ''true'' else if v = JBool False then ''false'' else ''unset'')"

definition choose_boolean :: "field_def \<Rightarrow> string \<Rightarrow> field_values \<Rightarrow> field_values" where
  "choose_boolean d c values =
     AList.update (fd_key d) (if c = ''unset'' then JNull else JBool (c = ''true'')) values"

definition type_text :: "field_def \<Rightarrow> string \<Rightarrow> field_values \<Rightarrow> field_values" where
  "type_text d t values = AList.update (fd_key d) (parse_custom_field_input_value (fd_type d) t) values"

definition shown_text :: "field_def \<Rightarrow> field_values \<Rightarrow> string" where
  "shown_text d values = custom_field_input_text (field_value values (fd_key d))"

definition editor_placeholder :: "field_def \<Rightarrow> string" where
  "editor_placeholder d =
     (if \<not> nullish (fd_default d) then ''Default: '' @ custom_field_input_text (fd_default d) else ''Optional'')"

definition editor_input_type :: "field_def \<Rightarrow> string" where
  "editor_input_type d =
     (if fd_type d = Some Ft_integer \<or> fd_type d = Some Ft_decimal then ''number''
      else if fd_type d = Some Ft_date then ''date''
      else if fd_type d = Some Ft_date_time then ''datetime-local''
      else if fd_type d = Some Ft_url then ''url'' else ''text'')"

text \<open>The page that edits a field: None when nothing is sent, an error, or the changes.\<close>

definition handle_field_submit ::
  "string option \<Rightarrow> field_def option \<Rightarrow> form_values \<Rightarrow> (string + string \<times> update_payload) option" where
  "handle_field_submit i field v =
     (if \<not> truthy i then None
      else case field of
             None \<Rightarrow> None
           | Some f \<Rightarrow>
               (if build_custom_field_update_payload f v = no_updates then Some (Inl ''No changes were made.'')
                else Some (Inr (the i, build_custom_field_update_payload f v))))"

definition field_load_error :: "string option \<Rightarrow> string option \<Rightarrow> bool \<Rightarrow> field_def option \<Rightarrow> string option" where
  "field_load_error i query_error loading field =
     (if \<not> truthy i then Some ''Missing custom field id.''
      else if query_error \<noteq> None then query_error
      else if \<not> loading \<and> field = None then Some ''Custom field not found.'' else None)"

section \<open>The goal of a board and the token of a gateway\<close>

definition metrics_entries :: "jsvalue \<Rightarrow> (string \<times> jsvalue) list" where
  "metrics_entries v =
     (if \<not> js_truthy v then []
      else case v of
             JArr xs \<Rightarrow> map (\<lambda>(i, x). (''Metric '' @ nat_to_string (i + 1), x)) (enumerate 0 xs)
           | JObj kvs \<Rightarrow> kvs
           | _ \<Rightarrow> [(''Metric'', v)])"

definition goal_badges :: "string option \<Rightarrow> bool option \<Rightarrow> string list" where
  "goal_badges board_type confirmed =
     (if board_type \<noteq> Some ''general''
      then [''Goal board'', if coalesce_opt confirmed False then ''Confirmed'' else ''Needs confirmation'']
      else [''General board''])"

definition format_target_date :: "(int \<Rightarrow> string) \<Rightarrow> string option \<Rightarrow> string" where
  "format_target_date fmt value =
     (if \<not> truthy value then em_dash
      else case parse_api_datetime value of None \<Rightarrow> the value | Some d \<Rightarrow> fmt d)"

definition bullets :: string where
  "bullets = replicate 4 (char_of (149 :: nat))"

definition mask_token :: "string option \<Rightarrow> string" where
  "mask_token value =
     (if \<not> truthy value then em_dash
      else if length (the value) \<le> 8 then bullets
      else bullets @ drop (length (the value) - 4) (the value))"

section \<open>Redirects and tabs\<close>

text \<open>A redirect leads to a page that stays: for one profile the frame and the onboarding page never send
  the user back and forth, and a user who has just saved the profile form is not sent back to it.\<close>

lemma redirects_end:
  assumes "page_redirect signed_in pathname pf = Some target"
  shows "page_redirect signed_in target pf = None \<and>
     (handle_profile_submit signed_in pf fallback p = (p', Some q) \<longrightarrow>
        page_redirect signed_in ''/dashboard'' (Some \<lparr>pf_name = Val (py_name q),
          pf_preferred_name = Val (py_preferred_name q), pf_timezone = Val (py_timezone q)\<rparr>) = None)"
proof
  show "page_redirect signed_in target pf = None"
    using assms by (auto simp: page_redirect_def shell_redirect_def onboarding_redirect_def split: if_splits)
  show "handle_profile_submit signed_in pf fallback p = (p', Some q) \<longrightarrow>
      page_redirect signed_in ''/dashboard'' (Some \<lparr>pf_name = Val (py_name q),
        pf_preferred_name = Val (py_preferred_name q), pf_timezone = Val (py_timezone q)\<rparr>) = None"
  proof
    assume "handle_profile_submit signed_in pf fallback p = (p', Some q)"
    from saved_profile_is_complete [OF this] show "page_redirect signed_in ''/dashboard'' (Some \<lparr>pf_name = Val (py_name q),
        pf_preferred_name = Val (py_preferred_name q), pf_timezone = Val (py_timezone q)\<rparr>) = None"
      by (simp add: page_redirect_def shell_redirect_def)
  qed
qed

text \<open>A switch that is announced reloads another tab if the storage works or both have the channel.\<close>

lemma switch_reloads_tabs:
  "list_ex (tab_reloads other_has_channel) (announce_org_switch storage_works has_channel org_id now) \<longleftrightarrow>
     storage_works \<or> (has_channel \<and> other_has_channel)"
  by (auto simp: announce_org_switch_def switch_payload_def truthy_def coalesce_opt_def)

text \<open>Of a masked token only the last four characters are shown, and only of a long one.\<close>

lemma mask_token_hides:
  assumes "length a \<le> 8 \<and> length b \<le> 8 \<and> a \<noteq> [] \<and> b \<noteq> [] \<or>
     8 < length a \<and> 8 < length b \<and> drop (length a - 4) a = drop (length b - 4) b"
  shows "mask_token (Some a) = mask_token (Some b)"
  using assms by (auto simp: mask_token_def truthy_def)

text \<open>Every metric is listed, in order.\<close>

lemma metrics_listed:
  "metrics_entries (JObj kvs) = kvs \<and> map snd (metrics_entries (JArr xs)) = xs"
  by (simp add: metrics_entries_def comp_def case_prod_unfold)

section \<open>Typing into a field\<close>

lemma field_value_update: "field_value (AList.update k v values) j = (if j = k then v else field_value values j)"
  by (simp add: field_value_def update_conv')

lemma choice_is_shown:
  assumes "c \<in> {''true'', ''false'', ''unset''}"
  shows "boolean_choice (field_value (choose_boolean d c values) (fd_key d)) = c"
  using assms by (auto simp: choose_boolean_def field_value_update boolean_choice_def)

lemma plain_int_text: "num_to_string (of_int n) = int_to_string n"
  by (auto simp: num_to_string_def int_to_string_def Let_def)

lemma digits_no_minus: "\<not> starts_with (nat_to_string n) ''-''"
  using digits_only_to_string [of n] nat_to_string_not_Nil [of n]
  by (cases "nat_to_string n") (auto simp: digits_only_def is_digit_def)

lemma int_text_reads_back:
  "int_to_string n \<noteq> []" "trim (int_to_string n) = int_to_string n" "is_integer_text (int_to_string n)"
  "is_decimal_text (int_to_string n)" "parse_int_text (int_to_string n) = n"
  "parse_decimal_text (int_to_string n) = of_int n"
proof -
  have ws: "\<forall>c \<in> set (int_to_string n). \<not> is_ws c"
    using digits_only_to_string [of "nat n"] digits_only_to_string [of "nat (- n)"]
    by (auto simp: int_to_string_def digits_only_def list_all_iff is_digit_def is_ws_def)
  show ne: "int_to_string n \<noteq> []" by (simp add: int_to_string_def)
  show "trim (int_to_string n) = int_to_string n" using ws ne by (intro trim_id disjI2) simp
  have u: "unsigned_part (int_to_string n) = nat_to_string (nat \<bar>n\<bar>)"
    using digits_no_minus by (auto simp: unsigned_part_def int_to_string_def)
  then show "is_integer_text (int_to_string n)" by (simp add: is_integer_text_def)
  have w: "takeWhile is_digit (nat_to_string k) = nat_to_string k" "dropWhile is_digit (nat_to_string k) = []" for k
    using digits_only_to_string [of k] by (auto simp: digits_only_def list_all_iff)
  show "is_decimal_text (int_to_string n)" unfolding is_decimal_text_def u w Let_def by simp
  show "parse_int_text (int_to_string n) = n"
    using digits_no_minus by (auto simp: parse_int_text_def int_to_string_def)
  have "parse_decimal_text (int_to_string n) =
      (if starts_with (int_to_string n) ''-'' then - of_nat (nat \<bar>n\<bar>) else of_nat (nat \<bar>n\<bar>))"
    using nat_of_digits_def [of "[]"] unfolding parse_decimal_text_def u w Let_def by simp
  moreover have "starts_with (int_to_string n) ''-'' \<longleftrightarrow> n < 0"
    using digits_no_minus by (simp add: int_to_string_def)
  ultimately show "parse_decimal_text (int_to_string n) = of_int n" by (simp add: of_nat_nat)
qed

lemma container_text:
  assumes "json_plain v" and "is_json_container v"
  shows "js_text v \<noteq> [] \<and> trim (js_text v) = js_text v"
proof -
  have "\<exists>a b. js_text v = a # b \<and> \<not> is_ws a \<and> \<not> is_ws (List.last (js_text v)) \<and> b \<noteq> []"
    using assms by (cases v) (simp_all add: js_text_simps is_ws_def)
  then show ?thesis by (auto intro!: trim_id)
qed

lemma container_reads_back:
  assumes "json_plain v" and "is_json_container v"
  shows "parse_custom_field_input_value (Some Ft_json) (js_text v) = v"
  using container_text [OF assms] json_roundtrip [OF assms(1)] plain_stringify [OF assms(1)] assms(2)
  by (simp add: parse_custom_field_input_value_def Let_def)


text \<open>Keys pressed one after the other at the end of the text.\<close>

definition type_chars :: "field_def \<Rightarrow> string \<Rightarrow> field_values \<Rightarrow> field_values" where
  "type_chars d cs values = foldl (\<lambda>vs c. type_text d (shown_text d vs @ [c]) vs) values cs"

lemma no_ws_dropWhile: "\<forall>x \<in> set s. \<not> is_ws x \<Longrightarrow> dropWhile is_ws s = s"
  by (cases s) auto

lemma trim_snoc: "\<forall>x \<in> set s. \<not> is_ws x \<Longrightarrow> trim (s @ [c]) = (if is_ws c then s else s @ [c])"
  by (cases s) (auto simp: trim_def no_ws_dropWhile)

text \<open>The value is trimmed after every key, so a blank at the end of a text vanishes at once: a text of
  several words cannot be typed.\<close>

lemma typing_drops_blanks:
  assumes "fd_type d = Some Ft_text \<or> fd_type d = Some Ft_text_long"
  shows "shown_text d (type_chars d cs []) = filter (\<lambda>c. \<not> is_ws c) cs"
proof (induction cs rule: rev_induct)
  case Nil
  show ?case by (simp add: type_chars_def shown_text_def field_value_def custom_field_input_text_def)
next
  case (snoc c cs)
  let ?s = "filter (\<lambda>c. \<not> is_ws c) cs"
  have "shown_text d (type_chars d (cs @ [c]) []) = shown_text d (type_text d (?s @ [c]) (type_chars d cs []))"
    by (simp add: type_chars_def snoc [unfolded type_chars_def])
  also have "\<dots> = trim (?s @ [c])"
    using assms
    by (auto simp: shown_text_def type_text_def field_value_update parse_custom_field_input_value_def
        custom_field_input_text_def Let_def)
  also have "\<dots> = filter (\<lambda>c. \<not> is_ws c) (cs @ [c])" by (simp add: trim_snoc)
  finally show ?case .
qed

section \<open>The properties at concrete inputs\<close>

lemma redirects_end_witness:
  "page_redirect True ''/boards'' (Some \<lparr>pf_name = Missing, pf_preferred_name = Missing, pf_timezone = Missing\<rparr>) = Some ''/onboarding'' \<and>
   page_redirect True ''/onboarding'' (Some \<lparr>pf_name = Missing, pf_preferred_name = Missing, pf_timezone = Missing\<rparr>) = None"
proof -
  have h: "page_redirect True ''/boards'' (Some \<lparr>pf_name = Missing, pf_preferred_name = Missing, pf_timezone = Missing\<rparr>) =
      Some ''/onboarding''" by code_simp
  show ?thesis using h conjunct1 [OF redirects_end [OF h]] by simp
qed

definition sample_text_field :: field_def where
  "sample_text_field = \<lparr>fd_key = ''points'', fd_label = None, fd_type = Some Ft_integer, fd_visibility = None, fd_regex = Missing,
     fd_description = Missing, fd_required = None, fd_default = JNull, fd_board_ids = None\<rparr>"


end
