(* ===== verification/Tables.thy ===== *)
theory Tables
  imports AdminForms Dashboard EcomApi
begin

text \<open>
  The tables and what their pages share: the cells (\<^verbatim>\<open>components/boards\<close>, \<^verbatim>\<open>components/agents\<close>,
  \<^verbatim>\<open>components/organization\<close>), the rows of actions (\<^verbatim>\<open>components/tables/DataTable.tsx\<close>), and the dialog
  that deletes a row (\<^verbatim>\<open>app/boards/page.tsx\<close>; the pages of groups, gateways and agents do the same) on
  top of the optimistic deletion of \<open>ListTools\<close>. Then the small views of the e-commerce pages: the
  prompts of the flows, the command palette, the ranges and the funnel, the sparkline.
\<close>

section \<open>Cells\<close>

definition compact_id :: "string \<Rightarrow> string" where
  "compact_id v = (if 8 < length v then take 8 v @ ellipsis else v)"

text \<open>\<^verbatim>\<open>map.set\<close> in the order of the list: the last group with an id counts.\<close>

definition group_name_of :: "(string \<times> string) list \<Rightarrow> string \<Rightarrow> string option" where
  "group_name_of groups i = map_of (rev groups) i"

definition board_group_sort_text :: "(string \<times> string) list \<Rightarrow> string option \<Rightarrow> string" where
  "board_group_sort_text groups gid =
     (if \<not> truthy gid then [] else coalesce_opt (group_name_of groups (the gid)) (the gid))"

record link_cell =
  lc_href :: string
  lc_label :: string
  lc_title :: string

definition board_group_cell :: "(string \<times> string) list \<Rightarrow> string option \<Rightarrow> link_cell option" where
  "board_group_cell groups gid =
     (if \<not> truthy gid then None
      else Some \<lparr>lc_href = ''/board-groups/'' @ the gid,
                 lc_label = coalesce_opt (group_name_of groups (the gid)) (compact_id (the gid)),
                 lc_title = coalesce_opt (group_name_of groups (the gid)) (the gid)\<rparr>)"

definition agent_board_cell :: "(string \<times> string) list \<Rightarrow> string option \<Rightarrow> (string \<times> string) option" where
  "agent_board_cell boards bid =
     (if \<not> truthy bid then None
      else Some (''/boards/'' @ the bid, coalesce_opt (map_of (rev boards) (the bid)) (the bid)))"

definition initials_from :: "string option \<Rightarrow> string" where
  "initials_from value =
     (if \<not> truthy value then ''?''
      else case filter (\<lambda>w. w \<noteq> []) (split_on (CHR '' '') (replace_chars is_ws (CHR '' '') (trim (the value)))) of
             [] \<Rightarrow> ''?''
           | [w] \<Rightarrow> to_upper (take 2 w)
           | v # w # _ \<Rightarrow> to_upper (take 1 v @ take 1 w))"

definition summarize_access :: "bool \<Rightarrow> bool \<Rightarrow> string" where
  "summarize_access all_read all_write =
     (if all_read \<or> all_write
      then if all_read \<and> all_write then ''All boards: read + write''
           else if all_write then ''All boards: write'' else ''All boards: read''
      else ''Selected boards'')"

record table_user =
  mu_name :: "string option"
  mu_preferred_name :: "string option"
  mu_email :: "string option"

definition member_primary :: "table_user option \<Rightarrow> string \<Rightarrow> string" where
  "member_primary user user_id =
     (case filter truthy [Option.bind user mu_name, Option.bind user mu_preferred_name, Option.bind user mu_email] of
        Some s # _ \<Rightarrow> s | _ \<Rightarrow> user_id)"

definition member_secondary :: "table_user option \<Rightarrow> string" where
  "member_secondary user = coalesce_opt (Option.bind user mu_email) ''No email on file''"

section \<open>The actions of a row\<close>

text \<open>An action: its label, the link it gives for a row, and whether it can be clicked.\<close>

record 'a row_action =
  ra_label :: string
  ra_href :: "('a \<Rightarrow> string option) option"
  ra_click :: bool

definition resolved_row_actions ::
  "('a row_action list option \<times> ('a \<Rightarrow> string option) option \<times> bool) option \<Rightarrow> 'a row_action list" where
  "resolved_row_actions row_actions =
     (case row_actions of
        None \<Rightarrow> []
      | Some (Some actions, edit, deletes) \<Rightarrow> actions
      | Some (None, edit, deletes) \<Rightarrow>
          (if edit \<noteq> None then [\<lparr>ra_label = ''Edit'', ra_href = edit, ra_click = False\<rparr>] else []) @
          (if deletes then [\<lparr>ra_label = ''Delete'', ra_href = None, ra_click = True\<rparr>] else []))"

definition col_span :: "nat \<Rightarrow> 'a row_action list \<Rightarrow> nat" where
  "col_span visible_columns actions = (if visible_columns = 0 then 1 else visible_columns) + (if actions \<noteq> [] then 1 else 0)"

datatype action_cell = Link_to string | Click_button | No_control

definition action_cell_of :: "'a row_action \<Rightarrow> 'a \<Rightarrow> action_cell" where
  "action_cell_of a row =
     (let href = Option.bind (ra_href a) (\<lambda>f. f row)
      in if truthy href then Link_to (the href) else if ra_click a then Click_button else No_control)"

datatype 'a table_body = Loading_row | Row_list "'a list" | Empty_state_row | Empty_message_row

definition table_body_of :: "bool \<Rightarrow> 'a list \<Rightarrow> bool \<Rightarrow> 'a table_body" where
  "table_body_of loading rows has_empty_state =
     (if loading then Loading_row else if rows \<noteq> [] then Row_list rows
      else if has_empty_state then Empty_state_row else Empty_message_row)"

section \<open>Deleting a row\<close>

text \<open>The row the dialog is open for, the deletion under way with what \<^verbatim>\<open>onMutate\<close> remembered, the error of
  the mutation, and the cache of the query client.\<close>

record ('c, 'r) delete_page =
  dl_target :: "string option"
  dl_pending :: "(string \<times> 'r option) option"
  dl_error :: "string option"
  dl_cache :: 'c

definition choose_row :: "string \<Rightarrow> ('c, 'r) delete_page \<Rightarrow> ('c, 'r) delete_page" where
  "choose_row i p = p\<lparr>dl_target := Some i\<rparr>"

definition cancel_delete :: "('c, 'r) delete_page \<Rightarrow> ('c, 'r) delete_page" where
  "cancel_delete p = p\<lparr>dl_target := None\<rparr>"

text \<open>The button is disabled while a deletion is under way; a new one clears the error.\<close>

definition handle_delete ::
  "('c, 'k, 'i list_response) query_client \<Rightarrow> 'k \<Rightarrow> ('i \<Rightarrow> string) \<Rightarrow> ('c, 'i list_response) delete_page \<Rightarrow>
     ('c, 'i list_response) delete_page" where
  "handle_delete qc key get_id p =
     (case dl_target p of
        None \<Rightarrow> p
      | Some i \<Rightarrow>
          (if dl_pending p \<noteq> None then p
           else case on_mutate qc key get_id i (dl_cache p) of
                  (c1, previous) \<Rightarrow> p\<lparr>dl_pending := Some (i, previous), dl_error := None, dl_cache := c1\<rparr>))"

text \<open>The answer: None for a success, else the message of the error.\<close>

definition delete_answered ::
  "('c, 'k, 'i list_response) query_client \<Rightarrow> 'k \<Rightarrow> string option \<Rightarrow> ('c, 'i list_response) delete_page \<Rightarrow>
     ('c, 'i list_response) delete_page" where
  "delete_answered qc key failure p =
     (case dl_pending p of
        None \<Rightarrow> p
      | Some (i, previous) \<Rightarrow>
          (case failure of
             None \<Rightarrow> p\<lparr>dl_pending := None, dl_target := None, dl_cache := on_settled qc [key] (dl_cache p)\<rparr>
           | Some message \<Rightarrow>
               p\<lparr>dl_pending := None, dl_error := Some message,
                 dl_cache := on_settled qc [key] (on_error qc key previous (dl_cache p))\<rparr>))"

definition table_rows :: "('c, 'k, 'i list_response) query_client \<Rightarrow> 'k \<Rightarrow> 'c \<Rightarrow> 'i list" where
  "table_rows qc key c =
     (case get_query_data qc key c of
        None \<Rightarrow> []
      | Some r \<Rightarrow> (if lr_status r = 200 then case lr_data r of None \<Rightarrow> [] | Some payload \<Rightarrow> lp_items payload else []))"

definition dialog_error :: "('c, 'r) delete_page \<Rightarrow> string option" where
  "dialog_error p = (if dl_target p = None then None else dl_error p)"

section \<open>Small views of the e-commerce pages\<close>

definition shown_prompt :: "flow_node \<Rightarrow> string option" where
  "shown_prompt s = (case fn_prompt s of Some p \<Rightarrow> Some p | None \<Rightarrow> fn_message s)"

definition prompt_steps :: "cs_flow \<Rightarrow> flow_node list" where
  "prompt_steps f = filter (\<lambda>s. trim (coalesce_opt (shown_prompt s) []) \<noteq> []) (coalesce_opt (fw_steps f) [])"

definition prompt_label :: "nat \<Rightarrow> flow_node \<Rightarrow> string" where
  "prompt_label i s = coalesce_opt (fn_id s) (''step '' @ nat_to_string (i + 1))"

record palette =
  pt_open :: bool
  pt_path :: string
  pt_scope :: string

datatype palette_choice = Go_to string | Scope_to string

definition palette_key :: "bool \<Rightarrow> bool \<Rightarrow> string \<Rightarrow> palette \<Rightarrow> palette" where
  "palette_key meta ctrl key p =
     (if (meta \<or> ctrl) \<and> to_lower key = ''k'' then p\<lparr>pt_open := \<not> pt_open p\<rparr> else p)"

definition palette_choices :: "ecom_store list \<Rightarrow> palette_choice list" where
  "palette_choices stores = map Go_to nav_hrefs @ [Scope_to all_stores] @ map (Scope_to \<circ> es_id) stores"

fun palette_run :: "palette_choice \<Rightarrow> palette \<Rightarrow> palette" where
  "palette_run (Go_to href) p = p\<lparr>pt_open := False, pt_path := href\<rparr>"
| "palette_run (Scope_to i) p = p\<lparr>pt_open := False, pt_scope := i\<rparr>"

definition analytics_ranges :: "nat list" where
  "analytics_ranges = [7, 30, 90]"

definition funnel_width :: "nat \<Rightarrow> int" where
  "funnel_width i = 100 - int i * 12"

definition insight_icon :: "string \<Rightarrow> string \<Rightarrow> string" where
  "insight_icon severity title =
     (if severity = ''warning'' then ''AlertTriangle''
      else if severity = ''info'' \<and> includes_str (to_lower title) ''track'' then ''CheckCircle2'' else ''Info'')"

definition format_spark_value :: "rat \<Rightarrow> string" where
  "format_spark_value q =
     (let rounded = of_int (round_half_up (q * 10)) / 10
      in if rounded = of_int \<lfloor>rounded\<rfloor> then num_to_string rounded else to_fixed 1 rounded)"

definition spark_prefix :: "string option \<Rightarrow> string list option \<Rightarrow> nat option \<Rightarrow> string" where
  "spark_prefix bucket labels index =
     (let label = (if bucket = Some ''week'' then ''Week'' else if bucket = Some ''month'' then ''Month''
                   else if bucket = Some ''year'' then ''Year'' else ''Day'');
          resolved = Option.bind index (\<lambda>i. Option.bind labels (\<lambda>ls. if i < length ls then Some (ls ! i) else None))
      in case resolved of
           Some l \<Rightarrow> l
         | None \<Rightarrow> (case index of Some i \<Rightarrow> label @ '' '' @ nat_to_string (i + 1) | None \<Rightarrow> []))"

section \<open>Deletions\<close>

text \<open>C34: Confirming the deletion of a row takes exactly that row out of the table at once. A success closes the
  dialog and leaves the table so; a failure puts the table back as it was, for every query, and the
  dialog stays open for the row with the error. A second click in between does nothing.\<close>

lemma deletion_dialog_correct:
  assumes "client_laws qc" and "get_query_data qc key (dl_cache p) = Some r" and "lr_status r = 200" and "lr_data r \<noteq> None"
    and "dl_target p = Some i" and "dl_pending p = None" and "p1 = handle_delete qc key get_id p"
  shows "table_rows qc key (dl_cache p1) = filter (\<lambda>x. get_id x \<noteq> i) (table_rows qc key (dl_cache p)) \<and>
     handle_delete qc key get_id p1 = p1 \<and>
     (let p2 = delete_answered qc key None p1
      in dl_target p2 = None \<and> dialog_error p2 = None \<and> table_rows qc key (dl_cache p2) = table_rows qc key (dl_cache p1)) \<and>
     (let p3 = delete_answered qc key (Some message) p1
      in dl_target p3 = Some i \<and> dialog_error p3 = Some message \<and> dl_pending p3 = None \<and>
         (\<forall>j. get_query_data qc j (dl_cache p3) = get_query_data qc j (dl_cache p)))"
proof -
  have law: "get_query_data qc k (set_query_data qc k v c) = Some v"
    "j \<noteq> k \<Longrightarrow> get_query_data qc j (set_query_data qc k v c) = get_query_data qc j c"
    "get_query_data qc j (cancel_queries qc k c) = get_query_data qc j c"
    "get_query_data qc j (invalidate_queries qc k c) = get_query_data qc j c" for j k v c
    using assms(1) by (simp_all add: client_laws_def)
  obtain payload where payload: "lr_data r = Some payload" using assms(4) by blast
  define c1 where "c1 = set_query_data qc key (r\<lparr>lr_data := Some (remove_item get_id i payload)\<rparr>)
      (cancel_queries qc key (dl_cache p))"
  have m: "on_mutate qc key get_id i (dl_cache p) = (c1, Some r)"
    using assms(2,3) payload by (simp add: on_mutate_def law get_list_payload_def c1_def)
  have p1: "p1 = p\<lparr>dl_pending := Some (i, Some r), dl_error := None, dl_cache := c1\<rparr>"
    using assms(5,6) by (simp add: assms(7) handle_delete_def m)
  have rows: "table_rows qc key c1 = filter (\<lambda>x. get_id x \<noteq> i) (table_rows qc key (dl_cache p))"
    using assms(2,3) payload by (simp add: table_rows_def c1_def law remove_item_def Let_def)
  have restored: "get_query_data qc j (invalidate_queries qc key (set_query_data qc key r c1)) = get_query_data qc j (dl_cache p)" for j
    using assms(2) by (cases "j = key") (simp_all add: law c1_def)
  have again: "handle_delete qc key get_id p1 = p1"
    using assms(5) by (simp add: p1 handle_delete_def)
  have success: "dl_target (delete_answered qc key None p1) = None"
    "dl_cache (delete_answered qc key None p1) = invalidate_queries qc key c1"
    by (simp_all add: p1 delete_answered_def on_settled_def)
  have failure: "dl_target (delete_answered qc key (Some message) p1) = Some i"
    "dl_error (delete_answered qc key (Some message) p1) = Some message"
    "dl_pending (delete_answered qc key (Some message) p1) = None"
    "dl_cache (delete_answered qc key (Some message) p1) = invalidate_queries qc key (set_query_data qc key r c1)"
    using assms(5) by (simp_all add: p1 delete_answered_def on_settled_def on_error_def)
  have same: "table_rows qc key (invalidate_queries qc key c1) = table_rows qc key c1"
    by (simp add: table_rows_def law)
  have cache: "dl_cache p1 = c1" by (simp add: p1)
  show ?thesis
    unfolding Let_def cache using rows restored again success failure same by (simp add: dialog_error_def)
qed

text \<open>The dialog can be closed and opened for another row while a deletion is under way: its success then
  closes the dialog of the other row.\<close>

lemma success_closes_other_dialog:
  assumes "dl_target p = Some i" and "dl_pending p = None"
  shows "dl_target (delete_answered qc key None (choose_row j (cancel_delete (handle_delete qc key get_id p)))) = None"
  using assms
  by (auto simp: handle_delete_def delete_answered_def choose_row_def cancel_delete_def split: prod.split)

text \<open>The error of the mutation stays: the dialog of the next row opens with the error of the last one.\<close>

lemma error_shown_for_other_row:
  assumes "dl_pending p \<noteq> None"
  shows "dialog_error (choose_row j (cancel_delete (delete_answered qc key (Some message) p))) = Some message"
  using assms by (auto simp: delete_answered_def choose_row_def cancel_delete_def dialog_error_def)

section \<open>Cells and views\<close>

text \<open>A group is shown by the name it is sorted by, if it is known.\<close>

lemma group_cell_sorted:
  assumes "board_group_cell groups gid = Some c" and "group_name_of groups (the gid) \<noteq> None"
  shows "lc_label c = board_group_sort_text groups gid \<and> lc_title c = lc_label c"
  using assms by (auto simp: board_group_cell_def board_group_sort_text_def coalesce_opt_def split: if_splits)

lemma initials_short: "length (initials_from v) \<le> 2 \<and> initials_from v \<noteq> []"
proof -
  have "w \<noteq> []" if "ws = filter (\<lambda>w. w \<noteq> []) xs" "w \<in> set ws" for w :: string and ws xs using that by auto
  then show ?thesis
    unfolding initials_from_def to_upper_def
    by (auto split: list.split simp: filter_eq_Cons_iff)
qed

text \<open>Whoever steps through the prompts sees the names of the editor, if the steps have names. A step without
  one is numbered among the steps with prompts, while the editor numbers it among all.\<close>

lemma prompt_labels_named:
  assumes "fn_id s = Some n" and "n \<noteq> []"
  shows "prompt_label i s = name_at j s"
  using assms by (simp add: prompt_label_def name_at_def coalesce_opt_def)

lemma prompt_numbers_differ:
  assumes "fn_id s = None" and "i < j"
  shows "prompt_label i s \<noteq> name_at j s \<and> prompt_label i s \<noteq> prompt_label j s"
  using assms by (auto simp: prompt_label_def name_at_def coalesce_opt_def step_name_def dest: nat_to_string_inj)

text \<open>Every choice of the palette closes it, and reaches a page of the navigation or a store.\<close>

lemma palette_closes:
  assumes "c \<in> set (palette_choices stores)"
  shows "\<not> pt_open (palette_run c p) \<and>
     (pt_path (palette_run c p) = pt_path p \<or> pt_path (palette_run c p) \<in> set nav_hrefs) \<and>
     (pt_scope (palette_run c p) = pt_scope p \<or> pt_scope (palette_run c p) \<in> insert all_stores (es_id ` set stores))"
  using assms by (auto simp: palette_choices_def)

section \<open>The properties at concrete inputs\<close>

definition sample_response :: "string list_response" where
  "sample_response = \<lparr>lr_status = 200, lr_data = Some \<lparr>lp_items = [''a'', ''b''], lp_total = 2\<rparr>\<rparr>"

definition sample_delete_page :: "(nat \<Rightarrow> string list_response option, string list_response) delete_page" where
  "sample_delete_page = \<lparr>dl_target = Some ''a'', dl_pending = None, dl_error = None, dl_cache = [0 \<mapsto> sample_response]\<rparr>"

lemma deletion_dialog_correct_witness:
  "table_rows map_client 0 (dl_cache (handle_delete map_client 0 id sample_delete_page)) = [''b'']"
proof -
  have laws: "client_laws map_client" by (simp add: client_laws_def map_client_def)
  have c: "get_query_data map_client 0 (dl_cache sample_delete_page) = Some sample_response"
    by (simp add: map_client_def sample_delete_page_def)
  have r: "lr_status sample_response = 200" "lr_data sample_response \<noteq> None"
    and t: "dl_target sample_delete_page = Some ''a''" "dl_pending sample_delete_page = None"
    by (simp_all add: sample_response_def sample_delete_page_def)
  have "table_rows map_client 0 (dl_cache (handle_delete map_client 0 id sample_delete_page)) =
      filter (\<lambda>x. id x \<noteq> ''a'') (table_rows map_client 0 (dl_cache sample_delete_page))"
    by (rule conjunct1 [OF deletion_dialog_correct [OF laws c r t refl]])
  also have "\<dots> = [''b'']" unfolding table_rows_def c by (simp add: sample_response_def)
  finally show ?thesis .
qed

end
