(* ===== verification/Spec2Isabelle.thy ===== *)
theory Spec2Isabelle
  imports CustomFieldForm ListTools Kanban BoardView BoardStore ActivityPage Approvals
    ChatComposer Onboarding BoardGroup Organization Marketplace JsonPretty BoardForms GroupForms Dashboard
    EcomFlows EcomApi EcomPages AdminForms GlobalPages AppShell Tables
begin

text \<open>
  \<^bold>\<open>The program.\<close> The dashboard of the repository (\<^verbatim>\<open>frontend/src\<close>, TypeScript with React) shows
  boards of tasks that people and agents work on. Its pages load data through one wrapper
  around \<^verbatim>\<open>fetch\<close>, keep it up to date through server-sent-event streams, change it
  optimistically, and keep what is open or sorted in the query string of the URL. The
  development models that logic: state, handlers, timers, streams and the conversions between
  the data of the backend and what is shown. Markup and styling are left out.

  \<^bold>\<open>How a page is modelled.\<close> The \<^verbatim>\<open>useState\<close> values and refs of a component are a record. A
  handler is a function on the record; one that awaits a request is a function up to the
  request, which also returns what is sent, and a function for what follows the outcome, so
  that streams, timers and other handlers may run in between. A state update takes effect at
  once, while a ref that follows a state value does so at an explicit commit step, as the
  effects run after a render. The steps are put together in inductive relations (\<open>live_step\<close>,
  \<open>feed_step\<close>, \<open>page_step\<close>, \<open>act_step\<close>) whose reachable states the invariants are about.
  \<^verbatim>\<open>undefined\<close> and \<^verbatim>\<open>null\<close> are kept apart where the code does so (\<open>optional\<close>); thrown errors are
  the left side of a sum; a clock, random numbers, the locale, the measured geometry, the URL
  parser and the query client are parameters, with named laws where a property needs them.

  \<^bold>\<open>The theories\<close>, in the order of their imports:
  \<^item> \<open>Prelude\<close>, \<open>JsString\<close>, \<open>JsJson\<close>, \<open>JsonText\<close>, \<open>JsDate\<close>, \<open>Url\<close>: the language. Stable sorting
    under a comparator, upserts by id, strings, JSON, dates, query strings, each with the
    reader/printer round trip that the pages rely on.
  \<^item> \<open>Datetime\<close> (\<^verbatim>\<open>lib/datetime.ts\<close>, \<^verbatim>\<open>lib/formatters.ts\<close>), \<open>Backoff\<close> (\<^verbatim>\<open>lib/backoff.ts\<close>), \<open>ApiModel\<close>
    (the objects of the API that the modelled code reads).
  \<^item> \<open>SseStream\<close>: the reading loop and the reconnections, written four times in the board page
    and four times in the activity page, and modelled once. Its locale \<open>sse_client\<close> is the
    contract with the handlers.
  \<^item> \<open>CustomFields\<close>, \<open>CustomFieldForm\<close>: values of custom fields and the form that defines a field.
  \<^item> \<open>BoardModel\<close>, \<open>LiveFeed\<close>, \<open>BoardStreams\<close>, \<open>BoardPage\<close>, \<open>BoardTasks\<close>, \<open>BoardView\<close>, \<open>BoardSteps\<close>:
    the board page (\<^verbatim>\<open>app/boards/[boardId]/page.tsx\<close>): its data, the live feed with its timers,
    the four streams, the panels and the URL, the operations on tasks and approvals, the
    derived lists, and all of it as one state machine.
  \<^item> \<open>BoardStore\<close>: the abstract specification of the live data, one map per kind of item, and the
    refinement by the handlers (locale \<open>stream_refinement\<close>).
  \<^item> \<open>Kanban\<close> (\<^verbatim>\<open>TaskBoard.tsx\<close>, \<^verbatim>\<open>TaskCard.tsx\<close>): columns, drag and drop, animation. A drop ends in
    \<open>begin_task_move\<close> of \<open>BoardTasks\<close>.
  \<^item> \<open>ApiClient\<close> (\<^verbatim>\<open>api/mutator.ts\<close>, \<^verbatim>\<open>auth\<close>, \<^verbatim>\<open>proxy.ts\<close>): requests, tokens, redirects, middleware. Its
    answers are the outcomes that the operations of \<open>BoardTasks\<close> take.
  \<^item> \<open>ListTools\<close>: helpers that the list pages share (deletion, sorting, gateways, skill packs).
  \<^item> \<open>ActivityModel\<close>, \<open>ActivityPage\<close> (\<^verbatim>\<open>app/activity/page.tsx\<close>): the feed over all boards, its load,
    streams and links. Its links lead to the effects of \<open>BoardPage\<close>.
  \<^item> \<open>Approvals\<close> (\<^verbatim>\<open>BoardApprovalsPanel.tsx\<close>): reading of payloads, selection, decisions.
  \<^item> \<open>ChatComposer\<close> (\<^verbatim>\<open>BoardChatComposer.tsx\<close>): the message box with its mention menu; what it sends
    goes to \<open>begin_post_chat\<close> of \<open>BoardPage\<close>.
  \<^item> \<open>Onboarding\<close> (\<^verbatim>\<open>BoardOnboardingChat.tsx\<close>): the conversation with the lead agent of a board.
  \<^item> \<open>BoardGroup\<close> (\<^verbatim>\<open>app/board-groups/[groupId]/page.tsx\<close>): chat and notes of a group of boards, their
    streams compared with those of \<open>SseStream\<close>, and the heartbeat.
  \<^item> \<open>Organization\<close> (\<^verbatim>\<open>app/organization/page.tsx\<close>): rights on boards, invites and members.
  \<^item> \<open>Marketplace\<close> (\<^verbatim>\<open>app/skills/marketplace/page.tsx\<close>): filters, pages, their URL, installation.
  \<^item> \<open>JsonPretty\<close>, \<open>BoardForms\<close> (\<^verbatim>\<open>app/boards/new\<close>, \<^verbatim>\<open>app/boards/[boardId]/edit\<close>), \<open>GroupForms\<close>
    (\<^verbatim>\<open>app/board-groups/new\<close>, \<^verbatim>\<open>app/board-groups/[groupId]/edit\<close>): the forms of boards, with their
    webhooks and indented JSON, and of groups.
  \<^item> \<open>Dashboard\<close> (\<^verbatim>\<open>app/dashboard/page.tsx\<close>): sessions reported by gateways, counts, recent events.
  \<^item> \<open>EcomFlows\<close> (\<^verbatim>\<open>app/(ecom)/cs/flows\<close>), \<open>EcomApi\<close> (\<^verbatim>\<open>lib/ecom-api.ts\<close>, \<^verbatim>\<open>components/ecom\<close>),
    \<open>EcomPages\<close> (\<^verbatim>\<open>app/(ecom)\<close>): the e-commerce pages. The editor of customer-service flows with
    the ids and links of their steps; the requests and the chosen store; secrets, documents,
    tickets, team tasks, the copilot and the agents.
  \<^item> \<open>AdminForms\<close> (\<^verbatim>\<open>TagForm.tsx\<close>, \<^verbatim>\<open>LocalAuthLogin.tsx\<close>, \<^verbatim>\<open>MarketplaceSkillForm.tsx\<close>, \<^verbatim>\<open>app/gateways\<close>,
    \<^verbatim>\<open>app/onboarding\<close>, \<^verbatim>\<open>app/invite\<close>, payloads of webhooks): the smaller forms. The token that
    the sign-in stores is the one that \<open>ApiClient\<close> sends.
  \<^item> \<open>GlobalPages\<close> (\<^verbatim>\<open>app/approvals\<close>, \<^verbatim>\<open>app/skills/packs\<close>, \<^verbatim>\<open>Markdown.tsx\<close>, \<^verbatim>\<open>dropdown-select.tsx\<close>): the
    approvals of all boards around the panel of \<open>Approvals\<close>, the synchronization of packs, the
    mentions in a text, the select.
  \<^item> \<open>AppShell\<close> (\<^verbatim>\<open>DashboardShell.tsx\<close>, \<^verbatim>\<open>OrgSwitcher.tsx\<close> and others): what surrounds the pages, and
    the inputs of custom fields.
  \<^item> \<open>Tables\<close> (\<^verbatim>\<open>DataTable.tsx\<close>, \<^verbatim>\<open>app/boards/page.tsx\<close> and others): cells, actions of a row, the dialog
    that deletes one, and small views of the e-commerce pages.

  \<^bold>\<open>What is shown.\<close> Invariants of every reachable state (live data, live feed, activity feed,
  panels); that replaying an event, or cutting a stream elsewhere, changes nothing; the
  refinement of the store; what each operation does on success and on failure, and where
  a late answer overwrites newer data; bounds of delays, feeds and requests; that timers leave
  nothing behind; that forms, flows, rights, URLs and typed values survive a round trip; which
  requests are authorized and which pages guarded; and that views of the same data (badges and
  buttons, links of two pages, sessions under several names) agree.

  \<^bold>\<open>Bounds and fuel.\<close> The JSON reader has fuel, twice the length of its input plus one; \<open>pvalue_fuel\<close>
  shows that more changes nothing. Loading a history is recursion over the offsets up to 200
  (five pages), loading the activity log up to 1000. The buffer loop recurs on the length of
  its buffer, the search for mentions on the length of the text, the choice of a free step id
  on the finitely many ids in use. All other recursion is structural.

  \<^bold>\<open>What is not modelled.\<close> Markup, styling, focus and scrolling. The rounding of doubles:
  numbers are exact (whole where they count or delay). Code units beyond U+00FF. The
  generated client and its types beyond \<open>ApiModel\<close>, React's scheduling within one render, and
  the backend. Of \<^verbatim>\<open>Markdown.tsx\<close> only the text nodes: the Markdown parser is a package. The
  pages of groups, gateways, tags and custom fields repeat the one of boards, which stands
  for them in \<open>Tables\<close>.
\<close>

end
